(* ===== verification/Corsair_Prelude.thy ===== *)
theory Corsair_Prelude
  imports Main "HOL-Library.Word" "HOL-Library.Monad_Syntax"
begin

section \<open>Shared types, byte-level lemmas and automation\<close>

text \<open>
  What every component of the development uses: names for Rust's machine integers, the
  integer methods of Rust's standard library that the sources call, big-endian byte
  encodings, slices and in-place slice writes, strings as byte sequences, and the named
  theorem collections the component proofs are run with.

  Rust's \<^verbatim>\<open>String\<close> and \<^verbatim>\<open>&str\<close> are sequences of UTF-8 bytes; HOL's \<^typ>\<open>string\<close> is a
  sequence of 8-bit characters, so a \<^typ>\<open>string\<close> holds exactly the bytes of the Rust
  string and \<open>str_bytes\<close> is \<^verbatim>\<open>as_bytes\<close>.  The release profile of the workspace
  (\<^verbatim>\<open>rust/Cargo.toml\<close>) leaves overflow checks off, so \<open>+\<close>, \<open>-\<close> and \<open>*\<close> on machine
  integers wrap, as they do on HOL words.
\<close>

named_theorems wire_simps \<open>rewrite rules for encoders, decoders and slices\<close>
named_theorems branch_defs \<open>definitions unfolded to expose a handler's branches\<close>

type_synonym u8 = "8 word"
type_synonym u16 = "16 word"
type_synonym u32 = "32 word"
type_synonym u64 = "64 word"
type_synonym i32 = "32 word"
type_synonym i64 = "64 word"
type_synonym bytes = "u8 list"

subsection \<open>Integer methods\<close>

definition saturating_sub :: "u64 \<Rightarrow> u64 \<Rightarrow> u64" where
  "saturating_sub a b = (if a < b then 0 else a - b)"

text \<open>\<^verbatim>\<open>i32::unsigned_abs\<close>, \<^verbatim>\<open>i32::signum\<close> and \<^verbatim>\<open>i32::abs\<close> (which wraps on the least value).\<close>

definition unsigned_abs :: "i32 \<Rightarrow> u32" where
  "unsigned_abs q = (if sint q < 0 then - q else q)"

definition signum :: "i32 \<Rightarrow> int" where
  "signum q = sgn (sint q)"

definition abs_i32 :: "i32 \<Rightarrow> i32" where
  "abs_i32 q = (if sint q < 0 then - q else q)"

definition min_i32 :: "i32 \<Rightarrow> i32 \<Rightarrow> i32" where
  "min_i32 a b = (if sint a \<le> sint b then a else b)"

lemma unat_saturating_sub: "unat (saturating_sub a b) = unat a - unat b"
  by (auto simp: saturating_sub_def word_less_nat_alt unat_sub_if')

lemma saturating_sub_0_iff: "saturating_sub a b = 0 \<longleftrightarrow> a \<le> b"
  by (auto simp: saturating_sub_def not_less)

lemma i32_range: "- (2 ^ 31) \<le> sint (q :: i32)" "sint (q :: i32) < 2 ^ 31"
  using sint_greater_eq [of q] sint_less [of q] by simp_all

lemma sint_of_int_i32: "- (2 ^ 31) \<le> k \<Longrightarrow> k < 2 ^ 31 \<Longrightarrow> sint (word_of_int k :: i32) = k"
  by (simp add: signed_of_int signed_take_bit_int_eq_self)

lemma sint_eq_0_iff [simp]: "sint (q :: 'a :: len word) = 0 \<longleftrightarrow> q = 0"
  by (rule signed_eq_0_iff)

lemma uint_unsigned_abs: "uint (unsigned_abs q) = \<bar>sint q\<bar>"
proof (cases "sint q < 0")
  case True
  have "uint (- q) = uint (word_of_int (- sint q) :: i32)" by simp
  also have "\<dots> = (- sint q) mod 2 ^ 32"
    using uint_word_of_int [of "- sint q", where 'a = 32] by (simp del: of_int_minus)
  also have "\<dots> = - sint q" using True i32_range [of q] by (intro mod_pos_pos_trivial) auto
  finally show ?thesis using True by (simp add: unsigned_abs_def)
next
  case False
  have "uint q = sint q mod 2 ^ 32" by (simp add: uint_sint take_bit_eq_mod)
  also have "\<dots> = sint q" using False i32_range [of q] by (intro mod_pos_pos_trivial) auto
  finally show ?thesis using False by (simp add: unsigned_abs_def)
qed

lemma sint_add_i32:
  "- (2 ^ 31) \<le> sint a + sint b \<Longrightarrow> sint a + sint b < 2 ^ 31 \<Longrightarrow>
    sint (a + b :: i32) = sint a + sint b"
  by (simp add: sint_word_ariths signed_take_bit_int_eq_self)

subsection \<open>Big-endian bytes\<close>

fun be_bytes :: "nat \<Rightarrow> nat \<Rightarrow> bytes" where
  "be_bytes 0 n = []"
| "be_bytes (Suc k) n = be_bytes k (n div 256) @ [word_of_nat (n mod 256)]"

definition be_nat :: "bytes \<Rightarrow> nat" where
  "be_nat bs = foldl (\<lambda>acc b. 256 * acc + unat b) 0 bs"

lemma be_nat_Nil [simp]: "be_nat [] = 0"
  by (simp add: be_nat_def)

lemma be_nat_snoc [simp]: "be_nat (bs @ [b]) = 256 * be_nat bs + unat b"
  by (simp add: be_nat_def)

lemma length_be_bytes [simp]: "length (be_bytes k n) = k"
  by (induction k arbitrary: n) auto

lemma unat_u8_less: "unat (b :: u8) < 256"
  using unsigned_less [of b, where ?'a = nat] by simp

lemma unat_byte: "unat (word_of_nat (n mod 256) :: u8) = n mod 256"
  by (simp add: unat_of_nat)

lemma be_nat_be_bytes_mod: "be_nat (be_bytes k n) = n mod 256 ^ k"
proof (induction k arbitrary: n)
  case (Suc k)
  have "be_nat (be_bytes (Suc k) n) = 256 * (n div 256 mod 256 ^ k) + n mod 256"
    by (simp add: Suc.IH unat_byte)
  also have "\<dots> = n mod 256 ^ Suc k"
    by (simp add: mod_mult2_eq)
  finally show ?case .
qed simp

lemma be_nat_be_bytes [wire_simps]: "n < 256 ^ k \<Longrightarrow> be_nat (be_bytes k n) = n"
  by (simp add: be_nat_be_bytes_mod)

lemma be_nat_less: "be_nat bs < 256 ^ length bs"
proof (induction bs rule: rev_induct)
  case (snoc b bs)
  have "unat b < 256" by (rule unat_u8_less)
  with snoc show ?case by simp
qed simp

lemma be_bytes_be_nat: "be_bytes (length bs) (be_nat bs) = bs"
proof (induction bs rule: rev_induct)
  case (snoc b bs)
  have "unat b < 256" by (rule unat_u8_less)
  then show ?case using snoc by (simp add: div_mult_self4)
qed simp

text \<open>The fixed-width views \<^verbatim>\<open>to_be_bytes\<close> and \<^verbatim>\<open>from_be_bytes\<close> of \<^verbatim>\<open>u16\<close>, \<^verbatim>\<open>u32\<close>, \<^verbatim>\<open>u64\<close>.\<close>

definition u16_be :: "u16 \<Rightarrow> bytes" where "u16_be w = be_bytes 2 (unat w)"
definition u32_be :: "u32 \<Rightarrow> bytes" where "u32_be w = be_bytes 4 (unat w)"
definition u64_be :: "u64 \<Rightarrow> bytes" where "u64_be w = be_bytes 8 (unat w)"

lemma length_u_be [simp]:
  "length (u16_be a) = 2" "length (u32_be b) = 4" "length (u64_be c) = 8"
  by (simp_all add: u16_be_def u32_be_def u64_be_def)

lemma be_nat_u_be [wire_simps]:
  "be_nat (u16_be a) = unat a" "be_nat (u32_be b) = unat b" "be_nat (u64_be c) = unat c"
  using unsigned_less [of a, where ?'a = nat] unsigned_less [of b, where ?'a = nat]
    unsigned_less [of c, where ?'a = nat]
  by (simp_all add: u16_be_def u32_be_def u64_be_def be_nat_be_bytes)

subsection \<open>Slices\<close>

text \<open>
  \<open>subslice xs i j\<close> is the Rust slice \<^verbatim>\<open>&xs[i..j]\<close>; \<open>get_range\<close> is the checked
  \<^verbatim>\<open>xs.get(i..j)\<close>; \<open>write_at xs i ys\<close> is \<^verbatim>\<open>xs[i..i+ys.len()].copy_from_slice(ys)\<close>.
\<close>

definition subslice :: "'a list \<Rightarrow> nat \<Rightarrow> nat \<Rightarrow> 'a list" where
  "subslice xs i j = take (j - i) (drop i xs)"

definition get_range :: "'a list \<Rightarrow> nat \<Rightarrow> nat \<Rightarrow> 'a list option" where
  "get_range xs i j = (if i \<le> j \<and> j \<le> length xs then Some (subslice xs i j) else None)"

definition get_at :: "'a list \<Rightarrow> nat \<Rightarrow> 'a option" where
  "get_at xs i = (if i < length xs then Some (xs ! i) else None)"

definition write_at :: "'a list \<Rightarrow> nat \<Rightarrow> 'a list \<Rightarrow> 'a list" where
  "write_at xs i ys = take i xs @ ys @ drop (i + length ys) xs"

lemma length_subslice [simp]: "j \<le> length xs \<Longrightarrow> length (subslice xs i j) = j - i"
  by (simp add: subslice_def)

lemma subslice_nth: "i + k < j \<Longrightarrow> j \<le> length xs \<Longrightarrow> subslice xs i j ! k = xs ! (i + k)"
  by (simp add: subslice_def)

lemma length_write_at [simp]: "i + length ys \<le> length xs \<Longrightarrow> length (write_at xs i ys) = length xs"
  by (simp add: write_at_def)

lemma write_at_nth:
  assumes "i + length ys \<le> length xs" "k < length xs"
  shows "write_at xs i ys ! k = (if i \<le> k \<and> k < i + length ys then ys ! (k - i) else xs ! k)"
proof -
  have "length (take i xs) = i" using assms(1) by simp
  then show ?thesis using assms
    by (auto simp: write_at_def nth_append not_less add.commute)
qed

lemma subslice_append_left [wire_simps]:
  "length xs = i \<Longrightarrow> length ys = j - i \<Longrightarrow> i \<le> j \<Longrightarrow> subslice (xs @ ys @ zs) i j = ys"
  by (simp add: subslice_def)

lemma get_at_append [simp]: "get_at (xs @ y # ys) (length xs) = Some y"
  by (simp add: get_at_def)

lemma mod_add_cases:
  "(a :: nat) < c \<Longrightarrow> i \<le> c \<Longrightarrow> (a + i) mod c = (if a + i < c then a + i else a + i - c)"
  by (auto simp: le_mod_geq)

subsection \<open>Strings as bytes\<close>

definition str_bytes :: "string \<Rightarrow> bytes" where
  "str_bytes s = map of_char s"

definition bytes_str :: "bytes \<Rightarrow> string" where
  "bytes_str bs = map (\<lambda>b. char_of (unat b)) bs"

lemma unat_of_char: "unat (of_char c :: u8) = of_char c"
proof -
  have "(of_char c :: u8) = word_of_nat (of_char c)"
    by (metis of_nat_of_char)
  moreover have "(of_char c :: nat) < 256"
    by (rule nat_of_char_less_256)
  ultimately show ?thesis by (simp add: unat_of_nat)
qed

lemma bytes_str_str_bytes [simp, wire_simps]: "bytes_str (str_bytes s) = s"
  by (induction s) (simp_all add: bytes_str_def str_bytes_def unat_of_char)

lemma length_str_bytes [simp]: "length (str_bytes s) = length s"
  by (simp add: str_bytes_def)

lemma str_bytes_append [simp]: "str_bytes (s @ t) = str_bytes s @ str_bytes t"
  by (simp add: str_bytes_def)

lemma str_bytes_inj: "str_bytes s = str_bytes t \<longleftrightarrow> s = t"
  by (metis bytes_str_str_bytes)

end
