(* ===== verification/Ipc_Protocol.thy ===== *)
theory Ipc_Protocol
  imports Corsair_Prelude
begin

section \<open>Length-prefixed frames on the IPC rings\<close>

text \<open>
  Model of \<^verbatim>\<open>rust/corsair_ipc/src/protocol.rs\<close>.  A frame is a four-byte big-endian length
  followed by a msgpack body.  The receive buffer is a byte list that the two unpackers
  consume from the front; an oversize length is an \<^verbatim>\<open>io::Error\<close> of kind \<^verbatim>\<open>InvalidData\<close>.
\<close>

datatype io_error = InvalidData nat

definition MAX_FRAME_BYTES :: nat where
  "MAX_FRAME_BYTES = 4 * 1024 * 1024"

definition pack_frame :: "bytes \<Rightarrow> bytes" where
  "pack_frame body = u32_be (word_of_nat (length body)) @ body"

definition try_unpack_frame :: "bytes \<Rightarrow> (io_error + bytes option) \<times> bytes" where
  "try_unpack_frame buf =
     (if length buf < 4 then (Inr None, buf)
      else let size = be_nat (subslice buf 0 4) in
        if MAX_FRAME_BYTES < size then (Inl (InvalidData size), buf)
        else if length buf < 4 + size then (Inr None, buf)
        else (Inr (Some (subslice buf 4 (4 + size))), drop (4 + size) buf))"

text \<open>
  The cursor walk of \<open>unpack_all_frames\<close>: \<open>Inr (out, cursor)\<close> when the loop ends or breaks,
  \<open>Inl\<close> when it returns the error from inside the loop.
\<close>

function unpack_walk :: "bytes \<Rightarrow> nat \<Rightarrow> bytes list \<Rightarrow> io_error + bytes list \<times> nat" where
  "unpack_walk buf cursor out =
     (if cursor + 4 \<le> length buf then
        let size = be_nat (subslice buf cursor (cursor + 4)) in
        if MAX_FRAME_BYTES < size then Inl (InvalidData size)
        else if length buf < cursor + 4 + size then Inr (out, cursor)
        else unpack_walk buf (cursor + 4 + size)
               (out @ [subslice buf (cursor + 4) (cursor + 4 + size)])
      else Inr (out, cursor))"
  by pat_completeness auto
termination
  by (relation "measure (\<lambda>(buf, cursor, out). length buf - cursor)") auto

declare unpack_walk.simps [simp del]

definition unpack_all_frames :: "bytes \<Rightarrow> (io_error + bytes list) \<times> bytes" where
  "unpack_all_frames buf =
     (case unpack_walk buf 0 [] of
        Inl e \<Rightarrow> (Inl e, buf)
      | Inr (out, cursor) \<Rightarrow> (Inr out, if 0 < cursor then drop cursor buf else buf))"

subsection \<open>The reference loop\<close>

text \<open>
  The form the cursor walk replaced: call \<open>try_unpack_frame\<close> until it has no complete frame,
  removing each frame from the buffer.
\<close>

function unpack_loop :: "bytes \<Rightarrow> bytes list \<Rightarrow> (io_error + bytes list) \<times> bytes" where
  "unpack_loop buf out =
     (case try_unpack_frame buf of
        (Inl e, buf') \<Rightarrow> (Inl e, buf')
      | (Inr None, buf') \<Rightarrow> (Inr out, buf')
      | (Inr (Some body), buf') \<Rightarrow> unpack_loop buf' (out @ [body]))"
  by pat_completeness auto
termination
  by (relation "measure (\<lambda>(buf, out). length buf)")
    (auto simp: try_unpack_frame_def Let_def split: if_splits)

declare unpack_loop.simps [simp del]

subsection \<open>Round trip of one frame\<close>

definition frame_ok :: "bytes \<Rightarrow> bool" where
  "frame_ok body \<longleftrightarrow> length body \<le> MAX_FRAME_BYTES"

lemma frame_ok_unat: "frame_ok body \<Longrightarrow> unat (word_of_nat (length body) :: u32) = length body"
  by (simp add: frame_ok_def MAX_FRAME_BYTES_def unat_of_nat)

lemma length_pack_frame [simp]: "length (pack_frame body) = 4 + length body"
  by (simp add: pack_frame_def)

lemma subslice_shift: "subslice (xs @ ys) (length xs + i) (length xs + j) = subslice ys i j"
  by (simp add: subslice_def)

lemma pack_frame_prefix [wire_simps]:
  assumes "frame_ok body"
  shows "be_nat (subslice (pack_frame body @ rest) 0 4) = length body"
proof -
  have "subslice (pack_frame body @ rest) 0 4 = u32_be (word_of_nat (length body))"
    by (simp add: subslice_def pack_frame_def)
  then show ?thesis using assms by (simp add: be_nat_u_be frame_ok_unat)
qed

lemma pack_frame_body [wire_simps]:
  "subslice (pack_frame body @ rest) 4 (4 + length body) = body"
  by (simp add: subslice_def pack_frame_def)

lemma try_unpack_pack:
  assumes "frame_ok body"
  shows "try_unpack_frame (pack_frame body @ rest) = (Inr (Some body), rest)"
  using assms by (simp add: try_unpack_frame_def pack_frame_prefix pack_frame_body Let_def)
    (simp add: frame_ok_def not_less pack_frame_def)

text \<open>A proper prefix of a frame is left in the buffer for the next read.\<close>

lemma try_unpack_partial:
  assumes "frame_ok body" "n < 4 + length body"
  shows "try_unpack_frame (take n (pack_frame body)) = (Inr None, take n (pack_frame body))"
proof (cases "n < 4")
  case False
  then have "subslice (take n (pack_frame body)) 0 4 = subslice (pack_frame body @ []) 0 4"
    by (simp add: subslice_def min_def)
  with assms False show ?thesis
    by (simp add: try_unpack_frame_def pack_frame_prefix [of body "[]", simplified] frame_ok_def)
qed (simp add: try_unpack_frame_def)

subsection \<open>The cursor walk implements the loop\<close>

lemma try_unpack_at:
  assumes "c \<le> length buf"
  shows "try_unpack_frame (drop c buf) =
     (if c + 4 \<le> length buf then
        let size = be_nat (subslice buf c (c + 4)) in
        if MAX_FRAME_BYTES < size then (Inl (InvalidData size), drop c buf)
        else if length buf < c + 4 + size then (Inr None, drop c buf)
        else (Inr (Some (subslice buf (c + 4) (c + 4 + size))), drop (c + 4 + size) buf)
      else (Inr None, drop c buf))"
  using assms by (auto simp: try_unpack_frame_def subslice_def Let_def ac_simps)

lemma unpack_loop_walk:
  assumes "c \<le> length buf"
  shows "case unpack_walk buf c out of
      Inl e \<Rightarrow> \<exists>buf'. unpack_loop (drop c buf) out = (Inl e, buf')
    | Inr (out', c') \<Rightarrow> unpack_loop (drop c buf) out = (Inr out', drop c' buf)"
  using assms
proof (induction buf c out rule: unpack_walk.induct)
  case (1 buf c out)
  note eq = unpack_walk.simps [of buf c out] unpack_loop.simps [of "drop c buf" out]
    try_unpack_at [OF "1.prems"]
  define size where "size = be_nat (subslice buf c (c + 4))"
  consider "\<not> c + 4 \<le> length buf" | "c + 4 \<le> length buf" "MAX_FRAME_BYTES < size"
    | "c + 4 \<le> length buf" "\<not> MAX_FRAME_BYTES < size" "length buf < c + 4 + size"
    | "c + 4 \<le> length buf" "\<not> MAX_FRAME_BYTES < size" "\<not> length buf < c + 4 + size"
    by blast
  then show ?case
  proof cases
    case 4
    let ?out = "out @ [subslice buf (c + 4) (c + 4 + size)]"
    have "unpack_loop (drop c buf) out = unpack_loop (drop (c + 4 + size) buf) ?out"
      "unpack_walk buf c out = unpack_walk buf (c + 4 + size) ?out"
      using 4 by (simp_all add: eq Let_def flip: size_def)
    with "1.IH" [OF 4(1) size_def 4(2,3)] 4(3) show ?thesis by (simp only: not_less)
  qed (simp_all add: eq Let_def flip: size_def)
qed

text \<open>
  The cursor walk of \<open>unpack_all_frames\<close> returns what the frame-at-a-time loop it
  replaced returns: the same bodies and the same remaining buffer when no prefix is oversize,
  and the same error otherwise (on an error the walk leaves the buffer as it was).
\<close>

theorem unpack_all_frames_eq_loop:
  "case unpack_loop buf [] of
     (Inr out, rest) \<Rightarrow> unpack_all_frames buf = (Inr out, rest)
   | (Inl e, rest) \<Rightarrow> unpack_all_frames buf = (Inl e, buf)"
  using unpack_loop_walk [of 0 buf "[]"]
  by (auto simp: unpack_all_frames_def split: sum.splits)

subsection \<open>Streams of frames\<close>

lemma unpack_loop_frames:
  assumes "\<forall>b \<in> set bodies. frame_ok b"
  shows "unpack_loop (concat (map pack_frame bodies) @ rest) out
    = unpack_loop rest (out @ bodies)"
  using assms
proof (induction bodies arbitrary: out)
  case (Cons b bodies)
  then show ?case
    by (subst unpack_loop.simps) (simp add: try_unpack_pack)
qed simp

lemma unpack_all_frames_loopI:
  "unpack_loop buf [] = (Inr out, rest) \<Longrightarrow> unpack_all_frames buf = (Inr out, rest)"
  using unpack_loop_walk [of 0 buf "[]"]
  by (auto simp: unpack_all_frames_def split: sum.splits)

lemma unpack_loop_partial:
  assumes "frame_ok body" "n < 4 + length body"
  shows "unpack_loop (take n (pack_frame body)) out = (Inr out, take n (pack_frame body))"
  using assms by (subst unpack_loop.simps) (simp add: try_unpack_partial)

text \<open>
  A buffer that holds whole packed frames followed by the first part of another one
  unpacks to exactly the bodies of the whole frames, in order, and keeps the partial frame.
\<close>

theorem unpack_all_frames_pack:
  assumes "\<forall>b \<in> set bodies. frame_ok b" "frame_ok body" "n < 4 + length body"
  shows "unpack_all_frames (concat (map pack_frame bodies) @ take n (pack_frame body))
    = (Inr bodies, take n (pack_frame body))"
proof -
  have "unpack_loop (concat (map pack_frame bodies) @ take n (pack_frame body)) []
      = (Inr bodies, take n (pack_frame body))"
    using assms by (simp add: unpack_loop_frames unpack_loop_partial)
  then show ?thesis by (rule unpack_all_frames_loopI)
qed

theorem unpack_all_frames_pack_witness:
  "unpack_all_frames (concat (map pack_frame [[1, 2], []]) @ take 5 (pack_frame [7, 8, 9]))
    = (Inr [[1, 2], []], take 5 (pack_frame [7, 8, 9]))"
  by (rule unpack_all_frames_pack) (simp_all add: frame_ok_def MAX_FRAME_BYTES_def)

end
