(* ===== verification/Ipc_Ring.thy ===== *)
theory Ipc_Ring
  imports Corsair_Prelude Ipc_Protocol
begin

section \<open>The shared-memory ring\<close>

text \<open>
  Model of \<^verbatim>\<open>rust/corsair_ipc/src/ring.rs\<close>.  The mapped file is the record \<open>shm\<close>: the two
  header words (producer-owned write offset, consumer-owned read offset), the data region and
  the notification FIFO.  A process's handle on it is the record \<open>ring\<close>.  Operations take the
  shared memory and the handle and return \<open>None\<close> where the code panics (a slice index out of
  range, a remainder by a zero capacity).  \<^verbatim>\<open>usize\<close> lengths are natural numbers; the offsets
  and the free-space computation stay 64-bit words, with the wrap-around of the release build.
  File creation, \<^verbatim>\<open>mkfifo\<close> and descriptor numbers are the operating system's: what is kept of
  them is whether a notify descriptor is registered and how many bytes the FIFO holds.
\<close>

record shm =
  hdr_write :: u64
  hdr_read :: u64
  region :: bytes
  fifo_len :: nat
  fifo_cap :: nat

record ring =
  capacity :: nat
  notify_w_fd :: "nat option"
  notify_r_fd :: "nat option"
  frames_dropped :: u64

definition HDR_SIZE :: nat where "HDR_SIZE = 16"
definition DEFAULT_RING_CAPACITY :: nat where "DEFAULT_RING_CAPACITY = 2 ^ 20"

text \<open>The file is truncated and extended with zero bytes, then the header is stored as zero.\<close>

definition create_owner :: "nat \<Rightarrow> nat \<Rightarrow> shm \<times> ring" where
  "create_owner fcap cap =
     (\<lparr>hdr_write = 0, hdr_read = 0, region = replicate cap 0, fifo_len = 0, fifo_cap = fcap\<rparr>,
      \<lparr>capacity = cap, notify_w_fd = None, notify_r_fd = None, frames_dropped = 0\<rparr>)"

definition open_client :: "nat \<Rightarrow> ring" where
  "open_client cap =
     \<lparr>capacity = cap, notify_w_fd = None, notify_r_fd = None, frames_dropped = 0\<rparr>"

definition open_notify :: "ring \<Rightarrow> nat \<Rightarrow> bool \<Rightarrow> ring" where
  "open_notify r fd as_writer =
     (if as_writer then r\<lparr>notify_w_fd := Some fd\<rparr> else r\<lparr>notify_r_fd := Some fd\<rparr>)"

definition notify :: "ring \<Rightarrow> shm \<Rightarrow> shm" where
  "notify r m = (case notify_w_fd r of
      None \<Rightarrow> m
    | Some _ \<Rightarrow> m\<lparr>fifo_len := min (fifo_cap m) (fifo_len m + 1)\<rparr>)"

definition drain_notify :: "ring \<Rightarrow> shm \<Rightarrow> shm" where
  "drain_notify r m = (case notify_r_fd r of None \<Rightarrow> m | Some _ \<Rightarrow> m\<lparr>fifo_len := 0\<rparr>)"

definition drop_ring :: "ring \<Rightarrow> ring" where
  "drop_ring r = r\<lparr>notify_w_fd := None, notify_r_fd := None\<rparr>"

subsection \<open>Copies into and out of the data region\<close>

text \<open>The checked forms of \<^verbatim>\<open>copy_from_slice\<close> and of reading a range: out of range panics.\<close>

definition copy_into :: "bytes \<Rightarrow> nat \<Rightarrow> bytes \<Rightarrow> bytes option" where
  "copy_into d i xs = (if i + length xs \<le> length d then Some (write_at d i xs) else None)"

definition put_wrapped :: "nat \<Rightarrow> bytes \<Rightarrow> nat \<Rightarrow> bytes \<Rightarrow> bytes option" where
  "put_wrapped cap d pos xs =
     (if pos + length xs \<le> cap then copy_into d pos xs
      else let tail = cap - pos in
        do { d1 \<leftarrow> copy_into d pos (take tail xs); copy_into d1 0 (drop tail xs) })"

definition get_wrapped :: "nat \<Rightarrow> bytes \<Rightarrow> nat \<Rightarrow> nat \<Rightarrow> bytes option" where
  "get_wrapped cap d pos n =
     (if pos + n \<le> cap then get_range d pos (pos + n)
      else let tail = cap - pos in
        do { a \<leftarrow> get_range d pos cap; b \<leftarrow> get_range d 0 (n - tail); Some (a @ b) })"

definition rem_cap :: "u64 \<Rightarrow> nat \<Rightarrow> nat option" where
  "rem_cap w cap = (if cap = 0 then None else Some (unat w mod cap))"

definition drop_frame :: "shm \<Rightarrow> ring \<Rightarrow> bool \<times> shm \<times> ring" where
  "drop_frame m r = (False, m, r\<lparr>frames_dropped := frames_dropped r + 1\<rparr>)"

definition free_space :: "shm \<Rightarrow> ring \<Rightarrow> u64" where
  "free_space m r = word_of_nat (capacity r) - (hdr_write m - hdr_read m)"

subsection \<open>Producer and consumer operations\<close>

definition write_frame :: "shm \<Rightarrow> ring \<Rightarrow> bytes \<Rightarrow> (bool \<times> shm \<times> ring) option" where
  "write_frame m r frame =
     (let n = length frame in
      if capacity r div 2 < n then Some (drop_frame m r)
      else if unat (free_space m r) < n then Some (drop_frame m r)
      else do {
        pos \<leftarrow> rem_cap (hdr_write m) (capacity r);
        d \<leftarrow> put_wrapped (capacity r) (region m) pos frame;
        Some (True, notify r (m\<lparr>region := d, hdr_write := hdr_write m + word_of_nat n\<rparr>), r) })"

definition write_body :: "shm \<Rightarrow> ring \<Rightarrow> bytes \<Rightarrow> (bool \<times> shm \<times> ring) option" where
  "write_body m r body =
     (let n = length body; frame_len = 4 + n in
      if capacity r div 2 < frame_len then Some (drop_frame m r)
      else if unat (free_space m r) < frame_len then Some (drop_frame m r)
      else let prefix = u32_be (word_of_nat n) in do {
        pos \<leftarrow> rem_cap (hdr_write m) (capacity r);
        d1 \<leftarrow> put_wrapped (capacity r) (region m) pos prefix;
        let body_pos = (pos + 4) mod capacity r;
        d2 \<leftarrow> put_wrapped (capacity r) d1 body_pos body;
        Some (True,
          notify r (m\<lparr>region := d2, hdr_write := hdr_write m + word_of_nat frame_len\<rparr>), r) })"

text \<open>\<open>read_available_into\<close> appends to the caller's buffer and returns the byte count.\<close>

definition read_available_into :: "shm \<Rightarrow> ring \<Rightarrow> bytes \<Rightarrow> (nat \<times> bytes \<times> shm) option" where
  "read_available_into m r buf =
     (let avail = unat (saturating_sub (hdr_write m) (hdr_read m)) in
      if avail = 0 then Some (0, buf, m)
      else do {
        pos \<leftarrow> rem_cap (hdr_read m) (capacity r);
        d \<leftarrow> get_wrapped (capacity r) (region m) pos avail;
        Some (avail, buf @ d, m\<lparr>hdr_read := hdr_read m + word_of_nat avail\<rparr>) })"

definition read_available :: "shm \<Rightarrow> ring \<Rightarrow> (bytes \<times> shm) option" where
  "read_available m r =
     (let avail = unat (saturating_sub (hdr_write m) (hdr_read m)) in
      if avail = 0 then Some ([], m)
      else do {
        pos \<leftarrow> rem_cap (hdr_read m) (capacity r);
        d \<leftarrow> get_wrapped (capacity r) (region m) pos avail;
        Some (d, m\<lparr>hdr_read := hdr_read m + word_of_nat avail\<rparr>) })"

subsection \<open>Invariant and abstraction\<close>

text \<open>
  The bytes in flight, as a queue: the region read circularly from the read offset up to the
  write offset.
\<close>

definition circ :: "nat \<Rightarrow> bytes \<Rightarrow> nat \<Rightarrow> nat \<Rightarrow> bytes" where
  "circ cap d p n = map (\<lambda>i. d ! ((p + i) mod cap)) [0..<n]"

definition ring_inv :: "nat \<Rightarrow> shm \<Rightarrow> bool" where
  "ring_inv cap m \<longleftrightarrow>
     0 < cap \<and> cap < 2 ^ 63 \<and> length (region m) = cap \<and>
     unat (hdr_read m) \<le> unat (hdr_write m) \<and> unat (hdr_write m) \<le> unat (hdr_read m) + cap"

definition pending :: "nat \<Rightarrow> shm \<Rightarrow> bytes" where
  "pending cap m =
     circ cap (region m) (unat (hdr_read m)) (unat (hdr_write m) - unat (hdr_read m))"

definition accepts :: "nat \<Rightarrow> shm \<Rightarrow> nat \<Rightarrow> bool" where
  "accepts cap m n \<longleftrightarrow> n \<le> cap div 2 \<and> length (pending cap m) + n \<le> cap"

lemma length_circ [simp]: "length (circ cap d p n) = n"
  by (simp add: circ_def)

lemma length_pending [simp]: "length (pending cap m) = unat (hdr_write m) - unat (hdr_read m)"
  by (simp add: pending_def)

lemma circ_append: "circ cap d p (m + n) = circ cap d p m @ circ cap d (p + m) n"
proof -
  have "[m..<m + n] = map (\<lambda>i. i + m) [0..<n]"
    using map_add_upt [of m n] by (simp add: add.commute)
  then show ?thesis unfolding circ_def upt_add_eq_append [OF le0] by (simp add: ac_simps)
qed

subsection \<open>Circular copies\<close>

text \<open>Where a wrapped copy lands: cell \<open>k\<close> of the region gets byte \<open>i\<close> iff \<open>k = (p + i) mod cap\<close>.\<close>

definition circ_off :: "nat \<Rightarrow> nat \<Rightarrow> nat \<Rightarrow> nat" where
  "circ_off cap p k = (if p mod cap \<le> k then k - p mod cap else k + cap - p mod cap)"

lemma circ_off_less: "0 < cap \<Longrightarrow> k < cap \<Longrightarrow> circ_off cap p k < cap"
  by (auto simp: circ_off_def)

lemma circ_index:
  "0 < (cap :: nat) \<Longrightarrow> i \<le> cap \<Longrightarrow>
    (p + i) mod cap = (if p mod cap + i < cap then p mod cap + i else p mod cap + i - cap)"
  using mod_add_cases [of "p mod cap" cap i] mod_add_left_eq [of p cap i] by simp

lemma circ_off_mod:
  assumes "i < cap"
  shows "circ_off cap p ((p + i) mod cap) = i"
proof -
  have c: "0 < cap" "p mod cap < cap" using assms by simp_all
  show ?thesis
    using assms c unfolding circ_index [OF c(1) less_imp_le [OF assms]] circ_off_def by auto
qed

lemma put_wrapped_some:
  assumes "0 < cap" "length d = cap" "length xs \<le> cap"
  obtains d' where "put_wrapped cap d (p mod cap) xs = Some d'" "length d' = cap"
    "\<And>k. k < cap \<Longrightarrow>
      d' ! k = (if circ_off cap p k < length xs then xs ! circ_off cap p k else d ! k)"
proof -
  let ?p = "p mod cap"
  have p: "?p < cap" using assms(1) by simp
  show thesis
  proof (cases "?p + length xs \<le> cap")
    case True
    then have "put_wrapped cap d ?p xs = Some (write_at d ?p xs)"
      using assms by (simp add: put_wrapped_def copy_into_def)
    moreover have "write_at d ?p xs ! k =
        (if circ_off cap p k < length xs then xs ! circ_off cap p k else d ! k)" if "k < cap" for k
      using True that p assms by (auto simp: write_at_nth circ_off_def)
    moreover have "length (write_at d ?p xs) = cap" using True assms by simp
    ultimately show ?thesis using that by blast
  next
    case False
    let ?t = "cap - ?p"
    let ?d1 = "write_at d ?p (take ?t xs)"
    have t: "length (take ?t xs) = ?t" and t2: "length (drop ?t xs) \<le> ?p"
      using False p assms by simp_all
    have t3: "length xs - ?t \<le> cap" using assms(3) by simp
    from t have l1: "length ?d1 = cap" using p assms by simp
    then have "put_wrapped cap d ?p xs = Some (write_at ?d1 0 (drop ?t xs))"
      using False t t3 p assms by (simp add: put_wrapped_def copy_into_def Let_def)
    moreover have "write_at ?d1 0 (drop ?t xs) ! k =
        (if circ_off cap p k < length xs then xs ! circ_off cap p k else d ! k)" if "k < cap" for k
    proof -
      have "?d1 ! k = (if ?p \<le> k then xs ! (k - ?p) else d ! k)"
        using that t p assms write_at_nth [of ?p "take ?t xs" d k] by auto
      moreover have "write_at ?d1 0 (drop ?t xs) ! k
          = (if k < length xs - ?t then xs ! (?t + k) else ?d1 ! k)"
        using that t3 l1 False write_at_nth [of 0 "drop ?t xs" ?d1 k] by auto
      moreover have "k < length xs - ?t \<longleftrightarrow> k < ?p \<and> ?t + k < length xs"
        using t2 by auto
      moreover have "\<not> ?p \<le> k \<Longrightarrow> circ_off cap p k = ?t + k" "?p \<le> k \<Longrightarrow> circ_off cap p k = k - ?p"
        using p by (auto simp: circ_off_def)
      moreover have "?p \<le> k \<Longrightarrow> k - ?p < length xs" using False that by simp
      ultimately show ?thesis by (cases "?p \<le> k") simp_all
    qed
    moreover have "length (write_at ?d1 0 (drop ?t xs)) = cap" using l1 t2 p by simp
    ultimately show ?thesis using that by blast
  qed
qed

lemma get_wrapped_circ:
  assumes "0 < cap" "length d = cap" "n \<le> cap"
  shows "get_wrapped cap d (p mod cap) n = Some (circ cap d p n)"
proof -
  let ?p = "p mod cap"
  have p: "?p < cap" using assms(1) by simp
  have idx: "(p + i) mod cap = (if ?p + i < cap then ?p + i else ?p + i - cap)" if "i < cap" for i
    using that assms(1) by (intro circ_index) simp_all
  show ?thesis
  proof (cases "?p + n \<le> cap")
    case True
    then have "circ cap d p n = subslice d ?p (?p + n)"
      using assms by (intro nth_equalityI) (auto simp: circ_def subslice_nth idx)
    then show ?thesis using True assms by (simp add: get_wrapped_def get_range_def)
  next
    case False
    then have "circ cap d p n = subslice d ?p cap @ subslice d 0 (n - (cap - ?p))"
      using assms p
      by (intro nth_equalityI)
        (auto simp: circ_def subslice_def idx nth_append intro!: arg_cong [of _ _ "(!) d"])
    moreover have "n - (cap - ?p) \<le> cap" using assms(3) by simp
    ultimately show ?thesis using False p assms by (simp add: get_wrapped_def get_range_def Let_def)
  qed
qed

subsection \<open>One operation at a time: the ring is a bounded byte queue\<close>

lemma put_wrapped_circ:
  assumes "0 < cap" "length d = cap" "r \<le> w" "w - r + length xs \<le> cap"
  obtains d' where "put_wrapped cap d (w mod cap) xs = Some d'" "length d' = cap"
    "circ cap d' r (w - r + length xs) = circ cap d r (w - r) @ xs"
proof -
  have len: "length xs \<le> cap" using assms(4) by simp
  obtain d' where d': "put_wrapped cap d (w mod cap) xs = Some d'" "length d' = cap"
    and nth: "\<And>k. k < cap \<Longrightarrow>
      d' ! k = (if circ_off cap w k < length xs then xs ! circ_off cap w k else d ! k)"
    using put_wrapped_some [OF assms(1,2) len] by metis
  have old: "d' ! ((r + i) mod cap) = d ! ((r + i) mod cap)" if "i < w - r" for i
  proof -
    define j where "j = cap - (w - r - i)"
    have j: "j < cap" "length xs \<le> j" "w + j = r + i + cap"
      using that assms(3,4) by (auto simp: j_def)
    have "circ_off cap w ((w + j) mod cap) = j" using j(1) by (rule circ_off_mod)
    moreover have "(w + j) mod cap = (r + i) mod cap" by (simp add: j(3))
    ultimately show ?thesis using nth [of "(r + i) mod cap"] assms(1) j(2) by simp
  qed
  have new: "d' ! ((w + i) mod cap) = xs ! i" if "i < length xs" for i
    using nth [of "(w + i) mod cap"] circ_off_mod [of i cap w] that len assms(1) by simp
  have "circ cap d' r (w - r) = circ cap d r (w - r)" by (simp add: circ_def old)
  moreover have "circ cap d' w (length xs) = xs"
    by (rule nth_equalityI) (simp_all add: circ_def new)
  ultimately have "circ cap d' r (w - r + length xs) = circ cap d r (w - r) @ xs"
    using assms(3) circ_append [of cap d' r "w - r" "length xs"] by simp
  with d' that show thesis by blast
qed

lemma unat_free_space:
  assumes "ring_inv (capacity r) m"
  shows "unat (free_space m r) = capacity r - length (pending (capacity r) m)"
proof -
  have d: "unat (hdr_write m - hdr_read m) = unat (hdr_write m) - unat (hdr_read m)"
    using assms by (simp add: ring_inv_def unat_sub word_le_nat_alt)
  have c: "unat (word_of_nat (capacity r) :: u64) = capacity r"
    using assms by (simp add: ring_inv_def unat_of_nat)
  have "hdr_write m - hdr_read m \<le> word_of_nat (capacity r)"
    using assms by (simp add: word_le_nat_alt d c) (auto simp: ring_inv_def)
  then show ?thesis by (simp add: free_space_def unat_sub d c)
qed

lemma accepts_iff:
  assumes "ring_inv (capacity r) m"
  shows "accepts (capacity r) m n \<longleftrightarrow> \<not> capacity r div 2 < n \<and> \<not> unat (free_space m r) < n"
proof -
  have "length (pending (capacity r) m) \<le> capacity r"
    using assms by (auto simp: ring_inv_def)
  then show ?thesis by (auto simp: accepts_def unat_free_space [OF assms])
qed

lemma notify_ring [simp]:
  "region (notify r m) = region m" "hdr_write (notify r m) = hdr_write m"
  "hdr_read (notify r m) = hdr_read m"
  by (simp_all add: notify_def split: option.split)

text \<open>What publishing \<open>xs\<close> at the write offset does, shared by \<open>write_frame\<close> and \<open>write_body\<close>.\<close>

definition stored :: "nat \<Rightarrow> shm \<Rightarrow> bytes \<Rightarrow> shm \<Rightarrow> bool" where
  "stored cap m xs m' \<longleftrightarrow>
     ring_inv cap m' \<and> pending cap m' = pending cap m @ xs \<and> hdr_read m' = hdr_read m \<and>
     unat (hdr_write m') = unat (hdr_write m) + length xs"

lemma store_published:
  assumes "ring_inv cap m" "accepts cap m (length xs)" "unat (hdr_write m) + length xs < 2 ^ 64"
  obtains d where "put_wrapped cap (region m) (unat (hdr_write m) mod cap) xs = Some d"
    "stored cap m xs (m\<lparr>region := d, hdr_write := hdr_write m + word_of_nat (length xs)\<rparr>)"
proof -
  let ?w = "unat (hdr_write m)" and ?r = "unat (hdr_read m)"
  have inv: "0 < cap" "length (region m) = cap" "?r \<le> ?w" "?w - ?r + length xs \<le> cap"
    using assms(1,2) by (auto simp: ring_inv_def accepts_def)
  obtain d where d: "put_wrapped cap (region m) (?w mod cap) xs = Some d" "length d = cap"
    "circ cap d ?r (?w - ?r + length xs) = circ cap (region m) ?r (?w - ?r) @ xs"
    using put_wrapped_circ [OF inv] by blast
  have w': "unat (hdr_write m + word_of_nat (length xs)) = ?w + length xs"
    using assms(3) by (simp add: unat_word_ariths unat_of_nat)
  have "stored cap m xs (m\<lparr>region := d, hdr_write := hdr_write m + word_of_nat (length xs)\<rparr>)"
    using d(2,3) inv assms(1) by (auto simp: stored_def ring_inv_def pending_def w')
  with d(1) that show thesis by blast
qed

lemma stored_notify [simp]: "stored cap m xs (notify r m') = stored cap m xs m'"
  by (simp add: stored_def ring_inv_def pending_def)

lemma write_frame_step:
  assumes "ring_inv (capacity r) m" "unat (hdr_write m) + length frame < 2 ^ 64"
  shows "if accepts (capacity r) m (length frame)
    then \<exists>m'. write_frame m r frame = Some (True, m', r) \<and> stored (capacity r) m frame m'
    else write_frame m r frame = Some (False, m, r\<lparr>frames_dropped := frames_dropped r + 1\<rparr>)"
proof (cases "accepts (capacity r) m (length frame)")
  case True
  obtain d where d: "put_wrapped (capacity r) (region m) (unat (hdr_write m) mod capacity r) frame = Some d"
    "stored (capacity r) m frame (m\<lparr>region := d, hdr_write := hdr_write m + word_of_nat (length frame)\<rparr>)"
    using store_published [OF assms(1) True assms(2)] by blast
  have "0 < capacity r" using assms(1) by (simp add: ring_inv_def)
  with True d show ?thesis
    by (simp add: write_frame_def rem_cap_def Let_def accepts_iff [OF assms(1)])
next
  case False
  then show ?thesis by (auto simp: write_frame_def drop_frame_def Let_def accepts_iff [OF assms(1)])
qed

lemma saturating_sub_inv:
  "ring_inv cap m \<Longrightarrow>
    unat (saturating_sub (hdr_write m) (hdr_read m)) = unat (hdr_write m) - unat (hdr_read m)"
  by (simp add: unat_saturating_sub)

lemma read_available_step:
  assumes "ring_inv (capacity r) m"
  shows "\<exists>m'. read_available m r = Some (pending (capacity r) m, m') \<and>
    ring_inv (capacity r) m' \<and> pending (capacity r) m' = [] \<and> hdr_write m' = hdr_write m"
proof -
  let ?n = "unat (hdr_write m) - unat (hdr_read m)"
  have inv: "0 < capacity r" "length (region m) = capacity r" "?n \<le> capacity r"
    "unat (hdr_read m) \<le> unat (hdr_write m)"
    using assms by (auto simp: ring_inv_def)
  show ?thesis
  proof (cases "?n = 0")
    case True
    then show ?thesis
      using assms by (simp add: read_available_def saturating_sub_inv pending_def circ_def)
  next
    case False
    have r': "hdr_read m + word_of_nat ?n = hdr_write m"
      using inv(4) by (simp add: of_nat_diff)
    have "get_wrapped (capacity r) (region m) (unat (hdr_read m) mod capacity r) ?n
        = Some (pending (capacity r) m)"
      using get_wrapped_circ [OF inv(1-3)] by (simp add: pending_def)
    then have "read_available m r
        = Some (pending (capacity r) m, m\<lparr>hdr_read := hdr_write m\<rparr>)"
      using False inv(1) by (simp add: read_available_def saturating_sub_inv [OF assms]
          rem_cap_def r' Let_def)
    then show ?thesis using assms by (auto simp: ring_inv_def pending_def circ_def)
  qed
qed

text \<open>\<open>read_available_into\<close> is \<open>read_available\<close> with the bytes appended to the caller's buffer.\<close>

lemma read_available_into_eq:
  "read_available_into m r buf =
     map_option (\<lambda>(d, m'). (length d, buf @ d, m')) (read_available m r)"
proof -
  have "length d = n" if "get_wrapped (capacity r) (region m) p n = Some d" for p n d
    using that by (auto simp: get_wrapped_def get_range_def bind_eq_Some_conv Let_def split: if_splits)
  then show ?thesis
    by (auto simp: read_available_into_def read_available_def Let_def bind_eq_Some_conv
        split: option.splits bind_splits)
qed

subsection \<open>The allocation-free writer\<close>

lemma circ_off_inv:
  assumes "k < cap"
  shows "(p + circ_off cap p k) mod cap = k"
proof -
  have c: "0 < cap" "p mod cap < cap" using assms by simp_all
  have "circ_off cap p k \<le> cap" using circ_off_less [OF c(1) assms, of p] by simp
  note idx = circ_index [OF c(1) this, of p]
  define q where "q = p mod cap"
  with c(2) have "q < cap" by simp
  then show ?thesis
    using assms unfolding idx by (auto simp: circ_off_def simp flip: q_def)
qed

lemma circ_off_add:
  assumes "k < cap" "a \<le> cap" "i = circ_off cap p k"
  shows "circ_off cap (p + a) k = (if a \<le> i then i - a else i + cap - a)"
proof -
  let ?j = "if a \<le> i then i - a else i + cap - a"
  have i: "i < cap" "(p + i) mod cap = k"
    using assms circ_off_less [of cap k p] circ_off_inv by auto
  then have j: "?j < cap" using assms(2) by auto
  have "p + a + ?j = p + i \<or> p + a + ?j = p + i + cap" using assms(2) by auto
  then have "(p + a + ?j) mod cap = k" using i(2) by (metis mod_add_self2)
  with circ_off_mod [OF j, of "p + a"] show ?thesis by simp
qed

lemma put_wrapped_append:
  assumes "0 < cap" "length d = cap" "length xs + length ys \<le> cap"
  shows "(put_wrapped cap d (p mod cap) xs \<bind>
      (\<lambda>d1. put_wrapped cap d1 ((p mod cap + length xs) mod cap) ys))
    = put_wrapped cap d (p mod cap) (xs @ ys)"
proof -
  let ?a = "length xs"
  have l: "length xs \<le> cap" "length ys \<le> cap" "length (xs @ ys) \<le> cap"
    using assms(3) by simp_all
  obtain d1 where d1: "put_wrapped cap d (p mod cap) xs = Some d1" "length d1 = cap"
    "\<And>k. k < cap \<Longrightarrow> d1 ! k = (if circ_off cap p k < ?a then xs ! circ_off cap p k else d ! k)"
    using put_wrapped_some [OF assms(1,2) l(1), of p] by blast
  obtain d2 where d2: "put_wrapped cap d1 ((p + ?a) mod cap) ys = Some d2" "length d2 = cap"
    "\<And>k. k < cap \<Longrightarrow>
      d2 ! k = (if circ_off cap (p + ?a) k < length ys then ys ! circ_off cap (p + ?a) k else d1 ! k)"
    using put_wrapped_some [OF assms(1) d1(2) l(2), of "p + ?a"] by blast
  obtain d3 where d3: "put_wrapped cap d (p mod cap) (xs @ ys) = Some d3" "length d3 = cap"
    "\<And>k. k < cap \<Longrightarrow> d3 ! k =
      (if circ_off cap p k < length (xs @ ys) then (xs @ ys) ! circ_off cap p k else d ! k)"
    using put_wrapped_some [OF assms(1,2) l(3), of p] by blast
  have "d2 ! k = d3 ! k" if k: "k < cap" for k
    using circ_off_add [OF k, of ?a _ p, OF _ refl] assms(3) circ_off_less [OF assms(1) k, of p]
    by (auto simp: d1(3) [OF k] d2(3) [OF k] d3(3) [OF k] nth_append)
  then have "d2 = d3" using d2(2) d3(2) by (intro nth_equalityI) simp_all
  then show ?thesis by (simp add: d1(1) d2(1) d3(1) mod_add_left_eq)
qed

lemma write_body_step:
  assumes "ring_inv (capacity r) m"
  shows "write_body m r body = write_frame m r (pack_frame body)"
proof (cases "accepts (capacity r) m (4 + length body)")
  case True
  let ?cap = "capacity r" and ?prefix = "u32_be (word_of_nat (length body))"
  have inv: "0 < ?cap" "length (region m) = ?cap" "length ?prefix + length body \<le> ?cap"
    using assms True by (auto simp: ring_inv_def accepts_def)
  note app = put_wrapped_append [OF inv, of "unat (hdr_write m)"]
  show ?thesis
    using True inv(1) app [symmetric]
    by (simp add: write_body_def write_frame_def pack_frame_def rem_cap_def Let_def
        accepts_iff [OF assms])
next
  case False
  then show ?thesis
    by (auto simp: write_body_def write_frame_def Let_def accepts_iff [OF assms])
qed

subsection \<open>Properties of the ring operations\<close>

text \<open>
  \<^bold>\<open>C4.\<close> \<open>write_frame\<close> never panics on a well-formed ring.  It appends the frame to the queue of
  bytes in flight exactly when the frame is at most half the capacity and fits in the free
  space; otherwise it changes only the drop counter.
\<close>

theorem write_frame_queue:
  assumes "ring_inv (capacity r) m" "unat (hdr_write m) + length frame < 2 ^ 64"
  shows "if accepts (capacity r) m (length frame)
    then \<exists>m'. write_frame m r frame = Some (True, m', r) \<and> stored (capacity r) m frame m'
    else write_frame m r frame = Some (False, m, r\<lparr>frames_dropped := frames_dropped r + 1\<rparr>)"
  using assms by (rule write_frame_step)

text \<open>
  \<open>read_available\<close> never panics on a well-formed ring, returns exactly the bytes in flight
  in the order they were written, and leaves the ring empty.
\<close>

theorem read_available_queue:
  assumes "ring_inv (capacity r) m"
  shows "\<exists>m'. read_available m r = Some (pending (capacity r) m, m') \<and>
    ring_inv (capacity r) m' \<and> pending (capacity r) m' = [] \<and> hdr_write m' = hdr_write m"
  using assms by (rule read_available_step)

text \<open>
  \<open>write_body\<close>, which writes the length prefix and the body straight into the mapping, has
  on every well-formed ring the same effect and result as \<open>write_frame\<close> of the packed frame:
  the same bytes in the region, the same offset, the same drop decision.
\<close>

theorem write_body_eq_write_frame:
  assumes "ring_inv (capacity r) m"
  shows "write_body m r body = write_frame m r (pack_frame body)"
  using assms by (rule write_body_step)

subsection \<open>Concrete instances\<close>

text \<open>A ring of 16 bytes whose write offset is 14, so that the next frame wraps.\<close>

definition demo_shm :: shm where
  "demo_shm = \<lparr>hdr_write = 14, hdr_read = 12, region = map word_of_nat [0..<16],
     fifo_len = 0, fifo_cap = 65536\<rparr>"

definition demo_ring :: ring where
  "demo_ring = \<lparr>capacity = 16, notify_w_fd = Some 7, notify_r_fd = None, frames_dropped = 0\<rparr>"

lemma demo_inv: "ring_inv (capacity demo_ring) demo_shm"
  by (simp add: ring_inv_def demo_ring_def demo_shm_def)

lemma demo_pending: "pending (capacity demo_ring) demo_shm = [12, 13]"
  by (simp add: pending_def demo_ring_def demo_shm_def circ_def upt_rec)

theorem write_frame_queue_witness:
  "ring_inv (capacity demo_ring) demo_shm \<and> accepts (capacity demo_ring) demo_shm 4 \<and>
   (\<exists>m'. write_frame demo_shm demo_ring [1, 2, 3, 4] = Some (True, m', demo_ring) \<and>
     pending 16 m' = [12, 13, 1, 2, 3, 4])"
proof -
  have acc: "accepts (capacity demo_ring) demo_shm (length [1, 2, 3, 4 :: u8])"
    unfolding accepts_def demo_pending by (simp add: demo_ring_def)
  have "unat (hdr_write demo_shm) + length [1, 2, 3, 4 :: u8] < 2 ^ 64"
    by (simp add: demo_shm_def)
  from write_frame_queue [OF demo_inv this] acc
  obtain m' where "write_frame demo_shm demo_ring [1, 2, 3, 4] = Some (True, m', demo_ring)"
    "stored (capacity demo_ring) demo_shm [1, 2, 3, 4] m'" by (simp only: if_True) blast
  moreover have "capacity demo_ring = 16" by (simp add: demo_ring_def)
  ultimately show ?thesis
    using demo_inv acc demo_pending by (auto simp: stored_def numeral_eq_Suc)
qed

theorem read_available_queue_witness:
  "\<exists>m'. read_available demo_shm demo_ring = Some ([12, 13], m') \<and> pending 16 m' = []"
  using read_available_queue [OF demo_inv] demo_pending by (auto simp: demo_ring_def)

theorem write_body_eq_write_frame_witness:
  "write_body demo_shm demo_ring [5, 6] = write_frame demo_shm demo_ring (pack_frame [5, 6])"
  by (rule write_body_eq_write_frame [OF demo_inv])

end
