(* ===== verification/Ipc_Server.thy ===== *)
theory Ipc_Server
  imports Ipc_Ring
begin

section \<open>Messages over the rings\<close>

text \<open>
  Model of \<^verbatim>\<open>rust/corsair_ipc/src/server.rs\<close>: the broker publishes event bodies with
  \<open>write_body\<close>, and its command pump drains the commands ring, unpacks the frames and forwards
  each body with its message kind.  The pump unpacks a fresh buffer on every iteration and
  drops what is left of it, so it is correct only because a ring never exposes part of a frame;
  that is what the theorems of this theory establish.

  \<^verbatim>\<open>extract_type\<close> deserialises with \<^verbatim>\<open>rmp_serde\<close>, a third-party crate: it is the parameter
  \<open>extract\<close>.  The bounded \<^verbatim>\<open>mpsc\<close> channel is the list of the commands sent to it, and
  \<open>rx_open\<close> says whether its receiver is still there.
\<close>

record server_command =
  kind :: string
  cmd_body :: bytes

record shm_server =
  events_ring :: ring
  commands_ring :: ring

definition create_server :: "nat \<Rightarrow> nat \<Rightarrow> nat \<Rightarrow> nat \<Rightarrow> shm \<times> shm \<times> shm_server" where
  "create_server fcap cap efd cfd =
     (let (em, er) = create_owner fcap cap; (cm, cr) = create_owner fcap cap in
      (em, cm, \<lparr>events_ring = open_notify er efd True, commands_ring = open_notify cr cfd False\<rparr>))"

definition publish :: "shm \<Rightarrow> shm_server \<Rightarrow> bytes \<Rightarrow> (bool \<times> shm \<times> shm_server) option" where
  "publish em sv body =
     map_option (\<lambda>(ok, em', r). (ok, em', sv\<lparr>events_ring := r\<rparr>)) (write_body em (events_ring sv) body)"

definition server_frames_dropped :: "shm_server \<Rightarrow> u64 \<times> u64" where
  "server_frames_dropped sv = (frames_dropped (events_ring sv), frames_dropped (commands_ring sv))"

text \<open>One iteration of the pump: the commands sent on the channel and whether the loop goes on.\<close>

datatype pump_result = Pumped "server_command list" bool shm

definition to_command :: "(bytes \<Rightarrow> string option) \<Rightarrow> bytes \<Rightarrow> server_command" where
  "to_command extract body =
     \<lparr>kind = (case extract body of None \<Rightarrow> ''unknown'' | Some k \<Rightarrow> k), cmd_body = body\<rparr>"

definition pump_bytes ::
  "(bytes \<Rightarrow> string option) \<Rightarrow> bool \<Rightarrow> bytes \<Rightarrow> shm \<Rightarrow> pump_result" where
  "pump_bytes extract rx_open bs m =
     (if bs = [] then Pumped [] True m
      else case unpack_all_frames bs of
        (Inl e, _) \<Rightarrow> Pumped [] True m
      | (Inr frames, _) \<Rightarrow>
          (if rx_open then Pumped (map (to_command extract) frames) True m
           else Pumped [] (frames = []) m))"

definition command_pump ::
  "(bytes \<Rightarrow> string option) \<Rightarrow> bool \<Rightarrow> shm \<Rightarrow> ring \<Rightarrow> pump_result option" where
  "command_pump extract rx_open m r =
     do { (bs, m') \<leftarrow> read_available (drain_notify r m) r;
          Some (pump_bytes extract rx_open bs m') }"

definition command_pump_blocking ::
  "(bytes \<Rightarrow> string option) \<Rightarrow> bool \<Rightarrow> shm \<Rightarrow> ring \<Rightarrow> pump_result option" where
  "command_pump_blocking extract rx_open m r =
     do { (bs, m') \<leftarrow> read_available m r; Some (pump_bytes extract rx_open bs m') }"

subsection \<open>Interface: a message channel\<close>

text \<open>
  A channel never fails, appends a message to its queue or drops it, and its reader takes all
  queued messages.  \<open>budget\<close> is how many more bytes may be sent before the 64-bit offsets of the
  rings would wrap, \<open>cost\<close> what a message uses of it.
\<close>

datatype 'm chan_op = Send 'm | Poll

fun send_total :: "('m \<Rightarrow> nat) \<Rightarrow> 'm chan_op list \<Rightarrow> nat" where
  "send_total cost [] = 0"
| "send_total cost (Send x # ops) = cost x + send_total cost ops"
| "send_total cost (Poll # ops) = send_total cost ops"

text \<open>A run of a sender and a reader: accepted messages, received messages, final state.\<close>

fun chan_run ::
  "('s \<Rightarrow> 'm \<Rightarrow> (bool \<times> 's) option) \<Rightarrow> ('s \<Rightarrow> ('m list \<times> 's) option) \<Rightarrow>
    's \<Rightarrow> 'm chan_op list \<Rightarrow> ('m list \<times> 'm list \<times> 's) option" where
  "chan_run put fetch s [] = Some ([], [], s)"
| "chan_run put fetch s (Send x # ops) =
     do { (ok, s1) \<leftarrow> put s x; (acc, rcv, s2) \<leftarrow> chan_run put fetch s1 ops;
          Some (if ok then x # acc else acc, rcv, s2) }"
| "chan_run put fetch s (Poll # ops) =
     do { (d, s1) \<leftarrow> fetch s; (acc, rcv, s2) \<leftarrow> chan_run put fetch s1 ops; Some (acc, d @ rcv, s2) }"

locale message_channel =
  fixes inv :: "'s \<Rightarrow> bool" and queued :: "'s \<Rightarrow> 'm list" and budget :: "'s \<Rightarrow> nat"
    and cost :: "'m \<Rightarrow> nat"
    and put :: "'s \<Rightarrow> 'm \<Rightarrow> (bool \<times> 's) option" and fetch :: "'s \<Rightarrow> ('m list \<times> 's) option"
  assumes put_law: "inv s \<Longrightarrow> cost x \<le> budget s \<Longrightarrow>
      \<exists>ok s'. put s x = Some (ok, s') \<and> inv s' \<and> budget s \<le> budget s' + cost x \<and>
        queued s' = (if ok then queued s @ [x] else queued s)"
    and fetch_law: "inv s \<Longrightarrow>
      \<exists>s'. fetch s = Some (queued s, s') \<and> inv s' \<and> budget s' = budget s \<and> queued s' = []"
begin

lemma run_fifo:
  assumes "inv s" "send_total cost ops \<le> budget s"
  shows "\<exists>acc rcv s'. chan_run put fetch s ops = Some (acc, rcv, s') \<and> inv s' \<and>
    queued s @ acc = rcv @ queued s'"
  using assms
proof (induction ops arbitrary: s)
  case (Cons op ops)
  show ?case
  proof (cases op)
    case (Send x)
    with Cons.prems obtain ok s1 where p: "put s x = Some (ok, s1)" "inv s1"
      "budget s \<le> budget s1 + cost x" "queued s1 = (if ok then queued s @ [x] else queued s)"
      using put_law [of s x] by auto
    have "send_total cost ops \<le> budget s1" using Cons.prems Send p(3) by simp
    then obtain acc rcv s' where "chan_run put fetch s1 ops = Some (acc, rcv, s')" "inv s'"
      "queued s1 @ acc = rcv @ queued s'"
      using Cons.IH [OF p(2)] by blast
    with p Send show ?thesis by (cases ok) auto
  next
    case Poll
    obtain s1 where f: "fetch s = Some (queued s, s1)" "inv s1" "budget s1 = budget s"
      "queued s1 = []"
      using fetch_law [OF Cons.prems(1)] by blast
    then obtain acc rcv s' where "chan_run put fetch s1 ops = Some (acc, rcv, s')" "inv s'"
      "acc = rcv @ queued s'"
      using Cons.IH [OF f(2)] Cons.prems Poll by auto
    with f Poll show ?thesis by auto
  qed
qed auto

lemma run_append:
  "chan_run put fetch s (ops @ ops') =
     do { (a, r, s1) \<leftarrow> chan_run put fetch s ops; (b, q, s2) \<leftarrow> chan_run put fetch s1 ops';
          Some (a @ b, r @ q, s2) }"
  by (induction put fetch s ops rule: chan_run.induct) (auto split: bind_splits)

text \<open>After a final poll everything that was accepted has been received.\<close>

lemma run_drained:
  assumes "inv s" "queued s = []" "send_total cost ops \<le> budget s"
  shows "\<exists>acc s'. chan_run put fetch s (ops @ [Poll]) = Some (acc, acc, s') \<and> inv s' \<and> queued s' = []"
proof -
  obtain acc rcv s1 where r: "chan_run put fetch s ops = Some (acc, rcv, s1)" "inv s1"
    "queued s @ acc = rcv @ queued s1"
    using run_fifo [OF assms(1,3)] by blast
  obtain s2 where "fetch s1 = Some (queued s1, s2)" "inv s2" "queued s2 = []"
    using fetch_law [OF r(2)] by blast
  with r assms(2) show ?thesis by (simp add: run_append)
qed

end

subsection \<open>The rings implement the interface\<close>

text \<open>
  A link is the shared memory with the sender's and the reader's handle.  Its queue is what the
  bytes in flight unpack to.
\<close>

type_synonym link = "shm \<times> ring \<times> ring"

definition link_send :: "link \<Rightarrow> bytes \<Rightarrow> (bool \<times> link) option" where
  "link_send = (\<lambda>(m, p, c) body. map_option (\<lambda>(ok, m', p'). (ok, (m', p', c))) (write_body m p body))"

definition link_fetch :: "(bytes \<Rightarrow> string option) \<Rightarrow> link \<Rightarrow> (bytes list \<times> link) option" where
  "link_fetch extract = (\<lambda>(m, p, c).
     map_option (\<lambda>res. case res of Pumped cmds go m' \<Rightarrow> (map cmd_body cmds, (m', p, c)))
       (command_pump extract True m c))"

definition whole_frames :: "bytes \<Rightarrow> bytes list \<Rightarrow> bool" where
  "whole_frames bs msgs \<longleftrightarrow> bs = concat (map pack_frame msgs) \<and> (\<forall>b \<in> set msgs. frame_ok b)"

definition link_queued :: "link \<Rightarrow> bytes list" where
  "link_queued = (\<lambda>(m, p, c). case fst (unpack_all_frames (pending (capacity p) m)) of
     Inr msgs \<Rightarrow> msgs | Inl e \<Rightarrow> [])"

definition link_inv :: "link \<Rightarrow> bool" where
  "link_inv = (\<lambda>(m, p, c). capacity c = capacity p \<and> capacity p div 2 \<le> MAX_FRAME_BYTES \<and>
     ring_inv (capacity p) m \<and> (\<exists>msgs. whole_frames (pending (capacity p) m) msgs))"

definition link_budget :: "link \<Rightarrow> nat" where
  "link_budget = (\<lambda>(m, p, c). 2 ^ 64 - 1 - unat (hdr_write m))"

definition frame_cost :: "bytes \<Rightarrow> nat" where
  "frame_cost body = 4 + length body"

lemma unpack_whole_frames:
  assumes "whole_frames bs msgs"
  shows "unpack_all_frames bs = (Inr msgs, [])"
proof -
  have "unpack_loop bs [] = unpack_loop [] msgs"
    using assms unpack_loop_frames [of msgs "[]" "[]"] by (simp add: whole_frames_def)
  also have "\<dots> = (Inr msgs, [])"
    by (subst unpack_loop.simps) (simp add: try_unpack_frame_def)
  finally show ?thesis by (rule unpack_all_frames_loopI)
qed

lemma link_queued_whole:
  "whole_frames (pending (capacity p) m) msgs \<Longrightarrow> link_queued (m, p, c) = msgs"
  by (simp add: link_queued_def unpack_whole_frames)

lemma drain_notify_ring [simp]:
  "pending cap (drain_notify r m) = pending cap m" "ring_inv cap (drain_notify r m) = ring_inv cap m"
  "hdr_write (drain_notify r m) = hdr_write m"
  by (simp_all add: drain_notify_def pending_def ring_inv_def split: option.split)

lemma link_send_law:
  assumes "link_inv s" "frame_cost x \<le> link_budget s"
  shows "\<exists>ok s'. link_send s x = Some (ok, s') \<and> link_inv s' \<and> link_budget s \<le> link_budget s' + frame_cost x \<and>
        link_queued s' = (if ok then link_queued s @ [x] else link_queued s)"
proof -
  obtain m p c where s: "s = (m, p, c)" by (cases s)
  from assms(1) obtain msgs where inv: "ring_inv (capacity p) m" "capacity c = capacity p"
    "capacity p div 2 \<le> MAX_FRAME_BYTES" and msgs: "whole_frames (pending (capacity p) m) msgs"
    by (auto simp: s link_inv_def)
  have bound: "unat (hdr_write m) + length (pack_frame x) < 2 ^ 64"
    using assms(2) by (simp add: s link_budget_def frame_cost_def)
  note step = write_frame_step [OF inv(1) bound] write_body_step [OF inv(1), of x]
  show ?thesis
  proof (cases "accepts (capacity p) m (length (pack_frame x))")
    case True
    with step obtain m' where w: "write_body m p x = Some (True, m', p)"
      "stored (capacity p) m (pack_frame x) m'" by auto
    have "frame_ok x" using True inv(3) by (simp add: accepts_def frame_ok_def)
    with w(2) msgs have msgs': "whole_frames (pending (capacity p) m') (msgs @ [x])"
      by (simp add: stored_def whole_frames_def)
    have "link_inv (m', p, c)" using w(2) inv(2,3) msgs' by (auto simp: link_inv_def stored_def)
    moreover have "link_budget s \<le> link_budget (m', p, c) + frame_cost x"
      using w(2) by (simp add: s link_budget_def frame_cost_def stored_def)
    ultimately show ?thesis
      using w(1)
      by (intro exI [of _ True] exI [of _ "(m', p, c)"])
        (simp add: s link_send_def link_queued_whole [OF msgs] link_queued_whole [OF msgs'])
  next
    case False
    let ?p = "p\<lparr>frames_dropped := frames_dropped p + 1\<rparr>"
    from False step have w: "write_body m p x = Some (False, m, ?p)" by simp
    have "link_queued (m, ?p, c) = msgs" "link_queued s = msgs"
      using msgs by (simp_all add: link_queued_whole s)
    moreover have "link_inv (m, ?p, c)" using assms(1) by (simp add: s link_inv_def)
    ultimately show ?thesis
      using w by (intro exI [of _ False] exI [of _ "(m, ?p, c)"]) (simp add: s link_send_def link_budget_def)
  qed
qed

lemma cmd_body_to_command [simp]: "cmd_body (to_command extract b) = b"
  by (simp add: to_command_def)

lemma link_fetch_law:
  assumes "link_inv s"
  shows "\<exists>s'. link_fetch extract s = Some (link_queued s, s') \<and> link_inv s' \<and>
    link_budget s' = link_budget s \<and> link_queued s' = []"
proof -
  obtain m p c where s: "s = (m, p, c)" by (cases s)
  from assms obtain msgs where inv: "ring_inv (capacity p) m" "capacity c = capacity p"
    "capacity p div 2 \<le> MAX_FRAME_BYTES" and msgs: "whole_frames (pending (capacity p) m) msgs"
    by (auto simp: s link_inv_def)
  let ?m = "drain_notify c m"
  have "ring_inv (capacity c) ?m" using inv by simp
  from read_available_step [OF this] inv(2)
  obtain m' where r: "read_available ?m c = Some (pending (capacity p) m, m')"
    "ring_inv (capacity p) m'" "pending (capacity p) m' = []" "hdr_write m' = hdr_write m"
    by auto
  have empty: "whole_frames (pending (capacity p) m') []" by (simp add: r(3) whole_frames_def)
  have q: "link_queued s = msgs" using msgs by (simp add: s link_queued_whole)
  have "pending (capacity p) m = [] \<Longrightarrow> msgs = []"
    using msgs by (cases msgs) (auto simp: whole_frames_def dest: arg_cong [of _ _ length])
  then have "link_fetch extract s = Some (msgs, (m', p, c))"
    using r(1) unpack_whole_frames [OF msgs]
    by (auto simp: s link_fetch_def command_pump_def pump_bytes_def comp_def)
  moreover have "link_inv (m', p, c)" using r(2) inv(2,3) empty by (auto simp: link_inv_def)
  moreover have "link_queued (m', p, c) = []" using link_queued_whole [OF empty] .
  ultimately show ?thesis using q r(4) by (simp add: s link_budget_def)
qed

interpretation link: message_channel link_inv link_queued link_budget frame_cost
  link_send "link_fetch ext"
  for ext
proof unfold_locales
qed (blast dest: link_send_law link_fetch_law)+

subsection \<open>End to end\<close>

definition fresh_link :: "nat \<Rightarrow> nat \<Rightarrow> link" where
  "fresh_link fcap cap = (let (m, r) = create_owner fcap cap in (m, open_client cap, r))"

lemma fresh_link_inv:
  assumes "0 < cap" "cap \<le> 2 * MAX_FRAME_BYTES"
  shows "link_inv (fresh_link fcap cap)" "link_queued (fresh_link fcap cap) = []"
    "link_budget (fresh_link fcap cap) = 2 ^ 64 - 1"
proof -
  let ?m = "fst (create_owner fcap cap)"
  have p: "pending cap ?m = []" by (simp add: create_owner_def pending_def circ_def)
  then have w: "whole_frames (pending cap ?m) []" by (simp add: whole_frames_def)
  have "ring_inv cap ?m"
    using assms by (simp add: create_owner_def ring_inv_def MAX_FRAME_BYTES_def)
  with w assms show "link_inv (fresh_link fcap cap)"
    by (auto simp: link_inv_def fresh_link_def create_owner_def open_client_def)
  show "link_queued (fresh_link fcap cap) = []"
    using link_queued_whole [of "open_client cap" ?m "[]"] w
    by (simp add: fresh_link_def create_owner_def open_client_def)
  show "link_budget (fresh_link fcap cap) = 2 ^ 64 - 1"
    by (simp add: fresh_link_def create_owner_def link_budget_def)
qed

text \<open>
  \<^bold>\<open>C11.\<close> Over a fresh ring of at most 8 MiB, for any interleaving of sends (\<open>write_body\<close>) and pump
  iterations (\<open>command_pump\<close>) that stays below \<open>2 ^ 64\<close> bytes, nothing panics, no message is
  split, duplicated, reordered or altered, and after a final pump iteration the bodies forwarded
  are exactly the bodies the ring accepted, although the pump discards unconsumed bytes.
\<close>

theorem pump_delivers_accepted:
  assumes "0 < cap" "cap \<le> 2 * MAX_FRAME_BYTES" "send_total frame_cost ops < 2 ^ 64"
  shows "\<exists>accepted s'.
    chan_run link_send (link_fetch extract) (fresh_link fcap cap) (ops @ [Poll])
      = Some (accepted, accepted, s')"
proof -
  note fresh = fresh_link_inv [OF assms(1,2), of fcap]
  have "send_total frame_cost ops \<le> link_budget (fresh_link fcap cap)"
    using assms(3) unfolding fresh(3) by linarith
  from link.run_drained [OF fresh(1,2) this] show ?thesis by blast
qed

theorem pump_delivers_accepted_witness:
  "\<exists>accepted s'. chan_run link_send (link_fetch (\<lambda>_. None)) (fresh_link 64 256)
    ([Send [1, 2, 3], Poll, Send [4]] @ [Poll]) = Some (accepted, accepted, s')"
  by (rule pump_delivers_accepted) (simp_all add: MAX_FRAME_BYTES_def frame_cost_def)

end
