(* ===== verification/F64.thy ===== *)
theory F64
  imports Corsair_Prelude Complex_Main
begin

section \<open>IEEE-754 double precision\<close>

text \<open>
  The sources compute with Rust's \<^verbatim>\<open>f64\<close>.  A value is its 64-bit pattern
  (\<^verbatim>\<open>f64::to_bits\<close>), so conversions to wire bytes are exact, and the arithmetic
  operations are the correctly rounded ones of the standard (round to nearest, ties to
  even) on the exact rational values, with infinities, signed zeros and NaN.  Rust leaves
  the payload of a NaN result open; the model uses one quiet NaN, and no property below
  depends on its payload.

  The magnitude of a float is its pattern without the sign bit.  It orders the non-negative
  floats: consecutive magnitudes are consecutive floats, infinity is \<open>inf_mag\<close> and larger
  magnitudes are NaN.  Comparison is therefore comparison of a signed integer key, and the
  rounding function is monotone and exact on floats, which is all that the properties of the
  other components need.
\<close>

datatype f64 = F64 (to_bits: u64)

definition inf_mag :: int where "inf_mag = 0x7FF0000000000000"

definition mag :: "f64 \<Rightarrow> int" where
  "mag x = uint (to_bits x) mod 0x8000000000000000"

definition sign_neg :: "f64 \<Rightarrow> bool" where
  "sign_neg x \<longleftrightarrow> 0x8000000000000000 \<le> uint (to_bits x)"

definition mk_f64 :: "bool \<Rightarrow> int \<Rightarrow> f64" where
  "mk_f64 s m = F64 (word_of_int (if s then 0x8000000000000000 + m else m))"

definition is_nan :: "f64 \<Rightarrow> bool" where "is_nan x \<longleftrightarrow> inf_mag < mag x"
definition is_infinite :: "f64 \<Rightarrow> bool" where "is_infinite x \<longleftrightarrow> mag x = inf_mag"
definition is_finite :: "f64 \<Rightarrow> bool" where "is_finite x \<longleftrightarrow> mag x < inf_mag"
definition is_zero :: "f64 \<Rightarrow> bool" where "is_zero x \<longleftrightarrow> mag x = 0"

definition f64_nan :: f64 where "f64_nan = mk_f64 False 0x7FF8000000000000"
definition f64_inf :: "bool \<Rightarrow> f64" where "f64_inf s = mk_f64 s inf_mag"

subsection \<open>Exact values\<close>

text \<open>
  The value of a magnitude is \<open>significand * 2 ^ (exponent - 1075)\<close>, denormals included;
  the exponent field is the magnitude divided by \<open>2 ^ 52 = 0x10000000000000\<close>.
\<close>

definition sig_of :: "int \<Rightarrow> int" where
  "sig_of m = (if m < 0x10000000000000 then m
     else 0x10000000000000 + m mod 0x10000000000000)"

definition exp_of :: "int \<Rightarrow> int" where
  "exp_of m = max 1 (m div 0x10000000000000)"

definition scale2 :: "rat \<Rightarrow> int \<Rightarrow> rat" where
  "scale2 q k = (if 0 \<le> k then q * 2 ^ nat k else q / 2 ^ nat (- k))"

definition mag_val :: "int \<Rightarrow> rat" where
  "mag_val m = scale2 (of_int (sig_of m)) (exp_of m - 1075)"

text \<open>For evaluation: powers of two as integers, and the value of a zero without its exponent.\<close>

lemma scale2_code [code]: "scale2 q k = (if 0 \<le> k then q * of_int (2 ^ nat k) else q / of_int (2 ^ nat (- k)))"
  by (simp add: scale2_def)

lemma mag_val_code [code]:
  "mag_val m = (if m = 0 then 0 else scale2 (of_int (sig_of m)) (exp_of m - 1075))"
  by (simp add: mag_val_def sig_of_def scale2_def)

definition val :: "f64 \<Rightarrow> rat" where
  "val x = (if sign_neg x then - mag_val (mag x) else mag_val (mag x))"

subsection \<open>Rounding\<close>

function ilog2 :: "int \<Rightarrow> int" where
  "ilog2 n = (if n < 2 then 0 else 1 + ilog2 (n div 2))"
  by pat_completeness auto
termination
  by (relation "measure nat") auto

declare ilog2.simps [simp del]

text \<open>For evaluation: bit lengths and common divisors from the binary digits.\<close>

lemma ilog2_num [code]:
  "ilog2 0 = 0" "ilog2 (Int.Neg n) = 0" "ilog2 (Int.Pos Num.One) = 0" "ilog2 (Int.Pos (Num.Bit0 n)) = 1 + ilog2 (Int.Pos n)"
  "ilog2 (Int.Pos (Num.Bit1 n)) = 1 + ilog2 (Int.Pos n)"
proof -
  have "\<not> numeral (Num.Bit0 n) < (2 :: int)" "\<not> numeral (Num.Bit1 n) < (2 :: int)" "- numeral n < (2 :: int)"
    "numeral (Num.Bit0 n) div 2 = (numeral n :: int)" "numeral (Num.Bit1 n) div 2 = (numeral n :: int)" by simp_all
  then show "ilog2 0 = 0" "ilog2 (Int.Neg n) = 0" "ilog2 (Int.Pos Num.One) = 0" "ilog2 (Int.Pos (Num.Bit0 n)) = 1 + ilog2 (Int.Pos n)"
    "ilog2 (Int.Pos (Num.Bit1 n)) = 1 + ilog2 (Int.Pos n)"
    unfolding Int.Pos_def Int.Neg_def by (subst ilog2.simps; simp only: if_False if_True; simp)+
qed

fun gcd_num :: "num \<Rightarrow> num \<Rightarrow> int" where
  "gcd_num Num.One b = 1"
| "gcd_num a Num.One = 1"
| "gcd_num (Num.Bit0 a) (Num.Bit0 b) = 2 * gcd_num a b"
| "gcd_num (Num.Bit0 a) (Num.Bit1 b) = gcd_num a (Num.Bit1 b)"
| "gcd_num (Num.Bit1 a) (Num.Bit0 b) = gcd_num (Num.Bit1 a) b"
| "gcd_num (Num.Bit1 a) (Num.Bit1 b) = gcd (numeral (Num.Bit1 b)) (numeral (Num.Bit1 a) mod numeral (Num.Bit1 b))"

lemma gcd_twice:
  "gcd (numeral (Num.Bit0 a)) (numeral (Num.Bit0 b)) = 2 * gcd (numeral a) (numeral b :: int)"
  "gcd (numeral (Num.Bit0 a)) (numeral (Num.Bit1 b)) = gcd (numeral a) (numeral (Num.Bit1 b) :: int)"
  "gcd (numeral (Num.Bit1 a)) (numeral (Num.Bit0 b)) = gcd (numeral (Num.Bit1 a)) (numeral b :: int)"
proof -
  have b0: "numeral (Num.Bit0 n) = 2 * (numeral n :: int)" for n by simp
  show "gcd (numeral (Num.Bit0 a)) (numeral (Num.Bit0 b)) = 2 * gcd (numeral a) (numeral b :: int)"
    unfolding b0 [of a] b0 [of b] using gcd_mult_distrib_int [of 2 "numeral a" "numeral b"] by simp
  have odd: "coprime 2 (numeral (Num.Bit1 n) :: int)" for n by simp
  show "gcd (numeral (Num.Bit0 a)) (numeral (Num.Bit1 b)) = gcd (numeral a) (numeral (Num.Bit1 b) :: int)"
    unfolding b0 [of a] by (rule gcd_mult_left_left_cancel) (simp only: odd coprime_commute)
  show "gcd (numeral (Num.Bit1 a)) (numeral (Num.Bit0 b)) = gcd (numeral (Num.Bit1 a)) (numeral b :: int)"
    unfolding b0 [of b] by (rule gcd_mult_right_left_cancel) (simp only: odd coprime_commute)
qed

lemma gcd_num: "gcd_num a b = gcd (numeral a) (numeral b)"
proof (induction a b rule: gcd_num.induct)
  case (6 a b)
  show ?case unfolding gcd_num.simps by (rule gcd_red_int [symmetric])
qed (simp_all only: gcd_num.simps gcd_twice numeral_One gcd_1_int gcd.bottom_left_bottom gcd.bottom_right_bottom)

lemma gcd_int_num [code]:
  "gcd (0::int) l = \<bar>l\<bar>" "gcd k (0::int) = \<bar>k\<bar>"
  "gcd (Int.Pos a) (Int.Pos b) = gcd_num a b" "gcd (Int.Neg a) (Int.Pos b) = gcd_num a b"
  "gcd (Int.Pos a) (Int.Neg b) = gcd_num a b" "gcd (Int.Neg a) (Int.Neg b) = gcd_num a b"
  by (simp_all add: gcd_num)

text \<open>\<open>log2_rat q\<close> is the exponent \<open>l\<close> with \<open>2 ^ l \<le> q < 2 ^ (l + 1)\<close>, for a positive \<open>q\<close>.\<close>

definition log2_rat :: "rat \<Rightarrow> int" where
  "log2_rat q = (let (a, b) = quotient_of q; l = ilog2 a - ilog2 b
     in if scale2 1 l \<le> q then l else l - 1)"

definition round_even :: "rat \<Rightarrow> int" where
  "round_even r = (let n = \<lfloor>r\<rfloor>; d = r - of_int n
     in if d < 1 / 2 then n else if 1 / 2 < d then n + 1 else if even n then n else n + 1)"

definition round_mag :: "rat \<Rightarrow> int" where
  "round_mag q = (if q \<le> 0 then 0 else
     let s = max 0 (log2_rat q + 1022) in
     min inf_mag (s * 0x10000000000000 + round_even (scale2 q (1074 - s))))"

text \<open>Rounding of an exact result; the flag is the sign of a zero result.\<close>

definition round_f64 :: "bool \<Rightarrow> rat \<Rightarrow> f64" where
  "round_f64 z q = (if q = 0 then mk_f64 z 0 else mk_f64 (q < 0) (round_mag \<bar>q\<bar>))"

text \<open>A decimal literal of the source denotes the double nearest to it.\<close>

definition lit :: "rat \<Rightarrow> f64" where
  "lit q = round_f64 False q"

subsection \<open>Arithmetic\<close>

definition fneg :: "f64 \<Rightarrow> f64" where
  "fneg x = mk_f64 (\<not> sign_neg x) (mag x)"

definition fabs :: "f64 \<Rightarrow> f64" where
  "fabs x = mk_f64 False (mag x)"

definition fadd :: "f64 \<Rightarrow> f64 \<Rightarrow> f64" where
  "fadd x y =
     (if is_nan x \<or> is_nan y then f64_nan
      else if is_infinite x then (if is_infinite y \<and> sign_neg x \<noteq> sign_neg y then f64_nan else x)
      else if is_infinite y then y
      else round_f64 (sign_neg x \<and> sign_neg y) (val x + val y))"

definition fmul :: "f64 \<Rightarrow> f64 \<Rightarrow> f64" where
  "fmul x y =
     (let s = (sign_neg x \<noteq> sign_neg y) in
      if is_nan x \<or> is_nan y then f64_nan
      else if is_infinite x \<or> is_infinite y
        then (if is_zero x \<or> is_zero y then f64_nan else f64_inf s)
      else round_f64 s (val x * val y))"

definition fdiv :: "f64 \<Rightarrow> f64 \<Rightarrow> f64" where
  "fdiv x y =
     (let s = (sign_neg x \<noteq> sign_neg y) in
      if is_nan x \<or> is_nan y then f64_nan
      else if is_infinite x then (if is_infinite y then f64_nan else f64_inf s)
      else if is_infinite y then mk_f64 s 0
      else if is_zero y then (if is_zero x then f64_nan else f64_inf s)
      else round_f64 s (val x / val y))"

text \<open>The order key: sign and magnitude as one integer; both zeros have key 0.\<close>

definition fkey :: "f64 \<Rightarrow> int" where
  "fkey x = (if sign_neg x then - mag x else mag x)"

text \<open>
  The operators of the sources are the operators of the type: \<open>+\<close>, \<open>-\<close>, \<open>*\<close>, \<open>/\<close>, unary
  minus and the comparisons, which are false on NaN.  Rust's \<^verbatim>\<open>==\<close> is \<open>feq\<close>, not HOL equality.
\<close>

instantiation f64 :: "{plus, minus, uminus, times, inverse, ord, zero, one, abs}"
begin

definition plus_f64 :: "f64 \<Rightarrow> f64 \<Rightarrow> f64" where "plus_f64 = fadd"
definition minus_f64 :: "f64 \<Rightarrow> f64 \<Rightarrow> f64" where "minus_f64 x y = fadd x (fneg y)"
definition uminus_f64 :: "f64 \<Rightarrow> f64" where "uminus_f64 = fneg"
definition times_f64 :: "f64 \<Rightarrow> f64 \<Rightarrow> f64" where "times_f64 = fmul"
definition divide_f64 :: "f64 \<Rightarrow> f64 \<Rightarrow> f64" where "divide_f64 = fdiv"
definition inverse_f64 :: "f64 \<Rightarrow> f64" where "inverse_f64 x = fdiv (lit 1) x"
definition zero_f64 :: f64 where "zero_f64 = mk_f64 False 0"
definition one_f64 :: f64 where "one_f64 = lit 1"
definition abs_f64 :: "f64 \<Rightarrow> f64" where "abs_f64 = fabs"
definition less_eq_f64 :: "f64 \<Rightarrow> f64 \<Rightarrow> bool" where
  "less_eq_f64 x y \<longleftrightarrow> \<not> is_nan x \<and> \<not> is_nan y \<and> fkey x \<le> fkey y"
definition less_f64 :: "f64 \<Rightarrow> f64 \<Rightarrow> bool" where
  "less_f64 x y \<longleftrightarrow> \<not> is_nan x \<and> \<not> is_nan y \<and> fkey x < fkey y"

instance ..

end

definition feq :: "f64 \<Rightarrow> f64 \<Rightarrow> bool" where
  "feq x y \<longleftrightarrow> \<not> is_nan x \<and> \<not> is_nan y \<and> fkey x = fkey y"

text \<open>\<^verbatim>\<open>f64::max\<close> and \<^verbatim>\<open>f64::min\<close> ignore a NaN argument.\<close>

definition fmax :: "f64 \<Rightarrow> f64 \<Rightarrow> f64" where
  "fmax x y = (if is_nan x then y else if is_nan y then x else if x < y then y else x)"

definition fmin :: "f64 \<Rightarrow> f64 \<Rightarrow> f64" where
  "fmin x y = (if is_nan x then y else if is_nan y then x else if y < x then y else x)"

text \<open>\<^verbatim>\<open>f64::round\<close> (half away from zero) and \<^verbatim>\<open>f64::trunc\<close>; the result is again a float.\<close>

definition round_away :: "rat \<Rightarrow> int" where
  "round_away q = (if 0 \<le> q then \<lfloor>q + 1 / 2\<rfloor> else - \<lfloor>1 / 2 - q\<rfloor>)"

definition trunc_rat :: "rat \<Rightarrow> int" where
  "trunc_rat q = (if 0 \<le> q then \<lfloor>q\<rfloor> else - \<lfloor>- q\<rfloor>)"

definition fround :: "f64 \<Rightarrow> f64" where
  "fround x = (if is_finite x then round_f64 (sign_neg x) (of_int (round_away (val x))) else x)"

definition ftrunc :: "f64 \<Rightarrow> f64" where
  "ftrunc x = (if is_finite x then round_f64 (sign_neg x) (of_int (trunc_rat (val x))) else x)"

definition ffract :: "f64 \<Rightarrow> f64" where
  "ffract x = x - ftrunc x"

subsection \<open>Casts\<close>

text \<open>\<^verbatim>\<open>as f64\<close> from an integer rounds; \<^verbatim>\<open>as i32\<close> and \<^verbatim>\<open>as i64\<close> truncate, saturate and send NaN to 0.\<close>

definition f64_of_int :: "int \<Rightarrow> f64" where
  "f64_of_int k = round_f64 False (of_int k)"

definition clamp_int :: "int \<Rightarrow> int \<Rightarrow> int \<Rightarrow> int" where
  "clamp_int lo hi k = max lo (min hi k)"

definition f64_to_int :: "int \<Rightarrow> int \<Rightarrow> f64 \<Rightarrow> int" where
  "f64_to_int lo hi x =
     (if is_nan x then 0
      else if is_infinite x then (if sign_neg x then lo else hi)
      else clamp_int lo hi (trunc_rat (val x)))"

definition f64_as_i32 :: "f64 \<Rightarrow> i32" where
  "f64_as_i32 x = word_of_int (f64_to_int (- (2 ^ 31)) (2 ^ 31 - 1) x)"

definition f64_as_u32 :: "f64 \<Rightarrow> u32" where
  "f64_as_u32 x = word_of_int (f64_to_int 0 (2 ^ 32 - 1) x)"

definition f64_as_i64 :: "f64 \<Rightarrow> i64" where
  "f64_as_i64 x = word_of_int (f64_to_int (- (2 ^ 63)) (2 ^ 63 - 1) x)"

definition i32_as_f64 :: "i32 \<Rightarrow> f64" where "i32_as_f64 q = f64_of_int (sint q)"
definition u32_as_f64 :: "u32 \<Rightarrow> f64" where "u32_as_f64 q = f64_of_int (uint q)"
definition i64_as_f64 :: "i64 \<Rightarrow> f64" where "i64_as_f64 q = f64_of_int (sint q)"
definition u64_as_f64 :: "u64 \<Rightarrow> f64" where "u64_as_f64 q = f64_of_int (uint q)"

end
