(* ===== verification/Broker_Api.thy ===== *)
theory Broker_Api
  imports F64
begin

section \<open>Shared broker types\<close>

text \<open>
  The types of \<^verbatim>\<open>rust/corsair_broker_api/src\<close> (\<^verbatim>\<open>contract.rs\<close>, \<^verbatim>\<open>orders.rs\<close>, \<^verbatim>\<open>error.rs\<close>,
  \<^verbatim>\<open>events.rs\<close>) that the position book, the hedge manager, the risk monitor and the broker
  adapter exchange, and their small total functions.  A \<^verbatim>\<open>NaiveDate\<close> is the number of days since
  1970-01-01 and a \<^verbatim>\<open>DateTime<Utc>\<close> the number of nanoseconds since then; the sources only compare
  and subtract them.
\<close>

type_synonym naive_date = int
type_synonym date_time = int

datatype right = Call | Put

fun right_as_char :: "right \<Rightarrow> char" where
  "right_as_char Call = CHR ''C''"
| "right_as_char Put = CHR ''P''"

definition to_ascii_uppercase :: "char \<Rightarrow> char" where
  "to_ascii_uppercase c =
     (if 97 \<le> (of_char c :: nat) \<and> of_char c \<le> (122 :: nat) then char_of ((of_char c :: nat) - 32) else c)"

definition right_from_char :: "char \<Rightarrow> right option" where
  "right_from_char c =
     (let u = to_ascii_uppercase c in
      if u = CHR ''C'' then Some Call else if u = CHR ''P'' then Some Put else None)"

datatype side = Buy | Sell

fun side_as_char :: "side \<Rightarrow> char" where
  "side_as_char Buy = CHR ''B''"
| "side_as_char Sell = CHR ''S''"

datatype contract_kind = Future | Option

datatype exchange = Cme | Comex | Nymex | Cbot | OtherExchange u8

datatype currency = Usd | Eur | Gbp | Jpy

record contract =
  instrument_id :: u64
  c_kind :: contract_kind
  c_symbol :: string
  c_local_symbol :: string
  c_expiry :: naive_date
  c_strike :: "f64 option"
  c_right :: "right option"
  c_multiplier :: f64
  c_exchange :: exchange
  c_currency :: currency
  c_trading_class :: string

datatype order_type = Limit | Market | StopLimit (stop_price: f64)

datatype time_in_force = Gtc | Day | Gtd | Ioc | Fok

datatype order_status =
  PendingSubmit | Submitted | Filled | Cancelled | RejectedStatus | PendingCancel | Inactive

fun is_terminal :: "order_status \<Rightarrow> bool" where
  "is_terminal Filled = True"
| "is_terminal Cancelled = True"
| "is_terminal RejectedStatus = True"
| "is_terminal _ = False"

record place_order_req =
  po_contract :: contract
  po_side :: side
  po_qty :: u32
  po_order_type :: order_type
  po_price :: "f64 option"
  po_tif :: time_in_force
  po_gtd_until :: "date_time option"
  po_client_ref :: string
  po_account :: "string option"

datatype broker_error =
    ConnectionLost string
  | NotConnected string
  | OrderRejected "u64 option" string
  | CancelTerminal string
  | ModifyTerminal string
  | ContractNotFound string
  | RateLimited string
  | AccountError string
  | InvalidRequest string
  | ProtocolError "i32 option" string
  | InternalError string

fun is_connection_error :: "broker_error \<Rightarrow> bool" where
  "is_connection_error (ConnectionLost _) = True"
| "is_connection_error (NotConnected _) = True"
| "is_connection_error _ = False"

fun is_retriable :: "broker_error \<Rightarrow> bool" where
  "is_retriable (RateLimited _) = True"
| "is_retriable (ConnectionLost _) = True"
| "is_retriable (ProtocolError _ _) = True"
| "is_retriable _ = False"

lemma right_from_char_as_char [simp]: "right_from_char (right_as_char r) = Some r"
  by (cases r) (simp_all add: right_from_char_def to_ascii_uppercase_def)

text \<open>
  \<^verbatim>\<open>Iterator::sum\<close> over \<^verbatim>\<open>f64\<close> folds from \<open>-0.0\<close>, the neutral element of the addition of floats.
\<close>

definition fsum :: "f64 list \<Rightarrow> f64" where
  "fsum xs = fold (\<lambda>x acc. acc + x) xs (- 0)"

text \<open>\<^verbatim>\<open>TimeDelta::num_seconds\<close> drops the fraction towards zero.\<close>

definition num_seconds :: "int \<Rightarrow> int" where
  "num_seconds ns = (if 0 \<le> ns then ns div 1000000000 else - ((- ns) div 1000000000))"

end
