(* ===== verification/Greeks.thy ===== *)
theory Greeks
  imports Broker_Api
begin

section \<open>Black-76 greeks\<close>

text \<open>
  Model of \<^verbatim>\<open>rust/corsair_pricing/src/greeks.rs\<close>.  The elementary functions \<^verbatim>\<open>exp\<close>, \<^verbatim>\<open>ln\<close>,
  \<^verbatim>\<open>sqrt\<close> and \<^verbatim>\<open>powf\<close> are those of the platform's mathematics library, whose last digits Rust leaves open, and
  the normal distribution is the \<^verbatim>\<open>statrs\<close> crate's: they are the fields of the parameter \<open>libm\<close>.
  What is proved holds for every choice of them: the greeks a book stores are never NaN or
  infinite, whatever the inputs.
\<close>

record libm =
  exp_fn :: "f64 \<Rightarrow> f64"
  ln_fn :: "f64 \<Rightarrow> f64"
  sqrt_fn :: "f64 \<Rightarrow> f64"
  powf_fn :: "f64 \<Rightarrow> f64 \<Rightarrow> f64"
  norm_cdf :: "f64 \<Rightarrow> f64"

definition norm_pdf :: "libm \<Rightarrow> f64 \<Rightarrow> f64" where
  "norm_pdf lm x = lit (3989422804014327 / 10000000000000000) * exp_fn lm (- lit (1 / 2) * x * x)"

record greeks_out =
  g_delta :: f64
  g_gamma :: f64
  g_theta :: f64
  g_vega :: f64
  g_iv :: f64

text \<open>The fallback of both early returns: the intrinsic delta and no other greek.\<close>

definition intrinsic_greeks :: "f64 \<Rightarrow> f64 \<Rightarrow> f64 \<Rightarrow> bool \<Rightarrow> greeks_out" where
  "intrinsic_greeks f k sigma is_call =
     (let d = (if k < f then lit 1 else if f < k then 0 else lit (1 / 2));
          d' = (if is_call then d else d - lit 1)
      in \<lparr>g_delta = d', g_gamma = 0, g_theta = 0, g_vega = 0, g_iv = sigma\<rparr>)"

definition compute_greeks ::
  "libm \<Rightarrow> f64 \<Rightarrow> f64 \<Rightarrow> f64 \<Rightarrow> f64 \<Rightarrow> f64 \<Rightarrow> char \<Rightarrow> f64 \<Rightarrow> greeks_out" where
  "compute_greeks lm f k t sigma r rt mult =
     (let is_call = (rt = CHR ''C'' \<or> rt = CHR ''c'') in
      if t < lit (1 / 10 ^ 10) \<or> sigma \<le> 0 \<or> f \<le> 0 \<or> k \<le> 0
      then intrinsic_greeks f k sigma is_call
      else
        let discount = exp_fn lm (- r * t);
            sqrt_t = sqrt_fn lm t;
            d1 = (ln_fn lm (f / k) + lit (1 / 2) * sigma * sigma * t) / (sigma * sqrt_t);
            d2 = d1 - sigma * sqrt_t;
            n_d1 = norm_pdf lm d1;
            big_n_d1 = norm_cdf lm d1;
            big_n_d2 = norm_cdf lm d2;
            delta = (if is_call then discount * big_n_d1 else discount * (big_n_d1 - lit 1));
            gamma = discount * n_d1 / (f * sigma * sqrt_t) * mult;
            common = - discount * f * n_d1 * sigma / (lit 2 * sqrt_t);
            theta = (if is_call then (common - r * k * discount * big_n_d2) / lit 365
                     else (common + r * k * discount * norm_cdf lm (- d2)) / lit 365);
            theta_dollar = theta * mult;
            vega = f * discount * n_d1 * sqrt_t / lit 100;
            vega_dollar = vega * mult
        in if \<not> is_finite delta \<or> \<not> is_finite gamma \<or> \<not> is_finite theta_dollar
              \<or> \<not> is_finite vega_dollar
           then intrinsic_greeks f k sigma is_call
           else \<lparr>g_delta = delta, g_gamma = gamma, g_theta = theta_dollar, g_vega = vega_dollar,
                  g_iv = sigma\<rparr>)"

definition finite_greeks :: "greeks_out \<Rightarrow> bool" where
  "finite_greeks g \<longleftrightarrow>
     is_finite (g_delta g) \<and> is_finite (g_gamma g) \<and> is_finite (g_theta g) \<and> is_finite (g_vega g)"

lemma is_finite_consts [simp]:
  "is_finite 0" "is_finite (lit 1)" "is_finite (lit (1 / 2))"
  "is_finite (0 - lit 1)" "is_finite (lit 1 - lit 1)" "is_finite (lit (1 / 2) - lit 1)"
  by code_simp+

lemma finite_intrinsic_greeks: "finite_greeks (intrinsic_greeks f k sigma c)"
  by (simp add: finite_greeks_def intrinsic_greeks_def Let_def)

lemma compute_greeks_finite_step: "finite_greeks (compute_greeks lm f k t sigma r rt mult)"
  unfolding compute_greeks_def Let_def
  by (simp add: finite_intrinsic_greeks) (simp add: finite_greeks_def)

text \<open>
  Whatever the inputs and the mathematics library return, NaN and infinities included,
  \<open>compute_greeks\<close> never lets a non-finite greek out.
\<close>

theorem compute_greeks_finite: "finite_greeks (compute_greeks lm f k t sigma r rt mult)"
  by (rule compute_greeks_finite_step)

end
