(* ===== verification/F64_Lemmas.thy ===== *)
theory F64_Lemmas
  imports F64
begin

section \<open>Order and rounding lemmas for doubles\<close>

text \<open>
  The facts the components use of the arithmetic in \<open>F64\<close>: sign and magnitude determine a
  float, comparison is comparison of keys, rounding is monotone and is the identity on the
  values of floats, so comparison of finite floats is comparison of their values.
\<close>

named_theorems f64_ord \<open>comparisons of floats as comparisons of keys\<close>

subsection \<open>Sign and magnitude\<close>

lemma mag_nonneg [simp]: "0 \<le> mag x"
  by (simp add: mag_def)

lemma mag_less: "mag x < 0x8000000000000000"
  by (simp add: mag_def)

lemma uint_mk_f64:
  assumes "0 \<le> m" "m < 0x8000000000000000"
  shows "uint (to_bits (mk_f64 s m)) = (if s then 0x8000000000000000 + m else m)"
  using assms by (simp add: mk_f64_def unsigned_of_int take_bit_eq_mod)

lemma mag_mk_f64 [simp]: "0 \<le> m \<Longrightarrow> m < 0x8000000000000000 \<Longrightarrow> mag (mk_f64 s m) = m"
  by (simp add: mag_def uint_mk_f64)

lemma sign_neg_mk_f64 [simp]:
  "0 \<le> m \<Longrightarrow> m < 0x8000000000000000 \<Longrightarrow> sign_neg (mk_f64 s m) = s"
  by (simp add: sign_neg_def uint_mk_f64)

lemma mk_f64_mag [simp]: "mk_f64 (sign_neg x) (mag x) = x"
proof -
  have "uint (to_bits x) < 0x10000000000000000"
    using uint_lt2p [of "to_bits x"] by simp
  moreover have "uint (to_bits x) mod 0x8000000000000000
      = (uint (to_bits x) - 0x8000000000000000) mod 0x8000000000000000" by simp
  ultimately have "(if sign_neg x then 0x8000000000000000 + mag x else mag x) = uint (to_bits x)"
    by (auto simp: sign_neg_def mag_def mod_pos_pos_trivial simp del: minus_mod_self2)
  then show ?thesis unfolding mk_f64_def by simp
qed

lemma inf_mag_bounds [simp]: "0 < inf_mag" "inf_mag < 0x8000000000000000"
  by (simp_all add: inf_mag_def)

lemma fneg_simps [simp]:
  "mag (fneg x) = mag x" "sign_neg (fneg x) = (\<not> sign_neg x)" "fneg (fneg x) = x"
  by (simp_all add: fneg_def mag_less)

lemma fneg_class [simp]:
  "is_nan (fneg x) = is_nan x" "is_infinite (fneg x) = is_infinite x"
  "is_finite (fneg x) = is_finite x" "is_zero (fneg x) = is_zero x"
  by (simp_all add: is_nan_def is_infinite_def is_finite_def is_zero_def)

lemma fabs_simps [simp]:
  "mag \<bar>x\<bar> = mag (x :: f64)" "\<not> sign_neg \<bar>x\<bar>"
  by (simp_all add: abs_f64_def fabs_def mag_less)

lemma fabs_class [simp]:
  "is_nan \<bar>x\<bar> = is_nan x" "is_finite \<bar>x\<bar> = is_finite (x :: f64)"
  by (simp_all add: is_nan_def is_finite_def)

lemma finite_not_nan: "is_finite x \<Longrightarrow> \<not> is_nan x"
  by (simp add: is_finite_def is_nan_def)

lemma fkey_fneg [simp]: "fkey (fneg x) = - fkey x"
  by (simp add: fkey_def)

lemma fkey_fabs [simp]: "fkey \<bar>x\<bar> = \<bar>fkey x\<bar>"
  by (simp add: fkey_def)

lemma val_fneg [simp]: "val (fneg x) = - val x"
  by (simp add: val_def)

lemma zero_f64_simps [simp]:
  "mag 0 = 0" "\<not> sign_neg 0" "fkey 0 = 0" "\<not> is_nan 0" "is_finite 0"
  by (simp_all add: zero_f64_def fkey_def is_nan_def is_finite_def inf_mag_def)

lemma mag_zero_or_pos: "mag x = 0 \<or> 0 < mag x"
  using mag_nonneg [of x] by linarith

subsection \<open>Comparisons\<close>

lemma f64_less_iff [f64_ord]: "x < y \<longleftrightarrow> \<not> is_nan x \<and> \<not> is_nan y \<and> fkey x < fkey y"
  by (simp add: less_f64_def)

lemma f64_le_iff [f64_ord]: "x \<le> y \<longleftrightarrow> \<not> is_nan x \<and> \<not> is_nan y \<and> fkey x \<le> fkey y"
  by (simp add: less_eq_f64_def)

lemma f64_feq_iff [f64_ord]: "feq x y \<longleftrightarrow> \<not> is_nan x \<and> \<not> is_nan y \<and> fkey x = fkey y"
  by (simp add: feq_def)

lemma f64_not_less: "\<not> is_nan x \<Longrightarrow> \<not> is_nan y \<Longrightarrow> (\<not> x < (y :: f64)) = (y \<le> x)"
  by (auto simp: f64_ord)

lemma f64_not_le: "\<not> is_nan x \<Longrightarrow> \<not> is_nan y \<Longrightarrow> (\<not> x \<le> (y :: f64)) = (y < x)"
  by (simp add: f64_ord not_le)

lemma f64_nan_is_nan [simp]: "is_nan f64_nan"
  by (simp add: is_nan_def f64_nan_def inf_mag_def)

lemma fmul_nan: "is_nan x \<or> is_nan y \<Longrightarrow> is_nan (x * y)"
  by (auto simp: times_f64_def fmul_def Let_def)

lemma f64_less_le_trans: "(x :: f64) < y \<Longrightarrow> y \<le> z \<Longrightarrow> x < z"
  by (auto simp: f64_ord)

lemma f64_le_less_trans: "(x :: f64) \<le> y \<Longrightarrow> y < z \<Longrightarrow> x < z"
  by (auto simp: f64_ord)

lemma f64_le_trans: "(x :: f64) \<le> y \<Longrightarrow> y \<le> z \<Longrightarrow> x \<le> z"
  by (auto simp: f64_ord)

lemma f64_less_trans: "(x :: f64) < y \<Longrightarrow> y < z \<Longrightarrow> x < z"
  by (auto simp: f64_ord)

lemma f64_less_imp_le: "(x :: f64) < y \<Longrightarrow> x \<le> y"
  by (auto simp: f64_ord)

lemma f64_less_asym: "(x :: f64) < y \<Longrightarrow> \<not> y < x"
  by (auto simp: f64_ord)

lemma fmin_le:
  "\<not> is_nan x \<Longrightarrow> \<not> is_nan y \<Longrightarrow> fmin x y \<le> x" "\<not> is_nan x \<Longrightarrow> \<not> is_nan y \<Longrightarrow> fmin x y \<le> y"
  by (auto simp: fmin_def f64_ord)

lemma fmax_ge:
  "\<not> is_nan x \<Longrightarrow> \<not> is_nan y \<Longrightarrow> x \<le> fmax x y" "\<not> is_nan x \<Longrightarrow> \<not> is_nan y \<Longrightarrow> y \<le> fmax x y"
  by (auto simp: fmax_def f64_ord)

subsection \<open>Logarithm and integer rounding\<close>

lemma scale2_powi: "scale2 q k = q * 2 powi k"
proof (cases "0 \<le> k")
  case False
  then have "(2 :: rat) powi k = inverse (2 ^ nat (- k))"
    using power_int_minus [of 2 "- k"] by (simp add: power_int_nonneg_exp)
  with False show ?thesis by (simp add: scale2_def divide_inverse)
qed (simp add: scale2_def power_int_nonneg_exp)

lemma powi2_le_iff: "(2 :: rat) powi a \<le> 2 powi b \<longleftrightarrow> a \<le> b"
proof (cases "a \<le> b")
  case True
  then have "(2 :: rat) powi a \<le> 2 powi b" by (rule power_int_increasing) simp
  with True show ?thesis by blast
next
  case False
  then have "(2 :: rat) powi b < 2 powi a" by (intro power_int_strict_increasing) simp_all
  with False show ?thesis by (meson not_le)
qed

lemma powi2_less_iff: "(2 :: rat) powi a < 2 powi b \<longleftrightarrow> a < b"
  by (meson not_le powi2_le_iff)

lemma powi2_add: "(2 :: rat) powi a * 2 powi b = 2 powi (a + b)"
  by (simp add: power_int_add)

lemma powi2_52: "(2 :: rat) powi 52 = 0x10000000000000" "(2 :: rat) powi 53 = 0x20000000000000"
  by simp_all

lemma ilog2_bounds:
  "1 \<le> n \<Longrightarrow> 0 \<le> ilog2 n \<and> 2 ^ nat (ilog2 n) \<le> n \<and> n < 2 * 2 ^ nat (ilog2 n)"
proof (induction n rule: ilog2.induct)
  case (1 n)
  show ?case
  proof (cases "n < 2")
    case True
    with "1.prems" show ?thesis by (simp add: ilog2.simps [of n])
  next
    case False
    define p :: int where "p = 2 ^ nat (ilog2 (n div 2))"
    from False have h: "0 \<le> ilog2 (n div 2)" "p \<le> n div 2" "n div 2 < 2 * p"
      using "1.IH" by (simp_all add: p_def)
    from h(2,3) have "2 * p \<le> n" "n < 4 * p" by linarith+
    with False h(1) show ?thesis
      by (simp add: ilog2.simps [of n] nat_add_distrib p_def)
  qed
qed

lemma ilog2_powi:
  assumes "1 \<le> n"
  shows "2 powi ilog2 n \<le> (of_int n :: rat)" "(of_int n :: rat) < 2 powi (ilog2 n + 1)"
proof -
  from ilog2_bounds [OF assms] have b: "0 \<le> ilog2 n" "2 ^ nat (ilog2 n) \<le> n" "n < 2 * 2 ^ nat (ilog2 n)"
    by auto
  from b(2) have "of_int (2 ^ nat (ilog2 n)) \<le> (of_int n :: rat)" by (simp only: of_int_le_iff)
  with b(1) show "2 powi ilog2 n \<le> (of_int n :: rat)" by (simp add: power_int_def)
  from b(3) have "(of_int n :: rat) < of_int (2 * 2 ^ nat (ilog2 n))" by (simp only: of_int_less_iff)
  with b(1) show "(of_int n :: rat) < 2 powi (ilog2 n + 1)"
    by (simp add: power_int_def nat_add_distrib)
qed

lemma log2_rat_bounds:
  assumes "0 < q"
  shows "2 powi log2_rat q \<le> q" "q < 2 powi (log2_rat q + 1)"
proof -
  obtain a b where ab: "quotient_of q = (a, b)" by (cases "quotient_of q")
  then have q: "q = of_int a / of_int b" and b: "0 < b"
    using quotient_of_div quotient_of_denom_pos by blast+
  with assms have a: "0 < a" by (simp add: zero_less_divide_iff)
  let ?l = "ilog2 a - ilog2 b"
  have a1: "(2 :: rat) powi ilog2 a \<le> of_int a" "of_int a < (2 :: rat) powi (ilog2 a + 1)"
    and b1: "(2 :: rat) powi ilog2 b \<le> of_int b" "of_int b < (2 :: rat) powi (ilog2 b + 1)"
    using ilog2_powi [of a] ilog2_powi [of b] a b by auto
  have "q < 2 powi (ilog2 a + 1) / 2 powi ilog2 b"
    unfolding q using a a1(2) b1(1) by (intro frac_less) auto
  then have up: "q < 2 powi (?l + 1)"
    by (simp add: power_int_diff power_int_add)
  have "2 powi ilog2 a / 2 powi (ilog2 b + 1) < q"
    unfolding q using b a1(1) b1(2) by (intro frac_less2) auto
  then have lo: "2 powi (?l - 1) < q"
    by (simp add: power_int_diff power_int_add)
  have eq: "log2_rat q = (if 2 powi ?l \<le> q then ?l else ?l - 1)"
    by (simp add: log2_rat_def ab scale2_powi)
  show "2 powi log2_rat q \<le> q" using lo by (auto simp: eq)
  show "q < 2 powi (log2_rat q + 1)" using up by (auto simp: eq)
qed

lemma log2_rat_mono:
  assumes "0 < p" "p \<le> q"
  shows "log2_rat p \<le> log2_rat q"
proof -
  have "2 powi log2_rat p \<le> p" using assms by (intro log2_rat_bounds)
  also have "p < 2 powi (log2_rat q + 1)"
    using assms log2_rat_bounds(2) [of q] by simp
  finally show ?thesis by (simp add: powi2_less_iff)
qed

lemma log2_rat_unique:
  assumes "2 powi l \<le> q" "q < 2 powi (l + 1)"
  shows "log2_rat q = l"
proof -
  have q: "0 < q" using assms(1) by (meson less_le_trans zero_less_numeral zero_less_power_int)
  have "(2 :: rat) powi l < 2 powi (log2_rat q + 1)" "(2 :: rat) powi log2_rat q < 2 powi (l + 1)"
    using assms log2_rat_bounds [OF q] by auto
  then show ?thesis by (simp add: powi2_less_iff)
qed

lemma round_even_of_int [simp]: "round_even (of_int n) = n"
  by (simp add: round_even_def)

lemma round_even_floor: "\<lfloor>r\<rfloor> \<le> round_even r" "round_even r \<le> \<lfloor>r\<rfloor> + 1"
  by (simp_all add: round_even_def Let_def)

lemma round_even_mono:
  assumes "p \<le> q"
  shows "round_even p \<le> round_even q"
proof (cases "\<lfloor>p\<rfloor> = \<lfloor>q\<rfloor>")
  case True
  then show ?thesis using assms by (simp add: round_even_def Let_def)
next
  case False
  with floor_mono [OF assms] have "\<lfloor>p\<rfloor> + 1 \<le> \<lfloor>q\<rfloor>" by simp
  then show ?thesis using round_even_floor [of p] round_even_floor [of q] by linarith
qed

subsection \<open>Rounding to a magnitude\<close>

text \<open>The binade index \<open>s\<close> and the scaled value that \<open>round_mag\<close> rounds to an integer.\<close>

definition binade :: "rat \<Rightarrow> int" where
  "binade q = max 0 (log2_rat q + 1022)"

definition scaled :: "rat \<Rightarrow> rat" where
  "scaled q = q * 2 powi (1074 - binade q)"

lemma round_mag_eq:
  "0 < q \<Longrightarrow> round_mag q = min inf_mag (binade q * 0x10000000000000 + round_even (scaled q))"
  by (simp add: round_mag_def binade_def scaled_def scale2_powi Let_def)

lemma scaled_upper:
  assumes "0 < q"
  shows "scaled q < 0x20000000000000"
proof -
  have "scaled q < 2 powi (log2_rat q + 1) * 2 powi (1074 - binade q)"
    unfolding scaled_def using log2_rat_bounds(2) [OF assms] by (intro mult_strict_right_mono) simp_all
  also have "\<dots> = 2 powi (log2_rat q + 1 + (1074 - binade q))"
    by (rule powi2_add)
  also have "\<dots> \<le> (2 :: rat) powi 53"
    by (simp add: powi2_le_iff binade_def del: power_int_numeral)
  finally show ?thesis by simp
qed

lemma scaled_lower:
  assumes "0 < q" "0 < binade q"
  shows "0x10000000000000 \<le> scaled q"
proof -
  have b: "binade q = log2_rat q + 1022" using assms(2) by (simp add: binade_def)
  have "(2 :: rat) powi 52 = 2 powi log2_rat q * 2 powi (1074 - binade q)"
    by (simp add: b powi2_add)
  also have "\<dots> \<le> scaled q"
    unfolding scaled_def using log2_rat_bounds(1) [OF assms(1)] by (intro mult_right_mono) simp_all
  finally show ?thesis by simp
qed

lemma round_even_scaled:
  assumes "0 < q"
  shows "0 \<le> round_even (scaled q)" "round_even (scaled q) \<le> 0x20000000000000"
    "0 < binade q \<Longrightarrow> 0x10000000000000 \<le> round_even (scaled q)"
proof -
  have "0 \<le> scaled q" using assms by (simp add: scaled_def)
  then have "round_even (of_int 0) \<le> round_even (scaled q)" by (intro round_even_mono) simp
  then show "0 \<le> round_even (scaled q)" by (simp only: round_even_of_int)
  have "round_even (scaled q) \<le> round_even (of_int 0x20000000000000)"
    using scaled_upper [OF assms] by (intro round_even_mono) simp
  then show "round_even (scaled q) \<le> 0x20000000000000" by (simp only: round_even_of_int)
  assume "0 < binade q"
  then have "round_even (of_int 0x10000000000000) \<le> round_even (scaled q)"
    using scaled_lower [OF assms] by (intro round_even_mono) simp
  then show "0x10000000000000 \<le> round_even (scaled q)" by (simp only: round_even_of_int)
qed

lemma round_mag_range: "0 \<le> round_mag q" "round_mag q \<le> inf_mag"
proof -
  have "0 \<le> binade q" by (simp add: binade_def)
  then show "0 \<le> round_mag q"
    using round_even_scaled(1) [of q] round_mag_eq [of q]
    by (cases "0 < q") (auto simp: round_mag_def inf_mag_def)
  show "round_mag q \<le> inf_mag"
    using round_mag_eq [of q] by (cases "0 < q") (auto simp: round_mag_def inf_mag_def)
qed

lemma round_mag_mono:
  assumes "p \<le> q"
  shows "round_mag p \<le> round_mag q"
proof (cases "0 < p")
  case False
  then show ?thesis using round_mag_range(1) [of q] by (simp add: round_mag_def)
next
  case True
  with assms have q: "0 < q" by simp
  have "binade p * 0x10000000000000 + round_even (scaled p)
      \<le> binade q * 0x10000000000000 + round_even (scaled q)"
  proof (cases "binade p = binade q")
    case True
    then have "scaled p \<le> scaled q"
      unfolding scaled_def using assms by (simp add: mult_right_mono)
    then have "round_even (scaled p) \<le> round_even (scaled q)" by (rule round_even_mono)
    with True show ?thesis by simp
  next
    case False
    have "binade p \<le> binade q"
      using log2_rat_mono [OF True assms] by (simp add: binade_def)
    moreover have "0 \<le> binade p" by (simp add: binade_def)
    ultimately have "binade p + 1 \<le> binade q" "0 < binade q" using False by linarith+
    then show ?thesis
      using round_even_scaled(2) [OF True] round_even_scaled(3) [OF q] by linarith
  qed
  then show ?thesis using True q by (simp add: round_mag_eq)
qed

lemma mag_val_0 [simp]: "mag_val 0 = 0"
  by (simp add: mag_val_def sig_of_def scale2_def)

lemma mag_val_powi: "mag_val m = of_int (sig_of m) * 2 powi (exp_of m - 1075)"
  by (simp add: mag_val_def scale2_powi)

lemma mag_val_pos: "0 < m \<Longrightarrow> 0 < mag_val m"
  by (auto simp: mag_val_powi sig_of_def intro!: add_pos_nonneg)

lemma binade_scaled_mag_val:
  assumes "0 < m"
  shows "binade (mag_val m) = exp_of m - 1" "scaled (mag_val m) = of_int (sig_of m)"
proof -
  have sc: "of_int (sig_of m) * 2 powi (exp_of m - 1075) * 2 powi (1074 - (exp_of m - 1))
      = (of_int (sig_of m) :: rat)"
    by (simp add: mult.assoc powi2_add)
  show b: "binade (mag_val m) = exp_of m - 1"
  proof (cases "m < 0x10000000000000")
    case True
    then have sig: "sig_of m = m" and e: "exp_of m = 1"
      by (simp_all add: sig_of_def exp_of_def)
    have "(of_int m :: rat) < 2 powi 52" using True by simp
    then have "mag_val m < 2 powi 52 * 2 powi (- 1074)"
      unfolding mag_val_powi sig e by (simp add: mult_strict_right_mono del: power_int_numeral)
    also have "\<dots> = 2 powi (- 1022)" by (simp only: powi2_add) simp
    finally have "2 powi log2_rat (mag_val m) < (2 :: rat) powi (- 1022)"
      using log2_rat_bounds(1) [OF mag_val_pos [OF assms]] by (rule le_less_trans [rotated])
    then have "log2_rat (mag_val m) < - 1022" by (simp only: powi2_less_iff)
    then show ?thesis by (simp add: binade_def e)
  next
    case False
    then have e: "exp_of m = m div 0x10000000000000" "1 \<le> exp_of m"
      by (auto simp: exp_of_def)
    have "2 powi 52 \<le> (of_int (sig_of m) :: rat)" "(of_int (sig_of m) :: rat) < 2 powi 53"
      using False by (auto simp: sig_of_def)
    then have "2 powi 52 * 2 powi (exp_of m - 1075) \<le> mag_val m"
      "mag_val m < 2 powi 53 * 2 powi (exp_of m - 1075)"
      unfolding mag_val_powi
      by (simp_all add: mult_right_mono mult_strict_right_mono del: power_int_numeral)
    then have "2 powi (exp_of m - 1023) \<le> mag_val m" "mag_val m < 2 powi (exp_of m - 1023 + 1)"
      by (simp_all add: powi2_add del: power_int_numeral)
    then have "log2_rat (mag_val m) = exp_of m - 1023" by (rule log2_rat_unique)
    with e show ?thesis by (simp add: binade_def)
  qed
  show "scaled (mag_val m) = of_int (sig_of m)"
    using sc by (simp only: scaled_def b) (simp only: mag_val_powi)
qed

lemma round_mag_mag_val:
  assumes "0 \<le> m" "m \<le> inf_mag"
  shows "round_mag (mag_val m) = m"
proof (cases "m = 0")
  case False
  with assms have m: "0 < m" by simp
  have "(exp_of m - 1) * 0x10000000000000 + sig_of m = m"
  proof (cases "m < 0x10000000000000")
    case False
    then have "1 \<le> m div 0x10000000000000" by simp
    then have "exp_of m = m div 0x10000000000000" by (simp add: exp_of_def)
    then show ?thesis
      using False mult_div_mod_eq [of "0x10000000000000" m] by (simp add: sig_of_def algebra_simps)
  qed (simp add: exp_of_def sig_of_def)
  then show ?thesis
    using m assms(2) mag_val_pos [OF m]
    by (simp add: round_mag_eq binade_scaled_mag_val)
qed (simp add: round_mag_def)

lemma mag_val_less_iff:
  assumes "0 \<le> m" "m \<le> inf_mag" "0 \<le> n" "n \<le> inf_mag"
  shows "mag_val m < mag_val n \<longleftrightarrow> m < n"
proof -
  have "mag_val m \<le> mag_val n \<Longrightarrow> m \<le> n" "mag_val n \<le> mag_val m \<Longrightarrow> n \<le> m"
    using round_mag_mono [of "mag_val m" "mag_val n"] round_mag_mono [of "mag_val n" "mag_val m"]
      assms by (simp_all add: round_mag_mag_val)
  then show ?thesis
    by (metis linorder_not_less order_less_le order_le_less)
qed

subsection \<open>Rounding to a float\<close>

lemma round_mag_bound [simp]: "round_mag q < 0x8000000000000000"
  using round_mag_range(2) [of q] by (simp add: inf_mag_def)

lemma fkey_round_f64: "fkey (round_f64 z q) = (if q < 0 then - round_mag (- q) else round_mag q)"
proof (cases "q = 0")
  case True
  then show ?thesis by (simp add: round_f64_def fkey_def round_mag_def)
next
  case False
  then show ?thesis by (simp add: round_f64_def fkey_def round_mag_range)
qed

lemma round_f64_not_nan [simp]: "\<not> is_nan (round_f64 z q)"
  using round_mag_range [of "\<bar>q\<bar>"] by (auto simp: round_f64_def is_nan_def inf_mag_def)

lemma lit_not_nan [simp]: "\<not> is_nan (lit q)"
  by (simp add: lit_def)

lemma round_f64_mono: "p \<le> q \<Longrightarrow> round_f64 y p \<le> round_f64 z q"
proof -
  assume "p \<le> q"
  then have "round_mag p \<le> round_mag q" "round_mag (- q) \<le> round_mag (- p)"
    by (auto intro: round_mag_mono)
  then show ?thesis
    using \<open>p \<le> q\<close> round_mag_range(1) [of q] round_mag_range(1) [of "- p"]
    by (auto simp: f64_ord fkey_round_f64)
qed

lemma lit_mono: "p \<le> q \<Longrightarrow> lit p \<le> lit q"
  by (simp add: lit_def round_f64_mono)

lemma val_sign:
  assumes "is_finite x"
  shows "val x < 0 \<longleftrightarrow> fkey x < 0" "0 < val x \<longleftrightarrow> 0 < fkey x"
proof -
  have "mag x = 0 \<or> 0 < mag x" by (rule mag_zero_or_pos)
  then show "val x < 0 \<longleftrightarrow> fkey x < 0" "0 < val x \<longleftrightarrow> 0 < fkey x"
    using mag_val_pos [of "mag x"] by (auto simp: val_def fkey_def)
qed

lemma fkey_round_val [simp]:
  assumes "is_finite x"
  shows "fkey (round_f64 z (val x)) = fkey x"
proof -
  have "round_mag (mag_val (mag x)) = mag x"
    using assms by (intro round_mag_mag_val) (simp_all add: is_finite_def)
  moreover have "mag x = 0 \<or> 0 < mag_val (mag x)"
    using mag_val_pos [of "mag x"] mag_zero_or_pos [of x] by blast
  moreover have "round_mag 0 = 0" by (simp add: round_mag_def)
  ultimately show ?thesis
    unfolding fkey_round_f64 by (auto simp: val_def fkey_def)
qed

lemma is_finite_fkey: "is_finite x \<longleftrightarrow> \<bar>fkey x\<bar> < inf_mag"
  by (simp add: is_finite_def fkey_def)

lemma f64_less_val:
  assumes "is_finite x" "is_finite y"
  shows "x < y \<longleftrightarrow> val x < val y"
proof -
  have le: "val x \<le> val y \<Longrightarrow> fkey x \<le> fkey y" "val y \<le> val x \<Longrightarrow> fkey y \<le> fkey x"
    using round_f64_mono [of "val x" "val y" False False]
      round_f64_mono [of "val y" "val x" False False] assms by (simp_all add: f64_ord)
  have "val x = val y" if "fkey x = fkey y"
    using that mag_zero_or_pos [of x] mag_zero_or_pos [of y]
    by (auto simp: fkey_def val_def split: if_splits)
  with le have "fkey x < fkey y \<longleftrightarrow> val x < val y" by linarith
  with assms show ?thesis by (simp add: f64_ord finite_not_nan)
qed

lemma f64_le_val:
  assumes "is_finite x" "is_finite y"
  shows "x \<le> y \<longleftrightarrow> val x \<le> val y"
  using f64_less_val [OF assms(2,1)] assms f64_not_less [of y x]
  by (auto simp: finite_not_nan)

text \<open>
  A rounded value compares with a float as the exact value does: rounding never carries a
  result across a float.
\<close>

lemma round_f64_le:
  assumes "is_finite x" "q \<le> val x"
  shows "round_f64 z q \<le> x"
  using round_f64_mono [OF assms(2), of z False] assms(1) by (simp add: f64_ord finite_not_nan)

lemma round_f64_ge:
  assumes "is_finite x" "val x \<le> q"
  shows "x \<le> round_f64 z q"
  using round_f64_mono [OF assms(2), of False z] assms(1) by (simp add: f64_ord finite_not_nan)

lemma round_f64_less_imp:
  assumes "is_finite x" "round_f64 z q < x"
  shows "q < val x"
  using round_f64_ge [OF assms(1), of q z] assms(2) f64_le_less_trans
  by (metis f64_less_asym linorder_not_less round_f64_not_nan f64_not_less finite_not_nan assms(1))

lemma round_f64_greater_imp:
  assumes "is_finite x" "x < round_f64 z q"
  shows "val x < q"
  using round_f64_le [OF assms(1), of q z] assms(2)
  by (metis linorder_not_less round_f64_not_nan f64_not_less finite_not_nan assms(1))

lemma fadd_finite: "is_finite x \<Longrightarrow> is_finite y \<Longrightarrow>
    x + y = round_f64 (sign_neg x \<and> sign_neg y) (val x + val y)"
  by (simp add: plus_f64_def fadd_def is_finite_def is_nan_def is_infinite_def)

lemma fsub_finite: "is_finite x \<Longrightarrow> is_finite y \<Longrightarrow>
    x - y = round_f64 (sign_neg x \<and> \<not> sign_neg y) (val x - val y)"
  by (simp add: minus_f64_def fadd_def is_finite_def is_nan_def is_infinite_def)

lemma fmul_finite: "is_finite x \<Longrightarrow> is_finite y \<Longrightarrow>
    x * y = round_f64 (sign_neg x \<noteq> sign_neg y) (val x * val y)"
  by (simp add: times_f64_def fmul_def is_finite_def is_nan_def is_infinite_def)

lemma fadd_finite_not_nan: "is_finite x \<Longrightarrow> is_finite y \<Longrightarrow> \<not> is_nan (x + y)"
  by (simp add: fadd_finite)

lemma fsub_finite_not_nan: "is_finite x \<Longrightarrow> is_finite y \<Longrightarrow> \<not> is_nan (x - y)"
  by (simp add: fsub_finite)

end
