(* ===== verification/Ledger.thy ===== *)
theory Ledger
  imports Corsair_Prelude "HOL-Library.Multiset"
begin

section \<open>Interface: a ledger of fills\<close>

text \<open>
  The position book and the hedge book promise the same thing to their clients: booking a fill
  does not fail, keeps the book well formed and adds the signed quantity of the fill to the
  balance of its key, leaving every other balance alone.  The client's question, what a book holds
  after a whole session of fills, is answered once here.
\<close>

primrec book_all :: "('s \<Rightarrow> 'f \<Rightarrow> 's option) \<Rightarrow> 's \<Rightarrow> 'f list \<Rightarrow> 's option" where
  "book_all book s [] = Some s"
| "book_all book s (f # fs) = do { s1 \<leftarrow> book s f; book_all book s1 fs }"

definition booked :: "('f \<Rightarrow> 'k) \<Rightarrow> ('f \<Rightarrow> 'q::comm_monoid_add) \<Rightarrow> 'f list \<Rightarrow> 'k \<Rightarrow> 'q" where
  "booked key amount fs k = sum_list (map amount (filter (\<lambda>f. key f = k) fs))"

lemma booked_Cons:
  "booked key amount (f # fs) k = (if key f = k then amount f else 0) + booked key amount fs k"
  by (simp add: booked_def)

lemma booked_perm: "mset fs = mset gs \<Longrightarrow> booked key amount fs = booked key amount gs"
  by (rule ext) (simp add: booked_def sum_mset_sum_list [symmetric] mset_map mset_filter)

locale ledger =
  fixes inv :: "'s \<Rightarrow> bool" and balance :: "'s \<Rightarrow> 'k \<Rightarrow> 'q::comm_monoid_add"
    and key :: "'f \<Rightarrow> 'k" and amount :: "'f \<Rightarrow> 'q" and book :: "'s \<Rightarrow> 'f \<Rightarrow> 's option"
  assumes book_law: "inv s \<Longrightarrow> \<exists>s'. book s f = Some s' \<and> inv s' \<and>
    (\<forall>k. balance s' k = balance s k + (if key f = k then amount f else 0))"
begin

lemma book_all_balance:
  assumes "inv s"
  shows "\<exists>s'. book_all book s fs = Some s' \<and> inv s' \<and>
    (\<forall>k. balance s' k = balance s k + booked key amount fs k)"
  using assms
proof (induction fs arbitrary: s)
  case Nil
  then show ?case by (simp add: booked_def)
next
  case (Cons f fs)
  from book_law [OF Cons.prems, of f] obtain s1 where s1: "book s f = Some s1" "inv s1"
    "\<forall>k. balance s1 k = balance s k + (if key f = k then amount f else 0)" by blast
  from Cons.IH [OF s1(2)] obtain s' where "book_all book s1 fs = Some s'" "inv s'"
    "\<forall>k. balance s' k = balance s1 k + booked key amount fs k" by blast
  with s1 show ?case by (simp add: booked_Cons add.assoc)
qed

text \<open>The balances do not depend on the order in which the fills arrived.\<close>

lemma book_all_perm:
  assumes "inv s" "mset fs = mset gs"
  shows "\<exists>s1 s2. book_all book s fs = Some s1 \<and> book_all book s gs = Some s2 \<and>
    balance s1 = balance s2"
proof -
  obtain s1 s2 where "book_all book s fs = Some s1" "book_all book s gs = Some s2"
    "\<forall>k. balance s1 k = balance s k + booked key amount fs k"
    "\<forall>k. balance s2 k = balance s k + booked key amount gs k"
    using book_all_balance [OF assms(1)] by meson
  with booked_perm [OF assms(2), of key amount] show ?thesis by auto
qed

end

end
