(* ===== verification/Portfolio.thy ===== *)
theory Portfolio
  imports Greeks F64_Lemmas Ledger
begin

section \<open>The position book\<close>

text \<open>
  Model of \<^verbatim>\<open>rust/corsair_position/src\<close>: \<^verbatim>\<open>position.rs\<close>, \<^verbatim>\<open>fill.rs\<close>, \<^verbatim>\<open>aggregation.rs\<close>,
  \<^verbatim>\<open>market_view.rs\<close> and \<^verbatim>\<open>portfolio.rs\<close>.  The book is a vector of positions with a hash index from
  keys to vector slots; \<open>add_fill\<close> merges a fill into the slot of its key, removes the slot when
  the position closes and rebuilds the index.  Indexing out of bounds panics, which the model
  returns as \<^const>\<open>None\<close>.  \<^verbatim>\<open>Utc::now()\<close> is the argument \<open>now\<close>; log lines are left out.

  The theorems state that the book is exactly the ledger of its fills: the quantity at every key
  is the sum of the fills booked there, no slot is empty and no key has two slots.
\<close>

record position_key =
  key_product :: string
  key_strike :: i64
  key_expiry :: naive_date
  key_right :: right

record position =
  p_product :: string
  p_strike :: f64
  p_expiry :: naive_date
  p_right :: right
  p_quantity :: i32
  p_avg_fill_price :: f64
  p_fill_time :: date_time
  p_multiplier :: f64
  p_delta :: f64
  p_gamma :: f64
  p_theta :: f64
  p_vega :: f64
  p_current_price :: f64

record product_info =
  pi_product :: string
  pi_multiplier :: f64
  pi_default_iv :: f64

type_synonym product_registry = "string \<rightharpoonup> product_info"

definition register :: "product_registry \<Rightarrow> product_info \<Rightarrow> product_registry" where
  "register reg info = reg(pi_product info \<mapsto> info)"

definition multiplier_for :: "product_registry \<Rightarrow> string \<Rightarrow> f64 option" where
  "multiplier_for reg prd = map_option pi_multiplier (reg prd)"

datatype fill_outcome =
  Opened | Increased | PartiallyClosed | Closed | Flipped | RejectedFill string

record portfolio =
  positions :: "position list"
  index :: "position_key \<rightharpoonup> nat"
  registry :: product_registry
  fills_today :: u32
  spread_capture_today :: f64
  spread_capture_mid_today :: f64
  daily_pnl :: f64
  realized_pnl_persisted :: f64
  session_open_nlv :: "f64 option"

definition new_portfolio :: "product_registry \<Rightarrow> portfolio" where
  "new_portfolio reg =
     \<lparr>positions = [], index = Map.empty, registry = reg, fills_today = 0, spread_capture_today = 0,
      spread_capture_mid_today = 0, daily_pnl = 0, realized_pnl_persisted = 0,
      session_open_nlv = None\<rparr>"

definition strike_key :: "f64 \<Rightarrow> i64" where
  "strike_key k = f64_as_i64 (fround (k * lit 10000))"

definition make_key :: "string \<Rightarrow> f64 \<Rightarrow> naive_date \<Rightarrow> right \<Rightarrow> position_key" where
  "make_key prd k ex rt =
     \<lparr>key_product = prd, key_strike = strike_key k, key_expiry = ex, key_right = rt\<rparr>"

definition pos_key :: "position \<Rightarrow> position_key" where
  "pos_key p = make_key (p_product p) (p_strike p) (p_expiry p) (p_right p)"

text \<open>\<^verbatim>\<open>rebuild_index\<close>: a later slot with the same key overwrites an earlier one.\<close>

definition build_index :: "position list \<Rightarrow> position_key \<rightharpoonup> nat" where
  "build_index ps = fold (\<lambda>(i, p) m. m(pos_key p \<mapsto> i)) (enumerate 0 ps) Map.empty"

definition rebuild_index :: "portfolio \<Rightarrow> portfolio" where
  "rebuild_index pf = pf\<lparr>index := build_index (positions pf)\<rparr>"

definition replace_positions :: "portfolio \<Rightarrow> position list \<Rightarrow> portfolio" where
  "replace_positions pf ps = rebuild_index (pf\<lparr>positions := ps\<rparr>)"

definition realized_on_close :: "i32 \<Rightarrow> f64 \<Rightarrow> i32 \<Rightarrow> f64 \<Rightarrow> f64 \<Rightarrow> f64" where
  "realized_on_close prev_qty prev_avg fill_qty fill_price mpl =
     (if prev_qty = 0 \<or> fill_qty = 0 then 0
      else if signum prev_qty = signum fill_qty then 0
      else
        let closed_abs = min_i32 (abs_i32 fill_qty) (abs_i32 prev_qty);
            signed_qty = (if 0 < sint prev_qty then - i32_as_f64 closed_abs else i32_as_f64 closed_abs)
        in (prev_avg - fill_price) * signed_qty * mpl)"

definition record_fill_accounting :: "portfolio \<Rightarrow> i32 \<Rightarrow> f64 \<Rightarrow> f64 \<Rightarrow> portfolio" where
  "record_fill_accounting pf q sc scm =
     pf\<lparr>fills_today := fills_today pf + unsigned_abs q,
        spread_capture_today := spread_capture_today pf + sc,
        spread_capture_mid_today := spread_capture_mid_today pf + scm\<rparr>"

text \<open>The arguments of \<open>add_fill\<close>.\<close>

record fill_args =
  fl_product :: string
  fl_strike :: f64
  fl_expiry :: naive_date
  fl_right :: right
  fl_quantity :: i32
  fl_price :: f64
  fl_spread :: f64
  fl_spread_mid :: f64

definition fill_key :: "fill_args \<Rightarrow> position_key" where
  "fill_key a = make_key (fl_product a) (fl_strike a) (fl_expiry a) (fl_right a)"

text \<open>The average price after a fill that leaves quantity \<open>new_qty\<close>: VWAP, reset or unchanged.\<close>

definition merged_avg :: "i32 \<Rightarrow> f64 \<Rightarrow> i32 \<Rightarrow> f64 \<Rightarrow> i32 \<Rightarrow> f64" where
  "merged_avg prev_qty prev_avg q price new_qty =
     (if signum prev_qty = signum q then
        (let prev_abs = u32_as_f64 (unsigned_abs prev_qty);
             fill_abs = u32_as_f64 (unsigned_abs q);
             new_abs = u32_as_f64 (unsigned_abs new_qty)
         in if 0 < new_abs then (prev_avg * prev_abs + price * fill_abs) / new_abs else prev_avg)
      else if signum prev_qty \<noteq> signum new_qty \<and> signum prev_qty \<noteq> 0 then price
      else prev_avg)"

definition merge_outcome :: "i32 \<Rightarrow> i32 \<Rightarrow> fill_outcome" where
  "merge_outcome prev_qty new_qty =
     (if 0 < sint prev_qty \<and> 0 < sint new_qty \<and> sint prev_qty < sint new_qty
        \<or> sint prev_qty < 0 \<and> sint new_qty < 0 \<and> sint new_qty < sint prev_qty then Increased
      else if signum prev_qty \<noteq> signum new_qty \<and> signum prev_qty \<noteq> 0 then Flipped
      else PartiallyClosed)"

definition opening_position :: "date_time \<Rightarrow> fill_args \<Rightarrow> f64 \<Rightarrow> position" where
  "opening_position now a mpl =
     \<lparr>p_product = fl_product a, p_strike = fl_strike a, p_expiry = fl_expiry a,
      p_right = fl_right a, p_quantity = fl_quantity a, p_avg_fill_price = fl_price a,
      p_fill_time = now, p_multiplier = mpl, p_delta = 0, p_gamma = 0, p_theta = 0, p_vega = 0,
      p_current_price = 0\<rparr>"

definition remove_at :: "nat \<Rightarrow> 'a list \<Rightarrow> 'a list" where
  "remove_at i xs = take i xs @ drop (Suc i) xs"

definition add_fill ::
  "date_time \<Rightarrow> portfolio \<Rightarrow> fill_args \<Rightarrow> (fill_outcome \<times> portfolio) option" where
  "add_fill now pf a =
     (let q = fl_quantity a in
      if q = 0 then Some (RejectedFill ''zero quantity'', pf)
      else
        let mpl = (case multiplier_for (registry pf) (fl_product a) of Some m \<Rightarrow> m | None \<Rightarrow> lit 100)
        in case index pf (fill_key a) of
          Some idx \<Rightarrow>
            if idx < length (positions pf) then
              let pos = positions pf ! idx;
                  prev_qty = p_quantity pos;
                  prev_avg = p_avg_fill_price pos;
                  new_qty = prev_qty + q;
                  realized = realized_on_close prev_qty prev_avg q (fl_price a) mpl;
                  pf1 = pf\<lparr>realized_pnl_persisted := realized_pnl_persisted pf + realized\<rparr>
              in if new_qty = 0 then
                   let pf2 = rebuild_index (pf1\<lparr>positions := remove_at idx (positions pf1)\<rparr>)
                   in Some (Closed, record_fill_accounting pf2 q (fl_spread a) (fl_spread_mid a))
                 else
                   let pos' = pos\<lparr>p_avg_fill_price := merged_avg prev_qty prev_avg q (fl_price a) new_qty,
                                  p_quantity := new_qty, p_fill_time := now\<rparr>;
                       pf2 = pf1\<lparr>positions := (positions pf1)[idx := pos']\<rparr>
                   in Some (merge_outcome prev_qty new_qty,
                            record_fill_accounting pf2 q (fl_spread a) (fl_spread_mid a))
            else None
        | None \<Rightarrow>
            let pf1 = pf\<lparr>positions := positions pf @ [opening_position now a mpl],
                        index := (index pf)(fill_key a \<mapsto> length (positions pf))\<rparr>
            in Some (Opened, record_fill_accounting pf1 q (fl_spread a) (fl_spread_mid a)))"

text \<open>The market data the book reads: \<^verbatim>\<open>trait MarketView\<close>.\<close>

record market_view =
  underlying_price :: "string \<Rightarrow> f64 option"
  iv_for :: "string \<Rightarrow> f64 \<Rightarrow> naive_date \<Rightarrow> right \<Rightarrow> f64 option"
  current_price :: "string \<Rightarrow> f64 \<Rightarrow> naive_date \<Rightarrow> right \<Rightarrow> f64 option"
  hedge_underlying_price :: "string \<Rightarrow> f64 option"

definition time_to_expiry_years :: "date_time \<Rightarrow> naive_date \<Rightarrow> f64" where
  "time_to_expiry_years now ex =
     (let expiry_dt = (ex * 86400 + 18 * 3600) * 1000000000;
          secs = f64_of_int (num_seconds (expiry_dt - now))
      in if secs \<le> 0 then 0 else secs / (lit (36525 / 100) * lit 24 * lit 3600))"

definition refresh_position ::
  "libm \<Rightarrow> date_time \<Rightarrow> product_registry \<Rightarrow> market_view \<Rightarrow> position \<Rightarrow> position" where
  "refresh_position lm now reg mv pos =
     (case underlying_price mv (p_product pos) of
        None \<Rightarrow> pos
      | Some f \<Rightarrow>
          if \<not> 0 < f then pos
          else
            let iv = (case iv_for mv (p_product pos) (p_strike pos) (p_expiry pos) (p_right pos) of
                        Some v \<Rightarrow> v
                      | None \<Rightarrow> (case reg (p_product pos) of
                                   Some i \<Rightarrow> pi_default_iv i | None \<Rightarrow> lit (30 / 100)));
                tte = time_to_expiry_years now (p_expiry pos)
            in if tte \<le> 0 then pos
               else
                 let g = compute_greeks lm f (p_strike pos) tte iv 0 (right_as_char (p_right pos))
                           (p_multiplier pos);
                     pos1 = pos\<lparr>p_delta := g_delta g, p_gamma := g_gamma g, p_theta := g_theta g,
                                p_vega := g_vega g\<rparr>
                 in case current_price mv (p_product pos) (p_strike pos) (p_expiry pos) (p_right pos) of
                      Some p \<Rightarrow> if 0 < p then pos1\<lparr>p_current_price := p\<rparr> else pos1
                    | None \<Rightarrow> pos1)"

definition refresh_greeks ::
  "libm \<Rightarrow> date_time \<Rightarrow> market_view \<Rightarrow> portfolio \<Rightarrow> portfolio" where
  "refresh_greeks lm now mv pf =
     pf\<lparr>positions := map (refresh_position lm now (registry pf) mv) (positions pf)\<rparr>"

record portfolio_greeks =
  net_delta :: f64
  net_theta :: f64
  net_vega :: f64
  net_gamma :: f64
  long_count :: u32
  short_count :: u32
  gross_positions :: u32

definition no_greeks :: portfolio_greeks where
  "no_greeks = \<lparr>net_delta = 0, net_theta = 0, net_vega = 0, net_gamma = 0,
     long_count = 0, short_count = 0, gross_positions = 0\<rparr>"

definition add_greeks :: "portfolio_greeks \<Rightarrow> position \<Rightarrow> portfolio_greeks" where
  "add_greeks g p =
     (let qty = p_quantity p; q = i32_as_f64 qty in
      g\<lparr>net_delta := net_delta g + p_delta p * q,
        net_theta := net_theta g + p_theta p * q,
        net_vega := net_vega g + p_vega p * q,
        net_gamma := net_gamma g + p_gamma p * q,
        long_count := (if 0 < sint qty then long_count g + 1 else long_count g),
        short_count := (if sint qty < 0 then short_count g + 1 else short_count g),
        gross_positions := (if qty \<noteq> 0 then gross_positions g + 1 else gross_positions g)\<rparr>)"

definition aggregate :: "portfolio \<Rightarrow> portfolio_greeks \<times> (string \<rightharpoonup> portfolio_greeks)" where
  "aggregate pf =
     fold (\<lambda>p (tot, per).
             (add_greeks tot p,
              per(p_product p \<mapsto>
                add_greeks (case per (p_product p) of None \<Rightarrow> no_greeks | Some g \<Rightarrow> g) p)))
       (positions pf) (no_greeks, Map.empty)"

definition weighted :: "(position \<Rightarrow> f64) \<Rightarrow> position list \<Rightarrow> f64" where
  "weighted greek ps = fsum (map (\<lambda>p. greek p * i32_as_f64 (p_quantity p)) ps)"

definition positions_for_product :: "portfolio \<Rightarrow> string \<Rightarrow> position list" where
  "positions_for_product pf prd = filter (\<lambda>p. p_product p = prd) (positions pf)"

definition pf_net_delta :: "portfolio \<Rightarrow> f64" where "pf_net_delta pf = weighted p_delta (positions pf)"
definition pf_net_theta :: "portfolio \<Rightarrow> f64" where "pf_net_theta pf = weighted p_theta (positions pf)"
definition pf_net_vega :: "portfolio \<Rightarrow> f64" where "pf_net_vega pf = weighted p_vega (positions pf)"
definition pf_net_gamma :: "portfolio \<Rightarrow> f64" where "pf_net_gamma pf = weighted p_gamma (positions pf)"

definition delta_for_product :: "portfolio \<Rightarrow> string \<Rightarrow> f64" where
  "delta_for_product pf prd = weighted p_delta (positions_for_product pf prd)"
definition theta_for_product :: "portfolio \<Rightarrow> string \<Rightarrow> f64" where
  "theta_for_product pf prd = weighted p_theta (positions_for_product pf prd)"
definition vega_for_product :: "portfolio \<Rightarrow> string \<Rightarrow> f64" where
  "vega_for_product pf prd = weighted p_vega (positions_for_product pf prd)"

definition pf_long_count :: "portfolio \<Rightarrow> u32" where
  "pf_long_count pf = word_of_nat (length (filter (\<lambda>p. 0 < sint (p_quantity p)) (positions pf)))"
definition pf_short_count :: "portfolio \<Rightarrow> u32" where
  "pf_short_count pf = word_of_nat (length (filter (\<lambda>p. sint (p_quantity p) < 0) (positions pf)))"
definition pf_gross_positions :: "portfolio \<Rightarrow> u32" where
  "pf_gross_positions pf = word_of_nat (length (filter (\<lambda>p. p_quantity p \<noteq> 0) (positions pf)))"

text \<open>The P\&L and the number of positions skipped for want of a price.\<close>

definition mtm_step :: "market_view \<Rightarrow> position \<Rightarrow> f64 \<times> nat \<Rightarrow> f64 \<times> nat" where
  "mtm_step mv p = (\<lambda>(total, skipped).
     let live = (case current_price mv (p_product p) (p_strike p) (p_expiry p) (p_right p) of Some v \<Rightarrow> v | None \<Rightarrow> p_current_price p)
     in if live \<le> 0 then (total, Suc skipped)
        else (total + i32_as_f64 (p_quantity p) * (live - p_avg_fill_price p) * p_multiplier p,
              skipped))"

definition compute_mtm_pnl :: "portfolio \<Rightarrow> market_view \<Rightarrow> f64 \<times> nat" where
  "compute_mtm_pnl pf mv = fold (mtm_step mv) (positions pf) (0, 0)"

definition reset_daily :: "portfolio \<Rightarrow> portfolio" where
  "reset_daily pf = pf\<lparr>fills_today := 0, spread_capture_today := 0, spread_capture_mid_today := 0,
     daily_pnl := 0\<rparr>"

text \<open>The outer option is the panic of an index out of bounds, the inner one the result.\<close>

definition get_position ::
  "portfolio \<Rightarrow> string \<Rightarrow> f64 \<Rightarrow> naive_date \<Rightarrow> right \<Rightarrow> position option option" where
  "get_position pf prd k ex rt =
     (case index pf (make_key prd k ex rt) of
        None \<Rightarrow> Some None
      | Some i \<Rightarrow> if i < length (positions pf) then Some (Some (positions pf ! i)) else None)"

subsection \<open>The index\<close>

definition index_ok :: "position list \<Rightarrow> (position_key \<rightharpoonup> nat) \<Rightarrow> bool" where
  "index_ok ps m \<longleftrightarrow> (\<forall>k i. m k = Some i \<longleftrightarrow> i < length ps \<and> pos_key (ps ! i) = k)"

definition book_inv :: "portfolio \<Rightarrow> bool" where
  "book_inv pf \<longleftrightarrow> distinct (map pos_key (positions pf)) \<and>
     (\<forall>p \<in> set (positions pf). p_quantity p \<noteq> 0) \<and> index_ok (positions pf) (index pf)"

definition lookup :: "position list \<Rightarrow> position_key \<Rightarrow> position option" where
  "lookup ps k = find (\<lambda>p. pos_key p = k) ps"

definition net_qty :: "portfolio \<Rightarrow> position_key \<Rightarrow> i32" where
  "net_qty pf k = sum_list (map p_quantity (filter (\<lambda>p. pos_key p = k) (positions pf)))"

lemma build_index_snoc: "build_index (ps @ [p]) = (build_index ps)(pos_key p \<mapsto> length ps)"
  by (simp add: build_index_def enumerate_append_eq)

lemma index_ok_snoc:
  assumes "index_ok ps m" "pos_key p \<notin> pos_key ` set ps"
  shows "index_ok (ps @ [p]) (m(pos_key p \<mapsto> length ps))"
  unfolding index_ok_def
proof (intro allI)
  fix k i
  show "(m(pos_key p \<mapsto> length ps)) k = Some i \<longleftrightarrow>
      i < length (ps @ [p]) \<and> pos_key ((ps @ [p]) ! i) = k"
  proof (cases "k = pos_key p")
    case True
    have "i < length ps \<Longrightarrow> pos_key (ps ! i) \<noteq> pos_key p" using assms(2) by (metis image_eqI nth_mem)
    with True show ?thesis by (auto simp: nth_append less_Suc_eq)
  next
    case False
    with assms(1) show ?thesis by (auto simp: index_ok_def nth_append less_Suc_eq)
  qed
qed

lemma index_ok_build_index: "distinct (map pos_key ps) \<Longrightarrow> index_ok ps (build_index ps)"
proof (induction ps rule: rev_induct)
  case Nil
  then show ?case by (simp add: index_ok_def build_index_def)
next
  case (snoc p ps)
  then show ?case unfolding build_index_snoc by (intro index_ok_snoc) auto
qed

lemma index_ok_update:
  assumes "index_ok ps m" "pos_key p' = pos_key (ps ! i)"
  shows "index_ok (ps[i := p']) m"
proof (cases "i < length ps")
  case True
  then have "pos_key (ps[i := p'] ! j) = pos_key (ps ! j)" for j
    using assms(2) by (cases "j = i") simp_all
  with assms(1) show ?thesis by (simp add: index_ok_def)
qed (use assms in \<open>simp add: list_update_beyond\<close>)

lemma index_ok_None: "index_ok ps m \<Longrightarrow> m k = None \<longleftrightarrow> k \<notin> pos_key ` set ps"
proof -
  assume ok: "index_ok ps m"
  have "k \<in> pos_key ` set ps \<longleftrightarrow> (\<exists>i < length ps. pos_key (ps ! i) = k)"
    by (metis image_iff in_set_conv_nth)
  also have "\<dots> \<longleftrightarrow> (\<exists>i. m k = Some i)" using ok by (simp add: index_ok_def)
  finally show "m k = None \<longleftrightarrow> k \<notin> pos_key ` set ps" by auto
qed

subsection \<open>Slots\<close>

lemma split_slot:
  assumes "i < length ps"
  obtains xs ys where "ps = xs @ ps ! i # ys" "length xs = i"
    "\<And>p'. ps[i := p'] = xs @ p' # ys" "remove_at i ps = xs @ ys"
proof
  show "ps = take i ps @ ps ! i # drop (Suc i) ps" using assms by (rule id_take_nth_drop)
qed (use assms in \<open>simp_all add: upd_conv_take_nth_drop remove_at_def\<close>)

lemma lookup_simps [simp]:
  "lookup [] k = None"
  "lookup (p # ps) k = (if pos_key p = k then Some p else lookup ps k)"
  "lookup (xs @ ys) k = (case lookup xs k of None \<Rightarrow> lookup ys k | Some p \<Rightarrow> Some p)"
  by (induction xs) (simp_all add: lookup_def)

lemma lookup_None: "lookup ps k = None \<longleftrightarrow> k \<notin> pos_key ` set ps"
  by (auto simp: lookup_def find_None_iff)

lemma lookup_index:
  assumes "index_ok ps m" "distinct (map pos_key ps)"
  shows "lookup ps k = map_option (nth ps) (m k)"
proof (cases "m k")
  case None
  with index_ok_None [OF assms(1)] lookup_None [of ps k] show ?thesis by simp
next
  case (Some i)
  then have i: "i < length ps" "pos_key (ps ! i) = k" using assms(1) by (auto simp: index_ok_def)
  obtain xs ys where s: "ps = xs @ ps ! i # ys" by (rule split_slot [OF i(1)])
  have "distinct (map pos_key (xs @ ps ! i # ys))" using assms(2) s by simp
  then have "lookup xs k = None" using i(2) by (auto simp: lookup_None)
  then have "lookup (xs @ ps ! i # ys) k = Some (ps ! i)" using i(2) by simp
  with s Some show ?thesis by simp
qed

lemma net_qty_lookup:
  assumes "distinct (map pos_key (positions pf))"
  shows "net_qty pf k = (case lookup (positions pf) k of None \<Rightarrow> 0 | Some p \<Rightarrow> p_quantity p)"
proof -
  have "sum_list (map p_quantity (filter (\<lambda>p. pos_key p = k) ps)) =
      (case lookup ps k of None \<Rightarrow> 0 | Some p \<Rightarrow> p_quantity p)"
    if "distinct (map pos_key ps)" for ps
    using that
  proof (induction ps)
    case (Cons p ps)
    have "pos_key p = k \<Longrightarrow> filter (\<lambda>p. pos_key p = k) ps = []"
      using Cons.prems by (auto simp: filter_empty_conv) (metis image_eqI)
    with Cons show ?case by auto
  qed simp
  from this [OF assms] show ?thesis by (simp add: net_qty_def)
qed

subsection \<open>Booking a fill\<close>

lemma positions_accounting [simp]:
  "positions (record_fill_accounting pf q sc scm) = positions pf"
  "index (record_fill_accounting pf q sc scm) = index pf"
  "realized_pnl_persisted (record_fill_accounting pf q sc scm) = realized_pnl_persisted pf"
  "fills_today (record_fill_accounting pf q sc scm) = fills_today pf + unsigned_abs q"
  by (simp_all add: record_fill_accounting_def)

text \<open>What \<open>add_fill\<close> does to the vector of positions, by the state of the key.\<close>

definition booked_positions :: "date_time \<Rightarrow> portfolio \<Rightarrow> fill_args \<Rightarrow> position list" where
  "booked_positions now pf a =
     (case index pf (fill_key a) of
        None \<Rightarrow> positions pf @ [opening_position now a
          (case multiplier_for (registry pf) (fl_product a) of Some m \<Rightarrow> m | None \<Rightarrow> lit 100)]
      | Some i \<Rightarrow>
          let pos = positions pf ! i; new_qty = p_quantity pos + fl_quantity a in
          if new_qty = 0 then remove_at i (positions pf)
          else (positions pf)[i := pos\<lparr>p_avg_fill_price :=
                   merged_avg (p_quantity pos) (p_avg_fill_price pos) (fl_quantity a) (fl_price a) new_qty,
                 p_quantity := new_qty, p_fill_time := now\<rparr>])"

definition fill_outcome_of :: "portfolio \<Rightarrow> fill_args \<Rightarrow> fill_outcome" where
  "fill_outcome_of pf a =
     (case index pf (fill_key a) of
        None \<Rightarrow> Opened
      | Some i \<Rightarrow>
          let prev = p_quantity (positions pf ! i); new_qty = prev + fl_quantity a in
          if new_qty = 0 then Closed else merge_outcome prev new_qty)"

lemma pos_key_opening [simp]: "pos_key (opening_position now a mpl) = fill_key a"
  by (simp add: pos_key_def opening_position_def fill_key_def)

lemma p_quantity_opening: "p_quantity (opening_position now a mpl) = fl_quantity a"
  by (simp add: opening_position_def)

lemma pos_key_update [simp]:
  "pos_key (p\<lparr>p_quantity := q\<rparr>) = pos_key p" "pos_key (p\<lparr>p_avg_fill_price := x\<rparr>) = pos_key p"
  "pos_key (p\<lparr>p_fill_time := t\<rparr>) = pos_key p"
  by (simp_all add: pos_key_def)

lemma add_fill_step:
  assumes "book_inv pf" "fl_quantity a \<noteq> 0"
  shows "\<exists>pf'. add_fill now pf a = Some (fill_outcome_of pf a, pf') \<and>
    positions pf' = booked_positions now pf a \<and> book_inv pf' \<and>
    fills_today pf' = fills_today pf + unsigned_abs (fl_quantity a)"
proof (cases "index pf (fill_key a)")
  case None
  let ?p = "opening_position now a
    (case multiplier_for (registry pf) (fl_product a) of Some m \<Rightarrow> m | None \<Rightarrow> lit 100)"
  have new: "fill_key a \<notin> pos_key ` set (positions pf)"
    using None assms(1) index_ok_None [of "positions pf" "index pf"] by (simp add: book_inv_def)
  have "index_ok (positions pf @ [?p]) ((index pf)(fill_key a \<mapsto> length (positions pf)))"
    using index_ok_snoc [of "positions pf" "index pf" ?p] assms(1) new by (simp add: book_inv_def)
  with None assms new show ?thesis
    by (simp add: add_fill_def Let_def fill_outcome_of_def booked_positions_def book_inv_def
        p_quantity_opening)
next
  case (Some i)
  note inv = assms(1) [unfolded book_inv_def]
  have i: "i < length (positions pf)" "pos_key (positions pf ! i) = fill_key a"
    using inv Some by (auto simp: index_ok_def)
  obtain xs ys where s: "positions pf = xs @ positions pf ! i # ys"
    "\<And>p'. (positions pf)[i := p'] = xs @ p' # ys" "remove_at i (positions pf) = xs @ ys"
    using split_slot [OF i(1)] by metis
  have d: "distinct (map pos_key (xs @ positions pf ! i # ys))"
    "\<forall>p \<in> set (xs @ positions pf ! i # ys). p_quantity p \<noteq> 0"
    using inv s(1) by simp_all
  show ?thesis
  proof (cases "p_quantity (positions pf ! i) + fl_quantity a = 0")
    case True
    have "index_ok (xs @ ys) (build_index (xs @ ys))" using d(1) by (intro index_ok_build_index) auto
    with True Some i(1) assms(2) d s(3) show ?thesis
      by (auto simp: add_fill_def Let_def fill_outcome_of_def booked_positions_def book_inv_def
          rebuild_index_def)
  next
    case False
    let ?p = "(positions pf ! i)\<lparr>p_avg_fill_price := merged_avg (p_quantity (positions pf ! i))
        (p_avg_fill_price (positions pf ! i)) (fl_quantity a) (fl_price a)
        (p_quantity (positions pf ! i) + fl_quantity a),
      p_quantity := p_quantity (positions pf ! i) + fl_quantity a, p_fill_time := now\<rparr>"
    have ok: "index_ok ((positions pf)[i := ?p]) (index pf)"
      using inv by (intro index_ok_update) simp_all
    have "distinct (map pos_key ((positions pf)[i := ?p]))"
      "\<forall>p \<in> set ((positions pf)[i := ?p]). p_quantity p \<noteq> 0"
      using d False by (auto simp: s(2))
    with ok False Some i(1) assms(2) show ?thesis
      by (simp add: add_fill_def Let_def fill_outcome_of_def booked_positions_def book_inv_def)
  qed
qed

subsection \<open>The book is the ledger of its fills\<close>

lemma net_qty_positions:
  "net_qty pf k = sum_list (map p_quantity (filter (\<lambda>p. pos_key p = k) (positions pf)))"
  by (rule net_qty_def)

lemma net_qty_booked:
  assumes "book_inv pf" "positions pf' = booked_positions now pf a"
  shows "net_qty pf' k = net_qty pf k + (if fill_key a = k then fl_quantity a else 0)"
proof (cases "index pf (fill_key a)")
  case None
  with assms(2) show ?thesis
    by (simp add: net_qty_positions booked_positions_def p_quantity_opening)
next
  case (Some i)
  then have i: "i < length (positions pf)" "pos_key (positions pf ! i) = fill_key a"
    using assms(1) by (auto simp: book_inv_def index_ok_def)
  obtain xs ys where s: "positions pf = xs @ positions pf ! i # ys"
    "\<And>p'. (positions pf)[i := p'] = xs @ p' # ys" "remove_at i (positions pf) = xs @ ys"
    using split_slot [OF i(1)] by metis
  let ?q = "\<lambda>ps. sum_list (map p_quantity (filter (\<lambda>p. pos_key p = k) ps))"
  have "?q (positions pf) = ?q (xs @ positions pf ! i # ys)" using s(1) by simp
  then have "?q (positions pf) =
      ?q xs + (if fill_key a = k then p_quantity (positions pf ! i) else 0) + ?q ys"
    using i(2) by simp
  then show ?thesis using assms(2) Some i(2) s(2,3)
    by (auto simp: net_qty_positions booked_positions_def Let_def algebra_simps
        add_eq_0_iff2)
qed

definition book_fill :: "date_time \<Rightarrow> portfolio \<Rightarrow> fill_args \<Rightarrow> portfolio option" where
  "book_fill now pf a = map_option snd (add_fill now pf a)"

lemma book_fill_law:
  assumes "book_inv pf"
  shows "\<exists>pf'. book_fill now pf a = Some pf' \<and> book_inv pf' \<and>
    (\<forall>k. net_qty pf' k = net_qty pf k + (if fill_key a = k then fl_quantity a else 0))"
proof (cases "fl_quantity a = 0")
  case True
  with assms show ?thesis by (simp add: book_fill_def add_fill_def)
next
  case False
  from add_fill_step [OF assms this, of now] net_qty_booked [OF assms]
  show ?thesis by (auto simp: book_fill_def)
qed

interpretation book: ledger book_inv net_qty fill_key fl_quantity "book_fill now"
  for now
  by unfold_locales (rule book_fill_law)

lemma book_inv_new: "book_inv (new_portfolio reg)" "net_qty (new_portfolio reg) k = 0"
  by (simp_all add: book_inv_def new_portfolio_def index_ok_def net_qty_def)

lemma get_position_lookup:
  assumes "book_inv pf"
  shows "get_position pf prd k ex rt = Some (lookup (positions pf) (make_key prd k ex rt))"
proof -
  note inv = assms [unfolded book_inv_def]
  have "\<And>i. index pf (make_key prd k ex rt) = Some i \<Longrightarrow> i < length (positions pf)"
    using inv by (auto simp: index_ok_def)
  with lookup_index [of "positions pf" "index pf" "make_key prd k ex rt"] inv show ?thesis
    by (auto simp: get_position_def split: option.split)
qed

text \<open>
  \<^bold>\<open>C10.\<close> Booking any sequence of fills into a well-formed book never panics (no index is out of
  bounds), keeps the book well formed (the index maps every key to its only slot, no slot has
  quantity zero), and the quantity held at every key is the former quantity plus the sum of the
  signed quantities filled there, in \<^verbatim>\<open>i32\<close> arithmetic; \<open>get_position\<close> reads exactly that slot.
\<close>

theorem book_is_sum_of_fills:
  assumes "book_inv pf"
  shows "\<exists>pf'. book_all (book_fill now) pf fills = Some pf' \<and> book_inv pf' \<and>
    (\<forall>k. net_qty pf' k = net_qty pf k + sum_list (map fl_quantity (filter (\<lambda>f. fill_key f = k) fills))) \<and>
    (\<forall>prd x ex rt. get_position pf' prd x ex rt = Some (lookup (positions pf') (make_key prd x ex rt)))"
  using book.book_all_balance [OF assms, of now fills] get_position_lookup
  by (auto simp: booked_def)

definition demo_fill :: "i32 \<Rightarrow> fill_args" where
  "demo_fill q = \<lparr>fl_product = ''HG'', fl_strike = lit 6, fl_expiry = 20000, fl_right = Call,
     fl_quantity = q, fl_price = lit (1 / 2), fl_spread = 0, fl_spread_mid = 0\<rparr>"

theorem book_is_sum_of_fills_witness:
  "\<exists>pf'. book_all (book_fill 0) (new_portfolio Map.empty) [demo_fill 2, demo_fill (- 5), demo_fill 1] = Some pf' \<and>
    book_inv pf' \<and> net_qty pf' (fill_key (demo_fill 0)) = - 2"
proof -
  have k: "fill_key (demo_fill q) = make_key ''HG'' (lit 6) 20000 Call" for q
    by (simp add: fill_key_def demo_fill_def)
  have q: "fl_quantity (demo_fill q) = q" for q by (simp add: demo_fill_def)
  from book_is_sum_of_fills [OF book_inv_new(1), of 0 Map.empty "[demo_fill 2, demo_fill (- 5), demo_fill 1]"]
  show ?thesis by (auto simp: book_inv_new(2) k q)
qed

subsection \<open>What one fill does to its position\<close>

text \<open>
  The specification of a fill on a position seen as a signed quantity with an average price: an
  opening fill sets both, a same-side fill blends the price by volume, a closing fill keeps the
  price of the rest, a fill that crosses zero opens the rest at its own price.
\<close>

fun fill_effect :: "(int \<times> f64) option \<Rightarrow> int \<Rightarrow> f64 \<Rightarrow> fill_outcome \<times> (int \<times> f64) option" where
  "fill_effect None q price = (Opened, Some (q, price))"
| "fill_effect (Some (n, avg)) q price =
     (if n + q = 0 then (Closed, None)
      else if sgn n = sgn q then
        (Increased, Some (n + q,
           (avg * f64_of_int \<bar>n\<bar> + price * f64_of_int \<bar>q\<bar>) / f64_of_int \<bar>n + q\<bar>))
      else if \<bar>q\<bar> < \<bar>n\<bar> then (PartiallyClosed, Some (n + q, avg))
      else (Flipped, Some (n + q, price)))"

definition held :: "portfolio \<Rightarrow> position_key \<Rightarrow> (int \<times> f64) option" where
  "held pf k = map_option (\<lambda>p. (sint (p_quantity p), p_avg_fill_price p)) (lookup (positions pf) k)"

lemma f64_of_int_pos: "0 < k \<Longrightarrow> 0 < f64_of_int k"
proof -
  assume "0 < k"
  then have "lit 1 \<le> f64_of_int k" unfolding lit_def f64_of_int_def by (intro round_f64_mono) simp
  moreover have "0 < lit 1" by code_simp
  ultimately show ?thesis by (rule f64_less_le_trans [rotated])
qed

lemma merged_position:
  assumes "prev \<noteq> 0" "q \<noteq> 0" "prev + q \<noteq> 0"
    and range: "- (2 ^ 31) \<le> sint prev + sint q" "sint prev + sint q < 2 ^ 31"
  shows "(merge_outcome prev (prev + q), Some (sint (prev + q), merged_avg prev avg q price (prev + q)))
    = fill_effect (Some (sint prev, avg)) (sint q) price"
proof -
  have nz: "sint prev \<noteq> 0" "sint q \<noteq> 0" using assms(1,2) by simp_all
  have new: "sint (prev + q) = sint prev + sint q" using range by (rule sint_add_i32)
  moreover have "sint prev + sint q \<noteq> 0" using assms(3) new by (metis sint_eq_0_iff)
  ultimately show ?thesis using nz
    by (auto simp: merge_outcome_def merged_avg_def signum_def u32_as_f64_def uint_unsigned_abs Let_def
        f64_of_int_pos sgn_if split: if_splits)
qed

lemma lookup_booked_other:
  assumes "book_inv pf" "positions pf' = booked_positions now pf a" "k \<noteq> fill_key a"
  shows "lookup (positions pf') k = lookup (positions pf) k"
proof (cases "index pf (fill_key a)")
  case None
  then show ?thesis using assms(2,3) by (auto simp: booked_positions_def split: option.split)
next
  case (Some i)
  then have i: "i < length (positions pf)" "pos_key (positions pf ! i) = fill_key a"
    using assms(1) by (auto simp: book_inv_def index_ok_def)
  obtain xs ys where s: "positions pf = xs @ positions pf ! i # ys"
    "\<And>p'. (positions pf)[i := p'] = xs @ p' # ys" "remove_at i (positions pf) = xs @ ys"
    using split_slot [OF i(1)] by metis
  have "lookup (positions pf) k = lookup (xs @ positions pf ! i # ys) k" using s(1) by simp
  then show ?thesis using assms(2,3) Some i(2) s(2,3)
    by (auto simp: booked_positions_def Let_def split: option.split)
qed

lemma held_booked:
  assumes "book_inv pf" "fl_quantity a \<noteq> 0" "book_inv pf'" "positions pf' = booked_positions now pf a"
    and range: "- (2 ^ 31) \<le> sint (net_qty pf (fill_key a)) + sint (fl_quantity a)"
      "sint (net_qty pf (fill_key a)) + sint (fl_quantity a) < 2 ^ 31"
  shows "(fill_outcome_of pf a, held pf' (fill_key a))
    = fill_effect (held pf (fill_key a)) (sint (fl_quantity a)) (fl_price a)"
proof (cases "index pf (fill_key a)")
  case None
  then have "lookup (positions pf) (fill_key a) = None"
    using assms(1) lookup_index [of "positions pf" "index pf"] by (simp add: book_inv_def)
  with None assms(4) show ?thesis
    by (simp add: fill_outcome_of_def held_def booked_positions_def opening_position_def)
      (simp add: pos_key_def fill_key_def)
next
  case (Some i)
  let ?p = "positions pf ! i"
  have i: "i < length (positions pf)" "pos_key ?p = fill_key a" "p_quantity ?p \<noteq> 0"
    using assms(1) Some by (auto simp: book_inv_def index_ok_def)
  have old: "lookup (positions pf) (fill_key a) = Some ?p"
    using lookup_index [of "positions pf" "index pf"] assms(1) Some by (simp add: book_inv_def)
  then have qty: "net_qty pf (fill_key a) = p_quantity ?p"
    using assms(1) by (simp add: net_qty_lookup book_inv_def)
  obtain xs ys where s: "positions pf = xs @ ?p # ys"
    "\<And>p'. (positions pf)[i := p'] = xs @ p' # ys" "remove_at i (positions pf) = xs @ ys"
    using split_slot [OF i(1)] by metis
  have "distinct (map pos_key (xs @ ?p # ys))" using assms(1) s(1) by (simp add: book_inv_def)
  then have gone: "lookup xs (fill_key a) = None" "lookup ys (fill_key a) = None"
    using i(2) by (auto simp: lookup_None)
  show ?thesis
  proof (cases "p_quantity ?p + fl_quantity a = 0")
    case True
    have "sint (p_quantity ?p + fl_quantity a) = sint (p_quantity ?p) + sint (fl_quantity a)"
      using range unfolding qty by (rule sint_add_i32)
    then have "sint (p_quantity ?p) + sint (fl_quantity a) = 0" using True by simp
    with True Some gone assms(4) s(3) old show ?thesis
      by (simp add: fill_outcome_of_def held_def booked_positions_def Let_def)
  next
    case False
    with merged_position [OF i(3) assms(2) False range [unfolded qty], of "p_avg_fill_price ?p" "fl_price a"]
      Some gone assms(4) s(2) old i(2)
    show ?thesis by (simp add: fill_outcome_of_def held_def booked_positions_def Let_def del: fill_effect.simps)
  qed
qed

text \<open>
  \<^bold>\<open>C3.\<close> A fill of a non-zero quantity, merged into a slot of the vector or opening one, has
  exactly the specified effect on the position of its key, outcome, quantity and average price
  included, as long as the position stays within \<^verbatim>\<open>i32\<close>; every other position keeps its record.
\<close>

theorem add_fill_refines:
  assumes "book_inv pf" "fl_quantity a \<noteq> 0"
    and "- (2 ^ 31) \<le> sint (net_qty pf (fill_key a)) + sint (fl_quantity a)"
    and "sint (net_qty pf (fill_key a)) + sint (fl_quantity a) < 2 ^ 31"
  shows "\<exists>outcome pf'. add_fill now pf a = Some (outcome, pf') \<and>
    (outcome, held pf' (fill_key a))
      = fill_effect (held pf (fill_key a)) (sint (fl_quantity a)) (fl_price a) \<and>
    (\<forall>k. k \<noteq> fill_key a \<longrightarrow> lookup (positions pf') k = lookup (positions pf) k)"
proof -
  from add_fill_step [OF assms(1,2), of now] obtain pf'
    where pf': "add_fill now pf a = Some (fill_outcome_of pf a, pf')"
      "positions pf' = booked_positions now pf a" "book_inv pf'" by blast
  with held_booked [OF assms(1,2) pf'(3,2) assms(3,4)] lookup_booked_other [OF assms(1) pf'(2)]
  show ?thesis by blast
qed

theorem add_fill_refines_witness:
  "\<exists>outcome pf'. add_fill 0 (new_portfolio Map.empty) (demo_fill 3) = Some (outcome, pf') \<and>
    (outcome, held pf' (fill_key (demo_fill 3))) = (Opened, Some (3, lit (1 / 2)))"
proof -
  have h: "held (new_portfolio Map.empty) k = None" for k by (simp add: held_def new_portfolio_def)
  have "sint (3 :: i32) = 3" by simp
  then show ?thesis
    using add_fill_refines [OF book_inv_new(1), of "demo_fill 3" Map.empty 0]
    by (auto simp: book_inv_new(2) h demo_fill_def)
qed

subsection \<open>Greeks and aggregation\<close>

lemma refresh_position_keeps:
  "pos_key (refresh_position lm now reg mv p) = pos_key p"
  "p_quantity (refresh_position lm now reg mv p) = p_quantity p"
  "p_avg_fill_price (refresh_position lm now reg mv p) = p_avg_fill_price p"
  by (simp_all add: refresh_position_def Let_def pos_key_def split: option.split)

definition finite_position :: "position \<Rightarrow> bool" where
  "finite_position p \<longleftrightarrow>
     is_finite (p_delta p) \<and> is_finite (p_gamma p) \<and> is_finite (p_theta p) \<and> is_finite (p_vega p)"

lemma refresh_position_finite:
  assumes "finite_position p"
  shows "finite_position (refresh_position lm now reg mv p)"
  using assms compute_greeks_finite_step [unfolded finite_greeks_def]
  by (simp add: refresh_position_def Let_def finite_position_def split: option.split)

lemma lookup_map:
  assumes "\<And>p. pos_key (f p) = pos_key p"
  shows "lookup (map f ps) k = map_option f (lookup ps k)"
  by (induction ps) (simp_all add: assms)

text \<open>
  Refreshing the greeks leaves the book well formed, every holding (quantity and average
  price) as it was, and only finite greeks where there were finite ones, whatever market data and
  mathematics library it is given.
\<close>

theorem refresh_greeks_keeps_book:
  assumes "book_inv pf" "\<forall>p \<in> set (positions pf). finite_position p"
  shows "book_inv (refresh_greeks lm now mv pf) \<and> held (refresh_greeks lm now mv pf) = held pf \<and>
    (\<forall>p \<in> set (positions (refresh_greeks lm now mv pf)). finite_position p)"
proof (intro conjI)
  let ?f = "refresh_position lm now (registry pf) mv"
  have "pos_key \<circ> ?f = pos_key" by (simp add: fun_eq_iff refresh_position_keeps)
  then show "book_inv (refresh_greeks lm now mv pf)"
    using assms(1) by (auto simp: book_inv_def refresh_greeks_def index_ok_def refresh_position_keeps)
  show "held (refresh_greeks lm now mv pf) = held pf"
    by (rule ext)
      (simp add: held_def refresh_greeks_def lookup_map [OF refresh_position_keeps(1)]
        option.map_comp comp_def refresh_position_keeps)
  show "\<forall>p \<in> set (positions (refresh_greeks lm now mv pf)). finite_position p"
    using assms(2) by (simp add: refresh_greeks_def refresh_position_finite)
qed

theorem refresh_greeks_keeps_book_witness:
  "list_all finite_position (positions (refresh_greeks
      \<lparr>exp_fn = id, ln_fn = id, sqrt_fn = id, powf_fn = (\<lambda>x _. x), norm_cdf = (\<lambda>_. f64_nan)\<rparr> 0
      \<lparr>underlying_price = (\<lambda>_. Some (lit 6)), iv_for = (\<lambda>_ _ _ _. None),
        current_price = (\<lambda>_ _ _ _. None), hedge_underlying_price = (\<lambda>_. None)\<rparr>
      (replace_positions (new_portfolio Map.empty) [opening_position 0 (demo_fill 3) (lit 25000)])))"
proof -
  let ?pf = "replace_positions (new_portfolio Map.empty) [opening_position 0 (demo_fill 3) (lit 25000)]"
  have "book_inv ?pf"
    using index_ok_build_index [of "[opening_position 0 (demo_fill 3) (lit 25000)]"]
    by (simp add: book_inv_def replace_positions_def rebuild_index_def opening_position_def demo_fill_def)
  moreover have "\<forall>p \<in> set (positions ?pf). finite_position p"
    by (simp add: replace_positions_def rebuild_index_def opening_position_def finite_position_def)
  ultimately show ?thesis unfolding list_all_iff using refresh_greeks_keeps_book by blast
qed

lemma aggregate_fold:
  "fold (\<lambda>p (tot, per). (add_greeks tot p,
       per(p_product p \<mapsto> add_greeks (case per (p_product p) of None \<Rightarrow> no_greeks | Some g \<Rightarrow> g) p)))
     ps (g, m) =
   (foldl add_greeks g ps,
    \<lambda>prd. let own = filter (\<lambda>p. p_product p = prd) ps in
      if own = [] then m prd
      else Some (foldl add_greeks (case m prd of None \<Rightarrow> no_greeks | Some g \<Rightarrow> g) own))"
proof (induction ps arbitrary: g m)
  case (Cons p ps)
  show ?case unfolding fold_simps by (simp add: Cons.IH fun_eq_iff Let_def)
qed simp

lemma long_short_disjoint: "qty \<noteq> 0 \<longleftrightarrow> 0 < sint qty \<or> sint qty < 0" for qty :: i32
  using sint_eq_0_iff [of qty] by linarith

lemma add_greeks_counts:
  "long_count (foldl add_greeks g ps) =
     long_count g + word_of_nat (length (filter (\<lambda>p. 0 < sint (p_quantity p)) ps))"
  "short_count (foldl add_greeks g ps) =
     short_count g + word_of_nat (length (filter (\<lambda>p. sint (p_quantity p) < 0) ps))"
  "gross_positions (foldl add_greeks g ps) =
     gross_positions g + word_of_nat (length (filter (\<lambda>p. p_quantity p \<noteq> 0) ps))"
  by (induction ps arbitrary: g) (simp_all add: add_greeks_def Let_def)

lemma gross_is_long_plus_short:
  "length (filter (\<lambda>p. p_quantity p \<noteq> 0) ps) =
     length (filter (\<lambda>p. 0 < sint (p_quantity p)) ps) + length (filter (\<lambda>p. sint (p_quantity p) < 0) ps)"
  by (induction ps) (auto simp: long_short_disjoint)

text \<open>
  One pass of \<open>aggregate\<close> gives the same counts as the separate counting functions, the
  gross count is the sum of long and short, and the entry of a product is the aggregate of that
  product's positions alone (no entry for a product without positions).
\<close>

theorem aggregate_consistent:
  "long_count (fst (aggregate pf)) = pf_long_count pf \<and>
   short_count (fst (aggregate pf)) = pf_short_count pf \<and>
   gross_positions (fst (aggregate pf)) = pf_gross_positions pf \<and>
   pf_gross_positions pf = pf_long_count pf + pf_short_count pf \<and>
   snd (aggregate pf) prd =
     (if positions_for_product pf prd = [] then None
      else Some (fst (aggregate (pf\<lparr>positions := positions_for_product pf prd\<rparr>))))"
  by (simp add: aggregate_def aggregate_fold add_greeks_counts no_greeks_def pf_long_count_def
      pf_short_count_def pf_gross_positions_def gross_is_long_plus_short positions_for_product_def Let_def)

end
