(* ===== verification/Hedge.thy ===== *)
theory Hedge
  imports Portfolio
begin

section \<open>The delta hedge\<close>

text \<open>
  Model of \<^verbatim>\<open>rust/corsair_hedge/src\<close>: the hedge book of one product (\<^verbatim>\<open>state.rs\<close>), the manager that
  decides hedge trades and applies confirmed fills (\<^verbatim>\<open>manager.rs\<close>), and the dispatch over all
  products (\<^verbatim>\<open>fanout.rs\<close>).  \<^verbatim>\<open>systemtime_ns()\<close> is the argument \<open>now\<close>.  The \<^verbatim>\<open>IndexSet\<close> of processed
  execution ids is the list of its elements in insertion order.

  The theorems: the hedge quantity is the sum of the confirmed fills, each execution id counted
  once however often the broker repeats it; a trade the manager proposes brings the book to
  its target; in execute mode only confirmed fills and reconciliation move the book.
\<close>

record hedge_state =
  hedge_qty :: i32
  avg_entry_f :: f64
  realized_pnl_usd :: f64
  last_update_ns :: u64

definition new_hedge_state :: hedge_state where
  "new_hedge_state = \<lparr>hedge_qty = 0, avg_entry_f = 0, realized_pnl_usd = 0, last_update_ns = 0\<rparr>"

definition fill_sign :: "i32 \<Rightarrow> f64" where
  "fill_sign q = (if 0 < sint q then lit 1 else - lit 1)"

definition fill_effect_qty :: "bool \<Rightarrow> u32 \<Rightarrow> i32" where
  "fill_effect_qty is_buy qty = (if is_buy then qty else - qty)"

definition apply_fill :: "u64 \<Rightarrow> bool \<Rightarrow> u32 \<Rightarrow> f64 \<Rightarrow> f64 \<Rightarrow> hedge_state \<Rightarrow> hedge_state" where
  "apply_fill now is_buy qty price mpl st0 =
     (let st = st0\<lparr>last_update_ns := now\<rparr>;
          effect = fill_effect_qty is_buy qty;
          q = hedge_qty st;
          new_qty = q + effect;
          realize = (\<lambda>closed. realized_pnl_usd st
                       + fill_sign q * (price - avg_entry_f st) * u32_as_f64 closed * mpl)
      in if new_qty = 0 then
           st\<lparr>realized_pnl_usd := realize (unsigned_abs q), hedge_qty := 0, avg_entry_f := 0\<rparr>
         else if 0 \<le> sint q \<and> 0 \<le> sint effect \<or> sint q \<le> 0 \<and> sint effect \<le> 0 then
           (let notional = avg_entry_f st * i32_as_f64 q + price * i32_as_f64 effect
            in st\<lparr>hedge_qty := new_qty, avg_entry_f := notional / i32_as_f64 new_qty\<rparr>)
         else if unsigned_abs effect < unsigned_abs q then
           st\<lparr>realized_pnl_usd := realize (unsigned_abs effect), hedge_qty := new_qty\<rparr>
         else
           st\<lparr>realized_pnl_usd := realize (unsigned_abs q), hedge_qty := new_qty,
              avg_entry_f := price\<rparr>)"

definition hs_mtm_usd :: "hedge_state \<Rightarrow> f64 \<Rightarrow> f64 \<Rightarrow> f64" where
  "hs_mtm_usd st current_f mpl =
     (if hedge_qty st = 0 \<or> current_f \<le> 0 then 0
      else (current_f - avg_entry_f st) * i32_as_f64 (hedge_qty st) * mpl)"

definition hs_replace :: "u64 \<Rightarrow> i32 \<Rightarrow> f64 \<Rightarrow> hedge_state \<Rightarrow> hedge_state" where
  "hs_replace now qty avg_f st = st\<lparr>last_update_ns := now, hedge_qty := qty, avg_entry_f := avg_f\<rparr>"

definition hs_touch_freshness :: "u64 \<Rightarrow> hedge_state \<Rightarrow> hedge_state" where
  "hs_touch_freshness now st = st\<lparr>last_update_ns := now\<rparr>"

definition is_fresh :: "hedge_state \<Rightarrow> u64 \<Rightarrow> u64 \<Rightarrow> bool" where
  "is_fresh st now max_age_ns =
     (if last_update_ns st = 0 then False else saturating_sub now (last_update_ns st) \<le> max_age_ns)"

datatype hedge_mode = Observe | Execute

record hedge_config =
  hc_product :: string
  hc_multiplier :: f64
  hc_mode :: hedge_mode
  tolerance_deltas :: f64
  hc_rebalance_on_fill :: bool
  rebalance_cadence_sec :: f64
  include_in_daily_pnl :: bool
  flatten_on_halt_enabled :: bool
  lockout_days :: i32

datatype hedge_action =
    Idle
  | is_Place: Place (ha_buy: bool) (ha_qty: u32) (ha_reason: string) (ha_effective_pre: f64) (ha_target: i32)
  | is_LogOnly: LogOnly (ha_buy: bool) (ha_qty: u32) (ha_reason: string) (ha_forward: f64)

record hedge_manager =
  hm_cfg :: hedge_config
  hm_state :: hedge_state
  hedge_contract :: "contract option"
  last_periodic_ns :: u64
  priority_drain_until_ns :: u64
  processed_exec_ids :: "string list"

definition PROCESSED_EXEC_IDS_MAX :: nat where "PROCESSED_EXEC_IDS_MAX = 10000"

definition new_hedge_manager :: "hedge_config \<Rightarrow> hedge_manager" where
  "new_hedge_manager cfg = \<lparr>hm_cfg = cfg, hm_state = new_hedge_state, hedge_contract = None,
     last_periodic_ns = 0, priority_drain_until_ns = 0, processed_exec_ids = []\<rparr>"

definition hm_mtm_usd :: "hedge_manager \<Rightarrow> f64 \<Rightarrow> f64" where
  "hm_mtm_usd m f = hs_mtm_usd (hm_state m) f (hc_multiplier (hm_cfg m))"

definition set_hedge_contract :: "contract \<Rightarrow> hedge_manager \<Rightarrow> hedge_manager" where
  "set_hedge_contract c m = m\<lparr>hedge_contract := Some c\<rparr>"

definition effective_delta :: "portfolio \<Rightarrow> hedge_manager \<Rightarrow> f64" where
  "effective_delta pf m =
     delta_for_product pf (hc_product (hm_cfg m)) + i32_as_f64 (hedge_qty (hm_state m))"

definition rebalance ::
  "u64 \<Rightarrow> portfolio \<Rightarrow> string \<Rightarrow> f64 \<Rightarrow> hedge_manager \<Rightarrow> hedge_action \<times> hedge_manager" where
  "rebalance now pf reason forward m =
     (let effective = effective_delta pf m;
          q = hedge_qty (hm_state m);
          target_qty = f64_as_i32 (- fround (effective - i32_as_f64 q));
          desired_change = target_qty - q
      in if desired_change = 0 then (Idle, m)
         else
           let is_buy = (0 < sint desired_change); qty = unsigned_abs desired_change
           in case hc_mode (hm_cfg m) of
                Observe \<Rightarrow>
                  (LogOnly is_buy qty reason forward,
                   m\<lparr>hm_state := apply_fill now is_buy qty forward (hc_multiplier (hm_cfg m)) (hm_state m)\<rparr>)
              | Execute \<Rightarrow> (Place is_buy qty reason effective target_qty, m))"

definition maybe_rebalance ::
  "u64 \<Rightarrow> portfolio \<Rightarrow> string \<Rightarrow> f64 \<Rightarrow> hedge_manager \<Rightarrow> hedge_action \<times> hedge_manager" where
  "maybe_rebalance now pf reason forward m =
     (if \<bar>effective_delta pf m\<bar> \<le> tolerance_deltas (hm_cfg m) then (Idle, m)
      else rebalance now pf reason forward m)"

definition rebalance_on_fill :: "u64 \<Rightarrow> portfolio \<Rightarrow> hedge_manager \<Rightarrow> hedge_action \<times> hedge_manager" where
  "rebalance_on_fill now pf m =
     (if \<not> hc_rebalance_on_fill (hm_cfg m) then (Idle, m)
      else maybe_rebalance now pf ''fill'' (lit 6) m)"

text \<open>\<open>now\<close> is the wall clock of a fill booked on the way, \<open>now_ns\<close> the monotonic clock of the caller.\<close>

definition rebalance_periodic ::
  "u64 \<Rightarrow> portfolio \<Rightarrow> f64 \<Rightarrow> u64 \<Rightarrow> hedge_manager \<Rightarrow> hedge_action \<times> hedge_manager" where
  "rebalance_periodic now pf forward now_ns m =
     (let deadline = priority_drain_until_ns m in
      if 0 < deadline \<and> now_ns < deadline then
        maybe_rebalance now pf ''priority_drain_periodic'' forward (m\<lparr>last_periodic_ns := now_ns\<rparr>)
      else if 0 < deadline \<and> deadline \<le> now_ns then
        maybe_rebalance now pf ''priority_drain_clear'' forward
          (m\<lparr>priority_drain_until_ns := 0, last_periodic_ns := now_ns\<rparr>)
      else
        let elapsed = u64_as_f64 (saturating_sub now_ns (last_periodic_ns m)) / lit 1000000000
        in if elapsed < rebalance_cadence_sec (hm_cfg m) then (Idle, m)
           else maybe_rebalance now pf ''periodic'' forward (m\<lparr>last_periodic_ns := now_ns\<rparr>))"

definition force_flat :: "u64 \<Rightarrow> portfolio \<Rightarrow> f64 \<Rightarrow> hedge_manager \<Rightarrow> hedge_action \<times> hedge_manager" where
  "force_flat now pf forward m = rebalance now pf ''delta_kill_force_flat'' forward m"

definition request_priority_drain :: "u64 \<Rightarrow> hedge_manager \<Rightarrow> hedge_manager" where
  "request_priority_drain until m =
     m\<lparr>priority_drain_until_ns := max (priority_drain_until_ns m) until\<rparr>"

definition flatten_on_halt :: "f64 \<Rightarrow> hedge_manager \<Rightarrow> hedge_action \<times> hedge_manager" where
  "flatten_on_halt forward m =
     (let q = hedge_qty (hm_state m) in
      if \<not> flatten_on_halt_enabled (hm_cfg m) then (Idle, m)
      else if q = 0 then (Idle, m)
      else case hc_mode (hm_cfg m) of
             Observe \<Rightarrow> (LogOnly (sint q < 0) (unsigned_abs q) ''halt_flatten'' forward, m)
           | Execute \<Rightarrow> (Place (sint q < 0) (unsigned_abs q) ''halt_flatten'' (i32_as_f64 q) 0, m))"

text \<open>\<^verbatim>\<open>events::Fill\<close>: what the exec stream reports.\<close>

record fill =
  exec_id :: string
  fill_order_id :: u64
  fill_instrument :: u64
  fill_side :: side
  fill_qty :: u32
  fill_price :: f64
  fill_time_ns :: u64
  fill_commission :: "f64 option"

definition apply_broker_fill :: "u64 \<Rightarrow> fill \<Rightarrow> hedge_manager \<Rightarrow> bool \<times> hedge_manager" where
  "apply_broker_fill now f m =
     (if hc_mode (hm_cfg m) \<noteq> Execute then (False, m)
      else case hedge_contract m of
        None \<Rightarrow> (False, m)
      | Some c \<Rightarrow>
          if fill_instrument f \<noteq> instrument_id c then (False, m)
          else if exec_id f = [] \<or> exec_id f \<in> set (processed_exec_ids m) then (False, m)
          else
            let ids = (if PROCESSED_EXEC_IDS_MAX \<le> length (processed_exec_ids m)
                       then tl (processed_exec_ids m) else processed_exec_ids m)
            in (True, m\<lparr>processed_exec_ids := ids @ [exec_id f],
                       hm_state := apply_fill now (fill_side f = Buy) (fill_qty f) (fill_price f)
                         (hc_multiplier (hm_cfg m)) (hm_state m)\<rparr>))"

definition reconcile_with_position :: "u64 \<Rightarrow> i32 \<Rightarrow> f64 \<Rightarrow> hedge_manager \<Rightarrow> bool \<times> hedge_manager" where
  "reconcile_with_position now broker_qty broker_avg_cost m =
     (let m1 = m\<lparr>hm_state := hs_touch_freshness now (hm_state m)\<rparr> in
      if broker_qty = hedge_qty (hm_state m1) then (False, m1)
      else (True, m1\<lparr>hm_state := hs_replace now broker_qty broker_avg_cost (hm_state m1)\<rparr>))"

definition hm_touch_freshness :: "u64 \<Rightarrow> hedge_manager \<Rightarrow> hedge_manager" where
  "hm_touch_freshness now m = m\<lparr>hm_state := hs_touch_freshness now (hm_state m)\<rparr>"

subsection \<open>The fanout over products\<close>

type_synonym hedge_fanout = "hedge_manager list"

definition for_product :: "hedge_fanout \<Rightarrow> string \<Rightarrow> hedge_manager option" where
  "for_product ms prd = find (\<lambda>m. hc_product (hm_cfg m) = prd) ms"

definition hedge_qty_for_product :: "hedge_fanout \<Rightarrow> string \<Rightarrow> i32" where
  "hedge_qty_for_product ms prd =
     (case for_product ms prd of None \<Rightarrow> 0 | Some m \<Rightarrow> hedge_qty (hm_state m))"

definition forward_or_0 :: "(string \<Rightarrow> f64 option) \<Rightarrow> hedge_manager \<Rightarrow> f64" where
  "forward_or_0 forwards m = (case forwards (hc_product (hm_cfg m)) of None \<Rightarrow> 0 | Some f \<Rightarrow> f)"

definition mtm_usd_total :: "hedge_fanout \<Rightarrow> (string \<Rightarrow> f64 option) \<Rightarrow> f64" where
  "mtm_usd_total ms forwards = fsum (map (\<lambda>m. hm_mtm_usd m (forward_or_0 forwards m)) ms)"

definition fan_out ::
  "(hedge_manager \<Rightarrow> hedge_action \<times> hedge_manager) \<Rightarrow> hedge_fanout \<Rightarrow> (string \<times> hedge_action) list \<times> hedge_fanout" where
  "fan_out act ms = (map (\<lambda>m. (hc_product (hm_cfg m), fst (act m))) ms, map (snd \<circ> act) ms)"

definition force_flat_all ::
  "u64 \<Rightarrow> portfolio \<Rightarrow> (string \<Rightarrow> f64 option) \<Rightarrow> hedge_fanout \<Rightarrow> (string \<times> hedge_action) list \<times> hedge_fanout" where
  "force_flat_all now pf forwards = fan_out (\<lambda>m. force_flat now pf (forward_or_0 forwards m) m)"

definition flatten_on_halt_all ::
  "(string \<Rightarrow> f64 option) \<Rightarrow> hedge_fanout \<Rightarrow> (string \<times> hedge_action) list \<times> hedge_fanout" where
  "flatten_on_halt_all forwards = fan_out (\<lambda>m. flatten_on_halt (forward_or_0 forwards m) m)"

subsection \<open>The hedge book is the ledger of its fills\<close>

lemma apply_fill_qty [simp]:
  "hedge_qty (apply_fill now is_buy qty price mpl st) = hedge_qty st + fill_effect_qty is_buy qty"
  by (simp add: apply_fill_def Let_def)

definition hedge_effect :: "fill \<Rightarrow> i32" where
  "hedge_effect f = fill_effect_qty (fill_side f = Buy) (fill_qty f)"

text \<open>A flat book has no entry price: the invariant of the documentation of \<^verbatim>\<open>HedgeState\<close>.\<close>

definition hedge_inv :: "hedge_state \<Rightarrow> bool" where
  "hedge_inv st \<longleftrightarrow> (hedge_qty st = 0 \<longrightarrow> avg_entry_f st = 0)"

lemma apply_fill_inv: "hedge_inv (apply_fill now is_buy qty price mpl st)"
  by (simp add: hedge_inv_def apply_fill_def Let_def)

definition book_hedge :: "f64 \<Rightarrow> hedge_state \<Rightarrow> u64 \<times> fill \<Rightarrow> hedge_state option" where
  "book_hedge mpl st = (\<lambda>(now, f).
     Some (apply_fill now (fill_side f = Buy) (fill_qty f) (fill_price f) mpl st))"

lemma book_hedge_apply [simp]: "book_hedge mpl st (now, f) =
    Some (apply_fill now (fill_side f = Buy) (fill_qty f) (fill_price f) mpl st)"
  by (simp add: book_hedge_def)

interpretation hedge_book: ledger hedge_inv "\<lambda>st (_ :: unit). hedge_qty st" "\<lambda>_. ()" "hedge_effect \<circ> snd"
    "book_hedge mpl"
  for mpl
  by unfold_locales (auto simp: hedge_effect_def apply_fill_inv)

text \<open>
  A session of the exec stream: fills with the clock at which they arrive.  The fills that count
  are the first occurrences of each execution id on the hedge contract.
\<close>

definition hear_fills :: "(u64 \<times> fill) list \<Rightarrow> hedge_manager \<Rightarrow> hedge_manager" where
  "hear_fills = fold (\<lambda>(now, f) m. snd (apply_broker_fill now f m))"

fun confirmed :: "u64 \<Rightarrow> string set \<Rightarrow> (u64 \<times> fill) list \<Rightarrow> (u64 \<times> fill) list" where
  "confirmed instr seen [] = []"
| "confirmed instr seen (x # xs) =
     (let f = snd x in
      if fill_instrument f = instr \<and> exec_id f \<noteq> [] \<and> exec_id f \<notin> seen
      then x # confirmed instr (insert (exec_id f) seen) xs
      else confirmed instr seen xs)"

definition counts_on :: "u64 \<Rightarrow> fill \<Rightarrow> bool" where
  "counts_on instr f \<longleftrightarrow> fill_instrument f = instr \<and> exec_id f \<noteq> []"

lemma confirmed_replay:
  assumes "\<forall>y \<in> set ys. counts_on instr (snd y) \<longrightarrow>
      exec_id (snd y) \<in> seen \<or> (\<exists>x \<in> set xs. counts_on instr (snd x) \<and> exec_id (snd x) = exec_id (snd y))"
  shows "confirmed instr seen (xs @ ys) = confirmed instr seen xs"
  using assms
proof (induction instr seen xs rule: confirmed.induct)
  case (1 instr seen)
  then show ?case by (induction ys) (auto simp: Let_def counts_on_def)
next
  case (2 instr seen x xs)
  show ?case
  proof (cases "counts_on instr (snd x) \<and> exec_id (snd x) \<notin> seen")
    case True
    have "confirmed instr (insert (exec_id (snd x)) seen) (xs @ ys)
        = confirmed instr (insert (exec_id (snd x)) seen) xs"
      by (rule "2.IH"(1)) (use True "2.prems" in \<open>auto simp: counts_on_def\<close>)
    with True show ?thesis by (auto simp: Let_def counts_on_def)
  next
    case False
    have "confirmed instr seen (xs @ ys) = confirmed instr seen xs"
      by (rule "2.IH"(2)) (use False "2.prems" in \<open>auto simp: counts_on_def\<close>)
    with False show ?thesis by (auto simp: Let_def counts_on_def)
  qed
qed

lemma hear_fills_state:
  assumes "hc_mode (hm_cfg m) = Execute" "hedge_contract m = Some c"
    and "length (processed_exec_ids m) + length xs \<le> PROCESSED_EXEC_IDS_MAX"
  shows "book_all (book_hedge (hc_multiplier (hm_cfg m))) (hm_state m)
      (confirmed (instrument_id c) (set (processed_exec_ids m)) xs) = Some (hm_state (hear_fills xs m))"
  using assms
proof (induction xs arbitrary: m)
  case (Cons x xs)
  obtain now f where x: "x = (now, f)" by (cases x)
  let ?m = "snd (apply_broker_fill now f m)"
  have step: "hear_fills (x # xs) m = hear_fills xs ?m" by (simp add: hear_fills_def x)
  have pre: "hc_mode (hm_cfg ?m) = Execute" "hedge_contract ?m = Some c"
    "length (processed_exec_ids ?m) + length xs \<le> PROCESSED_EXEC_IDS_MAX"
    "hm_cfg ?m = hm_cfg m"
    using Cons.prems by (simp_all add: apply_broker_fill_def Let_def)
  show ?case
    using Cons.IH [OF pre(1-3)] Cons.prems unfolding step pre(4)
    by (auto simp: x Let_def apply_broker_fill_def split: if_splits)
qed (simp add: hear_fills_def)

text \<open>
  \<^bold>\<open>C23.\<close> In execute mode, after any stream of at most 10,000 execution reports the hedge quantity
  is the initial quantity plus the signed sum of the fills on the hedge contract, counting each
  execution id once and leaving out a report without one.  Reports that repeat execution ids of the hedge
  contract heard before, at whatever later time and with whatever other content a broker replays them after
  a reconnect, change nothing: neither quantity, average entry nor realised P\&L.  The limit is that of the
  table of processed ids, which is emptied from the old end when it grows beyond 10,000.
\<close>

theorem hedge_counts_each_fill_once:
  assumes "hc_mode (hm_cfg m) = Execute" "hedge_contract m = Some c" "hedge_inv (hm_state m)"
    and "length (processed_exec_ids m) + length xs + length ys \<le> PROCESSED_EXEC_IDS_MAX"
    and "\<And>now f. (now, f) \<in> set ys \<Longrightarrow> fill_instrument f = instrument_id c \<Longrightarrow> exec_id f \<noteq> [] \<Longrightarrow>
      exec_id f \<in> set (processed_exec_ids m) \<or>
      (\<exists>(now', f') \<in> set xs. fill_instrument f' = instrument_id c \<and> exec_id f' = exec_id f)"
  shows "hedge_qty (hm_state (hear_fills xs m)) = hedge_qty (hm_state m) +
      sum_list (map (hedge_effect \<circ> snd) (confirmed (instrument_id c) (set (processed_exec_ids m)) xs))
    \<and> hm_state (hear_fills (xs @ ys) m) = hm_state (hear_fills xs m)
    \<and> hedge_inv (hm_state (hear_fills xs m))"
proof -
  let ?t = "instrument_id c" and ?ids = "set (processed_exec_ids m)"
  have xs: "book_all (book_hedge (hc_multiplier (hm_cfg m))) (hm_state m) (confirmed ?t ?ids xs)
      = Some (hm_state (hear_fills xs m))"
    and xys: "book_all (book_hedge (hc_multiplier (hm_cfg m))) (hm_state m) (confirmed ?t ?ids (xs @ ys))
      = Some (hm_state (hear_fills (xs @ ys) m))"
    by (rule hear_fills_state [OF assms(1,2)], use assms(4) in simp)+
  have "confirmed ?t ?ids (xs @ ys) = confirmed ?t ?ids xs"
    by (rule confirmed_replay) (use assms(5) in \<open>fastforce simp: counts_on_def\<close>)
  with xs xys have "hm_state (hear_fills (xs @ ys) m) = hm_state (hear_fills xs m)" by simp
  moreover from hedge_book.book_all_balance [OF assms(3), of "hc_multiplier (hm_cfg m)" "confirmed ?t ?ids xs"] xs
  have "hedge_inv (hm_state (hear_fills xs m))" "hedge_qty (hm_state (hear_fills xs m)) =
      hedge_qty (hm_state m) + booked (\<lambda>_. ()) (hedge_effect \<circ> snd) (confirmed ?t ?ids xs) ()" by auto
  ultimately show ?thesis by (simp add: booked_def)
qed

definition demo_contract :: contract where
  "demo_contract = \<lparr>instrument_id = 7, c_kind = Future, c_symbol = ''HG'', c_local_symbol = ''HGM6'',
     c_expiry = 20000, c_strike = None, c_right = None, c_multiplier = lit 25000, c_exchange = Comex,
     c_currency = Usd, c_trading_class = ''HG''\<rparr>"

definition demo_manager :: hedge_manager where
  "demo_manager = set_hedge_contract demo_contract (new_hedge_manager
     \<lparr>hc_product = ''HG'', hc_multiplier = lit 25000, hc_mode = Execute, tolerance_deltas = lit (1 / 2),
      hc_rebalance_on_fill = True, rebalance_cadence_sec = lit 30, include_in_daily_pnl = True,
      flatten_on_halt_enabled = True, lockout_days = 30\<rparr>)"

definition demo_exec :: "u64 \<Rightarrow> string \<Rightarrow> side \<Rightarrow> u32 \<Rightarrow> u64 \<times> fill" where
  "demo_exec now i s n = (now, \<lparr>exec_id = i, fill_order_id = 1, fill_instrument = 7, fill_side = s, fill_qty = n,
     fill_price = lit 6, fill_time_ns = 1, fill_commission = None\<rparr>)"

theorem hedge_counts_each_fill_once_witness:
  "hedge_qty (hm_state (hear_fills ([demo_exec 1 ''a'' Buy 3, demo_exec 2 ''b'' Sell 1, demo_exec 3 ''a'' Buy 3] @
     [demo_exec 9 ''b'' Sell 1, demo_exec 10 ''a'' Buy 3]) demo_manager)) = 2"
proof -
  let ?xs = "[demo_exec 1 ''a'' Buy 3, demo_exec 2 ''b'' Sell 1, demo_exec 3 ''a'' Buy 3]"
  let ?ys = "[demo_exec 9 ''b'' Sell 1, demo_exec 10 ''a'' Buy 3]"
  have m: "hc_mode (hm_cfg demo_manager) = Execute" "hedge_contract demo_manager = Some demo_contract"
    "hedge_inv (hm_state demo_manager)" "processed_exec_ids demo_manager = []"
    "hedge_qty (hm_state demo_manager) = 0" "instrument_id demo_contract = 7"
    by (simp_all add: demo_manager_def set_hedge_contract_def new_hedge_manager_def new_hedge_state_def
        hedge_inv_def demo_contract_def)
  have "length (processed_exec_ids demo_manager) + length ?xs + length ?ys \<le> PROCESSED_EXEC_IDS_MAX"
    by (simp add: m PROCESSED_EXEC_IDS_MAX_def)
  moreover have "exec_id f \<in> set (processed_exec_ids demo_manager) \<or>
      (\<exists>(now', f') \<in> set ?xs. fill_instrument f' = instrument_id demo_contract \<and> exec_id f' = exec_id f)"
    if "(now, f) \<in> set ?ys" for now f using that by (auto simp: demo_exec_def m)
  ultimately have "hm_state (hear_fills (?xs @ ?ys) demo_manager) = hm_state (hear_fills ?xs demo_manager)"
    "hedge_qty (hm_state (hear_fills ?xs demo_manager)) = 2"
    using hedge_counts_each_fill_once [OF m(1-3), of ?xs ?ys] m(4-6)
    by (simp_all add: demo_exec_def hedge_effect_def fill_effect_qty_def)
  then show ?thesis by simp
qed

subsection \<open>Rebalancing\<close>

lemma fill_effect_of_change: "fill_effect_qty (0 < sint d) (unsigned_abs d) = d"
  by (simp add: fill_effect_qty_def unsigned_abs_def)

definition target_of :: "portfolio \<Rightarrow> hedge_manager \<Rightarrow> i32" where
  "target_of pf m =
     f64_as_i32 (- fround (effective_delta pf m - i32_as_f64 (hedge_qty (hm_state m))))"

lemma rebalance_cases:
  "rebalance now pf reason fwd m =
     (let t = target_of pf m; d = t - hedge_qty (hm_state m) in
      if d = 0 then (Idle, m)
      else case hc_mode (hm_cfg m) of
        Observe \<Rightarrow> (LogOnly (0 < sint d) (unsigned_abs d) reason fwd,
          m\<lparr>hm_state := apply_fill now (0 < sint d) (unsigned_abs d) fwd (hc_multiplier (hm_cfg m)) (hm_state m)\<rparr>)
      | Execute \<Rightarrow> (Place (0 < sint d) (unsigned_abs d) reason (effective_delta pf m) t, m))"
  by (simp add: rebalance_def target_of_def Let_def)

text \<open>
  A rebalance is idle only when the book already holds its target, minus the rounded option
  delta; the order it places in execute mode, once filled at any price, and the optimistic update of
  observe mode both leave exactly the target, with no \<^verbatim>\<open>i32\<close> overflow escaping: even a wrapped
  difference is traded back modulo \<open>2 ^ 32\<close>.
\<close>

theorem rebalance_reaches_target:
  "case rebalance now pf reason fwd m of
     (Idle, m') \<Rightarrow> m' = m \<and> hedge_qty (hm_state m) = target_of pf m
   | (Place is_buy qty _ _ target, m') \<Rightarrow> m' = m \<and> target = target_of pf m \<and> qty \<noteq> 0 \<and>
       hedge_qty (apply_fill later is_buy qty price mpl (hm_state m)) = target_of pf m
   | (LogOnly _ qty _ _, m') \<Rightarrow> qty \<noteq> 0 \<and> hedge_qty (hm_state m') = target_of pf m"
proof -
  have "unsigned_abs d = 0 \<longleftrightarrow> d = 0" for d by (simp add: unsigned_abs_def)
  then show ?thesis
    by (simp add: rebalance_cases Let_def fill_effect_of_change split: hedge_mode.split)
qed

lemmas rebalance_ops_defs =
  rebalance_on_fill_def rebalance_periodic_def force_flat_def flatten_on_halt_def maybe_rebalance_def

text \<open>
  In execute mode none of the decision functions moves the hedge book, they only propose
  orders, and they never return an observe-mode log entry; so the book changes only by confirmed
  fills and reconciliation.  In observe mode they never place an order.
\<close>

theorem decisions_respect_mode:
  "\<forall>op \<in> {rebalance_on_fill now pf, rebalance_periodic now pf fwd now_ns, force_flat now pf fwd,
            flatten_on_halt fwd}.
     (hc_mode (hm_cfg m) = Execute \<longrightarrow>
        hm_state (snd (op m)) = hm_state m \<and> \<not> is_LogOnly (fst (op m))) \<and>
     (hc_mode (hm_cfg m) = Observe \<longrightarrow> \<not> is_Place (fst (op m)))"
  by (simp add: rebalance_ops_defs rebalance_cases effective_delta_def target_of_def Let_def)

theorem decisions_respect_mode_witness:
  "hm_state (snd (flatten_on_halt (lit 6) demo_manager)) = hm_state demo_manager"
  using decisions_respect_mode [of _ _ "lit 6" _ demo_manager]
  by (simp add: demo_manager_def set_hedge_contract_def new_hedge_manager_def)

end
