(* ===== verification/Risk.thy ===== *)
theory Risk
  imports Hedge
begin

section \<open>The kill switch\<close>

text \<open>
  Model of \<^verbatim>\<open>rust/corsair_risk/src\<close> (\<^verbatim>\<open>kill.rs\<close>, \<^verbatim>\<open>sentinel.rs\<close>, \<^verbatim>\<open>monitor.rs\<close>) and of the broker
  tasks that drive it (\<^verbatim>\<open>rust/corsair_broker/src/tasks.rs\<close>: trader watchdog, error pump, connection
  pump, session rollover).  The text of a kill reason is a value of \<open>kill_reason\<close>: the format
  string it is built from with the numbers put into it.  The sentinel directory is a map from file
  names to whether the file can be removed.

  The theorems: exactly when a check fires; a kill is never lifted by any call of the monitor
  other than the two clearing operations, which lift only their own sources; and, for the tasks
  of the broker, which kills survive which events.
\<close>

datatype kill_type = Halt | Flatten | HedgeFlat

datatype kill_source =
  RiskSource | Disconnect | DailyHalt | Operational | TraderSilent | Induced kill_source

fun is_daily_clearable :: "kill_source \<Rightarrow> bool" where
  "is_daily_clearable DailyHalt = True"
| "is_daily_clearable (Induced DailyHalt) = True"
| "is_daily_clearable _ = False"

fun is_disconnect :: "kill_source \<Rightarrow> bool" where
  "is_disconnect Disconnect = True"
| "is_disconnect _ = False"

fun label :: "kill_source \<Rightarrow> string" where
  "label RiskSource = ''risk''"
| "label Disconnect = ''disconnect''"
| "label DailyHalt = ''daily_halt''"
| "label Operational = ''operational''"
| "label TraderSilent = ''trader_silent''"
| "label (Induced inner) = ''induced_'' @ label inner"

datatype kill_reason =
    MarginKill f64 f64
  | DailyPnlHalt bool f64 f64 f64 f64 f64 f64 f64
  | InducedTest string string kill_type string
  | TraderSilentFor u64
  | ConnectionLostReason string
  | ProtocolReason i32 string

record kill_event =
  reason :: kill_reason
  source :: kill_source
  kill_kind :: kill_type
  timestamp_ns :: u64

record sentinel =
  sen_key :: string
  sen_filename :: string
  sen_kill_type :: kill_type
  sen_inner :: kill_source

definition INDUCED_SENTINELS :: "sentinel list" where
  "INDUCED_SENTINELS =
     [\<lparr>sen_key = ''daily_pnl'', sen_filename = ''corsair_induce_daily_pnl'', sen_kill_type = Halt,
       sen_inner = DailyHalt\<rparr>,
      \<lparr>sen_key = ''margin'', sen_filename = ''corsair_induce_margin'', sen_kill_type = Halt,
       sen_inner = RiskSource\<rparr>]"

record risk_config =
  capital :: f64
  margin_kill_pct :: f64
  daily_halt_threshold :: "f64 option"
  delta_kill :: f64
  vega_kill :: f64
  theta_kill :: f64
  margin_ceiling_pct :: f64
  effective_delta_gating :: bool

definition resolve_daily_halt_threshold :: "f64 option \<Rightarrow> f64 option \<Rightarrow> f64 \<Rightarrow> f64 option" where
  "resolve_daily_halt_threshold pct_opt max_loss cap =
     (case pct_opt of
        Some pct \<Rightarrow>
          if 0 < pct \<and> 0 < cap then Some (- (pct * cap))
          else (case max_loss of
                  None \<Rightarrow> None
                | Some a \<Rightarrow> if a < 0 then Some a else if 0 < a then Some (- a) else None)
      | None \<Rightarrow>
          (case max_loss of
             None \<Rightarrow> None
           | Some a \<Rightarrow> if a < 0 then Some a else if 0 < a then Some (- a) else None))"

definition hedge_pnl :: "hedge_fanout \<Rightarrow> market_view \<Rightarrow> f64 \<times> f64" where
  "hedge_pnl ms mv =
     fold (\<lambda>m (mtm, realized).
        if hc_mode (hm_cfg m) = Observe then (mtm, realized)
        else
          let prd = hc_product (hm_cfg m);
              f = (case hedge_underlying_price mv prd of
                     Some v \<Rightarrow> v
                   | None \<Rightarrow> (case underlying_price mv prd of Some v \<Rightarrow> v | None \<Rightarrow> 0))
          in (mtm + hm_mtm_usd m f, realized + realized_pnl_usd (hm_state m))) ms (0, 0)"

datatype risk_outcome = Healthy | Killed kill_event | AlreadyKilled kill_event

record risk_monitor =
  rm_cfg :: risk_config
  killed :: "kill_event option"

definition new_risk_monitor :: "risk_config \<Rightarrow> risk_monitor" where
  "new_risk_monitor cfg = \<lparr>rm_cfg = cfg, killed = None\<rparr>"

definition is_killed :: "risk_monitor \<Rightarrow> bool" where
  "is_killed m \<longleftrightarrow> killed m \<noteq> None"

definition fire :: "kill_event \<Rightarrow> risk_monitor \<Rightarrow> risk_outcome \<times> risk_monitor" where
  "fire ev m = (Killed ev, m\<lparr>killed := Some ev\<rparr>)"

text \<open>The sentinel directory: \<open>Some True\<close> a file that can be removed, \<open>Some False\<close> one that cannot.\<close>

type_synonym sentinel_dir = "string \<rightharpoonup> bool"

fun scan_sentinels :: "u64 \<Rightarrow> sentinel list \<Rightarrow> sentinel_dir \<Rightarrow> kill_event option \<times> sentinel_dir" where
  "scan_sentinels now [] dir = (None, dir)"
| "scan_sentinels now (s # ss) dir =
     (case dir (sen_filename s) of
        None \<Rightarrow> scan_sentinels now ss dir
      | Some False \<Rightarrow> (None, dir)
      | Some True \<Rightarrow>
          (Some \<lparr>reason = InducedTest (map to_ascii_uppercase (sen_key s)) (sen_filename s)
                   (sen_kill_type s) (label (sen_inner s)),
                 source = Induced (sen_inner s), kill_kind = sen_kill_type s, timestamp_ns = now\<rparr>,
           dir(sen_filename s := None)))"

definition check_induced_sentinels :: "u64 \<Rightarrow> sentinel_dir \<Rightarrow> kill_event option \<times> sentinel_dir" where
  "check_induced_sentinels now dir = scan_sentinels now INDUCED_SENTINELS dir"

definition daily_pnl_of :: "portfolio \<Rightarrow> market_view \<Rightarrow> hedge_fanout \<Rightarrow> f64" where
  "daily_pnl_of pf mv ms =
     realized_pnl_persisted pf + fst (compute_mtm_pnl pf mv) + fst (hedge_pnl ms mv) + snd (hedge_pnl ms mv)"

definition daily_halt_event ::
  "bool \<Rightarrow> u64 \<Rightarrow> risk_config \<Rightarrow> f64 \<Rightarrow> portfolio \<Rightarrow> market_view \<Rightarrow> hedge_fanout \<Rightarrow> kill_event" where
  "daily_halt_event fill_path now cfg threshold pf mv ms =
     \<lparr>reason = DailyPnlHalt fill_path (daily_pnl_of pf mv ms) threshold
        ((\<bar>threshold\<bar> / capital cfg) * lit 100) (fst (compute_mtm_pnl pf mv)) (fst (hedge_pnl ms mv))
        (snd (hedge_pnl ms mv)) (realized_pnl_persisted pf),
      source = DailyHalt, kill_kind = Halt, timestamp_ns = now\<rparr>"

definition check ::
  "u64 \<Rightarrow> sentinel_dir \<Rightarrow> portfolio \<Rightarrow> f64 \<Rightarrow> market_view \<Rightarrow> hedge_fanout \<Rightarrow> risk_monitor \<Rightarrow>
    risk_outcome \<times> risk_monitor \<times> sentinel_dir" where
  "check now dir pf margin_used mv ms m =
     (case killed m of
        Some e \<Rightarrow> (AlreadyKilled e, m, dir)
      | None \<Rightarrow>
          (case check_induced_sentinels now dir of
             (Some ev, dir') \<Rightarrow> (let (oc, m') = fire ev m in (oc, m', dir'))
           | (None, dir') \<Rightarrow>
               let cap = capital (rm_cfg m); margin_kill = cap * margin_kill_pct (rm_cfg m) in
               if margin_kill < margin_used then
                 (let (oc, m') = fire \<lparr>reason = MarginKill margin_used margin_kill, source = RiskSource,
                                       kill_kind = Halt, timestamp_ns = now\<rparr> m
                  in (oc, m', dir'))
               else
                 (case daily_halt_threshold (rm_cfg m) of
                    Some threshold \<Rightarrow>
                      if daily_pnl_of pf mv ms < threshold then
                        (let (oc, m') = fire (daily_halt_event False now (rm_cfg m) threshold pf mv ms) m
                         in (oc, m', dir'))
                      else (Healthy, m, dir')
                  | None \<Rightarrow> (Healthy, m, dir'))))"

definition check_daily_pnl_only ::
  "u64 \<Rightarrow> portfolio \<Rightarrow> market_view \<Rightarrow> hedge_fanout \<Rightarrow> risk_monitor \<Rightarrow> risk_outcome \<times> risk_monitor" where
  "check_daily_pnl_only now pf mv ms m =
     (case killed m of
        Some e \<Rightarrow> (AlreadyKilled e, m)
      | None \<Rightarrow>
          (case daily_halt_threshold (rm_cfg m) of
             None \<Rightarrow> (Healthy, m)
           | Some threshold \<Rightarrow>
               if daily_pnl_of pf mv ms < threshold
               then fire (daily_halt_event True now (rm_cfg m) threshold pf mv ms) m
               else (Healthy, m)))"

definition clear_disconnect_kill :: "risk_monitor \<Rightarrow> bool \<times> risk_monitor" where
  "clear_disconnect_kill m =
     (case killed m of
        Some ev \<Rightarrow> if is_disconnect (source ev) then (True, m\<lparr>killed := None\<rparr>) else (False, m)
      | None \<Rightarrow> (False, m))"

definition clear_daily_halt :: "risk_monitor \<Rightarrow> bool \<times> risk_monitor" where
  "clear_daily_halt m =
     (case killed m of
        Some ev \<Rightarrow> if is_daily_clearable (source ev) then (True, m\<lparr>killed := None\<rparr>) else (False, m)
      | None \<Rightarrow> (False, m))"

subsection \<open>The broker tasks that drive the monitor\<close>

text \<open>One iteration of \<^verbatim>\<open>trader_watchdog\<close>: the monitor after it, and whether the kill was fired.\<close>

definition trader_watchdog :: "u64 \<Rightarrow> u64 \<Rightarrow> u64 \<Rightarrow> risk_monitor \<Rightarrow> bool \<times> risk_monitor" where
  "trader_watchdog timeout_ns last_msg now m =
     (if last_msg = 0 then (False, m)
      else
        let gap = saturating_sub now last_msg in
        if gap \<le> timeout_ns then (False, m)
        else if (case killed m of Some e \<Rightarrow> source e = TraderSilent | None \<Rightarrow> False) then (False, m)
        else (True, snd (fire \<lparr>reason = TraderSilentFor (gap div 1000000), source = TraderSilent,
                               kill_kind = Halt, timestamp_ns = now\<rparr> m)))"

text \<open>\<^verbatim>\<open>pump_errors\<close>: disconnect-class broker errors fire a disconnect kill.\<close>

definition disconnect_kill_reason :: "broker_error \<Rightarrow> kill_reason option" where
  "disconnect_kill_reason err =
     (case err of
        ConnectionLost msg \<Rightarrow> Some (ConnectionLostReason msg)
      | ProtocolError (Some c) msg \<Rightarrow>
          if c \<in> {1100, 1102, 1300, 504} then Some (ProtocolReason c msg) else None
      | _ \<Rightarrow> None)"

definition pump_error :: "u64 \<Rightarrow> broker_error \<Rightarrow> risk_monitor \<Rightarrow> bool \<times> risk_monitor" where
  "pump_error now err m =
     (case disconnect_kill_reason err of
        None \<Rightarrow> (False, m)
      | Some why \<Rightarrow>
          if (case killed m of Some e \<Rightarrow> is_disconnect (source e) | None \<Rightarrow> False) then (False, m)
          else (True, snd (fire \<lparr>reason = why, source = Disconnect, kill_kind = Halt,
                                 timestamp_ns = now\<rparr> m)))"

datatype connection_state =
  Disconnected | Connecting | Connected | LostConnection | Reconnecting | ClosedConnection

definition pump_connection :: "connection_state \<Rightarrow> risk_monitor \<Rightarrow> bool \<times> risk_monitor" where
  "pump_connection cs m = (if cs = Connected then clear_disconnect_kill m else (False, m))"

text \<open>One sample of \<^verbatim>\<open>daily_halt_rollover\<close>: the hour and the day in US/Central, and the day last fired.\<close>

definition daily_halt_rollover ::
  "nat \<Rightarrow> naive_date \<Rightarrow> naive_date option \<times> portfolio \<times> risk_monitor \<Rightarrow>
    naive_date option \<times> portfolio \<times> risk_monitor" where
  "daily_halt_rollover hour today = (\<lambda>(last_fired, pf, m).
     if 17 \<le> hour \<and> last_fired \<noteq> Some today
     then (Some today, (reset_daily pf)\<lparr>realized_pnl_persisted := 0\<rparr>, snd (clear_daily_halt m))
     else (last_fired, pf, m))"

subsection \<open>What a check decides\<close>

text \<open>
  A check that reports healthy has seen every limit respected: the monitor was and stays
  unkilled, no removable sentinel file is present, the margin does not exceed its limit and the daily
  P\&L is not below the halt threshold.  A check that reports a kill, new or old, leaves the monitor
  killed with that very event.
\<close>

theorem check_sound:
  "case check now dir pf margin_used mv ms m of
     (Healthy, m', dir') \<Rightarrow> m' = m \<and> \<not> is_killed m \<and> dir' = dir \<and>
        \<not> capital (rm_cfg m) * margin_kill_pct (rm_cfg m) < margin_used \<and>
        (\<forall>t. daily_halt_threshold (rm_cfg m) = Some t \<longrightarrow> \<not> daily_pnl_of pf mv ms < t)
   | (Killed e, m', dir') \<Rightarrow> \<not> is_killed m \<and> killed m' = Some e \<and> rm_cfg m' = rm_cfg m
   | (AlreadyKilled e, m', dir') \<Rightarrow> m' = m \<and> killed m = Some e \<and> dir' = dir"
proof -
  have "scan_sentinels now ss dir = (None, dir') \<Longrightarrow> dir' = dir" for ss dir'
    by (induction now ss dir rule: scan_sentinels.induct) (auto split: option.splits bool.splits)
  then show ?thesis
    by (auto simp: check_def check_induced_sentinels_def fire_def is_killed_def Let_def
        split: option.split prod.split)
qed

definition demo_risk :: risk_monitor where
  "demo_risk = new_risk_monitor \<lparr>capital = lit 500000, margin_kill_pct = lit (7 / 10),
     daily_halt_threshold = None, delta_kill = 0, vega_kill = 0, theta_kill = 0,
     margin_ceiling_pct = lit (1 / 2), effective_delta_gating = True\<rparr>"

definition no_market :: market_view where
  "no_market = \<lparr>underlying_price = (\<lambda>_. None), iv_for = (\<lambda>_ _ _ _. None),
     current_price = (\<lambda>_ _ _ _. None), hedge_underlying_price = (\<lambda>_. None)\<rparr>"

theorem check_sound_witness:
  "case check 1 Map.empty (new_portfolio Map.empty) (lit 400000) no_market [] demo_risk of
     (oc, m', _) \<Rightarrow> oc \<noteq> Healthy \<and> is_killed m'"
proof -
  have over: "lit 500000 * lit (7 / 10) < lit 400000" by code_simp
  show ?thesis
    using check_sound [where now = 1 and dir = Map.empty and pf = "new_portfolio Map.empty"
        and margin_used = "lit 400000" and mv = no_market and ms = "[]" and m = demo_risk] over
    by (auto simp: demo_risk_def new_risk_monitor_def is_killed_def split: prod.splits risk_outcome.splits)
qed

subsection \<open>The kill switch as a state machine\<close>

text \<open>Everything the broker process does to the monitor, with the arguments the environment chooses.\<close>

datatype kill_ev =
    PeriodicCheck u64 sentinel_dir portfolio f64 market_view hedge_fanout
  | FillCheck u64 portfolio market_view hedge_fanout
  | Watchdog u64 u64 u64
  | ErrorEvent u64 broker_error
  | ConnectionChange connection_state
  | Rollover nat naive_date "naive_date option" portfolio

inductive kill_step :: "kill_ev \<Rightarrow> risk_monitor \<Rightarrow> risk_monitor \<Rightarrow> bool" where
  periodic: "check now dir pf mu mv ms m = (oc, m', dir') \<Longrightarrow>
    kill_step (PeriodicCheck now dir pf mu mv ms) m m'"
| on_fill: "check_daily_pnl_only now pf mv ms m = (oc, m') \<Longrightarrow> kill_step (FillCheck now pf mv ms) m m'"
| watchdog: "trader_watchdog timeout last_msg now m = (fired, m') \<Longrightarrow>
    kill_step (Watchdog timeout last_msg now) m m'"
| on_error: "pump_error now err m = (fired, m') \<Longrightarrow> kill_step (ErrorEvent now err) m m'"
| on_connection: "pump_connection cs m = (cleared, m') \<Longrightarrow> kill_step (ConnectionChange cs) m m'"
| rollover: "daily_halt_rollover hour today (last_fired, pf, m) = (lf', pf', m') \<Longrightarrow>
    kill_step (Rollover hour today last_fired pf) m m'"

inductive kill_run :: "kill_ev list \<Rightarrow> risk_monitor \<Rightarrow> risk_monitor \<Rightarrow> bool" where
  stop: "kill_run [] m m"
| more: "kill_step ev m m1 \<Longrightarrow> kill_run evs m1 m2 \<Longrightarrow> kill_run (ev # evs) m m2"

inductive_cases kill_stepE [elim]:
  "kill_step (PeriodicCheck now dir pf mu mv ms) m m'" "kill_step (FillCheck now pf mv ms) m m'"
  "kill_step (Watchdog timeout last_msg now) m m'" "kill_step (ErrorEvent now err) m m'"
  "kill_step (ConnectionChange cs) m m'" "kill_step (Rollover hour today last_fired pf) m m'"

inductive_simps kill_run_simps: "kill_run [] m m'" "kill_run (ev # evs) m m'"

text \<open>The steps are deterministic: each is a function of the event.\<close>

lemma kill_step_apply:
  "kill_step (ErrorEvent now err) m (snd (pump_error now err m))"
  "kill_step (ConnectionChange cs) m (snd (pump_connection cs m))"
  "kill_step (Rollover hour today lf pf) m (snd (snd (daily_halt_rollover hour today (lf, pf, m))))"
proof -
  show "kill_step (ErrorEvent now err) m (snd (pump_error now err m))"
    by (rule kill_step.on_error [OF prod.collapse [symmetric]])
  show "kill_step (ConnectionChange cs) m (snd (pump_connection cs m))"
    by (rule kill_step.on_connection [OF prod.collapse [symmetric]])
  obtain lf' pf' m' where "daily_halt_rollover hour today (lf, pf, m) = (lf', pf', m')"
    by (rule prod_cases3)
  then show "kill_step (Rollover hour today lf pf) m (snd (snd (daily_halt_rollover hour today (lf, pf, m))))"
    by (auto intro: kill_step.rollover)
qed

lemmas kill_ops_defs =
  check_def check_daily_pnl_only_def trader_watchdog_def pump_error_def pump_connection_def
  daily_halt_rollover_def clear_disconnect_kill_def clear_daily_halt_def fire_def Let_def

text \<open>A source is sticky when neither a reconnect nor the session rollover clears it.\<close>

definition sticky :: "kill_source \<Rightarrow> bool" where
  "sticky s \<longleftrightarrow> \<not> is_disconnect s \<and> \<not> is_daily_clearable s"

fun disconnects :: "kill_ev \<Rightarrow> bool" where
  "disconnects (ErrorEvent now err) = (disconnect_kill_reason err \<noteq> None)"
| "disconnects _ = False"

definition sticky_killed :: "risk_monitor \<Rightarrow> bool" where
  "sticky_killed m \<longleftrightarrow> (\<exists>e. killed m = Some e \<and> sticky (source e))"

lemma sticky_killed_step:
  assumes "kill_step ev m m'" "sticky_killed m" "\<not> disconnects ev"
  shows "sticky_killed m'"
proof -
  from assms(2) obtain e where "killed m = Some e" "sticky (source e)" by (auto simp: sticky_killed_def)
  with assms(1,3) show ?thesis
    by (cases ev) (auto simp: kill_ops_defs sticky_killed_def sticky_def split: if_splits)
qed

text \<open>
  \<^bold>\<open>C17.\<close> Once a sticky kill is active, no sequence of checks, fills, watchdog samples, connection
  changes, session rollovers and broker errors lifts it, as long as none of the errors is of the
  disconnect class.
\<close>

theorem sticky_kill_persists:
  assumes "kill_run evs m m'" "sticky_killed m" "\<forall>ev \<in> set evs. \<not> disconnects ev"
  shows "sticky_killed m'"
  using assms by (induction rule: kill_run.induct) (auto intro: sticky_killed_step)

definition demo_killed :: risk_monitor where
  "demo_killed = \<lparr>rm_cfg = \<lparr>capital = lit 500000, margin_kill_pct = lit (7 / 10),
      daily_halt_threshold = None, delta_kill = 0, vega_kill = 0, theta_kill = 0,
      margin_ceiling_pct = lit (1 / 2), effective_delta_gating = True\<rparr>,
    killed = Some \<lparr>reason = MarginKill (lit 400000) (lit 350000), source = RiskSource,
      kill_kind = Halt, timestamp_ns = 1\<rparr>\<rparr>"

theorem sticky_kill_persists_witness:
  "sticky_killed (snd (clear_daily_halt (snd (pump_connection Connected demo_killed))))"
proof -
  let ?m = "snd (pump_connection Connected demo_killed)" and ?pf = "new_portfolio Map.empty"
  have "snd (snd (daily_halt_rollover 18 0 (None, ?pf, ?m))) = snd (clear_daily_halt ?m)"
    by (simp add: daily_halt_rollover_def)
  then have "kill_run [ConnectionChange Connected, Rollover 18 0 None ?pf] demo_killed (snd (clear_daily_halt ?m))"
    using kill_step_apply(2) [of Connected demo_killed] kill_step_apply(3) [of 18 0 None ?pf ?m]
    by (metis kill_run_simps)
  from sticky_kill_persists [OF this] show ?thesis
    by (simp add: sticky_killed_def demo_killed_def sticky_def)
qed

text \<open>
  Every kill is lifted by a broker error of the disconnect class followed by the reconnect
  event, the sticky kills included: the error pump overwrites the recorded kill, and the connection
  pump then clears the overwritten one.
\<close>

theorem disconnect_lifts_any_kill:
  assumes "disconnect_kill_reason err = Some why"
  shows "\<exists>m'. kill_run [ErrorEvent now err, ConnectionChange Connected] m m' \<and> \<not> is_killed m'"
proof -
  have "\<not> is_killed (snd (pump_connection Connected (snd (pump_error now err m))))"
    using assms by (simp add: kill_ops_defs is_killed_def split: option.split)
  moreover have "kill_run [ErrorEvent now err, ConnectionChange Connected] m
      (snd (pump_connection Connected (snd (pump_error now err m))))"
    using kill_step_apply(1) [of now err m] kill_step_apply(2) [of Connected] by (metis kill_run_simps)
  ultimately show ?thesis by blast
qed

theorem disconnect_lifts_any_kill_witness:
  "sticky_killed demo_killed \<and>
   (\<exists>m'. kill_run [ErrorEvent 2 (ConnectionLost ''reset''), ConnectionChange Connected] demo_killed m'
      \<and> \<not> is_killed m')"
  using disconnect_lifts_any_kill [of "ConnectionLost ''reset''"]
  by (simp add: disconnect_kill_reason_def sticky_killed_def demo_killed_def sticky_def)

end
