(* ===== verification/Constraint.thy ===== *)
theory Constraint
  imports Hedge
begin

section \<open>Pre-fill constraint gates\<close>

text \<open>
  Model of \<^verbatim>\<open>rust/corsair_constraint/src\<close> (\<^verbatim>\<open>gates.rs\<close>, \<^verbatim>\<open>checker.rs\<close>).  A fill is judged by the state
  it would leave: hard kill limits first, then the margin escape, then the soft limits with their
  improving-fill exceptions.  The formatted \<^verbatim>\<open>detail\<close> text of an outcome is left out; the
  stale-hedge counter is returned with the outcome.

  The theorems read the gates backwards: what an accepted fill guarantees, on floats as they are,
  with NaN, and what a stale hedge cannot do.
\<close>

datatype gate_outcome = Accepted | Rejected (rejection_reason: string) | AcceptedMarginEscape

definition is_accepted :: "gate_outcome \<Rightarrow> bool" where
  "is_accepted g \<longleftrightarrow> g = Accepted \<or> g = AcceptedMarginEscape"

record constraint_config =
  cc_product :: string
  cc_capital :: f64
  cc_margin_ceiling_pct :: f64
  cc_delta_ceiling :: f64
  cc_theta_floor :: f64
  cc_margin_kill_pct :: f64
  cc_delta_kill :: f64
  cc_theta_kill :: f64
  cc_effective_delta_gating :: bool
  margin_escape_enabled :: bool

definition margin_ceiling :: "constraint_config \<Rightarrow> f64" where
  "margin_ceiling cfg = cc_capital cfg * cc_margin_ceiling_pct cfg"

definition margin_kill :: "constraint_config \<Rightarrow> f64" where
  "margin_kill cfg = cc_capital cfg * cc_margin_kill_pct cfg"

record constraint_check =
  option_strike :: f64
  option_right :: right
  option_expiry :: naive_date
  option_delta_per_contract :: f64
  option_theta_per_contract :: f64
  fill_qty_signed :: i32
  ck_multiplier :: f64
  cur_margin :: f64
  post_margin :: f64
  cur_long_premium :: f64
  post_long_premium :: f64
  ck_hedge_qty :: i32
  hedge_state_fresh :: "bool option"

definition IBKR_SCALE_LOWER :: f64 where "IBKR_SCALE_LOWER = lit (1 / 2)"
definition IBKR_SCALE_UPPER :: f64 where "IBKR_SCALE_UPPER = lit (125 / 100)"

record margin_calibration =
  raw_synthetic :: f64
  ibkr_actual :: f64
  cal_scale :: f64
  cal_timestamp_ns :: u64

record constraint_checker =
  cc_cfg :: constraint_config
  ibkr_scale :: f64
  last_calibration :: "margin_calibration option"
  stale_hedge_count :: u64

definition new_checker :: "constraint_config \<Rightarrow> constraint_checker" where
  "new_checker cfg = \<lparr>cc_cfg = cfg, ibkr_scale = lit 1, last_calibration = None, stale_hedge_count = 0\<rparr>"

definition scale_margin :: "constraint_checker \<Rightarrow> f64 \<Rightarrow> f64" where
  "scale_margin ck raw = raw * ibkr_scale ck"

definition update_cached_margin :: "f64 \<Rightarrow> f64 \<Rightarrow> u64 \<Rightarrow> constraint_checker \<Rightarrow> f64 \<times> constraint_checker" where
  "update_cached_margin actual raw now ck =
     (if actual \<le> 0 \<or> raw \<le> 0 then (ibkr_scale ck, ck)
      else
        let proposed = actual / raw;
            bounded = (if proposed < IBKR_SCALE_LOWER \<or> IBKR_SCALE_UPPER < proposed then lit 1 else proposed)
        in (bounded, ck\<lparr>ibkr_scale := bounded,
              last_calibration := Some \<lparr>raw_synthetic = raw, ibkr_actual = actual, cal_scale = bounded,
                                        cal_timestamp_ns = now\<rparr>\<rparr>))"

text \<open>The hedge quantity the gates trust, and the state of the exposure before and after the fill.\<close>

definition trust_hedge :: "constraint_checker \<Rightarrow> constraint_check \<Rightarrow> bool" where
  "trust_hedge ck c \<longleftrightarrow> cc_effective_delta_gating (cc_cfg ck) \<and>
     (case hedge_state_fresh c of Some fresh \<Rightarrow> fresh | None \<Rightarrow> True)"

definition cur_delta :: "constraint_checker \<Rightarrow> portfolio \<Rightarrow> constraint_check \<Rightarrow> f64" where
  "cur_delta ck pf c = delta_for_product pf (cc_product (cc_cfg ck)) +
     i32_as_f64 (if trust_hedge ck c then ck_hedge_qty c else 0)"

definition post_delta :: "constraint_checker \<Rightarrow> portfolio \<Rightarrow> constraint_check \<Rightarrow> f64" where
  "post_delta ck pf c = cur_delta ck pf c + option_delta_per_contract c * i32_as_f64 (fill_qty_signed c)"

definition cur_theta :: "constraint_checker \<Rightarrow> portfolio \<Rightarrow> f64" where
  "cur_theta ck pf = theta_for_product pf (cc_product (cc_cfg ck))"

definition post_theta :: "constraint_checker \<Rightarrow> portfolio \<Rightarrow> constraint_check \<Rightarrow> f64" where
  "post_theta ck pf c = cur_theta ck pf +
     option_theta_per_contract c * ck_multiplier c * i32_as_f64 (fill_qty_signed c)"

definition check_gates :: "constraint_checker \<Rightarrow> portfolio \<Rightarrow> constraint_check \<Rightarrow> gate_outcome" where
  "check_gates ck pf c =
     (let cfg = cc_cfg ck; cap = cc_capital cfg; ceiling = margin_ceiling cfg; kill = margin_kill cfg;
          cd = cur_delta ck pf c; pd = post_delta ck pf c; ct = cur_theta ck pf; pt = post_theta ck pf c
      in
      if kill < post_margin c then Rejected ''margin_kill''
      else if cc_delta_kill cfg < \<bar>pd\<bar> then Rejected ''delta_kill''
      else if cc_theta_kill cfg < 0 \<and> pt < cc_theta_kill cfg then Rejected ''theta_kill''
      else if margin_escape_enabled cfg \<and> ceiling < cur_margin c \<and> post_margin c < cur_margin c then
        (if cap < post_long_premium c \<and> cur_long_premium c < post_long_premium c
         then Rejected ''long_premium'' else AcceptedMarginEscape)
      else if ceiling < post_margin c \<and> ceiling < cur_margin c \<and> cur_margin c \<le> post_margin c
        then Rejected ''margin''
      else if ceiling < post_margin c \<and> cur_margin c \<le> ceiling then Rejected ''margin''
      else if cc_delta_ceiling cfg < \<bar>pd\<bar> \<and> (\<bar>cd\<bar> \<le> \<bar>pd\<bar> \<or> (0 \<le> pd) \<noteq> (0 \<le> cd))
        then Rejected ''delta''
      else if pt < cc_theta_floor cfg \<and> pt \<le> ct then Rejected ''theta''
      else if cap < post_long_premium c \<and> cur_long_premium c < post_long_premium c
        then Rejected ''long_premium''
      else Accepted)"

definition check_constraints ::
  "constraint_checker \<Rightarrow> portfolio \<Rightarrow> constraint_check \<Rightarrow> gate_outcome \<times> constraint_checker" where
  "check_constraints ck pf c =
     (check_gates ck pf c,
      if cc_effective_delta_gating (cc_cfg ck) \<and> hedge_state_fresh c = Some False
      then ck\<lparr>stale_hedge_count := stale_hedge_count ck + 1\<rparr> else ck)"

subsection \<open>What acceptance guarantees\<close>

definition no_nan :: "f64 list \<Rightarrow> bool" where
  "no_nan xs \<longleftrightarrow> (\<forall>x \<in> set xs. \<not> is_nan x)"

lemma accepted_gates:
  assumes "check_gates ck pf c = outcome" "is_accepted outcome"
  shows "\<not> margin_kill (cc_cfg ck) < post_margin c" "\<not> cc_delta_kill (cc_cfg ck) < \<bar>post_delta ck pf c\<bar>"
    "\<not> (cc_theta_kill (cc_cfg ck) < 0 \<and> post_theta ck pf c < cc_theta_kill (cc_cfg ck))"
    "\<not> (cc_capital (cc_cfg ck) < post_long_premium c \<and> cur_long_premium c < post_long_premium c)"
    "outcome = Accepted \<Longrightarrow> \<not> (margin_ceiling (cc_cfg ck) < post_margin c \<and>
      margin_ceiling (cc_cfg ck) < cur_margin c \<and> cur_margin c \<le> post_margin c)"
    "outcome = Accepted \<Longrightarrow> \<not> (margin_ceiling (cc_cfg ck) < post_margin c \<and>
      cur_margin c \<le> margin_ceiling (cc_cfg ck))"
    "outcome = Accepted \<Longrightarrow> \<not> (cc_delta_ceiling (cc_cfg ck) < \<bar>post_delta ck pf c\<bar> \<and>
      (\<bar>cur_delta ck pf c\<bar> \<le> \<bar>post_delta ck pf c\<bar> \<or> (0 \<le> post_delta ck pf c) \<noteq> (0 \<le> cur_delta ck pf c)))"
    "outcome = Accepted \<Longrightarrow> \<not> (post_theta ck pf c < cc_theta_floor (cc_cfg ck) \<and>
      post_theta ck pf c \<le> cur_theta ck pf)"
proof -
  note g = assms [unfolded check_gates_def is_accepted_def Let_def]
  show "\<not> margin_kill (cc_cfg ck) < post_margin c" using g by (auto split: if_splits)
  show "\<not> cc_delta_kill (cc_cfg ck) < \<bar>post_delta ck pf c\<bar>" using g by (auto split: if_splits)
  show "\<not> (cc_theta_kill (cc_cfg ck) < 0 \<and> post_theta ck pf c < cc_theta_kill (cc_cfg ck))" using g by (auto split: if_splits)
  show "\<not> (cc_capital (cc_cfg ck) < post_long_premium c \<and> cur_long_premium c < post_long_premium c)"
    using g by (auto split: if_splits)
  assume acc: "outcome = Accepted"
  show "\<not> (margin_ceiling (cc_cfg ck) < post_margin c \<and>
      margin_ceiling (cc_cfg ck) < cur_margin c \<and> cur_margin c \<le> post_margin c)" using g acc by (auto split: if_splits)
  show "\<not> (margin_ceiling (cc_cfg ck) < post_margin c \<and> cur_margin c \<le> margin_ceiling (cc_cfg ck))"
    using g acc by (auto split: if_splits)
  show "\<not> (cc_delta_ceiling (cc_cfg ck) < \<bar>post_delta ck pf c\<bar> \<and>
      (\<bar>cur_delta ck pf c\<bar> \<le> \<bar>post_delta ck pf c\<bar> \<or> (0 \<le> post_delta ck pf c) \<noteq> (0 \<le> cur_delta ck pf c)))"
    using g acc by (auto split: if_splits)
  show "\<not> (post_theta ck pf c < cc_theta_floor (cc_cfg ck) \<and> post_theta ck pf c \<le> cur_theta ck pf)"
    using g acc by (auto split: if_splits)
qed

text \<open>
  \<^bold>\<open>C20.\<close> An accepted fill, by the margin escape or not, never leaves a state beyond a hard kill
  limit, and never raises the long premium above the capital.  One accepted in strict mode also
  leaves margin at most at its ceiling or below what it was, delta within its ceiling or strictly
  smaller on the same side of zero, theta above its floor or improved.  All of it for inputs that
  are not NaN.
\<close>

theorem accepted_fill_within_limits:
  assumes "fst (check_constraints ck pf c) = outcome" "is_accepted outcome"
    and "no_nan [post_margin c, cur_margin c, post_long_premium c, cur_long_premium c, post_delta ck pf c,
      cur_delta ck pf c, post_theta ck pf c, cur_theta ck pf, margin_ceiling (cc_cfg ck),
      margin_kill (cc_cfg ck), cc_capital (cc_cfg ck), cc_delta_kill (cc_cfg ck),
      cc_theta_kill (cc_cfg ck), cc_delta_ceiling (cc_cfg ck), cc_theta_floor (cc_cfg ck)]"
  shows "post_margin c \<le> margin_kill (cc_cfg ck) \<and> \<bar>post_delta ck pf c\<bar> \<le> cc_delta_kill (cc_cfg ck) \<and>
    (cc_theta_kill (cc_cfg ck) < 0 \<longrightarrow> cc_theta_kill (cc_cfg ck) \<le> post_theta ck pf c) \<and>
    (post_long_premium c \<le> cc_capital (cc_cfg ck) \<or> post_long_premium c \<le> cur_long_premium c) \<and>
    (outcome = Accepted \<longrightarrow>
      (post_margin c \<le> margin_ceiling (cc_cfg ck) \<or> post_margin c < cur_margin c) \<and>
      (\<bar>post_delta ck pf c\<bar> \<le> cc_delta_ceiling (cc_cfg ck) \<or>
        \<bar>post_delta ck pf c\<bar> < \<bar>cur_delta ck pf c\<bar> \<and> (0 \<le> post_delta ck pf c) = (0 \<le> cur_delta ck pf c)) \<and>
      (cc_theta_floor (cc_cfg ck) \<le> post_theta ck pf c \<or> cur_theta ck pf < post_theta ck pf c))"
proof -
  note gates = accepted_gates [of ck pf c outcome]
  have acc: "check_gates ck pf c = outcome" using assms(1) by (simp add: check_constraints_def)
  from assms(3) have nan: "\<not> is_nan (post_margin c)" "\<not> is_nan (cur_margin c)"
    "\<not> is_nan (post_long_premium c)" "\<not> is_nan (cur_long_premium c)"
    "\<not> is_nan \<bar>post_delta ck pf c\<bar>" "\<not> is_nan \<bar>cur_delta ck pf c\<bar>"
    "\<not> is_nan (post_theta ck pf c)" "\<not> is_nan (cur_theta ck pf)"
    "\<not> is_nan (margin_ceiling (cc_cfg ck))" "\<not> is_nan (margin_kill (cc_cfg ck))"
    "\<not> is_nan (cc_capital (cc_cfg ck))" "\<not> is_nan (cc_delta_kill (cc_cfg ck))"
    "\<not> is_nan (cc_theta_kill (cc_cfg ck))" "\<not> is_nan (cc_delta_ceiling (cc_cfg ck))"
    "\<not> is_nan (cc_theta_floor (cc_cfg ck))"
    by (simp_all add: no_nan_def)
  note gates [OF acc assms(2)]
  with nan show ?thesis by (metis f64_not_less f64_not_le)
qed

text \<open>
  A hedge declared stale cannot influence the decision: the outcome is the one of an
  options-only book, whatever hedge quantity the caller passes, and the degradation is counted.
\<close>

theorem stale_hedge_ignored:
  assumes "hedge_state_fresh c = Some False"
  shows "fst (check_constraints ck pf c) = fst (check_constraints ck pf (c\<lparr>ck_hedge_qty := 0\<rparr>)) \<and>
    (cc_effective_delta_gating (cc_cfg ck) \<longrightarrow>
      stale_hedge_count (snd (check_constraints ck pf c)) = stale_hedge_count ck + 1)"
proof -
  let ?c = "c\<lparr>ck_hedge_qty := 0\<rparr>"
  have "cur_delta ck pf ?c = cur_delta ck pf c" using assms by (simp add: cur_delta_def trust_hedge_def)
  then have "post_delta ck pf ?c = post_delta ck pf c" "post_theta ck pf ?c = post_theta ck pf c"
    by (simp_all add: post_delta_def post_theta_def)
  with \<open>cur_delta ck pf ?c = cur_delta ck pf c\<close> have "check_gates ck pf c = check_gates ck pf ?c"
    by (simp add: check_gates_def Let_def cong: if_cong)
  then show ?thesis using assms by (simp add: check_constraints_def)
qed

definition demo_ccfg :: constraint_config where
  "demo_ccfg = \<lparr>cc_product = ''HG'', cc_capital = lit 500000, cc_margin_ceiling_pct = lit (1 / 2),
     cc_delta_ceiling = lit 3, cc_theta_floor = - lit 500, cc_margin_kill_pct = lit (7 / 10),
     cc_delta_kill = lit 5, cc_theta_kill = - lit 500, cc_effective_delta_gating = True,
     margin_escape_enabled = True\<rparr>"

definition demo_check :: constraint_check where
  "demo_check = \<lparr>option_strike = lit 6, option_right = Call, option_expiry = 20000,
     option_delta_per_contract = lit (1 / 2), option_theta_per_contract = 0, fill_qty_signed = 2,
     ck_multiplier = lit 25000, cur_margin = lit 1000, post_margin = lit 2000, cur_long_premium = 0,
     post_long_premium = lit 100, ck_hedge_qty = 4, hedge_state_fresh = Some False\<rparr>"

lemma demo_accepted: "check_gates (new_checker demo_ccfg) (new_portfolio Map.empty) demo_check = Accepted"
  by code_simp

theorem accepted_fill_within_limits_witness:
  "\<bar>post_delta (new_checker demo_ccfg) (new_portfolio Map.empty) demo_check\<bar> \<le> lit 5"
proof -
  let ?ck = "new_checker demo_ccfg" and ?pf = "new_portfolio Map.empty"
  have "no_nan [post_margin demo_check, cur_margin demo_check, post_long_premium demo_check,
      cur_long_premium demo_check, post_delta ?ck ?pf demo_check, cur_delta ?ck ?pf demo_check,
      post_theta ?ck ?pf demo_check, cur_theta ?ck ?pf, margin_ceiling (cc_cfg ?ck),
      margin_kill (cc_cfg ?ck), cc_capital (cc_cfg ?ck), cc_delta_kill (cc_cfg ?ck),
      cc_theta_kill (cc_cfg ?ck), cc_delta_ceiling (cc_cfg ?ck), cc_theta_floor (cc_cfg ?ck)]"
    by code_simp
  moreover have "fst (check_constraints ?ck ?pf demo_check) = Accepted"
    using demo_accepted by (simp only: check_constraints_def fst_conv)
  moreover have "is_accepted Accepted" by (simp add: is_accepted_def)
  ultimately have "\<bar>post_delta ?ck ?pf demo_check\<bar> \<le> cc_delta_kill (cc_cfg ?ck)"
    using accepted_fill_within_limits by blast
  moreover have "cc_delta_kill (cc_cfg ?ck) = lit 5" by (simp add: new_checker_def demo_ccfg_def)
  ultimately show ?thesis by (simp only:)
qed

theorem stale_hedge_ignored_witness:
  "fst (check_constraints (new_checker demo_ccfg) (new_portfolio Map.empty) demo_check) =
   fst (check_constraints (new_checker demo_ccfg) (new_portfolio Map.empty) (demo_check\<lparr>ck_hedge_qty := 0\<rparr>))"
  using stale_hedge_ignored [of demo_check "new_checker demo_ccfg" "new_portfolio Map.empty"]
  by (simp add: demo_check_def)

subsection \<open>The margin scale\<close>

definition scale_ok :: "constraint_checker \<Rightarrow> bool" where
  "scale_ok ck \<longleftrightarrow> IBKR_SCALE_LOWER \<le> ibkr_scale ck \<and> ibkr_scale ck \<le> IBKR_SCALE_UPPER"

lemma scale_one: "IBKR_SCALE_LOWER \<le> lit 1" "lit 1 \<le> IBKR_SCALE_UPPER"
  "\<not> is_nan IBKR_SCALE_LOWER" "\<not> is_nan IBKR_SCALE_UPPER"
  by code_simp+

text \<open>
  Recalibration keeps the margin scale inside its safety band for every pair of inputs whose
  quotient is a number; when the quotient is NaN (an input is NaN, or both are infinite), which no
  comparison of the code catches, the scale becomes NaN and from then on the margin gates accept any
  margin computed with it.
\<close>

theorem recalibration_band:
  assumes "scale_ok ck"
  shows "(\<not> is_nan (actual / raw) \<longrightarrow> scale_ok (snd (update_cached_margin actual raw now ck))) \<and>
    (is_nan (actual / raw) \<and> \<not> actual \<le> 0 \<and> \<not> raw \<le> 0 \<longrightarrow>
      (let ck' = snd (update_cached_margin actual raw now ck) in
       is_nan (ibkr_scale ck') \<and>
       (\<forall>c x. post_margin c = scale_margin ck' x \<longrightarrow>
          check_gates ck' pf c \<noteq> Rejected ''margin_kill'' \<and> check_gates ck' pf c \<noteq> Rejected ''margin'')))"
proof -
  have "\<not> is_nan (actual / raw) \<Longrightarrow> scale_ok (snd (update_cached_margin actual raw now ck))"
    using assms scale_one by (auto simp: update_cached_margin_def scale_ok_def Let_def f64_not_less)
  moreover have "is_nan (actual / raw) \<Longrightarrow> \<not> actual \<le> 0 \<Longrightarrow> \<not> raw \<le> 0 \<Longrightarrow>
      is_nan (ibkr_scale (snd (update_cached_margin actual raw now ck)))"
    by (simp add: update_cached_margin_def Let_def f64_less_iff)
  moreover have "check_gates ck' pf c \<noteq> Rejected ''margin_kill'' \<and> check_gates ck' pf c \<noteq> Rejected ''margin''"
    if "is_nan (ibkr_scale ck')" "post_margin c = scale_margin ck' x" for ck' c x
  proof -
    have "\<not> y < post_margin c" for y
      using that by (simp add: scale_margin_def f64_less_iff fmul_nan)
    then show ?thesis by (simp add: check_gates_def Let_def)
  qed
  ultimately show ?thesis unfolding Let_def by blast
qed

theorem recalibration_band_witness:
  "scale_ok (snd (update_cached_margin (lit 90) (lit 100) 1 (new_checker demo_ccfg)))"
proof -
  have "scale_ok (new_checker demo_ccfg)" by code_simp
  moreover have "\<not> is_nan (lit 90 / lit 100)" by code_simp
  ultimately show ?thesis using recalibration_band by blast
qed

end
