(* ===== verification/Trader_Pricing.thy ===== *)
theory Trader_Pricing
  imports Greeks F64_Lemmas
begin

section \<open>The trader's pricing\<close>

text \<open>
  Model of \<^verbatim>\<open>rust/corsair_trader/src/pricing.rs\<close> and of \<^verbatim>\<open>compute_theo\<close> in \<^verbatim>\<open>decision.rs\<close>: implied
  volatility from SVI or SABR parameters and Black-76 price and greeks, on IEEE doubles with the
  elementary functions as parameters.  The property that the quoting logic relies on is proved for
  every choice of them: a price and greeks that leave \<open>compute_theo\<close> are positive and finite.
\<close>

record black_greeks =
  bg_price :: f64
  bg_delta :: f64
  bg_theta :: f64
  bg_vega :: f64

definition f64_pi :: f64 where
  "f64_pi = lit (314159265358979323846264338327950288 / 10 ^ 35)"

definition black76_greeks ::
  "libm \<Rightarrow> f64 \<Rightarrow> f64 \<Rightarrow> f64 \<Rightarrow> f64 \<Rightarrow> f64 \<Rightarrow> char \<Rightarrow> black_greeks" where
  "black76_greeks lm f k t sigma r rt =
     (let is_call = (rt = CHR ''C'' \<or> rt = CHR ''c'') in
      if t \<le> 0 \<or> sigma \<le> 0 \<or> f \<le> 0 \<or> k \<le> 0 then
        let price = (if is_call then fmax (f - k) 0 else fmax (k - f) 0);
            delta = (if is_call then (if k < f then lit 1 else if f < k then 0 else lit (1 / 2))
                     else (if k < f then 0 else if f < k then - lit 1 else - lit (1 / 2)))
        in \<lparr>bg_price = price, bg_delta = delta, bg_theta = 0, bg_vega = 0\<rparr>
      else
        let sqrt_t = sqrt_fn lm t;
            d1 = (ln_fn lm (f / k) + lit (1 / 2) * sigma * sigma * t) / (sigma * sqrt_t);
            d2 = d1 - sigma * sqrt_t;
            disc = (if feq r 0 then lit 1 else exp_fn lm (- r * t));
            n_d1 = norm_cdf lm d1;
            pdf_d1 = exp_fn lm (- lit (1 / 2) * d1 * d1) / sqrt_fn lm (lit 2 * f64_pi);
            vega = f * disc * pdf_d1 * sqrt_t / lit 100;
            common = - disc * f * pdf_d1 * sigma / (lit 2 * sqrt_t);
            theta = (if is_call then (common - r * k * disc * norm_cdf lm d2) / lit 365
                     else (common + r * k * disc * norm_cdf lm (- d2)) / lit 365)
        in if is_call
           then \<lparr>bg_price = disc * (f * n_d1 - k * norm_cdf lm d2), bg_delta = disc * n_d1,
                 bg_theta = theta, bg_vega = vega\<rparr>
           else \<lparr>bg_price = disc * (k * norm_cdf lm (- d2) - f * (lit 1 - n_d1)),
                 bg_delta = disc * (n_d1 - lit 1), bg_theta = theta, bg_vega = vega\<rparr>)"

definition sabr_implied_vol ::
  "libm \<Rightarrow> f64 \<Rightarrow> f64 \<Rightarrow> f64 \<Rightarrow> f64 \<Rightarrow> f64 \<Rightarrow> f64 \<Rightarrow> f64 \<Rightarrow> f64" where
  "sabr_implied_vol lm f k t alpha beta rho nu =
     (if t \<le> 0 \<or> alpha \<le> 0 \<or> f \<le> 0 \<or> k \<le> 0
      then (if 0 < alpha then alpha else lit (1 / 100))
      else
        let eps = lit (1 / 10 ^ 7);
            omb = lit 1 - beta;
            omb_sq = omb * omb;
            omb_4 = omb_sq * omb_sq;
            rho_sq = rho * rho;
            nu_sq = nu * nu;
            alpha_sq = alpha * alpha;
            p3 = (lit 2 - lit 3 * rho_sq) * nu_sq / lit 24
        in if \<bar>f - k\<bar> < eps * f then
             let fmid_beta = powf_fn lm f omb;
                 term1 = alpha / fmid_beta;
                 p1 = (omb_sq / lit 24) * alpha_sq / powf_fn lm f (lit 2 * omb);
                 p2 = lit (25 / 100) * rho * beta * nu * alpha / fmid_beta
             in term1 * (lit 1 + (p1 + p2 + p3) * t)
           else
             let fk = f * k;
                 fk_beta = powf_fn lm fk (lit (1 / 2) * omb);
                 log_fk = ln_fn lm (f / k);
                 log_fk_sq = log_fk * log_fk;
                 log_fk_4 = log_fk_sq * log_fk_sq;
                 z = (nu / alpha) * fk_beta * log_fk;
                 xz = (if \<bar>z\<bar> < eps then lit 1
                       else let radicand = fmax (lit 1 - lit 2 * rho * z + z * z) 0;
                                sqrt_term = sqrt_fn lm radicand
                            in z / ln_fn lm ((sqrt_term + z - rho) / (lit 1 - rho)));
                 denom1 = fk_beta * (lit 1 + omb_sq / lit 24 * log_fk_sq + omb_4 / lit 1920 * log_fk_4);
                 p1 = omb_sq / lit 24 * alpha_sq / powf_fn lm fk omb;
                 p2 = lit (25 / 100) * rho * beta * nu * alpha / fk_beta;
                 result = (alpha / denom1) * xz * (lit 1 + (p1 + p2 + p3) * t)
             in if is_finite result \<and> 0 < result then result else fmax alpha (lit (1 / 1000)))"

definition svi_total_variance :: "libm \<Rightarrow> f64 \<Rightarrow> f64 \<Rightarrow> f64 \<Rightarrow> f64 \<Rightarrow> f64 \<Rightarrow> f64 \<Rightarrow> f64" where
  "svi_total_variance lm k a b rho m sigma =
     (let dk = k - m in a + b * (rho * dk + sqrt_fn lm (dk * dk + sigma * sigma)))"

definition svi_implied_vol ::
  "libm \<Rightarrow> f64 \<Rightarrow> f64 \<Rightarrow> f64 \<Rightarrow> f64 \<Rightarrow> f64 \<Rightarrow> f64 \<Rightarrow> f64 \<Rightarrow> f64 \<Rightarrow> f64" where
  "svi_implied_vol lm f k_strike t a b rho m sigma =
     (if t \<le> 0 \<or> k_strike \<le> 0 \<or> f \<le> 0 then 0
      else
        let k = ln_fn lm (k_strike / f);
            w = svi_total_variance lm k a b rho m sigma
        in if w \<le> 0 then lit (1 / 1000) else sqrt_fn lm (w / t))"

text \<open>\<^verbatim>\<open>TickMsg\<close> of \<^verbatim>\<open>messages.rs\<close>: one market-data update of an option.\<close>

record tick_msg =
  tk_strike :: f64
  tk_expiry :: string
  tk_right :: string
  tk_bid :: "f64 option"
  tk_ask :: "f64 option"
  tk_bid_size :: "i32 option"
  tk_ask_size :: "i32 option"
  tk_ts_ns :: "u64 option"
  tk_broker_recv_ns :: "u64 option"
  depth_bid_0 :: "f64 option"
  depth_bid_1 :: "f64 option"
  depth_ask_0 :: "f64 option"
  depth_ask_1 :: "f64 option"

text \<open>\<^verbatim>\<open>VolParams\<close> of \<^verbatim>\<open>messages.rs\<close> and the newtypes \<^verbatim>\<open>FitForward\<close> and \<^verbatim>\<open>SpotAtFit\<close> of \<^verbatim>\<open>types.rs\<close>.\<close>

record vol_params =
  vp_model :: string
  vp_a :: "f64 option"
  vp_b :: "f64 option"
  vp_rho :: "f64 option"
  vp_m :: "f64 option"
  vp_sigma :: "f64 option"
  vp_alpha :: "f64 option"
  vp_beta :: "f64 option"
  vp_nu :: "f64 option"

datatype fit_forward = FitForward (ff_raw: f64)
datatype spot_at_fit = SpotAtFit (saf_raw: f64)

record theo_greeks =
  tg_theo :: f64
  tg_delta :: f64
  tg_theta :: f64
  tg_vega :: f64

definition model_vol :: "libm \<Rightarrow> f64 \<Rightarrow> f64 \<Rightarrow> f64 \<Rightarrow> vol_params \<Rightarrow> f64 option" where
  "model_vol lm f k tte p =
     (if vp_model p = ''svi'' then
        do { a \<leftarrow> vp_a p; b \<leftarrow> vp_b p; rho \<leftarrow> vp_rho p; m \<leftarrow> vp_m p; sigma \<leftarrow> vp_sigma p;
             Some (svi_implied_vol lm f k tte a b rho m sigma) }
      else if vp_model p = ''sabr'' then
        do { alpha \<leftarrow> vp_alpha p; beta \<leftarrow> vp_beta p; rho \<leftarrow> vp_rho p; nu \<leftarrow> vp_nu p;
             Some (sabr_implied_vol lm f k tte alpha beta rho nu) }
      else None)"

definition compute_theo ::
  "libm \<Rightarrow> fit_forward \<Rightarrow> f64 \<Rightarrow> f64 \<Rightarrow> char \<Rightarrow> vol_params \<Rightarrow> (f64 \<times> theo_greeks) option" where
  "compute_theo lm forward k tte rt p =
     (let f = ff_raw forward in
      if f \<le> 0 \<or> k \<le> 0 \<or> tte \<le> 0 then None
      else do {
        iv \<leftarrow> model_vol lm f k tte p;
        if iv \<le> 0 \<or> is_nan iv then None
        else
          let g = black76_greeks lm f k tte iv 0 rt in
          if \<not> 0 < bg_price g \<or> \<not> is_finite (bg_delta g) \<or> \<not> is_finite (bg_theta g)
             \<or> \<not> is_finite (bg_vega g)
          then None
          else Some (iv, \<lparr>tg_theo = bg_price g, tg_delta = bg_delta g, tg_theta = bg_theta g,
                          tg_vega = bg_vega g\<rparr>) })"

lemma compute_theo_usable:
  assumes "compute_theo lm fwd k tte rt p = Some (iv, g)"
  shows "0 < iv" "0 < tg_theo g" "is_finite (tg_delta g)" "is_finite (tg_theta g)" "is_finite (tg_vega g)"
  using assms by (auto simp: compute_theo_def Let_def f64_ord split: if_splits bind_splits)

text \<open>
  Outside its early return the SABR formula never returns a NaN, an infinity or a non-positive
  volatility from its general branch, whatever the mathematics library does with the intermediate
  terms, provided \<open>alpha\<close> is finite; the theoretical value and greeks that leave \<open>compute_theo\<close>
  are usable: a positive price and finite greeks.
\<close>

theorem pricing_results_usable:
  "(is_finite alpha \<and> \<not> \<bar>f - k\<bar> < lit (1 / 10 ^ 7) * f \<longrightarrow>
     is_finite (sabr_implied_vol lm f k t alpha beta rho nu) \<and> 0 < sabr_implied_vol lm f k t alpha beta rho nu) \<and>
   (\<forall>iv g. compute_theo lm fwd k' tte rt p = Some (iv, g) \<longrightarrow>
     0 < iv \<and> 0 < tg_theo g \<and> is_finite (tg_delta g) \<and> is_finite (tg_theta g) \<and> is_finite (tg_vega g))"
proof -
  have lits: "is_finite (lit (1 / 100))" "is_finite (lit (1 / 1000))" "0 < lit (1 / 100)" "0 < lit (1 / 1000)"
    by code_simp+
  have fmax: "is_finite (fmax x y) \<and> 0 < fmax x y" if "is_finite x" "is_finite y" "0 < y" for x y
    using that by (auto simp: fmax_def f64_ord)
  have sabr: "is_finite (sabr_implied_vol lm f k t alpha beta rho nu) \<and>
      0 < sabr_implied_vol lm f k t alpha beta rho nu"
    if "is_finite alpha" "\<not> \<bar>f - k\<bar> < lit (1 / 10 ^ 7) * f"
    using that lits fmax [OF that(1) lits(2,4)]
    by (simp add: sabr_implied_vol_def Let_def if_bool_eq_conj del: power_divide)
  have "0 < iv \<and> 0 < tg_theo g \<and> is_finite (tg_delta g) \<and> is_finite (tg_theta g) \<and> is_finite (tg_vega g)"
    if "compute_theo lm fwd k' tte rt p = Some (iv, g)" for iv g
    using compute_theo_usable [OF that] by simp
  with sabr show ?thesis by simp
qed

definition demo_libm :: libm where
  "demo_libm = \<lparr>exp_fn = (\<lambda>_. lit 1), ln_fn = (\<lambda>_. f64_nan), sqrt_fn = (\<lambda>x. x), powf_fn = (\<lambda>x _. x),
     norm_cdf = (\<lambda>_. lit (1 / 2))\<rparr>"

theorem pricing_results_usable_witness:
  "is_finite (sabr_implied_vol demo_libm (lit 6) (lit 7) (lit 1) (lit (3 / 10)) (lit (1 / 2)) 0 (lit 1))"
proof -
  have "is_finite (lit (3 / 10))" by code_simp
  moreover have "\<not> \<bar>lit 6 - lit 7\<bar> < lit (1 / 10 ^ 7) * lit 6" by code_simp
  ultimately show ?thesis using pricing_results_usable by blast
qed

end
