(* ===== verification/Trader_State.thy ===== *)
theory Trader_State
  imports Trader_Pricing
begin

section \<open>The trader's state\<close>

text \<open>
  Model of \<^verbatim>\<open>rust/corsair_trader/src/state.rs\<close>: the concurrent maps the hot path reads, the scalar
  snapshot, and the outbound burst limiter.  A \<^verbatim>\<open>DashMap\<close> that the code iterates is an association
  list in its iteration order; one it only looks up is a map.  Interned expiries (\<^verbatim>\<open>Arc<str>\<close>) are
  strings, which is what their keys compare.  The telemetry counters are a function from their
  names.

  The limiter is a lock-free structure shared by the hot loop and the staleness loop.  Its theorem
  is stated for the interleavings of any number of threads, each a load of both slots followed by
  a compare-exchange, retried on failure.
\<close>

type_synonym our_order_key = "i64 \<times> string \<times> char \<times> char"
type_synonym theo_cache_key = "i64 \<times> string \<times> char \<times> u64"

record our_order =
  oo_price :: f64
  place_monotonic_ns :: u64
  order_id :: "i64 option"

record vol_surface_entry =
  vs_forward :: fit_forward
  vs_params :: vol_params
  fit_ts_ns :: u64
  calibrated_min_k :: "f64 option"
  calibrated_max_k :: "f64 option"
  vs_spot_at_fit :: spot_at_fit

record scalar_snapshot =
  sn_underlying :: f64
  risk_effective_delta :: "f64 option"
  risk_margin_pct :: "f64 option"
  risk_theta :: "f64 option"
  risk_vega :: "f64 option"
  risk_state_age_ns :: u64
  min_edge_ticks :: i32
  tick_size :: f64
  delta_ceiling :: f64
  sn_theta_kill :: f64
  sn_vega_kill :: f64
  sn_margin_ceiling_pct :: f64
  weekend_paused :: bool
  gtd_lifetime_s :: f64
  gtd_refresh_lead_s :: f64
  dead_band_ticks :: i32
  spread_edge_mul :: f64

text \<open>\<^verbatim>\<open>ScalarState::new\<close>: the defaults in force until the broker's hello arrives.\<close>

definition default_scalars :: scalar_snapshot where
  "default_scalars =
     \<lparr>sn_underlying = 0, risk_effective_delta = None, risk_margin_pct = None, risk_theta = None,
      risk_vega = None, risk_state_age_ns = 0, min_edge_ticks = 2, tick_size = lit (5 / 10000),
      delta_ceiling = lit 3, sn_theta_kill = - lit 500, sn_vega_kill = 0,
      sn_margin_ceiling_pct = lit (1 / 2), weekend_paused = False, gtd_lifetime_s = lit 30,
      gtd_refresh_lead_s = lit (35 / 10), dead_band_ticks = 1, spread_edge_mul = lit 4\<rparr>"

datatype counter =
    skip_off_atm | skip_itm | skip_no_vol_surface | skip_vol_surface_stale | skip_uncalibrated_strike
  | skip_forward_drift | skip_other | skip_one_sided_or_dark | skip_thin_book | skip_wide_spread
  | skip_target_nonpositive | skip_would_cross_ask | skip_would_cross_bid | skip_unack_inflight
  | skip_in_band | skip_cooldown | skip_burst_cap | risk_block | risk_block_buy | risk_block_sell
  | risk_state_partial | place_count | modify_count | place_dropped | dropped_parse_errors
  | staleness_modify | staleness_cancel | staleness_cancel_dark

type_synonym counters = "counter \<Rightarrow> u64"

definition bump :: "counter \<Rightarrow> u64 \<Rightarrow> counters \<Rightarrow> counters" where
  "bump c n cs = cs(c := cs c + n)"

record limiter =
  slot_a :: u64
  slot_b :: u64

record shared_state =
  kills_count :: nat
  vol_surfaces :: "string \<times> char \<rightharpoonup> vol_surface_entry"
  theo_cache :: "(theo_cache_key \<times> theo_greeks) list"
  our_orders :: "(our_order_key \<times> our_order) list"
  outbound_limiter :: limiter
  burst_window_ns :: u64

definition trader_strike_key :: "f64 \<Rightarrow> i64" where
  "trader_strike_key k = f64_as_i64 (fround (k * lit 10000))"

definition lookup_vol_surface :: "shared_state \<Rightarrow> string \<Rightarrow> char \<Rightarrow> vol_surface_entry option" where
  "lookup_vol_surface st ex rt =
     (case vol_surfaces st (ex, rt) of
        Some v \<Rightarrow> Some v
      | None \<Rightarrow> (case vol_surfaces st (ex, CHR ''C'') of
                   Some v \<Rightarrow> Some v
                 | None \<Rightarrow> vol_surfaces st (ex, CHR ''P'')))"

subsection \<open>The outbound limiter\<close>

definition recent :: "u64 \<Rightarrow> u64 \<Rightarrow> u64 \<Rightarrow> bool" where
  "recent now window t \<longleftrightarrow> saturating_sub now t < window"

text \<open>
  One pass of the loop of \<open>try_consume\<close> after its two loads: refuse, or attempt a compare-exchange
  on the older slot (\<open>True\<close> is slot a) with the value that was read.
\<close>

datatype attempt = Refuse | Exchange bool u64

definition plan :: "u64 \<Rightarrow> u64 \<Rightarrow> u64 \<Rightarrow> u64 \<Rightarrow> attempt" where
  "plan now window a b =
     (if recent now window a \<and> recent now window b then Refuse
      else if a \<le> b then Exchange True a else Exchange False b)"

definition slot :: "bool \<Rightarrow> limiter \<Rightarrow> u64" where
  "slot is_a l = (if is_a then slot_a l else slot_b l)"

definition set_slot :: "bool \<Rightarrow> u64 \<Rightarrow> limiter \<Rightarrow> limiter" where
  "set_slot is_a v l = (if is_a then l\<lparr>slot_a := v\<rparr> else l\<lparr>slot_b := v\<rparr>)"

definition compare_exchange :: "bool \<Rightarrow> u64 \<Rightarrow> u64 \<Rightarrow> limiter \<Rightarrow> bool \<times> limiter" where
  "compare_exchange is_a expected new l =
     (if slot is_a l = expected then (True, set_slot is_a new l) else (False, l))"

text \<open>Without a concurrent caller the compare-exchange succeeds at once.\<close>

definition try_consume :: "u64 \<Rightarrow> u64 \<Rightarrow> limiter \<Rightarrow> bool \<times> limiter" where
  "try_consume now window l =
     (case plan now window (slot_a l) (slot_b l) of
        Refuse \<Rightarrow> (False, l)
      | Exchange is_a expected \<Rightarrow> compare_exchange is_a expected now l)"

lemma try_consume_total:
  "try_consume now window l =
     (if recent now window (slot_a l) \<and> recent now window (slot_b l) then (False, l)
      else (True, if slot_a l \<le> slot_b l then l\<lparr>slot_a := now\<rparr> else l\<lparr>slot_b := now\<rparr>))"
  by (simp add: try_consume_def plan_def compare_exchange_def slot_def set_slot_def)

text \<open>
  The concurrent limiter.  A thread calls \<open>try_consume\<close> with its clock reading, loads slot a, loads
  slot b, then refuses or exchanges; a failed exchange starts over.  The ghost list records the
  granted clock readings, latest first, each with the slot it took.
\<close>

datatype pc = Start u64 | GotA u64 u64 | GotB u64 u64 u64 | Done bool

record lim_world =
  slots :: limiter
  threads :: "nat \<rightharpoonup> pc"
  grants :: "(bool \<times> u64) list"

inductive lim_step :: "u64 \<Rightarrow> lim_world \<Rightarrow> lim_world \<Rightarrow> bool" for window where
  call: "threads w i = None \<Longrightarrow> lim_step window w (w\<lparr>threads := (threads w)(i \<mapsto> Start now)\<rparr>)"
| load_a: "threads w i = Some (Start now) \<Longrightarrow>
    lim_step window w (w\<lparr>threads := (threads w)(i \<mapsto> GotA now (slot_a (slots w)))\<rparr>)"
| load_b: "threads w i = Some (GotA now a) \<Longrightarrow>
    lim_step window w (w\<lparr>threads := (threads w)(i \<mapsto> GotB now a (slot_b (slots w)))\<rparr>)"
| refuse: "threads w i = Some (GotB now a b) \<Longrightarrow> plan now window a b = Refuse \<Longrightarrow>
    lim_step window w (w\<lparr>threads := (threads w)(i \<mapsto> Done False)\<rparr>)"
| exchange: "threads w i = Some (GotB now a b) \<Longrightarrow> plan now window a b = Exchange s e \<Longrightarrow>
    compare_exchange s e now (slots w) = (True, l') \<Longrightarrow>
    lim_step window w (w\<lparr>threads := (threads w)(i \<mapsto> Done True), slots := l', grants := (s, now) # grants w\<rparr>)"
| retry: "threads w i = Some (GotB now a b) \<Longrightarrow> plan now window a b = Exchange s e \<Longrightarrow>
    compare_exchange s e now (slots w) = (False, l') \<Longrightarrow>
    lim_step window w (w\<lparr>threads := (threads w)(i \<mapsto> Start now)\<rparr>)"

inductive lim_reach :: "u64 \<Rightarrow> lim_world \<Rightarrow> bool" for window where
  init: "lim_reach window \<lparr>slots = l, threads = Map.empty, grants = []\<rparr>"
| step: "lim_reach window w \<Longrightarrow> lim_step window w w' \<Longrightarrow> lim_reach window w'"

text \<open>A grant only ever reuses a slot whose entry has left the window of that grant.\<close>

lemma plan_stale:
  assumes "plan now window a b = Exchange s e"
  shows "\<not> recent now window e" "e = (if s then a else b)"
proof -
  show "e = (if s then a else b)" using assms by (auto simp: plan_def split: if_splits)
  show "\<not> recent now window e"
  proof
    assume r: "recent now window e"
    have mono: "recent now window y" if "recent now window x" "x \<le> y" for x y
      using that unfolding recent_def word_less_nat_alt word_le_nat_alt unat_saturating_sub by linarith
    show False
      using assms r mono [of a b] mono [of b a] linear [of a b] by (auto simp: plan_def split: if_splits)
  qed
qed

lemma plan_spacing:
  assumes "plan now window a b = Exchange s e" "0 < window"
  shows "unat e + unat window \<le> unat now"
proof -
  have "unat window \<le> unat now - unat e"
    using plan_stale(1) [OF assms(1)]
    by (simp add: recent_def word_less_nat_alt unat_saturating_sub not_less)
  moreover have "0 < unat window" using assms(2) by (simp add: word_less_nat_alt)
  ultimately show ?thesis by linarith
qed

fun spaced :: "nat \<Rightarrow> u64 list \<Rightarrow> bool" where
  "spaced d (x # y # xs) \<longleftrightarrow> unat y + d \<le> unat x \<and> spaced d (y # xs)"
| "spaced d _ \<longleftrightarrow> True"

definition slot_grants :: "bool \<Rightarrow> lim_world \<Rightarrow> u64 list" where
  "slot_grants s w = map snd (filter (\<lambda>g. fst g = s) (grants w))"

definition lim_inv :: "u64 \<Rightarrow> lim_world \<Rightarrow> bool" where
  "lim_inv window w \<longleftrightarrow> (\<forall>s. spaced (unat window) (slot_grants s w) \<and>
     (slot_grants s w \<noteq> [] \<longrightarrow> hd (slot_grants s w) = slot s (slots w)))"

lemma spaced_Cons: "spaced d (x # xs) \<longleftrightarrow> (xs \<noteq> [] \<longrightarrow> unat (hd xs) + d \<le> unat x) \<and> spaced d xs"
  by (cases xs) auto

lemma spaced_all:
  assumes "spaced d (x # xs)" "y \<in> set xs"
  shows "unat y + d \<le> unat x"
  using assms
proof (induction xs arbitrary: x)
  case (Cons z zs)
  then have z: "unat z + d \<le> unat x" "y \<in> set zs \<Longrightarrow> unat y + d \<le> unat z" by simp_all
  show ?case using z Cons.prems(2) by auto
qed simp

lemma spaced_window:
  assumes "spaced d xs" "0 < d"
  shows "length (filter (\<lambda>x. t \<le> unat x \<and> unat x < t + d) xs) \<le> 1"
  using assms(1)
proof (induction xs)
  case (Cons x xs)
  show ?case
  proof (cases "t \<le> unat x \<and> unat x < t + d")
    case True
    have "filter (\<lambda>x. t \<le> unat x \<and> unat x < t + d) xs = []"
      using spaced_all [OF Cons.prems] True by (fastforce simp: filter_empty_conv)
    then show ?thesis by simp
  qed (use Cons in \<open>auto simp: spaced_Cons\<close>)
qed simp

lemma slot_set_slot: "slot s' (set_slot s v l) = (if s' = s then v else slot s' l)"
  by (simp add: slot_def set_slot_def)

lemma lim_inv_step:
  assumes "lim_step window w w'" "lim_inv window w" "0 < window"
  shows "lim_inv window w'"
  using assms(1)
proof cases
  case (exchange i now a b s e l')
  have e: "slot s (slots w) = e" "l' = set_slot s now (slots w)"
    using exchange(4) by (auto simp: compare_exchange_def split: if_splits)
  have g: "slot_grants s' w' = (if s' = s then [now] else []) @ slot_grants s' w" for s'
    using exchange(1) by (simp add: slot_grants_def)
  have "unat e + unat window \<le> unat now" using plan_spacing [OF exchange(3) assms(3)] .
  then show ?thesis
    using assms(2) e exchange(1) unfolding lim_inv_def g
    by (auto simp: spaced_Cons slot_set_slot)
qed (use assms(2) in \<open>simp_all add: lim_inv_def slot_grants_def\<close>)

lemma lim_reach_inv:
  assumes "lim_reach window w" "0 < window"
  shows "lim_inv window w"
  using assms(1)
proof (induction rule: lim_reach.induct)
  case (init l)
  show ?case by (simp add: lim_inv_def slot_grants_def)
next
  case (step w w')
  from lim_inv_step [OF step(2) step(3) assms(2)] show ?case .
qed

text \<open>
  Whatever the number of threads, the interleaving of their loads and compare-exchanges and
  the order of their clock readings, at most two of the sends the limiter grants fall into any time
  window of the configured length.
\<close>

theorem limiter_caps_bursts:
  assumes "lim_reach window w" "0 < window"
  shows "length (filter (\<lambda>(_, g). t \<le> unat g \<and> unat g < t + unat window) (grants w)) \<le> 2"
proof -
  let ?P = "\<lambda>g :: u64. t \<le> unat g \<and> unat g < t + unat window"
  have split: "length (filter (\<lambda>(_, g). ?P g) gs) =
      length (filter ?P (map snd (filter (\<lambda>g. fst g = True) gs))) +
      length (filter ?P (map snd (filter (\<lambda>g. fst g = False) gs)))" for gs :: "(bool \<times> u64) list"
    by (induction gs) auto
  have "0 < unat window" using assms(2) by (simp add: word_less_nat_alt)
  then have "length (filter ?P (slot_grants s w)) \<le> 1" for s
    using spaced_window lim_reach_inv [OF assms] by (simp add: lim_inv_def)
  from this [of True] this [of False] show ?thesis
    unfolding split slot_grants_def by linarith
qed

theorem limiter_caps_bursts_witness:
  "\<exists>w. lim_reach 50 w \<and> grants w = [(True, 100)] \<and>
    length (filter (\<lambda>(_, g). 60 \<le> unat g \<and> unat g < 60 + unat (50 :: u64)) (grants w)) \<le> 2"
proof -
  let ?l = "\<lparr>slot_a = 0, slot_b = 0\<rparr>"
  let ?w = "\<lambda>t. \<lparr>slots = ?l, threads = t, grants = []\<rparr> :: lim_world"
  let ?w4 = "\<lparr>slots = ?l\<lparr>slot_a := 100\<rparr>, threads = [0 \<mapsto> Done True], grants = [(True, 100)]\<rparr> :: lim_world"
  have plan: "plan 100 50 0 0 = Exchange True 0" by (simp add: plan_def recent_def saturating_sub_def)
  have cas: "compare_exchange True 0 100 ?l = (True, ?l\<lparr>slot_a := 100\<rparr>)"
    by (simp add: compare_exchange_def slot_def set_slot_def)
  have s1: "lim_step 50 (?w Map.empty) (?w [0 \<mapsto> Start 100])"
    using lim_step.call [of "?w Map.empty" 0 50 100] by simp
  have s2: "lim_step 50 (?w [0 \<mapsto> Start 100]) (?w [0 \<mapsto> GotA 100 0])"
    using lim_step.load_a [of "?w [0 \<mapsto> Start 100]" 0 100 50] by simp
  have s3: "lim_step 50 (?w [0 \<mapsto> GotA 100 0]) (?w [0 \<mapsto> GotB 100 0 0])"
    using lim_step.load_b [of "?w [0 \<mapsto> GotA 100 0]" 0 100 0 50] by simp
  have s4: "lim_step 50 (?w [0 \<mapsto> GotB 100 0 0]) ?w4"
    using lim_step.exchange [OF _ plan, of "?w [0 \<mapsto> GotB 100 0 0]" 0 "?l\<lparr>slot_a := 100\<rparr>"] cas by simp
  note lim_reach.step [OF lim_reach.step [OF lim_reach.step [OF lim_reach.step [OF lim_reach.init s1] s2] s3] s4]
  moreover have "grants ?w4 = [(True, 100)]" by simp
  moreover note limiter_caps_bursts [of 50 ?w4 60]
  ultimately show ?thesis by force
qed

end
