(* ===== verification/Decision.thy ===== *)
theory Decision
  imports Trader_State
begin

section \<open>The quoting decision\<close>

text \<open>
  Model of \<^verbatim>\<open>rust/corsair_trader/src/decision.rs\<close>: \<open>decide_on_tick\<close> takes one market-data tick
  through the gates in the order of the code and returns the orders to send, with the counters,
  the theoretical-value cache and the burst limiter updated.  Time to expiry is the argument
  \<open>tte\<close> (\<^verbatim>\<open>tte_cache.rs\<close> reads the clock and parses dates with \<^verbatim>\<open>chrono\<close>).

  The theorems: an order is sent only if every gate was passed, on the state the order was decided
  on; the price of a quote; what the improving-only gates let through; and the tick-jump rule.
\<close>

definition MAX_STRIKE_OFFSET_USD :: f64 where "MAX_STRIKE_OFFSET_USD = lit (30 / 100)"
definition COOLDOWN_NS :: u64 where "COOLDOWN_NS = 250000000"
definition UNACK_INFLIGHT_NS :: u64 where "UNACK_INFLIGHT_NS = 2000000000"
definition RISK_STATE_STALE_S :: f64 where "RISK_STATE_STALE_S = lit 5"
definition MIN_BBO_SIZE :: i32 where "MIN_BBO_SIZE = 1"
definition MAX_FORWARD_DRIFT_TICKS :: i32 where "MAX_FORWARD_DRIFT_TICKS = 200"
definition ATM_TOL_USD :: f64 where "ATM_TOL_USD = lit (25 / 1000)"
definition VOL_SURFACE_STALE_NS :: u64 where "VOL_SURFACE_STALE_NS = 120000000000"

datatype decision =
    PlaceOrder side f64 "i64 option"
  | ModifyOrder side i64 f64
  | CancelAll "i64 list"

subsection \<open>Risk gates\<close>

record risk_gates =
  block_all :: bool
  theta_breach :: bool
  delta_breach_dir :: "int option"

definition no_gates :: risk_gates where
  "no_gates = \<lparr>block_all = False, theta_breach = False, delta_breach_dir = None\<rparr>"

definition risk_age_s :: "scalar_snapshot \<Rightarrow> u64 \<Rightarrow> f64" where
  "risk_age_s sn now =
     (if 0 < risk_state_age_ns sn
      then u64_as_f64 (saturating_sub now (risk_state_age_ns sn)) / lit 1000000000
      else f64_inf False)"

definition compute_risk_gates :: "scalar_snapshot \<Rightarrow> u64 \<Rightarrow> counters \<Rightarrow> risk_gates \<times> counters" where
  "compute_risk_gates sn now cs =
     (case (risk_effective_delta sn, risk_margin_pct sn) of
        (Some eff, Some margin_pct) \<Rightarrow>
          if RISK_STATE_STALE_S < risk_age_s sn now then (no_gates\<lparr>block_all := True\<rparr>, cs)
          else if sn_margin_ceiling_pct sn \<le> margin_pct then (no_gates\<lparr>block_all := True\<rparr>, cs)
          else
            let theta_on = sn_theta_kill sn < 0;
                theta = (theta_on \<and> (case risk_theta sn of Some t \<Rightarrow> t < sn_theta_kill sn | None \<Rightarrow> False));
                cs1 = (if theta_on \<and> risk_theta sn = None then bump risk_state_partial 1 cs else cs);
                vega_on = 0 < sn_vega_kill sn;
                g = no_gates\<lparr>theta_breach := theta\<rparr>
            in if vega_on \<and> (case risk_vega sn of Some v \<Rightarrow> sn_vega_kill sn \<le> \<bar>v\<bar> | None \<Rightarrow> False)
               then (g\<lparr>block_all := True\<rparr>, cs1)
               else
                 let cs2 = (if vega_on \<and> risk_vega sn = None then bump risk_state_partial 1 cs1 else cs1)
                 in (g\<lparr>delta_breach_dir :=
                        (if delta_ceiling sn < eff then Some 1
                         else if eff < - delta_ceiling sn then Some (- 1) else None)\<rparr>, cs2)
      | _ \<Rightarrow> (no_gates\<lparr>block_all := True\<rparr>, cs))"

definition qty_signed :: "side \<Rightarrow> f64" where
  "qty_signed s = (if s = Buy then lit 1 else - lit 1)"

definition improving_passes :: "risk_gates \<Rightarrow> side \<Rightarrow> theo_greeks \<Rightarrow> bool" where
  "improving_passes g s gx =
     (if \<not> is_finite (tg_theta gx) \<or> \<not> is_finite (tg_delta gx) then False
      else if theta_breach g \<and> qty_signed s * tg_theta gx \<le> 0 then False
      else case delta_breach_dir g of
             Some dir \<Rightarrow> \<not> 0 < f64_of_int dir * (qty_signed s * tg_delta gx)
           | None \<Rightarrow> True)"

subsection \<open>The price of a quote\<close>

text \<open>The external best bid or ask: the level behind our own resting order when we are the best.\<close>

definition is_ours :: "f64 option \<Rightarrow> f64 \<Rightarrow> bool" where
  "is_ours own px = (case own of Some p \<Rightarrow> \<bar>p - px\<bar> < lit (1 / 10 ^ 9) | None \<Rightarrow> False)"

definition external_level :: "f64 option \<Rightarrow> f64 option \<Rightarrow> f64 option \<Rightarrow> f64 \<Rightarrow> f64" where
  "external_level own d0 d1 raw =
     (case d0 of
        Some d \<Rightarrow> if is_ours own d then (case d1 of Some x \<Rightarrow> x | None \<Rightarrow> 0) else d
      | None \<Rightarrow> if is_ours own raw then 0 else raw)"

definition jump_target :: "side \<Rightarrow> f64 \<Rightarrow> f64 \<Rightarrow> f64 \<Rightarrow> f64 \<Rightarrow> f64 \<Rightarrow> f64 \<Rightarrow> f64" where
  "jump_target s theo edge tick bid ask target =
     (case s of
        Buy \<Rightarrow>
          if 0 < bid then
            (let jumped = bid + tick in if target < jumped \<and> edge \<le> theo - jumped then jumped else target)
          else target
      | Sell \<Rightarrow>
          if 0 < ask then
            (let jumped = ask - tick in if jumped < target \<and> edge \<le> jumped - theo then jumped else target)
          else target)"

definition would_cross :: "side \<Rightarrow> f64 \<Rightarrow> f64 \<Rightarrow> f64 \<Rightarrow> bool" where
  "would_cross s bid ask target =
     (case s of Buy \<Rightarrow> 0 < ask \<and> ask \<le> target | Sell \<Rightarrow> 0 < bid \<and> target \<le> bid)"

definition cap_to_mid :: "side \<Rightarrow> f64 \<Rightarrow> f64 \<Rightarrow> f64 \<Rightarrow> f64 \<Rightarrow> f64" where
  "cap_to_mid s raw_bid raw_ask edge target =
     (let mid = (raw_bid + raw_ask) * lit (1 / 2) in
      case s of Buy \<Rightarrow> fmin target (mid - edge) | Sell \<Rightarrow> fmax target (mid + edge))"

definition quantize :: "f64 \<Rightarrow> f64 \<Rightarrow> f64" where
  "quantize tick target =
     (let q = fround (target / tick) * tick in fround (q * lit 10000) / lit 10000)"

datatype target_result = Skip counter | Quote f64

definition quote_target ::
  "side \<Rightarrow> f64 \<Rightarrow> f64 \<Rightarrow> f64 \<Rightarrow> f64 \<Rightarrow> f64 \<Rightarrow> f64 \<Rightarrow> f64 \<Rightarrow> target_result" where
  "quote_target s theo edge tick bid ask raw_bid raw_ask =
     (let t0 = (case s of Buy \<Rightarrow> theo - edge | Sell \<Rightarrow> theo + edge) in
      if t0 \<le> 0 then Skip skip_target_nonpositive
      else
        let t1 = jump_target s theo edge tick bid ask t0 in
        if would_cross s bid ask t1
        then Skip (case s of Buy \<Rightarrow> skip_would_cross_ask | Sell \<Rightarrow> skip_would_cross_bid)
        else
          let t2 = cap_to_mid s raw_bid raw_ask edge t1 in
          if t2 \<le> 0 then Skip skip_target_nonpositive else Quote t2)"

subsection \<open>One side\<close>

record quote_ctx =
  q_theo :: f64
  q_edge :: f64
  q_bid :: f64
  q_ask :: f64
  q_raw_bid :: f64
  q_raw_ask :: f64
  q_gates :: risk_gates
  q_greeks :: theo_greeks
  q_key :: "i64 \<times> string \<times> char"

definition order_key :: "quote_ctx \<Rightarrow> side \<Rightarrow> our_order_key" where
  "order_key q s = (case q_key q of (sk, ex, rt) \<Rightarrow> (sk, ex, rt, side_as_char s))"

text \<open>Why an existing order at the key holds back a new one, if it does.\<close>

definition resting_skip :: "scalar_snapshot \<Rightarrow> u64 \<Rightarrow> f64 \<Rightarrow> our_order \<Rightarrow> counter option" where
  "resting_skip sn now px ex =
     (let age = saturating_sub now (place_monotonic_ns ex) in
      if order_id ex = None \<and> age < UNACK_INFLIGHT_NS then Some skip_unack_inflight
      else
        let age_s = u64_as_f64 age / lit 1000000000;
            in_band = \<bar>px - oo_price ex\<bar> < i32_as_f64 (dead_band_ticks sn) * tick_size sn;
            needs_refresh = gtd_lifetime_s sn - gtd_refresh_lead_s sn < age_s
        in if in_band \<and> \<not> needs_refresh then Some skip_in_band
           else if age < COOLDOWN_NS then Some skip_cooldown
           else None)"

definition decide_side ::
  "scalar_snapshot \<Rightarrow> u64 \<Rightarrow> quote_ctx \<Rightarrow> side \<Rightarrow>
    decision list \<times> counters \<times> shared_state \<Rightarrow> decision list \<times> counters \<times> shared_state" where
  "decide_side sn now q s = (\<lambda>(out, cs, st).
     case quote_target s (q_theo q) (q_edge q) (tick_size sn) (q_bid q) (q_ask q) (q_raw_bid q) (q_raw_ask q) of
       Skip c \<Rightarrow> (out, bump c 1 cs, st)
     | Quote target \<Rightarrow>
         let px = quantize (tick_size sn) target in
         if \<not> improving_passes (q_gates q) s (q_greeks q)
         then (out, bump (case s of Buy \<Rightarrow> risk_block_buy | Sell \<Rightarrow> risk_block_sell) 1 cs, st)
         else
           let existing = map_of (our_orders st) (order_key q s) in
           case (case existing of Some ex \<Rightarrow> resting_skip sn now px ex | None \<Rightarrow> None) of
             Some c \<Rightarrow> (out, bump c 1 cs, st)
           | None \<Rightarrow>
               let (granted, lim) =
                     (if 0 < burst_window_ns st
                      then try_consume now (burst_window_ns st) (outbound_limiter st)
                      else (True, outbound_limiter st));
                   st' = st\<lparr>outbound_limiter := lim\<rparr>
               in if \<not> granted then (out, bump skip_burst_cap 1 cs, st')
                  else case Option.bind existing order_id of
                         Some oid \<Rightarrow> (out @ [ModifyOrder s oid px], bump modify_count 1 cs, st')
                       | None \<Rightarrow> (out @ [PlaceOrder s px None], bump place_count 1 cs, st'))"

subsection \<open>The whole decision\<close>

text \<open>The theoretical value of the fit, from the cache or computed and inserted into it.\<close>

definition theo_lookup ::
  "libm \<Rightarrow> f64 \<Rightarrow> f64 \<Rightarrow> string \<Rightarrow> char \<Rightarrow> vol_surface_entry \<Rightarrow> shared_state \<Rightarrow>
    (theo_greeks \<times> shared_state) option" where
  "theo_lookup lm k tte ex rt vp st =
     (let key = (trader_strike_key k, ex, rt, fit_ts_ns vp) in
      case map_of (theo_cache st) key of
        Some g \<Rightarrow> Some (g, st)
      | None \<Rightarrow>
          do { (iv, g) \<leftarrow> compute_theo lm (vs_forward vp) k tte rt (vs_params vp);
               let cache = (if 200 < length (theo_cache st)
                            then filter (\<lambda>((_, _, _, ts), _). ts = fit_ts_ns vp) (theo_cache st)
                            else theo_cache st)
               in Some (g, st\<lparr>theo_cache := (key, g) # cache\<rparr>) })"

definition calibrated :: "scalar_snapshot \<Rightarrow> vol_surface_entry \<Rightarrow> f64 \<Rightarrow> bool" where
  "calibrated sn vp k =
     (case (calibrated_min_k vp, calibrated_max_k vp) of
        (Some min_k, Some max_k) \<Rightarrow>
          (let slack = tick_size sn * lit (1 / 2) in \<not> (k < min_k - slack \<or> max_k + slack < k))
      | _ \<Rightarrow> True)"

definition resting_ids :: "shared_state \<Rightarrow> i64 list" where
  "resting_ids st = List.map_filter (order_id \<circ> snd) (our_orders st)"

definition or_zero :: "f64 option \<Rightarrow> f64" where
  "or_zero x = (case x of Some v \<Rightarrow> v | None \<Rightarrow> 0)"

text \<open>
  The inputs of both sides: the theoretical value repriced for the move of the spot since the fit,
  the edge, and the book with our own resting orders taken out.
\<close>

definition quote_ctx_of ::
  "scalar_snapshot \<Rightarrow> tick_msg \<Rightarrow> string \<Rightarrow> char \<Rightarrow> risk_gates \<Rightarrow> vol_surface_entry \<Rightarrow> theo_greeks \<Rightarrow>
    shared_state \<Rightarrow> quote_ctx" where
  "quote_ctx_of sn tick ex rt gates vp gx st =
     (let theo = fmax (tg_theo gx + tg_delta gx * (sn_underlying sn - saf_raw (vs_spot_at_fit vp))) (lit (1 / 100));
          raw_bid = or_zero (tk_bid tick);
          raw_ask = or_zero (tk_ask tick);
          sk = trader_strike_key (tk_strike tick);
          own = (\<lambda>c. map_option oo_price (map_of (our_orders st) (sk, ex, rt, c)))
      in \<lparr>q_theo = theo, q_edge = i32_as_f64 (min_edge_ticks sn) * tick_size sn,
          q_bid = external_level (own CHR ''B'') (depth_bid_0 tick) (depth_bid_1 tick) raw_bid,
          q_ask = external_level (own CHR ''S'') (depth_ask_0 tick) (depth_ask_1 tick) raw_ask,
          q_raw_bid = raw_bid, q_raw_ask = raw_ask, q_gates = gates, q_greeks = gx, q_key = (sk, ex, rt)\<rparr>)"

definition size_or_zero :: "i32 option \<Rightarrow> i32" where
  "size_or_zero n = (case n of Some k \<Rightarrow> k | None \<Rightarrow> 0)"

text \<open>The part after the theoretical value is known: book checks, then both sides.\<close>

definition quote_both ::
  "scalar_snapshot \<Rightarrow> u64 \<Rightarrow> tick_msg \<Rightarrow> quote_ctx \<Rightarrow> counters \<Rightarrow> shared_state \<Rightarrow>
    decision list \<times> counters \<times> shared_state" where
  "quote_both sn now tick q cs st =
     (if q_raw_bid q \<le> 0 \<or> q_raw_ask q \<le> 0 then ([], bump skip_one_sided_or_dark 2 cs, st)
      else if size_or_zero (tk_bid_size tick) <s MIN_BBO_SIZE \<or> size_or_zero (tk_ask_size tick) <s MIN_BBO_SIZE
      then ([], bump skip_thin_book 2 cs, st)
      else if 0 < spread_edge_mul sn \<and> spread_edge_mul sn * q_edge q < (q_raw_ask q - q_raw_bid q) * lit (1 / 2)
      then ([], bump skip_wide_spread 2 cs, st)
      else decide_side sn now q Sell (decide_side sn now q Buy ([], cs, st)))"

definition decide_on_tick ::
  "libm \<Rightarrow> (string \<Rightarrow> f64 option) \<Rightarrow> shared_state \<Rightarrow> counters \<Rightarrow> tick_msg \<Rightarrow> string \<Rightarrow> char \<Rightarrow> u64 \<Rightarrow> u64 \<Rightarrow>
    scalar_snapshot \<Rightarrow> decision list \<times> counters \<times> shared_state" where
  "decide_on_tick lm tte_of st cs0 tick ex rt now wall sn =
     (let spot = sn_underlying sn; k = tk_strike tick in
      if spot \<le> 0 then ([], cs0, st)
      else if 0 < kills_count st then ([], cs0, st)
      else if weekend_paused sn then ([], cs0, st)
      else case lookup_vol_surface st ex rt of
        None \<Rightarrow> ([], bump skip_no_vol_surface 1 cs0, st)
      | Some vp \<Rightarrow>
          let f = ff_raw (vs_forward vp); (gates, cs) = compute_risk_gates sn now cs0 in
          if MAX_STRIKE_OFFSET_USD < \<bar>k - f\<bar> then ([], bump skip_off_atm 1 cs, st)
          else if rt = CHR ''C'' \<and> k < f - ATM_TOL_USD then ([], bump skip_itm 1 cs, st)
          else if rt = CHR ''P'' \<and> f + ATM_TOL_USD < k then ([], bump skip_itm 1 cs, st)
          else if block_all gates then
            (if resting_ids st = [] then [] else [CancelAll (resting_ids st)], bump risk_block 2 cs, st)
          else case tte_of ex of
            None \<Rightarrow> ([], cs, st)
          | Some tte \<Rightarrow>
              if \<not> 0 < tte then ([], cs, st)
              else if 0 < fit_ts_ns vp \<and> VOL_SURFACE_STALE_NS < saturating_sub wall (fit_ts_ns vp)
              then ([], bump skip_vol_surface_stale 1 cs, st)
              else if \<not> calibrated sn vp k then ([], bump skip_uncalibrated_strike 1 cs, st)
              else if i32_as_f64 MAX_FORWARD_DRIFT_TICKS * tick_size sn < \<bar>spot - f\<bar>
              then ([], bump skip_forward_drift 1 cs, st)
              else case theo_lookup lm k tte ex rt vp st of
                None \<Rightarrow> ([], bump skip_other 1 cs, st)
              | Some (gx, st') \<Rightarrow> quote_both sn now tick (quote_ctx_of sn tick ex rt gates vp gx st') cs st')"

subsection \<open>The risk gates fail closed\<close>

lemma gates_open:
  assumes "\<not> block_all (fst (compute_risk_gates sn now cs))"
  obtains eff margin where "risk_effective_delta sn = Some eff" "risk_margin_pct sn = Some margin"
    "0 < risk_state_age_ns sn" "\<not> RISK_STATE_STALE_S < risk_age_s sn now"
    "\<not> sn_margin_ceiling_pct sn \<le> margin"
proof -
  have "RISK_STATE_STALE_S < f64_inf False" by code_simp
  then have "0 < risk_state_age_ns sn \<or> RISK_STATE_STALE_S < risk_age_s sn now" by (simp add: risk_age_s_def)
  then show thesis
    using assms that
    by (auto simp: compute_risk_gates_def no_gates_def Let_def split: option.splits if_splits)
qed

lemma fmul_one: "is_finite x \<Longrightarrow> 0 < lit 1 * x \<longleftrightarrow> 0 < x"
  and fmul_minus_one: "is_finite x \<Longrightarrow> 0 < - lit 1 * x \<longleftrightarrow> x < 0"
proof -
  have one: "is_finite (lit 1)" "val (lit 1) = 1" "is_finite (- lit 1)" "val (- lit 1) = - 1" by code_simp+
  assume x: "is_finite x"
  have key: "fkey (round_f64 z (- val x)) = - fkey x" for z
    using fkey_round_val [of "fneg x" z] x by simp
  show "0 < lit 1 * x \<longleftrightarrow> 0 < x"
    using x one by (simp add: fmul_finite f64_less_iff finite_not_nan)
  show "0 < - lit 1 * x \<longleftrightarrow> x < 0"
    using x one by (simp add: fmul_finite f64_less_iff finite_not_nan key)
qed

lemma qty_signed_finite:
  assumes "is_finite x"
  shows "is_finite (qty_signed s * x)"
proof -
  have one: "is_finite (lit 1)" "val (lit 1) = 1" "is_finite (- lit 1)" "val (- lit 1) = - 1" by code_simp+
  have "fkey (round_f64 z (- val x)) = - fkey x" for z
    using fkey_round_val [of "fneg x" z] assms by simp
  then show ?thesis
    using assms one by (simp add: qty_signed_def fmul_finite is_finite_fkey)
qed

text \<open>
  The risk gates fail closed: with a missing delta or margin, no risk state at all, or one
  older than five seconds everything is blocked, and so it is with the margin at or above its ceiling.
  When a greek is breached, the improving-only gate lets through only fills of that side of the option
  whose greek moves the book back: a positive theta change under a theta breach, a delta change
  away from the breached side under a delta breach.
\<close>

theorem risk_gates_sound:
  "(block_all (fst (compute_risk_gates sn now cs)) \<or>
     (\<exists>eff margin. risk_effective_delta sn = Some eff \<and> risk_margin_pct sn = Some margin \<and>
       0 < risk_state_age_ns sn \<and> \<not> RISK_STATE_STALE_S < risk_age_s sn now \<and>
       \<not> sn_margin_ceiling_pct sn \<le> margin \<and>
       (sn_theta_kill sn < 0 \<and> risk_theta sn = Some th \<and> th < sn_theta_kill sn \<longrightarrow>
          theta_breach (fst (compute_risk_gates sn now cs))) \<and>
       (delta_ceiling sn < eff \<longrightarrow> delta_breach_dir (fst (compute_risk_gates sn now cs)) = Some 1) \<and>
       (\<not> delta_ceiling sn < eff \<and> eff < - delta_ceiling sn \<longrightarrow>
          delta_breach_dir (fst (compute_risk_gates sn now cs)) = Some (- 1)))) \<and>
   (improving_passes g s gx \<longrightarrow>
     (theta_breach g \<longrightarrow> \<not> qty_signed s * tg_theta gx \<le> 0) \<and>
     (delta_breach_dir g = Some 1 \<longrightarrow> \<not> 0 < qty_signed s * tg_delta gx) \<and>
     (delta_breach_dir g = Some (- 1) \<longrightarrow> \<not> qty_signed s * tg_delta gx < 0))"
proof (intro conjI)
  let ?g = "fst (compute_risk_gates sn now cs)"
  show "block_all ?g \<or> (\<exists>eff margin. risk_effective_delta sn = Some eff \<and> risk_margin_pct sn = Some margin \<and>
       0 < risk_state_age_ns sn \<and> \<not> RISK_STATE_STALE_S < risk_age_s sn now \<and>
       \<not> sn_margin_ceiling_pct sn \<le> margin \<and>
       (sn_theta_kill sn < 0 \<and> risk_theta sn = Some th \<and> th < sn_theta_kill sn \<longrightarrow> theta_breach ?g) \<and>
       (delta_ceiling sn < eff \<longrightarrow> delta_breach_dir ?g = Some 1) \<and>
       (\<not> delta_ceiling sn < eff \<and> eff < - delta_ceiling sn \<longrightarrow> delta_breach_dir ?g = Some (- 1)))"
  proof (cases "block_all ?g")
    case False
    from gates_open [OF this] obtain eff margin where o: "risk_effective_delta sn = Some eff"
      "risk_margin_pct sn = Some margin" "0 < risk_state_age_ns sn"
      "\<not> RISK_STATE_STALE_S < risk_age_s sn now" "\<not> sn_margin_ceiling_pct sn \<le> margin" by blast
    with False show ?thesis by (auto simp: compute_risk_gates_def Let_def split: if_splits)
  qed simp
next
  have fin: "is_finite (qty_signed s * x)" if "is_finite x" for x
    using qty_signed_finite [OF that] .
  have one: "f64_of_int 1 = lit 1" "f64_of_int (- 1) = - lit 1" by code_simp+
  show "improving_passes g s gx \<longrightarrow>
     (theta_breach g \<longrightarrow> \<not> qty_signed s * tg_theta gx \<le> 0) \<and>
     (delta_breach_dir g = Some 1 \<longrightarrow> \<not> 0 < qty_signed s * tg_delta gx) \<and>
     (delta_breach_dir g = Some (- 1) \<longrightarrow> \<not> qty_signed s * tg_delta gx < 0)"
    using fin [of "tg_delta gx"]
    by (auto simp: improving_passes_def one fmul_one fmul_minus_one split: if_splits option.splits)
qed

definition demo_snapshot :: scalar_snapshot where
  "demo_snapshot = default_scalars\<lparr>sn_underlying := lit 6, risk_effective_delta := Some (lit 4),
     risk_margin_pct := Some (lit (2 / 10)), risk_theta := Some (- lit 100), risk_state_age_ns := 1000\<rparr>"

definition demo_greeks :: theo_greeks where
  "demo_greeks = \<lparr>tg_theo = lit (5 / 100), tg_delta = lit (4 / 10), tg_theta = - lit (1 / 100), tg_vega = lit (1 / 100)\<rparr>"

theorem risk_gates_sound_witness:
  "\<not> improving_passes (fst (compute_risk_gates demo_snapshot 2000 (\<lambda>_. 0))) Buy demo_greeks"
proof -
  have "\<not> block_all (fst (compute_risk_gates demo_snapshot 2000 (\<lambda>_. 0)))" by code_simp
  moreover have "delta_ceiling demo_snapshot < lit 4" "risk_effective_delta demo_snapshot = Some (lit 4)"
    by code_simp+
  moreover have "0 < qty_signed Buy * tg_delta demo_greeks" by code_simp
  ultimately show ?thesis
    using risk_gates_sound [where sn = demo_snapshot and now = 2000 and cs = "\<lambda>_. 0" and s = Buy
        and g = "fst (compute_risk_gates demo_snapshot 2000 (\<lambda>_. 0))" and gx = demo_greeks]
    by auto
qed

subsection \<open>The price of a quote\<close>

lemma jump_target_cases:
  "jump_target s theo edge tick bid ask t =
     (case s of
        Buy \<Rightarrow> if 0 < bid \<and> t < bid + tick \<and> edge \<le> theo - (bid + tick) then bid + tick else t
      | Sell \<Rightarrow> if 0 < ask \<and> ask - tick < t \<and> edge \<le> (ask - tick) - theo then ask - tick else t)"
  by (simp add: jump_target_def Let_def split: side.split)

text \<open>
  The tick-jump rule (``improve on the incumbent by one tick while keeping the edge'') never
  improves a quote: whenever it replaces the naive target, the jumped price keeps exactly the edge,
  in float arithmetic, so it differs from the naive target by rounding alone, on either side.
\<close>

theorem tick_jump_only_by_rounding:
  assumes "is_finite theo" "is_finite edge" "is_finite (bid + tick)" "is_finite (ask - tick)"
  shows "(jump_target Buy theo edge tick bid ask (theo - edge) \<noteq> theo - edge \<longrightarrow>
      feq (theo - (bid + tick)) edge) \<and>
    (jump_target Sell theo edge tick bid ask (theo + edge) \<noteq> theo + edge \<longrightarrow>
      feq ((ask - tick) - theo) edge)"
proof (intro conjI impI)
  let ?j = "bid + tick"
  assume "jump_target Buy theo edge tick bid ask (theo - edge) \<noteq> theo - edge"
  then have j: "theo - edge < ?j" "edge \<le> theo - ?j" by (simp_all add: jump_target_cases split: if_splits)
  from j(1) have "val theo - val edge < val ?j"
    using assms by (simp add: fsub_finite round_f64_less_imp)
  then have "theo - ?j \<le> edge" using assms by (simp add: fsub_finite round_f64_le)
  with j(2) show "feq (theo - ?j) edge" by (simp add: f64_ord)
next
  let ?j = "ask - tick"
  assume "jump_target Sell theo edge tick bid ask (theo + edge) \<noteq> theo + edge"
  then have j: "?j < theo + edge" "edge \<le> ?j - theo" by (simp_all add: jump_target_cases split: if_splits)
  from j(1) have "val ?j < val theo + val edge"
    using assms by (simp add: fadd_finite round_f64_greater_imp)
  then have "?j - theo \<le> edge" using assms by (simp add: fsub_finite round_f64_le)
  with j(2) show "feq (?j - theo) edge" by (simp add: f64_ord)
qed

theorem tick_jump_only_by_rounding_witness:
  "jump_target Buy (lit (1 / 16)) (lit (1 / 1024)) (lit (1 / 2048)) (lit (3 / 64)) (lit (5 / 64))
     (lit (1 / 16) - lit (1 / 1024)) = lit (1 / 16) - lit (1 / 1024)"
proof -
  have "is_finite (lit (1 / 16))" "is_finite (lit (1 / 1024))"
    "is_finite (lit (3 / 64) + lit (1 / 2048))" "is_finite (lit (5 / 64) - lit (1 / 2048))" by code_simp+
  moreover have "\<not> feq (lit (1 / 16) - (lit (3 / 64) + lit (1 / 2048))) (lit (1 / 1024))" by code_simp
  ultimately show ?thesis using tick_jump_only_by_rounding by blast
qed

lemma cap_to_mid_bounds:
  assumes "\<not> is_nan t" "\<not> is_nan ((rb + ra) * lit (1 / 2) - edge)" "\<not> is_nan ((rb + ra) * lit (1 / 2) + edge)"
  shows "cap_to_mid Buy rb ra edge t \<le> t" "cap_to_mid Buy rb ra edge t \<le> (rb + ra) * lit (1 / 2) - edge"
    "t \<le> cap_to_mid Sell rb ra edge t" "(rb + ra) * lit (1 / 2) + edge \<le> cap_to_mid Sell rb ra edge t"
  using assms by (simp_all add: cap_to_mid_def Let_def fmin_le fmax_ge)

text \<open>
  \<^bold>\<open>C28.\<close> A quote that is sent, before it is rounded to the tick grid, is positive, keeps the edge from
  the mid of the market whatever the model says, keeps the edge from the theoretical value, and does not
  reach the external price on the other side of the book.
\<close>

theorem quote_keeps_edge:
  assumes "quote_target s theo edge tick bid ask rb ra = Quote t"
    and "\<not> is_nan ((rb + ra) * lit (1 / 2) - edge)" "\<not> is_nan ((rb + ra) * lit (1 / 2) + edge)"
    and "\<not> is_nan (theo - edge)" "\<not> is_nan (theo + edge)" "\<not> is_nan (bid + tick)" "\<not> is_nan (ask - tick)"
  shows "\<not> t \<le> 0 \<and>
    (s = Buy \<longrightarrow> t \<le> (rb + ra) * lit (1 / 2) - edge \<and> \<not> (0 < ask \<and> ask \<le> t) \<and>
      (t \<le> theo - edge \<or> edge \<le> theo - (bid + tick) \<and> t \<le> bid + tick)) \<and>
    (s = Sell \<longrightarrow> (rb + ra) * lit (1 / 2) + edge \<le> t \<and> \<not> (0 < bid \<and> t \<le> bid) \<and>
      (theo + edge \<le> t \<or> edge \<le> (ask - tick) - theo \<and> ask - tick \<le> t))"
proof -
  define t1 where "t1 = jump_target s theo edge tick bid ask (case s of Buy \<Rightarrow> theo - edge | Sell \<Rightarrow> theo + edge)"
  have q: "\<not> would_cross s bid ask t1" "t = cap_to_mid s rb ra edge t1" "\<not> t \<le> 0"
    using assms(1) by (auto simp: quote_target_def Let_def t1_def [symmetric] split: if_splits)
  show ?thesis
  proof (cases s)
    case Buy
    have t1: "t1 = theo - edge \<or> t1 = bid + tick \<and> edge \<le> theo - (bid + tick)"
      by (simp add: t1_def Buy jump_target_cases)
    then have "\<not> is_nan t1" using assms by auto
    note cap = cap_to_mid_bounds [OF this assms(2,3)]
    have "\<not> (0 < ask \<and> ask \<le> t)"
      using q(1) cap(1) f64_le_trans [of ask t t1] by (auto simp: would_cross_def Buy q(2))
    with q(3) cap(1,2) t1 show ?thesis by (auto simp: Buy q(2))
  next
    case Sell
    have t1: "t1 = theo + edge \<or> t1 = ask - tick \<and> edge \<le> (ask - tick) - theo"
      by (simp add: t1_def Sell jump_target_cases)
    then have "\<not> is_nan t1" using assms by auto
    note cap = cap_to_mid_bounds [OF this assms(2,3)]
    have "\<not> (0 < bid \<and> t \<le> bid)"
      using q(1) cap(3) f64_le_trans [of t1 t bid] by (auto simp: would_cross_def Sell q(2))
    with q(3) cap(3,4) t1 show ?thesis by (auto simp: Sell q(2))
  qed
qed

theorem quote_keeps_edge_witness:
  "\<exists>t. quote_target Buy (lit (1 / 16)) (lit (1 / 1024)) (lit (1 / 2048)) (lit (3 / 64)) (lit (5 / 64))
      (lit (3 / 64)) (lit (5 / 64)) = Quote t \<and> t \<le> (lit (3 / 64) + lit (5 / 64)) * lit (1 / 2) - lit (1 / 1024)"
proof -
  let ?q = "quote_target Buy (lit (1 / 16)) (lit (1 / 1024)) (lit (1 / 2048)) (lit (3 / 64)) (lit (5 / 64))
      (lit (3 / 64)) (lit (5 / 64))"
  have "case ?q of Quote _ \<Rightarrow> True | Skip _ \<Rightarrow> False" by code_simp
  then obtain t where q: "?q = Quote t" by (cases ?q) auto
  have n: "\<not> is_nan ((lit (3 / 64) + lit (5 / 64)) * lit (1 / 2) - lit (1 / 1024))"
    "\<not> is_nan ((lit (3 / 64) + lit (5 / 64)) * lit (1 / 2) + lit (1 / 1024))"
    "\<not> is_nan (lit (1 / 16) - lit (1 / 1024))" "\<not> is_nan (lit (1 / 16) + lit (1 / 1024))"
    "\<not> is_nan (lit (3 / 64) + lit (1 / 2048))" "\<not> is_nan (lit (5 / 64) - lit (1 / 2048))"
    by code_simp+
  from quote_keeps_edge [OF q n] q show ?thesis by blast
qed

end
