(* ===== verification/Decision_Orders.thy ===== *)
theory Decision_Orders
  imports Decision
begin

section \<open>The orders of one tick\<close>

text \<open>
  What \<open>decide_on_tick\<close> of \<^verbatim>\<open>decision.rs\<close> can send: the gates every order has passed, and the
  discipline of one live order for each strike, expiry, right and side.
\<close>

subsection \<open>Every order passed every gate\<close>

fun order_side :: "decision \<Rightarrow> side option" where
  "order_side (PlaceOrder s _ _) = Some s"
| "order_side (ModifyOrder s _ _) = Some s"
| "order_side (CancelAll _) = None"

text \<open>What \<open>decide_side\<close> sends: the only order that the resting order at the key allows.\<close>

definition side_order :: "scalar_snapshot \<Rightarrow> u64 \<Rightarrow> quote_ctx \<Rightarrow> (our_order_key \<times> our_order) list \<Rightarrow> side \<Rightarrow> decision \<Rightarrow> bool" where
  "side_order sn now q orders s d \<longleftrightarrow>
     (\<exists>target px.
        quote_target s (q_theo q) (q_edge q) (tick_size sn) (q_bid q) (q_ask q) (q_raw_bid q) (q_raw_ask q)
          = Quote target \<and> px = quantize (tick_size sn) target \<and> improving_passes (q_gates q) s (q_greeks q) \<and>
        (case map_of orders (order_key q s) of
           None \<Rightarrow> d = PlaceOrder s px None
         | Some ex \<Rightarrow> resting_skip sn now px ex = None \<and>
             d = (case order_id ex of Some oid \<Rightarrow> ModifyOrder s oid px | None \<Rightarrow> PlaceOrder s px None)))"

lemma decide_side_step:
  obtains cs' st' ds where "decide_side sn now q s (out, cs, st) = (out @ ds, cs', st')"
    "our_orders st' = our_orders st" "ds = [] \<or> (\<exists>d. ds = [d] \<and> side_order sn now q (our_orders st) s d)"
proof -
  obtain out' cs' st' where r: "decide_side sn now q s (out, cs, st) = (out', cs', st')" by (rule prod_cases3)
  then have "our_orders st' = our_orders st"
    "out' = out \<or> (\<exists>d. out' = out @ [d] \<and> side_order sn now q (our_orders st) s d)"
    unfolding decide_side_def side_order_def Let_def
    by (auto split: target_result.splits if_splits option.splits prod.splits)
  with r that show thesis by force
qed

lemma order_side_side_order: "side_order sn now q orders s d \<Longrightarrow> order_side d = Some s"
  by (auto simp: side_order_def split: option.splits)

lemma resting_skip_None:
  assumes "resting_skip sn now px ex = None"
  shows "COOLDOWN_NS \<le> saturating_sub now (place_monotonic_ns ex)"
    "order_id ex = None \<Longrightarrow> UNACK_INFLIGHT_NS \<le> saturating_sub now (place_monotonic_ns ex)"
proof -
  show "COOLDOWN_NS \<le> saturating_sub now (place_monotonic_ns ex)"
    using assms unfolding resting_skip_def Let_def not_less [symmetric] by (simp split: if_splits)
  assume "order_id ex = None"
  then show "UNACK_INFLIGHT_NS \<le> saturating_sub now (place_monotonic_ns ex)"
    using assms unfolding resting_skip_def Let_def not_less [symmetric] by (simp split: if_splits)
qed

lemma side_order_modify:
  assumes "side_order sn now q orders s (ModifyOrder s' oid px)"
  shows "\<exists>r. map_of orders (order_key q s) = Some r \<and> order_id r = Some oid \<and>
    COOLDOWN_NS \<le> saturating_sub now (place_monotonic_ns r)"
proof (cases "map_of orders (order_key q s)")
  case None
  with assms show ?thesis by (simp add: side_order_def)
next
  case (Some r)
  with assms show ?thesis
    by (cases "order_id r") (auto simp: side_order_def dest: resting_skip_None)
qed

lemma side_order_place:
  assumes "side_order sn now q orders s (PlaceOrder s' px old)"
  shows "old = None" "map_of orders (order_key q s) = Some r \<Longrightarrow> order_id r = None \<and>
    UNACK_INFLIGHT_NS \<le> saturating_sub now (place_monotonic_ns r)"
proof -
  show "old = None" using assms by (auto simp: side_order_def split: option.splits)
  assume "map_of orders (order_key q s) = Some r"
  with assms show "order_id r = None \<and> UNACK_INFLIGHT_NS \<le> saturating_sub now (place_monotonic_ns r)"
    by (cases "order_id r") (auto simp: side_order_def dest: resting_skip_None)
qed

lemma quote_ctx_of_simps:
  "q_raw_bid (quote_ctx_of sn tick ex rt gates vp gx st) = or_zero (tk_bid tick)"
  "q_raw_ask (quote_ctx_of sn tick ex rt gates vp gx st) = or_zero (tk_ask tick)"
  "q_gates (quote_ctx_of sn tick ex rt gates vp gx st) = gates"
  "q_greeks (quote_ctx_of sn tick ex rt gates vp gx st) = gx"
  "q_key (quote_ctx_of sn tick ex rt gates vp gx st) = (trader_strike_key (tk_strike tick), ex, rt)"
  by (simp_all add: quote_ctx_of_def Let_def)

lemma distinct_map_filter_le_1:
  "distinct (map f xs) \<Longrightarrow> length (filter (\<lambda>x. f x = y) xs) \<le> 1"
proof (induction xs)
  case (Cons x xs)
  have "f x = y \<Longrightarrow> filter (\<lambda>x. f x = y) xs = []"
    using Cons.prems by (auto simp: filter_empty_conv) (metis image_eqI)
  with Cons show ?case by auto
qed simp

lemma quote_both_orders:
  assumes "quote_both sn now tick q cs st = (out, cs', st')"
  shows "(\<forall>d \<in> set out. \<not> q_raw_bid q \<le> 0 \<and> \<not> q_raw_ask q \<le> 0 \<and>
      MIN_BBO_SIZE \<le>s size_or_zero (tk_bid_size tick) \<and> MIN_BBO_SIZE \<le>s size_or_zero (tk_ask_size tick) \<and>
      (\<exists>s. side_order sn now q (our_orders st) s d)) \<and> distinct (map order_side out)"
proof (cases "out = []")
  case False
  have gates: "\<not> q_raw_bid q \<le> 0" "\<not> q_raw_ask q \<le> 0" "\<not> size_or_zero (tk_bid_size tick) <s MIN_BBO_SIZE"
    "\<not> size_or_zero (tk_ask_size tick) <s MIN_BBO_SIZE"
    and both: "decide_side sn now q Sell (decide_side sn now q Buy ([], cs, st)) = (out, cs', st')"
    using assms False unfolding quote_both_def by (simp_all split: if_splits)
  obtain cs1 st1 ds1 where b: "decide_side sn now q Buy ([], cs, st) = ([] @ ds1, cs1, st1)"
    "our_orders st1 = our_orders st" "ds1 = [] \<or> (\<exists>d. ds1 = [d] \<and> side_order sn now q (our_orders st) Buy d)"
    by (rule decide_side_step)
  obtain cs2 st2 ds2 where s: "decide_side sn now q Sell (ds1, cs1, st1) = (ds1 @ ds2, cs2, st2)"
    "our_orders st2 = our_orders st1"
    "ds2 = [] \<or> (\<exists>d. ds2 = [d] \<and> side_order sn now q (our_orders st1) Sell d)"
    by (rule decide_side_step)
  have out: "out = ds1 @ ds2" using both b(1) s(1) by simp
  have "\<forall>d \<in> set out. \<exists>s. side_order sn now q (our_orders st) s d" "distinct (map order_side out)"
    using b(2,3) s(3) by (auto simp: out order_side_side_order)
  with gates show ?thesis by (auto simp: word_sle_eq word_sless_alt not_less)
qed simp

text \<open>The gates before the book is looked at, as one predicate on the state the tick is decided on.\<close>

definition tick_gates :: "shared_state \<Rightarrow> scalar_snapshot \<Rightarrow> u64 \<Rightarrow> u64 \<Rightarrow> f64 \<Rightarrow> string \<Rightarrow> char \<Rightarrow> vol_surface_entry \<Rightarrow> bool" where
  "tick_gates st sn now wall k ex rt vp \<longleftrightarrow>
     \<not> sn_underlying sn \<le> 0 \<and> kills_count st = 0 \<and> \<not> weekend_paused sn \<and>
     lookup_vol_surface st ex rt = Some vp \<and>
     (\<exists>eff margin. risk_effective_delta sn = Some eff \<and> risk_margin_pct sn = Some margin \<and>
        0 < risk_state_age_ns sn \<and> \<not> RISK_STATE_STALE_S < risk_age_s sn now \<and>
        \<not> sn_margin_ceiling_pct sn \<le> margin) \<and>
     \<not> MAX_STRIKE_OFFSET_USD < \<bar>k - ff_raw (vs_forward vp)\<bar> \<and>
     \<not> (rt = CHR ''C'' \<and> k < ff_raw (vs_forward vp) - ATM_TOL_USD) \<and>
     \<not> (rt = CHR ''P'' \<and> ff_raw (vs_forward vp) + ATM_TOL_USD < k) \<and>
     \<not> (0 < fit_ts_ns vp \<and> VOL_SURFACE_STALE_NS < saturating_sub wall (fit_ts_ns vp)) \<and>
     calibrated sn vp k \<and>
     \<not> i32_as_f64 MAX_FORWARD_DRIFT_TICKS * tick_size sn < \<bar>sn_underlying sn - ff_raw (vs_forward vp)\<bar>"

lemma our_orders_theo_lookup:
  "theo_lookup lm k tte ex rt vp st = Some (gx, st') \<Longrightarrow> our_orders st' = our_orders st"
  by (auto simp: theo_lookup_def Let_def split: option.splits bind_splits)

lemma theo_lookup_greeks:
  assumes "theo_lookup lm k tte ex rt vp st = Some (gx, st')"
  shows "case map_of (theo_cache st) (trader_strike_key k, ex, rt, fit_ts_ns vp) of
      Some g \<Rightarrow> gx = g
    | None \<Rightarrow> \<exists>iv. compute_theo lm (vs_forward vp) k tte rt (vs_params vp) = Some (iv, gx)"
  using assms by (auto simp: theo_lookup_def Let_def split: option.splits bind_splits)

lemma decide_on_tick_quotes:
  assumes "decide_on_tick lm tte_of st cs tick ex rt now wall sn = (out, cs', st')" "d \<in> set out"
    "order_side d \<noteq> None"
  obtains vp tte gx st1 cs1 where "tick_gates st sn now wall (tk_strike tick) ex rt vp"
    "our_orders st1 = our_orders st" "tte_of ex = Some tte" "0 < tte"
    "theo_lookup lm (tk_strike tick) tte ex rt vp st = Some (gx, st1)"
    "quote_both sn now tick (quote_ctx_of sn tick ex rt (fst (compute_risk_gates sn now cs)) vp gx st1) cs1 st1
      = (out, cs', st')"
proof -
  obtain gates cs1 where g: "compute_risk_gates sn now cs = (gates, cs1)" by fastforce
  obtain vp gx st1 tte where r: "lookup_vol_surface st ex rt = Some vp" "\<not> block_all gates"
      "theo_lookup lm (tk_strike tick) tte ex rt vp st = Some (gx, st1)"
      "quote_both sn now tick (quote_ctx_of sn tick ex rt gates vp gx st1) cs1 st1 = (out, cs', st')"
      "\<not> sn_underlying sn \<le> 0" "kills_count st = 0" "\<not> weekend_paused sn"
      "\<not> MAX_STRIKE_OFFSET_USD < \<bar>tk_strike tick - ff_raw (vs_forward vp)\<bar>"
      "\<not> (rt = CHR ''C'' \<and> tk_strike tick < ff_raw (vs_forward vp) - ATM_TOL_USD)"
      "\<not> (rt = CHR ''P'' \<and> ff_raw (vs_forward vp) + ATM_TOL_USD < tk_strike tick)"
      "\<not> (0 < fit_ts_ns vp \<and> VOL_SURFACE_STALE_NS < saturating_sub wall (fit_ts_ns vp))"
      "calibrated sn vp (tk_strike tick)"
      "\<not> i32_as_f64 MAX_FORWARD_DRIFT_TICKS * tick_size sn < \<bar>sn_underlying sn - ff_raw (vs_forward vp)\<bar>"
      "tte_of ex = Some tte" "0 < tte"
    using assms unfolding decide_on_tick_def g Let_def
    by (auto split: if_splits option.splits)
  obtain eff margin where "risk_effective_delta sn = Some eff" "risk_margin_pct sn = Some margin"
    "0 < risk_state_age_ns sn" "\<not> RISK_STATE_STALE_S < risk_age_s sn now" "\<not> sn_margin_ceiling_pct sn \<le> margin"
    using r(2) g gates_open [of sn now cs] by auto
  with r have "tick_gates st sn now wall (tk_strike tick) ex rt vp" unfolding tick_gates_def by blast
  moreover have "our_orders st1 = our_orders st" using r(3) by (rule our_orders_theo_lookup)
  ultimately show thesis using r(3,4,14,15) g by (intro that) simp_all
qed

definition demo_quoting :: scalar_snapshot where
  "demo_quoting = default_scalars\<lparr>sn_underlying := lit 6, risk_effective_delta := Some 0,
     risk_margin_pct := Some (lit (1 / 4)), risk_state_age_ns := 1000, tick_size := lit (1 / 2048)\<rparr>"

definition demo_params :: vol_params where
  "demo_params = \<lparr>vp_model = ''sabr'', vp_a = None, vp_b = None, vp_rho = Some 0, vp_m = None, vp_sigma = None,
     vp_alpha = Some (lit 1), vp_beta = Some (lit 1), vp_nu = Some (lit 1)\<rparr>"

definition demo_state :: shared_state where
  "demo_state =
     \<lparr>kills_count = 0,
      vol_surfaces = [(''20260526'', CHR ''C'') \<mapsto>
        \<lparr>vs_forward = FitForward (lit 6), vs_params = demo_params, fit_ts_ns = 7,
         calibrated_min_k = None, calibrated_max_k = None, vs_spot_at_fit = SpotAtFit (lit 6)\<rparr>],
      theo_cache = [((60000, ''20260526'', CHR ''C'', 7),
        \<lparr>tg_theo = lit (1 / 16), tg_delta = lit (1 / 2), tg_theta = 0, tg_vega = 0\<rparr>)],
      our_orders = [],
      outbound_limiter = \<lparr>slot_a = 0, slot_b = 0\<rparr>, burst_window_ns = 50000000\<rparr>"

definition demo_tick :: tick_msg where
  "demo_tick =
     \<lparr>tk_strike = lit 6, tk_expiry = ''20260526'', tk_right = ''C'', tk_bid = Some (lit (61 / 1024)),
      tk_ask = Some (lit (67 / 1024)), tk_bid_size = Some 3, tk_ask_size = Some 2, tk_ts_ns = None,
      tk_broker_recv_ns = None, depth_bid_0 = None, depth_bid_1 = None, depth_ask_0 = None, depth_ask_1 = None\<rparr>"

definition demo_decide :: "decision list \<times> counters \<times> shared_state" where
  "demo_decide = decide_on_tick demo_libm (\<lambda>_. Some (lit 1)) demo_state (\<lambda>_. 0) demo_tick ''20260526'' CHR ''C''
     1000000000 9 demo_quoting"

definition demo_ctx :: quote_ctx where
  "demo_ctx = \<lparr>q_theo = lit (1 / 16), q_edge = lit (1 / 1024), q_bid = lit (61 / 1024), q_ask = lit (67 / 1024),
     q_raw_bid = lit (61 / 1024), q_raw_ask = lit (67 / 1024), q_gates = no_gates,
     q_greeks = \<lparr>tg_theo = lit (1 / 16), tg_delta = lit (1 / 2), tg_theta = 0, tg_vega = 0\<rparr>,
     q_key = (60000, ''20260526'', CHR ''C'')\<rparr>"

lemma demo_ctx:
  "quote_ctx_of demo_quoting demo_tick ''20260526'' CHR ''C'' no_gates
     (the (lookup_vol_surface demo_state ''20260526'' CHR ''C'')) (snd (hd (theo_cache demo_state))) demo_state
   = demo_ctx"
proof -
  have "fmax (lit (1 / 16) + lit (1 / 2) * (lit 6 - lit 6)) (lit (1 / 100)) = lit (1 / 16)"
    "i32_as_f64 2 * lit (1 / 2048) = lit (1 / 1024)" "trader_strike_key (lit 6) = 60000" by code_simp+
  then show ?thesis
    by (simp add: quote_ctx_of_def demo_ctx_def demo_quoting_def demo_state_def demo_tick_def default_scalars_def
        lookup_vol_surface_def or_zero_def external_level_def is_ours_def Let_def)
qed

lemma demo_decide_quotes: "\<exists>cs. demo_decide = quote_both demo_quoting 1000000000 demo_tick demo_ctx cs demo_state"
proof -
  have g: "fst (compute_risk_gates demo_quoting 1000000000 (\<lambda>_. 0)) = no_gates" by code_simp
  have vp: "\<exists>vp. lookup_vol_surface demo_state ''20260526'' CHR ''C'' = Some vp \<and>
      ff_raw (vs_forward vp) = lit 6 \<and> fit_ts_ns vp = 7 \<and> calibrated demo_quoting vp (lit 6)"
    by (simp add: demo_state_def lookup_vol_surface_def calibrated_def)
  have "\<not> sn_underlying demo_quoting \<le> 0" "\<not> MAX_STRIKE_OFFSET_USD < \<bar>lit 6 - lit 6\<bar>"
    "\<not> lit 6 < lit 6 - ATM_TOL_USD" "0 < lit 1" "trader_strike_key (lit 6) = 60000"
    "\<not> i32_as_f64 MAX_FORWARD_DRIFT_TICKS * tick_size demo_quoting < \<bar>sn_underlying demo_quoting - lit 6\<bar>"
    by code_simp+
  moreover have "kills_count demo_state = 0" "\<not> weekend_paused demo_quoting" "tk_strike demo_tick = lit 6"
    "saturating_sub 9 7 = (2 :: u64)" "\<not> VOL_SURFACE_STALE_NS < 2" "\<not> block_all no_gates"
    by (simp_all add: demo_state_def demo_quoting_def default_scalars_def demo_tick_def saturating_sub_def
        VOL_SURFACE_STALE_NS_def no_gates_def)
  moreover have "map_of (theo_cache demo_state) (60000, ''20260526'', CHR ''C'', 7) = Some (snd (hd (theo_cache demo_state)))"
    by (simp add: demo_state_def)
  ultimately show ?thesis
    using vp unfolding demo_decide_def decide_on_tick_def
    by (auto simp: Let_def case_prod_beta g theo_lookup_def demo_ctx [symmetric])
qed

lemma demo_order: "\<exists>px ds. fst demo_decide = PlaceOrder Buy px None # ds"
proof -
  let ?q = demo_ctx
  obtain cs where d: "demo_decide = quote_both demo_quoting 1000000000 demo_tick ?q cs demo_state"
    using demo_decide_quotes by blast
  have lits: "\<not> lit (61 / 1024) \<le> 0" "\<not> lit (67 / 1024) \<le> 0" "is_finite 0" "is_finite (lit (1 / 2))"
    "\<not> lit 4 * lit (1 / 1024) < (lit (67 / 1024) - lit (61 / 1024)) * lit (1 / 2)" by code_simp+
  then have book: "\<not> q_raw_bid ?q \<le> 0" "\<not> q_raw_ask ?q \<le> 0"
    "\<not> size_or_zero (tk_bid_size demo_tick) <s MIN_BBO_SIZE"
    "\<not> size_or_zero (tk_ask_size demo_tick) <s MIN_BBO_SIZE"
    "\<not> lit 4 * q_edge ?q < (q_raw_ask ?q - q_raw_bid ?q) * lit (1 / 2)"
    "improving_passes (q_gates ?q) Buy (q_greeks ?q)"
    by (simp_all add: demo_ctx_def demo_tick_def size_or_zero_def MIN_BBO_SIZE_def improving_passes_def no_gates_def
        word_sless_alt)
  have "case quote_target Buy (lit (1 / 16)) (lit (1 / 1024)) (lit (1 / 2048)) (lit (61 / 1024)) (lit (67 / 1024))
      (lit (61 / 1024)) (lit (67 / 1024)) of Quote _ \<Rightarrow> True | Skip _ \<Rightarrow> False" by code_simp
  then have "case quote_target Buy (q_theo ?q) (q_edge ?q) (lit (1 / 2048)) (q_bid ?q) (q_ask ?q)
      (q_raw_bid ?q) (q_raw_ask ?q) of Quote _ \<Rightarrow> True | Skip _ \<Rightarrow> False" by (simp add: demo_ctx_def)
  then obtain t where t: "quote_target Buy (q_theo ?q) (q_edge ?q) (lit (1 / 2048)) (q_bid ?q) (q_ask ?q)
      (q_raw_bid ?q) (q_raw_ask ?q) = Quote t" by (auto split: target_result.splits)
  have sn: "tick_size demo_quoting = lit (1 / 2048)" "spread_edge_mul demo_quoting = lit 4"
    by (simp_all add: demo_quoting_def default_scalars_def)
  have "our_orders demo_state = []" "0 < burst_window_ns demo_state"
    "fst (try_consume 1000000000 (burst_window_ns demo_state) (outbound_limiter demo_state))"
    by (simp_all add: demo_state_def try_consume_total recent_def saturating_sub_def)
  with t book(6) obtain cs1 st1 where buy: "decide_side demo_quoting 1000000000 ?q Buy ([], cs, demo_state) =
      ([PlaceOrder Buy (quantize (lit (1 / 2048)) t) None], cs1, st1)"
    by (auto simp: decide_side_def Let_def case_prod_beta sn)
  show ?thesis
    using decide_side_step [of demo_quoting 1000000000 ?q Sell] book sn
    by (metis (no_types, lifting) append_Cons d buy quote_both_def fst_conv)
qed

text \<open>
  \<^bold>\<open>C1.\<close> Whenever \<open>decide_on_tick\<close> returns an order to place or modify, no kill is active, quoting is
  not paused for the weekend, a vol surface for the option exists and is at most 120 seconds old, a risk
  state at most five seconds old with margin below its ceiling has arrived, the strike is in the quoting
  window, out of the money and within the calibrated range, the spot has not drifted from the fit, both
  sides of the book show a price and a size, and the improving-only gate let this side through for the
  greeks of this very option: those cached for its key and fit, or else those computed from its surface.
\<close>

theorem orders_pass_every_gate:
  assumes "decide_on_tick lm tte_of st cs tick ex rt now wall sn = (out, cs', st')"
    and "d \<in> set out" "order_side d = Some s"
  shows "\<exists>vp tte gx. tick_gates st sn now wall (tk_strike tick) ex rt vp \<and> tte_of ex = Some tte \<and> 0 < tte \<and>
    (case map_of (theo_cache st) (trader_strike_key (tk_strike tick), ex, rt, fit_ts_ns vp) of
       Some g \<Rightarrow> gx = g
     | None \<Rightarrow> \<exists>iv. compute_theo lm (vs_forward vp) (tk_strike tick) tte rt (vs_params vp) = Some (iv, gx)) \<and>
    improving_passes (fst (compute_risk_gates sn now cs)) s gx \<and>
    \<not> or_zero (tk_bid tick) \<le> 0 \<and> \<not> or_zero (tk_ask tick) \<le> 0 \<and>
    MIN_BBO_SIZE \<le>s size_or_zero (tk_bid_size tick) \<and> MIN_BBO_SIZE \<le>s size_or_zero (tk_ask_size tick)"
proof -
  obtain vp tte gx st1 cs1 where q: "tick_gates st sn now wall (tk_strike tick) ex rt vp"
    "quote_both sn now tick (quote_ctx_of sn tick ex rt (fst (compute_risk_gates sn now cs)) vp gx st1) cs1 st1
      = (out, cs', st')"
    and t: "tte_of ex = Some tte" "0 < tte" "theo_lookup lm (tk_strike tick) tte ex rt vp st = Some (gx, st1)"
    using decide_on_tick_quotes [OF assms(1,2)] assms(3) by (metis option.distinct(1))
  let ?q = "quote_ctx_of sn tick ex rt (fst (compute_risk_gates sn now cs)) vp gx st1"
  from quote_both_orders [OF q(2)] assms(2)
  obtain s' where o: "side_order sn now ?q (our_orders st1) s' d" "\<not> q_raw_bid ?q \<le> 0" "\<not> q_raw_ask ?q \<le> 0"
    "MIN_BBO_SIZE \<le>s size_or_zero (tk_bid_size tick)" "MIN_BBO_SIZE \<le>s size_or_zero (tk_ask_size tick)" by blast
  have "s' = s" using order_side_side_order [OF o(1)] assms(3) by simp
  then have "improving_passes (fst (compute_risk_gates sn now cs)) s gx" "\<not> or_zero (tk_bid tick) \<le> 0" "\<not> or_zero (tk_ask tick) \<le> 0"
    using o(1-3) by (auto simp: side_order_def quote_ctx_of_simps)
  with q(1) t(1,2) theo_lookup_greeks [OF t(3)] o(4,5) show ?thesis by blast
qed

theorem orders_pass_every_gate_witness:
  "\<exists>px vp. PlaceOrder Buy px None \<in> set (fst demo_decide) \<and>
    tick_gates demo_state demo_quoting 1000000000 9 (tk_strike demo_tick) ''20260526'' CHR ''C'' vp"
proof -
  obtain out cs st where d: "demo_decide = (out, cs, st)" by (rule prod_cases3)
  obtain px ds where "out = PlaceOrder Buy px None # ds" using demo_order unfolding d by auto
  then have px: "PlaceOrder Buy px None \<in> set out" by simp
  from orders_pass_every_gate [OF d [unfolded demo_decide_def] px] px show ?thesis unfolding d by auto
qed

text \<open>
  \<^bold>\<open>C5.\<close> The orders of one tick: at most one for each side; a modification addresses the acknowledged
  order that rests at the same strike, expiry, right and side, at least 250 ms after its last placement;
  and a placement goes out only when nothing rests there, or when the order that was sent there two
  seconds ago or longer was never acknowledged.
\<close>

theorem one_live_order_per_key:
  assumes "decide_on_tick lm tte_of st cs tick ex rt now wall sn = (out, cs', st')"
  shows "(\<forall>s. length (filter (\<lambda>d. order_side d = Some s) out) \<le> 1) \<and>
    (\<forall>s oid px. ModifyOrder s oid px \<in> set out \<longrightarrow>
      (\<exists>r. map_of (our_orders st) (trader_strike_key (tk_strike tick), ex, rt, side_as_char s) = Some r \<and>
        order_id r = Some oid \<and> COOLDOWN_NS \<le> saturating_sub now (place_monotonic_ns r))) \<and>
    (\<forall>s px old. PlaceOrder s px old \<in> set out \<longrightarrow> old = None \<and>
      (\<forall>r. map_of (our_orders st) (trader_strike_key (tk_strike tick), ex, rt, side_as_char s) = Some r \<longrightarrow>
        order_id r = None \<and> UNACK_INFLIGHT_NS \<le> saturating_sub now (place_monotonic_ns r)))"
proof (cases "\<exists>d \<in> set out. order_side d \<noteq> None")
  case False
  then have "filter (\<lambda>d. order_side d = Some s) out = []" for s by (auto simp: filter_empty_conv)
  moreover have "ModifyOrder s oid px \<notin> set out" "PlaceOrder s px old \<notin> set out" for s oid px old
    using False by force+
  ultimately show ?thesis by simp
next
  case True
  then obtain d where "d \<in> set out" "order_side d \<noteq> None" by blast
  from decide_on_tick_quotes [OF assms this] obtain vp gx st1 cs1 where q: "our_orders st1 = our_orders st"
    "quote_both sn now tick (quote_ctx_of sn tick ex rt (fst (compute_risk_gates sn now cs)) vp gx st1) cs1 st1
      = (out, cs', st')" by metis
  let ?q = "quote_ctx_of sn tick ex rt (fst (compute_risk_gates sn now cs)) vp gx st1"
  note orders = quote_both_orders [OF q(2), unfolded q(1)]
  have key: "order_key ?q s = (trader_strike_key (tk_strike tick), ex, rt, side_as_char s)" for s
    by (simp add: order_key_def quote_ctx_of_simps)
  have own: "side_order sn now ?q (our_orders st) s d" if "d \<in> set out" "order_side d = Some s" for d s
    using orders that order_side_side_order by (metis option.inject)
  have "length (filter (\<lambda>d. order_side d = Some s) out) \<le> 1" for s
    using orders by (intro distinct_map_filter_le_1) simp
  moreover have "\<exists>r. map_of (our_orders st) (trader_strike_key (tk_strike tick), ex, rt, side_as_char s) = Some r \<and>
      order_id r = Some oid \<and> COOLDOWN_NS \<le> saturating_sub now (place_monotonic_ns r)"
    if "ModifyOrder s oid px \<in> set out" for s oid px
    using side_order_modify [OF own [OF that]] by (simp add: key)
  moreover have "old = None \<and>
      (\<forall>r. map_of (our_orders st) (trader_strike_key (tk_strike tick), ex, rt, side_as_char s) = Some r \<longrightarrow>
        order_id r = None \<and> UNACK_INFLIGHT_NS \<le> saturating_sub now (place_monotonic_ns r))"
    if "PlaceOrder s px old \<in> set out" for s px old
    using side_order_place [OF own [OF that]] by (simp add: key)
  ultimately show ?thesis by blast
qed

theorem one_live_order_per_key_witness:
  "length (filter (\<lambda>d. order_side d = Some Buy) (fst demo_decide)) = 1"
proof -
  obtain out cs st where d: "demo_decide = (out, cs, st)" by (rule prod_cases3)
  have "length (filter (\<lambda>d. order_side d = Some Buy) out) \<le> 1"
    using one_live_order_per_key [OF d [unfolded demo_decide_def]] by blast
  then show ?thesis using demo_order unfolding d by auto
qed

end
