(* ===== verification/Msgpack.thy ===== *)
theory Msgpack
  imports F64_Lemmas
begin

unbundle bit_operations_syntax

section \<open>MessagePack on the wire\<close>

text \<open>
  Model of the hand-written MessagePack reader of the trader
  (\<^verbatim>\<open>rust/corsair_trader/src/msgpack_decode.rs\<close>, the primitive readers and \<^verbatim>\<open>skip_value\<close>) and of the
  writers both processes use (\<^verbatim>\<open>rust/corsair_trader/src/msgpack_encode.rs\<close> and the encoder part of
  \<^verbatim>\<open>rust/corsair_broker/src/ipc.rs\<close>).  A read cursor is a \<^typ>\<open>nat\<close>: a position in a body of at most
  16 MiB plus a 32-bit length stays far below \<open>2 ^ 64\<close>, so the \<^verbatim>\<open>usize\<close> additions never wrap.

  \<^verbatim>\<open>skip_value\<close> recurses through nested arrays and maps; its termination is proved from the fact that
  it always moves the cursor forward.  It is then compared with the grammar of the format, given
  independently as an inductive predicate: a skip that ends inside the body has passed over exactly
  one complete object, and every complete object is skipped.
\<close>

subsection \<open>Reading\<close>

definition read_map_header :: "bytes \<Rightarrow> nat \<Rightarrow> (nat \<times> nat) option" where
  "read_map_header body p =
     do { b \<leftarrow> get_at body p;
          if 0x80 \<le> b \<and> b \<le> 0x8f then Some (unat (b AND 0x0f), p + 1)
          else if b = 0xde then
            do { bs \<leftarrow> get_range body (p + 1) (p + 3); Some (be_nat bs, p + 3) }
          else if b = 0xdf then
            do { bs \<leftarrow> get_range body (p + 1) (p + 5); Some (be_nat bs, p + 5) }
          else None }"

definition read_str_span :: "bytes \<Rightarrow> nat \<Rightarrow> (nat \<times> nat) option" where
  "read_str_span body p =
     do { b \<leftarrow> get_at body p;
          if 0xa0 \<le> b \<and> b \<le> 0xbf then Some (p + 1, unat (b AND 0x1f))
          else if b = 0xd9 then do { l \<leftarrow> get_at body (p + 1); Some (p + 2, unat l) }
          else if b = 0xda then
            do { bs \<leftarrow> get_range body (p + 1) (p + 3); Some (p + 3, be_nat bs) }
          else if b = 0xdb then
            do { bs \<leftarrow> get_range body (p + 1) (p + 5); Some (p + 5, be_nat bs) }
          else None }"

definition read_str_bytes :: "bytes \<Rightarrow> nat \<Rightarrow> (bytes \<times> nat) option" where
  "read_str_bytes body p =
     do { (start, len) \<leftarrow> read_str_span body p;
          if length body < start + len then None
          else Some (subslice body start (start + len), start + len) }"

text \<open>
  Integers of every width, sign- or zero-extended to \<^verbatim>\<open>i64\<close>.  An unsigned 64-bit value above
  \<open>2 ^ 63\<close> is reinterpreted, as the \<^verbatim>\<open>as\<close> cast does.
\<close>

definition read_int :: "bytes \<Rightarrow> nat \<Rightarrow> (i64 \<times> nat) option" where
  "read_int body p =
     do { b \<leftarrow> get_at body p;
          if b \<le> 0x7f then Some (ucast b, p + 1)
          else if 0xe0 \<le> b then Some (scast b, p + 1)
          else if b = 0xcc then do { v \<leftarrow> get_at body (p + 1); Some (ucast v, p + 2) }
          else if b = 0xcd then
            do { bs \<leftarrow> get_range body (p + 1) (p + 3); Some (of_nat (be_nat bs), p + 3) }
          else if b = 0xce then
            do { bs \<leftarrow> get_range body (p + 1) (p + 5); Some (of_nat (be_nat bs), p + 5) }
          else if b = 0xcf then
            do { bs \<leftarrow> get_range body (p + 1) (p + 9); Some (of_nat (be_nat bs), p + 9) }
          else if b = 0xd0 then do { v \<leftarrow> get_at body (p + 1); Some (scast v, p + 2) }
          else if b = 0xd1 then
            do { bs \<leftarrow> get_range body (p + 1) (p + 3); Some (scast (of_nat (be_nat bs) :: u16), p + 3) }
          else if b = 0xd2 then
            do { bs \<leftarrow> get_range body (p + 1) (p + 5); Some (scast (of_nat (be_nat bs) :: u32), p + 5) }
          else if b = 0xd3 then
            do { bs \<leftarrow> get_range body (p + 1) (p + 9); Some (of_nat (be_nat bs), p + 9) }
          else None }"

text \<open>\<^verbatim>\<open>f32 as f64\<close> is exact.\<close>

definition f32_as_f64 :: "u32 \<Rightarrow> f64" where
  "f32_as_f64 w =
     (let s = 0x80000000 \<le> uint w; m = uint w mod 0x80000000;
          e = m div 0x800000; f = m mod 0x800000
      in if 0x7f800000 < m then f64_nan
         else if m = 0x7f800000 then f64_inf s
         else let v = (if e = 0 then scale2 (of_int f) (- 149) else scale2 (of_int (0x800000 + f)) (e - 150))
              in round_f64 s (if s then - v else v))"

definition read_f64 :: "bytes \<Rightarrow> nat \<Rightarrow> (f64 \<times> nat) option" where
  "read_f64 body p =
     do { b \<leftarrow> get_at body p;
          if b = 0xcb then
            do { bs \<leftarrow> get_range body (p + 1) (p + 9); Some (F64 (of_nat (be_nat bs)), p + 9) }
          else if b = 0xca then
            do { bs \<leftarrow> get_range body (p + 1) (p + 5); Some (f32_as_f64 (of_nat (be_nat bs)), p + 5) }
          else do { (v, q) \<leftarrow> read_int body p; Some (i64_as_f64 v, q) } }"

text \<open>
  One arm of the match of \<^verbatim>\<open>skip_value\<close>: jump to a position, or skip a number of values from one.
\<close>

datatype skip_action = Jump nat | Items nat nat

definition skip_arm :: "bytes \<Rightarrow> nat \<Rightarrow> u8 \<Rightarrow> skip_action option" where
  "skip_arm body p b =
     (if b \<in> {0xc0, 0xc2, 0xc3} \<or> b \<le> 0x7f \<or> 0xe0 \<le> b then Some (Jump (p + 1))
      else if b \<in> {0xcc, 0xd0, 0xd4} then Some (Jump (p + 2))
      else if b \<in> {0xcd, 0xd1, 0xd5} then Some (Jump (p + 3))
      else if b \<in> {0xce, 0xd2, 0xca, 0xd6} then Some (Jump (p + 5))
      else if b \<in> {0xcf, 0xd3, 0xcb, 0xd7} then Some (Jump (p + 9))
      else if b = 0xd8 then Some (Jump (p + 18))
      else if 0xa0 \<le> b \<and> b \<le> 0xbf then Some (Jump (p + 1 + unat (b AND 0x1f)))
      else if b \<in> {0xd9, 0xc4} then do { l \<leftarrow> get_at body (p + 1); Some (Jump (p + 2 + unat l)) }
      else if b \<in> {0xda, 0xc5} then
        do { bs \<leftarrow> get_range body (p + 1) (p + 3); Some (Jump (p + 3 + be_nat bs)) }
      else if b \<in> {0xdb, 0xc6} then
        do { bs \<leftarrow> get_range body (p + 1) (p + 5); Some (Jump (p + 5 + be_nat bs)) }
      else if 0x90 \<le> b \<and> b \<le> 0x9f then Some (Items (p + 1) (unat (b AND 0x0f)))
      else if b = 0xdc then
        do { bs \<leftarrow> get_range body (p + 1) (p + 3); Some (Items (p + 3) (be_nat bs)) }
      else if b = 0xdd then
        do { bs \<leftarrow> get_range body (p + 1) (p + 5); Some (Items (p + 5) (be_nat bs)) }
      else if 0x80 \<le> b \<and> b \<le> 0x8f then Some (Items (p + 1) (unat (b AND 0x0f) * 2))
      else if b = 0xde then
        do { bs \<leftarrow> get_range body (p + 1) (p + 3); Some (Items (p + 3) (be_nat bs * 2)) }
      else if b = 0xdf then
        do { bs \<leftarrow> get_range body (p + 1) (p + 5); Some (Items (p + 5) (be_nat bs * 2)) }
      else None)"

function skip_value :: "bytes \<Rightarrow> nat \<Rightarrow> nat option"
  and skip_n_values :: "bytes \<Rightarrow> nat \<Rightarrow> nat \<Rightarrow> nat option" where
  "skip_value body p =
     (case get_at body p of
        None \<Rightarrow> None
      | Some b \<Rightarrow>
          (case skip_arm body p b of
             None \<Rightarrow> None
           | Some (Jump q) \<Rightarrow> Some q
           | Some (Items q n) \<Rightarrow> skip_n_values body q n))"
| "skip_n_values body p 0 = Some p"
| "skip_n_values body p (Suc n) =
     (case skip_value body p of None \<Rightarrow> None | Some q \<Rightarrow> skip_n_values body q n)"
  by pat_completeness auto

lemma skip_arm_forward:
  "skip_arm body p b = Some (Jump q) \<Longrightarrow> p < q"
  "skip_arm body p b = Some (Items q n) \<Longrightarrow> p < q"
  by (auto simp: skip_arm_def split: if_splits bind_splits)

text \<open>Progress, for the calls that return, by induction on the calls made.\<close>

lemma skip_forward_partial:
  "skip_value_skip_n_values_dom (Inl (body, p)) \<Longrightarrow> skip_value body p = Some q \<Longrightarrow> p < q"
  "skip_value_skip_n_values_dom (Inr (body, p, n)) \<Longrightarrow> skip_n_values body p n = Some q \<Longrightarrow> p \<le> q"
proof (induction body p and body p n arbitrary: q and q rule: skip_value_skip_n_values.pinduct)
  case (1 body p)
  then show ?case
    by (fastforce simp: skip_value.psimps dest: skip_arm_forward split: option.splits skip_action.splits)
next
  case (2 body p)
  then show ?case by (simp add: skip_n_values.psimps)
next
  case (3 body p n)
  then show ?case
    by (fastforce simp: skip_n_values.psimps split: option.splits)
qed

termination skip_value
proof (relation "measures
    [\<lambda>s. case s of Inl (body, p) \<Rightarrow> length body - p | Inr (body, p, n) \<Rightarrow> length body - p,
     \<lambda>s. case s of Inl _ \<Rightarrow> 0 | Inr (body, p, n) \<Rightarrow> Suc n]", goal_cases)
  case (2 body p b a q n)
  then have "p < q" "p < length body" by (auto dest: skip_arm_forward simp: get_at_def split: if_splits)
  then show ?case by auto
next
  case (4 body p n q)
  then have "p < q" by (auto dest: skip_forward_partial)
  then show ?case by auto
qed auto

declare skip_value.simps [simp del]

lemma skip_forward:
  "skip_value body p = Some q \<Longrightarrow> p < q"
  "skip_n_values body p n = Some q \<Longrightarrow> p \<le> q"
proof (induction body p and body p n arbitrary: q and q rule: skip_value_skip_n_values.induct)
  case (1 body p)
  then show ?case
    by (fastforce simp: skip_value.simps dest: skip_arm_forward split: option.splits skip_action.splits)
qed (fastforce split: option.splits)+

subsection \<open>The grammar of the format\<close>

text \<open>
  The bytes that follow the first byte of an object of fixed size: as the MessagePack specification
  has them (\<open>spec_width\<close>), as \<^verbatim>\<open>skip_value\<close> has them (\<open>code_width\<close>, which differs for the extension types of 1,
  2, 4 and 8 bytes), and those of the specification outside these four types (\<open>plain_width\<close>).  The extension
  types of variable length, \<^verbatim>\<open>0xc7\<close> to \<^verbatim>\<open>0xc9\<close>, are refused by the reader and left out of the grammar.
\<close>

definition spec_width :: "u8 \<Rightarrow> nat option" where
  "spec_width b =
     (if b \<le> 0x7f \<or> 0xe0 \<le> b \<or> b \<in> {0xc0, 0xc2, 0xc3} then Some 0
      else if b \<in> {0xcc, 0xd0} then Some 1
      else if b \<in> {0xcd, 0xd1, 0xd4} then Some 2
      else if b = 0xd5 then Some 3
      else if b \<in> {0xce, 0xd2, 0xca} then Some 4
      else if b = 0xd6 then Some 5
      else if b \<in> {0xcf, 0xd3, 0xcb} then Some 8
      else if b = 0xd7 then Some 9
      else if b = 0xd8 then Some 17
      else None)"

definition code_width :: "u8 \<Rightarrow> nat option" where
  "code_width b = (if b \<in> {0xd4, 0xd5, 0xd6, 0xd7} then map_option (\<lambda>w. w - 1) (spec_width b) else spec_width b)"

definition plain_width :: "u8 \<Rightarrow> nat option" where
  "plain_width b = (if b \<in> {0xd4, 0xd5, 0xd6, 0xd7} then None else spec_width b)"

text \<open>Heads of strings and binaries of \<open>n\<close> bytes, and of arrays and maps of \<open>n\<close> objects.\<close>

definition sized_head :: "u8 \<Rightarrow> u8 \<Rightarrow> nat \<Rightarrow> bytes \<Rightarrow> bool" where
  "sized_head b16 b32 n h \<longleftrightarrow>
     n < 256 ^ 2 \<and> h = b16 # be_bytes 2 n \<or> n < 256 ^ 4 \<and> h = b32 # be_bytes 4 n"

definition blob_head :: "bytes \<Rightarrow> nat \<Rightarrow> bool" where
  "blob_head h n \<longleftrightarrow>
     n < 32 \<and> h = [0xa0 OR of_nat n] \<or> n < 256 \<and> (h = [0xd9, of_nat n] \<or> h = [0xc4, of_nat n]) \<or>
     sized_head 0xda 0xdb n h \<or> sized_head 0xc5 0xc6 n h"

definition seq_head :: "bytes \<Rightarrow> nat \<Rightarrow> bool" where
  "seq_head h n \<longleftrightarrow>
     n < 16 \<and> h = [0x90 OR of_nat n] \<or> sized_head 0xdc 0xdd n h \<or>
     (\<exists>k. n = k * 2 \<and> (k < 16 \<and> h = [0x80 OR of_nat k] \<or> sized_head 0xde 0xdf k h))"

inductive mp_object :: "(u8 \<Rightarrow> nat option) \<Rightarrow> bytes \<Rightarrow> bool"
  and mp_objects :: "(u8 \<Rightarrow> nat option) \<Rightarrow> nat \<Rightarrow> bytes \<Rightarrow> bool" for width where
  scalar: "width b = Some (length payload) \<Longrightarrow> mp_object width (b # payload)"
| blob: "blob_head h (length payload) \<Longrightarrow> mp_object width (h @ payload)"
| seq: "seq_head h n \<Longrightarrow> mp_objects width n bs \<Longrightarrow> mp_object width (h @ bs)"
| none: "mp_objects width 0 []"
| more: "mp_object width a \<Longrightarrow> mp_objects width n bs \<Longrightarrow> mp_objects width (Suc n) (a @ bs)"

subsection \<open>Slices around a cursor\<close>

lemma get_at_1 [wire_simps]: "get_at (xs @ a # b # ys) (Suc (length xs)) = Some b"
  by (simp add: get_at_def nth_append)

lemma get_range_after [wire_simps]:
  "k = length ys \<Longrightarrow> get_range (xs @ a # ys @ zs) (Suc (length xs)) (Suc (length xs) + k) = Some ys"
  by (simp add: get_range_def subslice_def)

lemma get_range_SomeD:
  "get_range body i j = Some bs \<Longrightarrow> j \<le> length body \<and> i \<le> j \<and> bs = subslice body i j \<and> length bs = j - i"
  by (auto simp: get_range_def split: if_splits)

lemma subslice_split:
  assumes "i \<le> j" "j \<le> k"
  shows "subslice xs i k = subslice xs i j @ subslice xs j k"
proof -
  have "k - i = (j - i) + (k - j)" using assms by simp
  then show ?thesis using assms by (simp only: subslice_def take_add drop_drop) simp
qed

lemma subslice_Cons: "get_at xs i = Some b \<Longrightarrow> i < j \<Longrightarrow> subslice xs i j = b # subslice xs (Suc i) j"
  by (auto simp: subslice_def get_at_def Cons_nth_drop_Suc [symmetric] take_Cons' split: if_splits)

lemma subslice_empty [simp]: "subslice xs i i = []"
  by (simp add: subslice_def)

lemma all_lessI: "list_all P [0..<m] \<Longrightarrow> n < m \<Longrightarrow> P n"
  by (simp add: list_all_iff)

lemma range_u8I:
  assumes "list_all P (map of_nat [unat lo..<Suc (unat hi)])" "lo \<le> b" "b \<le> hi"
  shows "P (b :: u8)"
proof -
  have "unat b \<in> {unat lo..<Suc (unat hi)}" using assms(2,3) by (auto simp: word_le_nat_alt)
  then have "P (of_nat (unat b))" using assms(1) unfolding list_all_iff set_map set_upt by blast
  then show ?thesis by simp
qed

lemma mask_head:
  "n < 32 \<Longrightarrow> unat ((0xa0 OR of_nat n :: u8) AND 0x1f) = n \<and> 0xa0 \<le> (0xa0 OR of_nat n :: u8) \<and> (0xa0 OR of_nat n :: u8) \<le> 0xbf"
  "n < 16 \<Longrightarrow> unat ((0x90 OR of_nat n :: u8) AND 0x0f) = n \<and> 0x90 \<le> (0x90 OR of_nat n :: u8) \<and> (0x90 OR of_nat n :: u8) \<le> 0x9f"
  "n < 16 \<Longrightarrow> unat ((0x80 OR of_nat n :: u8) AND 0x0f) = n \<and> 0x80 \<le> (0x80 OR of_nat n :: u8) \<and> (0x80 OR of_nat n :: u8) \<le> 0x8f"
  by (erule all_lessI [rotated], code_simp)+

lemma head_mask_str:
  "0xa0 \<le> b \<Longrightarrow> b \<le> 0xbf \<Longrightarrow> unat (b AND 0x1f) < 32 \<and> (0xa0 OR of_nat (unat (b AND 0x1f))) = (b :: u8)"
  by (rule range_u8I [where P = "\<lambda>b. unat (b AND 0x1f) < 32 \<and> (0xa0 OR of_nat (unat (b AND 0x1f))) = b"
        and lo = "0xa0" and hi = "0xbf"]) (code_simp, assumption+)

lemma head_mask_array:
  "0x90 \<le> b \<Longrightarrow> b \<le> 0x9f \<Longrightarrow> unat (b AND 0x0f) < 16 \<and> (0x90 OR of_nat (unat (b AND 0x0f))) = (b :: u8)"
  by (rule range_u8I [where P = "\<lambda>b. unat (b AND 0x0f) < 16 \<and> (0x90 OR of_nat (unat (b AND 0x0f))) = b"
        and lo = "0x90" and hi = "0x9f"]) (code_simp, assumption+)

lemma head_mask_map:
  "0x80 \<le> b \<Longrightarrow> b \<le> 0x8f \<Longrightarrow> unat (b AND 0x0f) < 16 \<and> (0x80 OR of_nat (unat (b AND 0x0f))) = (b :: u8)"
  by (rule range_u8I [where P = "\<lambda>b. unat (b AND 0x0f) < 16 \<and> (0x80 OR of_nat (unat (b AND 0x0f))) = b"
        and lo = "0x80" and hi = "0x8f"]) (code_simp, assumption+)

subsection \<open>Skipping is recognising one object\<close>

lemma code_width_cases:
  assumes "code_width b = Some w"
  shows "(b \<le> 0x7f \<or> 0xe0 \<le> b \<or> b \<in> {0xc0, 0xc2, 0xc3}) \<and> w = 0 \<or> b \<in> {0xcc, 0xd0, 0xd4} \<and> w = 1 \<or>
    b \<in> {0xcd, 0xd1, 0xd5} \<and> w = 2 \<or> b \<in> {0xce, 0xd2, 0xca, 0xd6} \<and> w = 4 \<or>
    b \<in> {0xcf, 0xd3, 0xcb, 0xd7} \<and> w = 8 \<or> b = 0xd8 \<and> w = 17"
proof (cases "b \<in> {0xd4, 0xd5, 0xd6, 0xd7}")
  case True
  then show ?thesis using assms by (elim insertE) (simp_all add: code_width_def spec_width_def)
next
  case False
  then have "spec_width b = Some w" using assms by (simp add: code_width_def)
  then show ?thesis using False unfolding spec_width_def by (simp split: if_split_asm)
qed

lemma skip_arm_other:
  assumes "code_width b = None"
  shows "skip_arm body p b =
     (if 0xa0 \<le> b \<and> b \<le> 0xbf then Some (Jump (p + 1 + unat (b AND 0x1f)))
      else if b \<in> {0xd9, 0xc4} then do { l \<leftarrow> get_at body (p + 1); Some (Jump (p + 2 + unat l)) }
      else if b \<in> {0xda, 0xc5} then
        do { bs \<leftarrow> get_range body (p + 1) (p + 3); Some (Jump (p + 3 + be_nat bs)) }
      else if b \<in> {0xdb, 0xc6} then
        do { bs \<leftarrow> get_range body (p + 1) (p + 5); Some (Jump (p + 5 + be_nat bs)) }
      else if 0x90 \<le> b \<and> b \<le> 0x9f then Some (Items (p + 1) (unat (b AND 0x0f)))
      else if b = 0xdc then
        do { bs \<leftarrow> get_range body (p + 1) (p + 3); Some (Items (p + 3) (be_nat bs)) }
      else if b = 0xdd then
        do { bs \<leftarrow> get_range body (p + 1) (p + 5); Some (Items (p + 5) (be_nat bs)) }
      else if 0x80 \<le> b \<and> b \<le> 0x8f then Some (Items (p + 1) (unat (b AND 0x0f) * 2))
      else if b = 0xde then
        do { bs \<leftarrow> get_range body (p + 1) (p + 3); Some (Items (p + 3) (be_nat bs * 2)) }
      else if b = 0xdf then
        do { bs \<leftarrow> get_range body (p + 1) (p + 5); Some (Items (p + 5) (be_nat bs * 2)) }
      else None)"
proof -
  have "b \<le> 0x7f \<or> 0xe0 \<le> b \<Longrightarrow> code_width b \<noteq> None" by (auto simp: code_width_def spec_width_def)
  then have "\<not> (b \<in> {0xc0, 0xc2, 0xc3} \<or> b \<le> 0x7f \<or> 0xe0 \<le> b)" "b \<notin> {0xcc, 0xd0, 0xd4}" "b \<notin> {0xcd, 0xd1, 0xd5}"
    "b \<notin> {0xce, 0xd2, 0xca, 0xd6}" "b \<notin> {0xcf, 0xd3, 0xcb, 0xd7}" "b \<noteq> 0xd8"
    using assms by (auto simp: code_width_def spec_width_def)
  then show ?thesis by (simp only: skip_arm_def if_False)
qed

lemma skip_arm_scalar:
  assumes "code_width b = Some w"
  shows "skip_arm body p b = Some (Jump (p + 1 + w))"
  using code_width_cases [OF assms] unfolding skip_arm_def
  by (elim disjE conjE) (simp_all, (elim disjE, simp_all)+)

lemma skip_arm_refused: "b \<in> {0xc1, 0xc7, 0xc8, 0xc9} \<Longrightarrow> skip_arm body p b = None"
  by (elim insertE) (simp_all add: skip_arm_def)

lemma skip_arm_fix:
  "0xa0 \<le> b \<Longrightarrow> b \<le> 0xbf \<Longrightarrow> skip_arm body p b = Some (Jump (p + 1 + unat (b AND 0x1f)))"
  "0x90 \<le> b \<Longrightarrow> b \<le> 0x9f \<Longrightarrow> skip_arm body p b = Some (Items (p + 1) (unat (b AND 0x0f)))"
  "0x80 \<le> b \<Longrightarrow> b \<le> 0x8f \<Longrightarrow> skip_arm body p b = Some (Items (p + 1) (unat (b AND 0x0f) * 2))"
proof -
  have r: "\<not> b \<le> 0x7f" "\<not> 0xe0 \<le> b" "b \<notin> {0xc0, 0xc2, 0xc3}" "b \<notin> {0xcc, 0xd0, 0xd4}" "b \<notin> {0xcd, 0xd1, 0xd5}"
    "b \<notin> {0xce, 0xd2, 0xca, 0xd6}" "b \<notin> {0xcf, 0xd3, 0xcb, 0xd7}" "b \<noteq> 0xd8" "b \<notin> {0xd9, 0xc4}" "b \<notin> {0xda, 0xc5}"
    "b \<notin> {0xdb, 0xc6}" "b \<noteq> 0xdc" "b \<noteq> 0xdd" if "0x80 \<le> b" "b \<le> 0xbf" for b :: u8
    using that by (auto simp: word_le_nat_alt)
  show "0xa0 \<le> b \<Longrightarrow> b \<le> 0xbf \<Longrightarrow> skip_arm body p b = Some (Jump (p + 1 + unat (b AND 0x1f)))"
    using r [of b] by (simp add: skip_arm_def word_le_nat_alt)
  show "0x90 \<le> b \<Longrightarrow> b \<le> 0x9f \<Longrightarrow> skip_arm body p b = Some (Items (p + 1) (unat (b AND 0x0f)))"
    using r [of b] by (simp add: skip_arm_def word_le_nat_alt)
  show "0x80 \<le> b \<Longrightarrow> b \<le> 0x8f \<Longrightarrow> skip_arm body p b = Some (Items (p + 1) (unat (b AND 0x0f) * 2))"
    using r [of b] by (simp add: skip_arm_def word_le_nat_alt)
qed

lemma be_nat_2_4 [simp]:
  "n < 256 ^ 2 \<Longrightarrow> be_nat (be_bytes 2 n) = n" "n < 256 ^ 4 \<Longrightarrow> be_nat (be_bytes 4 n) = n"
  by (simp_all only: be_nat_be_bytes)

lemma get_range_head:
  "get_range (pre @ b # be_bytes 2 n @ rest) (Suc (length pre)) (length pre + 3) = Some (be_bytes 2 n)"
  "get_range (pre @ b # be_bytes 4 n @ rest) (Suc (length pre)) (length pre + 5) = Some (be_bytes 4 n)"
  by (simp_all add: get_range_def subslice_def)

lemma skip_arm_blob:
  assumes "blob_head h n"
  shows "\<exists>b t. h = b # t \<and> skip_arm (pre @ h @ rest) (length pre) b = Some (Jump (length pre + length h + n))"
proof -
  have u: "n < 256 \<Longrightarrow> unat (of_nat n :: u8) = n" by (simp add: unat_of_nat)
  have g: "get_at (pre @ b # c # rest) (Suc (length pre)) = Some c" for b c by (simp add: get_at_1)
  show ?thesis
    using assms unfolding blob_head_def sized_head_def
    by (elim disjE conjE)
      (simp_all add: skip_arm_fix mask_head, simp_all add: skip_arm_def g u get_range_head)
qed

lemma skip_arm_seq:
  assumes "seq_head h n"
  shows "\<exists>b t. h = b # t \<and> skip_arm (pre @ h @ rest) (length pre) b = Some (Items (length pre + length h) n)"
  using assms unfolding seq_head_def sized_head_def
  by (elim disjE conjE exE)
    (simp_all add: skip_arm_fix mask_head, simp_all add: skip_arm_def get_range_head)

lemma skip_value_object:
  "mp_object code_width bs \<Longrightarrow>
    skip_value (pre @ bs @ post) (length pre) = Some (length pre + length bs)"
  "mp_objects code_width n bs \<Longrightarrow>
    skip_n_values (pre @ bs @ post) (length pre) n = Some (length pre + length bs)"
proof (induction arbitrary: pre post and pre post rule: mp_object_mp_objects.inducts)
  case (scalar b payload)
  then show ?case by (simp add: skip_value.simps skip_arm_scalar)
next
  case (blob h payload)
  from skip_arm_blob [OF blob, of pre "payload @ post"] show ?case
    by (auto simp: skip_value.simps)
next
  case (seq h n bs)
  from skip_arm_seq [OF seq(1), of pre "bs @ post"] obtain b t where
    h: "h = b # t" "skip_arm (pre @ h @ bs @ post) (length pre) b = Some (Items (length pre + length h) n)" by blast
  then show ?case using seq(3) [of "pre @ h" post] by (simp add: skip_value.simps)
next
  case (more a n bs)
  then show ?case using more(2) [of pre "bs @ post"] more(4) [of "pre @ a" post] by simp
qed simp

lemma sized_headI:
  "get_range body (Suc p) (p + 3) = Some bs \<Longrightarrow> sized_head b b' (be_nat bs) (b # bs)"
  "get_range body (Suc p) (p + 5) = Some bs \<Longrightarrow> sized_head b' b (be_nat bs) (b # bs)"
  using be_nat_less [of bs] be_bytes_be_nat [of bs]
  by (auto simp: sized_head_def dest!: get_range_SomeD)

lemma skip_arm_JumpD:
  assumes "get_at body p = Some b" "skip_arm body p b = Some (Jump q)" "q \<le> length body"
  shows "mp_object code_width (subslice body p q)"
proof -
  have cut: "subslice body p q = b # subslice body (Suc p) j @ subslice body j q" if "Suc p \<le> j" "j \<le> q" for j
    using that assms(1) by (simp add: subslice_Cons subslice_split [of "Suc p" j q])
  consider (scalar) w where "code_width b = Some w" "q = p + 1 + w"
    | (fixstr) "0xa0 \<le> b" "b \<le> 0xbf" "q = p + 1 + unat (b AND 0x1f)"
    | (one) l where "b = 0xd9 \<or> b = 0xc4" "get_at body (p + 1) = Some l" "q = p + 2 + unat l"
    | (two) bs where "b = 0xda \<or> b = 0xc5" "get_range body (p + 1) (p + 3) = Some bs" "q = p + 3 + be_nat bs"
    | (four) bs where "b = 0xdb \<or> b = 0xc6" "get_range body (p + 1) (p + 5) = Some bs" "q = p + 5 + be_nat bs"
  proof (cases "code_width b")
    case None
    show thesis
      using assms(2) that unfolding skip_arm_other [OF None] by (auto split: if_split_asm bind_split_asm)
  next
    case (Some w)
    then show thesis using scalar [OF Some] assms(2) by (simp add: skip_arm_scalar [OF Some])
  qed
  then show ?thesis
  proof cases
    case scalar
    then show ?thesis using cut [of q] assms(3) by (simp add: mp_object_mp_objects.scalar)
  next
    case fixstr
    have "blob_head [b] (length (subslice body (p + 1) q))"
      using fixstr assms(3) head_mask_str [OF fixstr(1,2)] by (simp add: blob_head_def)
    from mp_object_mp_objects.blob [OF this] cut [of "Suc p"] fixstr(3) show ?thesis by simp
  next
    case one
    have "blob_head [b, l] (length (subslice body (p + 2) q))"
      using one assms(3) unat_u8_less [of l] by (auto simp: blob_head_def)
    from mp_object_mp_objects.blob [OF this] cut [of "p + 2"] one show ?thesis
      by (simp add: subslice_Cons)
  next
    case two
    then have "blob_head (b # bs) (length (subslice body (p + 3) q))"
      using assms(3) sized_headI(1) [of body p bs] by (auto simp: blob_head_def)
    from mp_object_mp_objects.blob [OF this] cut [of "p + 3"] two get_range_SomeD [OF two(2)] show ?thesis
      by simp
  next
    case four
    then have "blob_head (b # bs) (length (subslice body (p + 5) q))"
      using assms(3) sized_headI(2) [of body p bs] by (auto simp: blob_head_def)
    from mp_object_mp_objects.blob [OF this] cut [of "p + 5"] four get_range_SomeD [OF four(2)] show ?thesis
      by simp
  qed
qed

lemma skip_arm_ItemsD:
  assumes "get_at body p = Some b" "skip_arm body p b = Some (Items q n)"
  shows "seq_head (subslice body p q) n"
proof (cases "code_width b")
  case None
  have head: "subslice body p j = b # subslice body (Suc p) j" if "p < j" for j
    using that assms(1) by (simp add: subslice_Cons)
  consider (arr) "0x90 \<le> b" "b \<le> 0x9f" "q = p + 1" "n = unat (b AND 0x0f)"
    | (arr2) bs where "b = 0xdc" "get_range body (p + 1) (p + 3) = Some bs" "q = p + 3" "n = be_nat bs"
    | (arr4) bs where "b = 0xdd" "get_range body (p + 1) (p + 5) = Some bs" "q = p + 5" "n = be_nat bs"
    | (map) "0x80 \<le> b" "b \<le> 0x8f" "q = p + 1" "n = unat (b AND 0x0f) * 2"
    | (map2) bs where "b = 0xde" "get_range body (p + 1) (p + 3) = Some bs" "q = p + 3" "n = be_nat bs * 2"
    | (map4) bs where "b = 0xdf" "get_range body (p + 1) (p + 5) = Some bs" "q = p + 5" "n = be_nat bs * 2"
    using assms(2) that unfolding skip_arm_other [OF None] by (auto split: if_split_asm bind_split_asm)
  then show ?thesis
  proof cases
    case arr
    then show ?thesis using head_mask_array [OF arr(1,2)] by (simp add: head seq_head_def)
  next
    case arr2
    with get_range_SomeD [OF arr2(2)] sized_headI(1) [of body p bs b "0xdd"] show ?thesis
      by (simp add: head seq_head_def)
  next
    case arr4
    with get_range_SomeD [OF arr4(2)] sized_headI(2) [of body p bs "0xdc" b] show ?thesis
      by (simp add: head seq_head_def)
  next
    case map
    then show ?thesis using head_mask_map [OF map(1,2)] by (auto simp: head seq_head_def)
  next
    case map2
    with get_range_SomeD [OF map2(2)] sized_headI(1) [of body p bs b "0xdf"] show ?thesis
      by (auto simp: head seq_head_def)
  next
    case map4
    with get_range_SomeD [OF map4(2)] sized_headI(2) [of body p bs "0xde" b] show ?thesis
      by (auto simp: head seq_head_def)
  qed
next
  case (Some w)
  then show ?thesis using assms(2) by (simp add: skip_arm_scalar)
qed

lemma skip_value_sound:
  "skip_value body p = Some q \<Longrightarrow> q \<le> length body \<Longrightarrow> mp_object code_width (subslice body p q)"
  "skip_n_values body p n = Some q \<Longrightarrow> q \<le> length body \<Longrightarrow> mp_objects code_width n (subslice body p q)"
proof (induction body p and body p n arbitrary: q and q rule: skip_value_skip_n_values.induct)
  case (1 body p)
  obtain b where b: "get_at body p = Some b"
    using 1(2) by (auto simp: skip_value.simps split: option.splits)
  show ?case
  proof (cases "skip_arm body p b")
    case None
    then show ?thesis using 1(2) b by (simp add: skip_value.simps)
  next
    case (Some a)
    show ?thesis
    proof (cases a)
      case (Jump q')
      then show ?thesis using 1(2,3) b Some skip_arm_JumpD [OF b] by (simp add: skip_value.simps)
    next
      case (Items q' n)
      then have r: "skip_n_values body q' n = Some q" using 1(2) b Some by (simp add: skip_value.simps)
      have "p < q'" "q' \<le> q" using skip_arm_forward(2) Some Items skip_forward(2) [OF r] by auto
      then have "subslice body p q = subslice body p q' @ subslice body q' q" by (intro subslice_split) simp_all
      then show ?thesis
        using mp_object_mp_objects.seq [OF skip_arm_ItemsD [OF b Some [unfolded Items]] 1(1) [OF b Some Items r 1(3)]]
        by simp
    qed
  qed
next
  case (3 body p n)
  then obtain q' where q': "skip_value body p = Some q'" "skip_n_values body q' n = Some q"
    by (auto split: option.splits)
  note f = skip_forward(1) [OF q'(1)] skip_forward(2) [OF q'(2)]
  then have "subslice body p q = subslice body p q' @ subslice body q' q" by (intro subslice_split) simp_all
  then show ?case using 3 q' f by (simp add: mp_object_mp_objects.more)
qed (simp add: mp_object_mp_objects.none)

lemma skip_value_code:
  assumes "p < q" "q \<le> length body"
  shows "skip_value body p = Some q \<longleftrightarrow> mp_object code_width (subslice body p q)"
proof
  assume o: "mp_object code_width (subslice body p q)"
  have "body = take p body @ subslice body p q @ drop q body"
    using assms by (simp add: subslice_def) (metis append_take_drop_id drop_drop le_add_diff_inverse2 less_imp_le)
  moreover have "length (take p body) = p" using assms by simp
  ultimately show "skip_value body p = Some q"
    using skip_value_object(1) [OF o, of "take p body" "drop q body"] assms by simp
qed (use skip_value_sound(1) assms in blast)

text \<open>Two tables that agree on the bytes of an object give the same objects.\<close>

lemma mp_object_widths:
  "mp_object width bs \<Longrightarrow> \<forall>b\<in>set bs. \<forall>w. width b = Some w \<longrightarrow> width' b = Some w \<Longrightarrow> mp_object width' bs"
  "mp_objects width n bs \<Longrightarrow> \<forall>b\<in>set bs. \<forall>w. width b = Some w \<longrightarrow> width' b = Some w \<Longrightarrow> mp_objects width' n bs"
  by (induction rule: mp_object_mp_objects.inducts) (auto intro: mp_object_mp_objects.intros)

lemma widths_agree:
  "plain_width b = Some w \<Longrightarrow> code_width b = Some w" "plain_width b = Some w \<Longrightarrow> spec_width b = Some w"
  "b \<notin> {0xd4, 0xd5, 0xd6, 0xd7} \<Longrightarrow> code_width b = spec_width b"
  by (auto simp: plain_width_def code_width_def split: if_splits)

text \<open>
  The sizes the code has for the fixed-size types are those of the specification, except for the
  extension types of 1, 2, 4 and 8 bytes, which it takes to be one byte shorter than they are (it
  leaves out their type byte).
\<close>

lemma fixext_payload:
  assumes "b \<in> {0xd4, 0xd5, 0xd6, 0xd7}" "mp_object spec_width (b # payload)"
  shows "code_width b = Some (length payload - 1) \<and> 0 < length payload"
proof -
  have m: "b \<noteq> 0xa0 OR of_nat n" if "n < 32" for n
    using mask_head(1) [OF that] assms(1) by (auto simp: word_le_nat_alt)
  have m2: "b \<noteq> 0x90 OR of_nat n" "b \<noteq> 0x80 OR of_nat n" if "n < 16" for n
    using mask_head(2,3) [OF that] assms(1) by (auto simp: word_le_nat_alt)
  have "spec_width b = Some (length payload)"
    using assms(2)
  proof (cases rule: mp_object.cases)
    case (blob h payload')
    then show ?thesis using assms(1) m by (auto simp: blob_head_def sized_head_def)
  next
    case (seq h n bs)
    then show ?thesis using assms(1) m2 by (auto simp: seq_head_def sized_head_def)
  qed simp
  then show ?thesis using assms(1) by (auto simp: code_width_def spec_width_def)
qed

lemma fixext_short:
  assumes "body = pre @ b # payload @ post" "b \<in> {0xd4, 0xd5, 0xd6, 0xd7}" "mp_object spec_width (b # payload)"
  shows "skip_value body (length pre) = Some (length pre + length payload)"
  using fixext_payload [OF assms(2,3)] by (simp add: assms(1) skip_value.simps skip_arm_scalar)

text \<open>
  \<^bold>\<open>C29.\<close> \<open>skip_value\<close>, which terminates on every body, against the MessagePack grammar.  It skips every
  complete object of the specification that has no extension of 1, 2, 4 or 8 bytes in it, nested arrays and
  maps included, to exactly its end.  When none of the four bytes that start such an extension is among the
  bytes up to \<open>q\<close>, it returns \<open>q\<close> exactly if these bytes are one complete object of the specification.  An
  object of such an extension type is skipped one byte short, so that the reader goes on inside it; and the
  extensions of variable length and the unused byte \<^verbatim>\<open>0xc1\<close> are refused.
\<close>

theorem skip_value_iff_object:
  assumes "p < q" "q \<le> length body"
  shows "(mp_object plain_width (subslice body p q) \<longrightarrow>
      mp_object spec_width (subslice body p q) \<and> skip_value body p = Some q) \<and>
    (set (subslice body p q) \<inter> {0xd4, 0xd5, 0xd6, 0xd7} = {} \<longrightarrow>
      (skip_value body p = Some q \<longleftrightarrow> mp_object spec_width (subslice body p q))) \<and>
    (body ! p \<in> {0xd4, 0xd5, 0xd6, 0xd7} \<and> mp_object spec_width (subslice body p q) \<longrightarrow>
      skip_value body p = Some (q - 1)) \<and>
    (body ! p \<in> {0xc1, 0xc7, 0xc8, 0xc9} \<longrightarrow> skip_value body p = None)"
proof (intro conjI impI; (elim conjE)?)
  let ?bs = "subslice body p q"
  note code = skip_value_code [OF assms]
  have "drop p body = body ! p # drop (Suc p) body" using assms by (simp add: Cons_nth_drop_Suc)
  then have head: "?bs = body ! p # subslice body (Suc p) q"
    using assms by (simp add: subslice_def Suc_diff_Suc [symmetric])
  { assume "mp_object plain_width ?bs"
    then show "mp_object spec_width ?bs" "skip_value body p = Some q"
      unfolding code by (auto intro: mp_object_widths(1) simp: widths_agree) }
  { assume free: "set ?bs \<inter> {0xd4, 0xd5, 0xd6, 0xd7} = {}"
    then have "\<forall>b\<in>set ?bs. code_width b = spec_width b" using widths_agree(3) by blast
    then show "skip_value body p = Some q \<longleftrightarrow> mp_object spec_width ?bs"
      unfolding code by (auto intro: mp_object_widths(1)) }
  { assume f: "body ! p \<in> {0xd4, 0xd5, 0xd6, 0xd7}" "mp_object spec_width ?bs"
    have "body = take p body @ ?bs @ drop q body"
      using assms by (simp add: subslice_def) (metis append_take_drop_id drop_drop le_add_diff_inverse2 less_imp_le)
    from fixext_short [OF this [unfolded head append_Cons] f(1) f(2) [unfolded head]]
    show "skip_value body p = Some (q - 1)" using assms by (simp add: subslice_def) }
  { assume "body ! p \<in> {0xc1, 0xc7, 0xc8, 0xc9}"
    then have "skip_arm body p (body ! p) = None" by (rule skip_arm_refused)
    moreover have "get_at body p = Some (body ! p)" using assms by (simp add: get_at_def)
    ultimately show "skip_value body p = None" by (subst skip_value.simps) simp }
qed

theorem skip_value_iff_object_witness:
  "skip_value [0x92, 0xa1, 0x41, 0x81, 0xc0, 0x07, 0xff] 0 = Some 6 \<and>
   mp_object spec_width (subslice [0x92, 0xa1, 0x41, 0x81, 0xc0, 0x07, 0xff] 0 6) \<and>
   skip_value [0xd4, 0x05, 0x2a] 0 = Some 2 \<and> mp_object spec_width [0xd4, 0x05, 0x2a]"
proof -
  have "skip_value [0x92, 0xa1, 0x41, 0x81, 0xc0, 0x07, 0xff] 0 = Some 6" by code_simp
  moreover have "subslice [0x92, 0xa1, 0x41, 0x81, 0xc0, 0x07, 0xff] 0 6 = [0x92, 0xa1, 0x41, 0x81, 0xc0, 0x07 :: u8]"
    "subslice [0xd4, 0x05, 0x2a] 0 3 = [0xd4, 0x05, 0x2a :: u8]"
    by (simp_all add: subslice_def)
  moreover have "mp_object spec_width [0xd4, 0x05, 0x2a]"
    by (rule mp_object_mp_objects.scalar) (simp add: spec_width_def)
  ultimately show ?thesis
    using skip_value_iff_object [of 0 6 "[0x92, 0xa1, 0x41, 0x81, 0xc0, 0x07, 0xff]", THEN conjunct2, THEN conjunct1]
      skip_value_iff_object [of 0 3 "[0xd4, 0x05, 0x2a]", THEN conjunct2, THEN conjunct2, THEN conjunct1]
    by simp
qed

end
