(* ===== verification/Tick_Codec.thy ===== *)
theory Tick_Codec
  imports Msgpack Trader_Pricing
begin

unbundle bit_operations_syntax

section \<open>Ticks and commands on the wire\<close>

text \<open>
  The encoders of both processes and the decoders of the trader.  The broker encodes a \<^verbatim>\<open>TickEvent\<close>
  by hand (\<^verbatim>\<open>encode_tick_into\<close> in \<^verbatim>\<open>rust/corsair_broker/src/ipc.rs\<close>), the trader decodes it by hand
  (\<^verbatim>\<open>decode_header\<close> and \<^verbatim>\<open>decode_tick\<close> in \<^verbatim>\<open>msgpack_decode.rs\<close>) and encodes its commands by hand
  (\<^verbatim>\<open>msgpack_encode.rs\<close>); the primitive writers are the same code in both processes.

  A written map is described by its list of keys and values, \<open>enc_map\<close>.  The loop over the pairs of a
  map is one function, \<open>walk_pairs\<close>, with the match on the key as an argument; the interface
  \<open>pair_reader\<close> says what a match on the key owes the loop, and both decoders are instances.
\<close>

subsection \<open>Writing\<close>

definition write_fixstr :: "bytes \<Rightarrow> string \<Rightarrow> bytes" where
  "write_fixstr buf s = buf @ [0xa0 OR of_nat (length s)] @ str_bytes s"

definition write_str :: "bytes \<Rightarrow> string \<Rightarrow> bytes" where
  "write_str buf s =
     (let n = length s in
      buf @ (if n \<le> 31 then [0xa0 OR of_nat n]
             else if n \<le> 255 then [0xd9, of_nat n]
             else if n \<le> 65535 then 0xda # u16_be (of_nat n)
             else 0xdb # u32_be (of_nat n)) @ str_bytes s)"

definition write_str_kv :: "bytes \<Rightarrow> string \<Rightarrow> string \<Rightarrow> bytes" where
  "write_str_kv buf k v = write_str (write_fixstr buf k) v"

definition write_f64_kv :: "bytes \<Rightarrow> string \<Rightarrow> f64 \<Rightarrow> bytes" where
  "write_f64_kv buf k v = write_fixstr buf k @ [0xcb] @ u64_be (to_bits v)"

definition write_u32_kv :: "bytes \<Rightarrow> string \<Rightarrow> u32 \<Rightarrow> bytes" where
  "write_u32_kv buf k v = write_fixstr buf k @ [0xce] @ u32_be v"

definition write_u64_kv :: "bytes \<Rightarrow> string \<Rightarrow> u64 \<Rightarrow> bytes" where
  "write_u64_kv buf k v = write_fixstr buf k @ [0xcf] @ u64_be v"

definition write_i32_kv :: "bytes \<Rightarrow> string \<Rightarrow> i32 \<Rightarrow> bytes" where
  "write_i32_kv buf k v = write_fixstr buf k @ [0xd2] @ u32_be v"

definition write_i64_kv :: "bytes \<Rightarrow> string \<Rightarrow> i64 \<Rightarrow> bytes" where
  "write_i64_kv buf k v = write_fixstr buf k @ [0xd3] @ u64_be v"

definition write_opt_f64_kv :: "bytes \<Rightarrow> string \<Rightarrow> f64 option \<Rightarrow> bytes" where
  "write_opt_f64_kv buf k v =
     write_fixstr buf k @ (case v of Some x \<Rightarrow> 0xcb # u64_be (to_bits x) | None \<Rightarrow> [0xc0])"

definition write_opt_i32_kv :: "bytes \<Rightarrow> string \<Rightarrow> i32 option \<Rightarrow> bytes" where
  "write_opt_i32_kv buf k v =
     write_fixstr buf k @ (case v of Some x \<Rightarrow> 0xd2 # u32_be x | None \<Rightarrow> [0xc0])"

text \<open>\<^verbatim>\<open>TickEvent\<close> and \<^verbatim>\<open>encode_tick_into\<close> of the broker.\<close>

record tick_event =
  te_ty :: string
  te_strike :: f64
  te_expiry :: string
  te_right :: string
  te_bid :: "f64 option"
  te_ask :: "f64 option"
  te_bid_size :: "i32 option"
  te_ask_size :: "i32 option"
  te_ts_ns :: u64
  te_broker_recv_ns :: u64
  te_depth_bid_0 :: "f64 option"
  te_depth_bid_1 :: "f64 option"
  te_depth_ask_0 :: "f64 option"
  te_depth_ask_1 :: "f64 option"

definition count_some :: "'a option \<Rightarrow> u8" where
  "count_some x = (if x = None then 0 else 1)"

definition write_some_f64 :: "string \<Rightarrow> f64 option \<Rightarrow> bytes \<Rightarrow> bytes" where
  "write_some_f64 k v buf = (case v of Some x \<Rightarrow> write_f64_kv buf k x | None \<Rightarrow> buf)"

definition write_some_u64 :: "string \<Rightarrow> u64 option \<Rightarrow> bytes \<Rightarrow> bytes" where
  "write_some_u64 k v buf = (case v of Some x \<Rightarrow> write_u64_kv buf k x | None \<Rightarrow> buf)"

definition encode_tick_into :: "tick_event \<Rightarrow> bytes \<Rightarrow> bytes" where
  "encode_tick_into ev buf =
     (let n_fields = 10 + count_some (te_depth_bid_0 ev) + count_some (te_depth_bid_1 ev)
                       + count_some (te_depth_ask_0 ev) + count_some (te_depth_ask_1 ev);
          b = buf @ [0x80 OR n_fields];
          b = write_str_kv b ''type'' (te_ty ev);
          b = write_f64_kv b ''strike'' (te_strike ev);
          b = write_str_kv b ''expiry'' (te_expiry ev);
          b = write_str_kv b ''right'' (te_right ev);
          b = write_opt_f64_kv b ''bid'' (te_bid ev);
          b = write_opt_f64_kv b ''ask'' (te_ask ev);
          b = write_opt_i32_kv b ''bid_size'' (te_bid_size ev);
          b = write_opt_i32_kv b ''ask_size'' (te_ask_size ev);
          b = write_u64_kv b ''ts_ns'' (te_ts_ns ev);
          b = write_u64_kv b ''broker_recv_ns'' (te_broker_recv_ns ev);
          b = write_some_f64 ''depth_bid_0'' (te_depth_bid_0 ev) b;
          b = write_some_f64 ''depth_bid_1'' (te_depth_bid_1 ev) b;
          b = write_some_f64 ''depth_ask_0'' (te_depth_ask_0 ev) b
      in write_some_f64 ''depth_ask_1'' (te_depth_ask_1 ev) b)"

text \<open>The trader's commands, \<^verbatim>\<open>messages.rs\<close>, and their encoders.\<close>

record place_order_msg =
  pm_type :: string
  pm_ts_ns :: u64
  pm_strike :: f64
  pm_expiry :: string
  pm_right :: string
  pm_side :: string
  pm_qty :: i32
  pm_price :: f64
  pm_order_ref :: string
  pm_gtd_seconds :: u32
  pm_trigger :: "u64 option"

record modify_order_msg =
  mm_type :: string
  mm_ts_ns :: u64
  mm_order_id :: i64
  mm_price :: f64
  mm_gtd_seconds :: u32
  mm_trigger :: "u64 option"

record cancel_order_msg =
  cm_type :: string
  cm_ts_ns :: u64
  cm_order_id :: i64

definition encode_place_into :: "bytes \<Rightarrow> place_order_msg \<Rightarrow> bytes" where
  "encode_place_into buf p =
     (let b = buf @ [0x80 OR (10 + count_some (pm_trigger p))];
          b = write_str_kv b ''type'' (pm_type p);
          b = write_u64_kv b ''ts_ns'' (pm_ts_ns p);
          b = write_f64_kv b ''strike'' (pm_strike p);
          b = write_str_kv b ''expiry'' (pm_expiry p);
          b = write_str_kv b ''right'' (pm_right p);
          b = write_str_kv b ''side'' (pm_side p);
          b = write_i32_kv b ''qty'' (pm_qty p);
          b = write_f64_kv b ''price'' (pm_price p);
          b = write_str_kv b ''orderRef'' (pm_order_ref p);
          b = write_u32_kv b ''gtd_seconds'' (pm_gtd_seconds p)
      in write_some_u64 ''triggering_tick_broker_recv_ns'' (pm_trigger p) b)"

definition encode_modify_into :: "bytes \<Rightarrow> modify_order_msg \<Rightarrow> bytes" where
  "encode_modify_into buf m =
     (let b = buf @ [0x80 OR (5 + count_some (mm_trigger m))];
          b = write_str_kv b ''type'' (mm_type m);
          b = write_u64_kv b ''ts_ns'' (mm_ts_ns m);
          b = write_i64_kv b ''order_id'' (mm_order_id m);
          b = write_f64_kv b ''price'' (mm_price m);
          b = write_u32_kv b ''gtd_seconds'' (mm_gtd_seconds m)
      in write_some_u64 ''triggering_tick_broker_recv_ns'' (mm_trigger m) b)"

definition encode_cancel_into :: "bytes \<Rightarrow> cancel_order_msg \<Rightarrow> bytes" where
  "encode_cancel_into buf c =
     (let b = buf @ [0x80 OR 3];
          b = write_str_kv b ''type'' (cm_type c);
          b = write_u64_kv b ''ts_ns'' (cm_ts_ns c)
      in write_i64_kv b ''orderId'' (cm_order_id c))"

subsection \<open>Reading\<close>

text \<open>
  The loop over the pairs of a map.  The match on the key returns the updated accumulator and the
  end of the value, or no end when the decoder gives up.
\<close>

fun walk_pairs ::
  "(bytes \<Rightarrow> nat \<Rightarrow> 'a \<Rightarrow> 'a \<times> nat option) \<Rightarrow> bytes \<Rightarrow> nat \<Rightarrow> nat \<Rightarrow> 'a \<Rightarrow> 'a \<times> nat option" where
  "walk_pairs field body 0 p acc = (acc, Some p)"
| "walk_pairs field body (Suc n) p acc =
     (case read_str_bytes body p of
        None \<Rightarrow> (acc, None)
      | Some (key, p1) \<Rightarrow>
          (case field key p1 acc of
             (acc', None) \<Rightarrow> (acc', None)
           | (acc', Some p2) \<Rightarrow> walk_pairs field body n p2 acc'))"

definition header_field ::
  "bytes \<Rightarrow> bytes \<Rightarrow> nat \<Rightarrow> bytes option \<times> u64 option \<Rightarrow> (bytes option \<times> u64 option) \<times> nat option" where
  "header_field body key p = (\<lambda>(ty, ts).
     if key = str_bytes ''type'' then
       (case read_str_bytes body p of None \<Rightarrow> ((ty, ts), None) | Some (s, q) \<Rightarrow> ((Some s, ts), Some q))
     else if key = str_bytes ''ts_ns'' then
       (case get_at body p of
          None \<Rightarrow> ((ty, ts), None)
        | Some b \<Rightarrow>
            if b = 0xc0 then ((ty, ts), Some (p + 1))
            else (case read_int body p of None \<Rightarrow> ((ty, ts), None) | Some (v, q) \<Rightarrow> ((ty, Some v), Some q)))
     else ((ty, ts), skip_value body p))"

definition decode_header :: "bytes \<Rightarrow> (bytes \<times> u64 option) option" where
  "decode_header body =
     (case read_map_header body 0 of
        None \<Rightarrow> None
      | Some (n, p) \<Rightarrow>
          (case walk_pairs (header_field body) body n p (None, None) of
             (_, None) \<Rightarrow> None
           | ((ty, ts), Some _) \<Rightarrow> map_option (\<lambda>t. (t, ts)) ty))"

text \<open>The \<^verbatim>\<open>assign\<close> functions: the value to store and the end of the field.\<close>

definition assign_opt :: "(bytes \<Rightarrow> nat \<Rightarrow> ('v \<times> nat) option) \<Rightarrow> bytes \<Rightarrow> nat \<Rightarrow> ('v option \<times> nat) option" where
  "assign_opt read body p =
     do { b \<leftarrow> get_at body p;
          if b = 0xc0 then Some (None, p + 1)
          else do { (v, q) \<leftarrow> read body p; Some (Some v, q) } }"

definition assign_opt_f64 :: "bytes \<Rightarrow> nat \<Rightarrow> (f64 option \<times> nat) option" where
  "assign_opt_f64 = assign_opt read_f64"

definition assign_opt_u64 :: "bytes \<Rightarrow> nat \<Rightarrow> (u64 option \<times> nat) option" where
  "assign_opt_u64 = assign_opt read_int"

definition assign_opt_i32 :: "bytes \<Rightarrow> nat \<Rightarrow> (i32 option \<times> nat) option" where
  "assign_opt_i32 = assign_opt (\<lambda>body p. do { (v, q) \<leftarrow> read_int body p; Some (ucast v, q) })"

definition assign_string :: "bytes \<Rightarrow> nat \<Rightarrow> (string \<times> nat) option" where
  "assign_string body p = do { (s, q) \<leftarrow> read_str_bytes body p; Some (bytes_str s, q) }"

definition store :: "('v \<times> nat) option \<Rightarrow> ('v \<Rightarrow> 't \<Rightarrow> 't) \<Rightarrow> 't \<Rightarrow> 't \<times> nat option" where
  "store r put t = (case r of None \<Rightarrow> (t, None) | Some (v, q) \<Rightarrow> (put v t, Some q))"

definition tick_field :: "bytes \<Rightarrow> bytes \<Rightarrow> nat \<Rightarrow> tick_msg \<Rightarrow> tick_msg \<times> nat option" where
  "tick_field body key p out =
     (if key = str_bytes ''bid'' then store (assign_opt_f64 body p) (\<lambda>v. tk_bid_update (\<lambda>_. v)) out
      else if key = str_bytes ''ask'' then store (assign_opt_f64 body p) (\<lambda>v. tk_ask_update (\<lambda>_. v)) out
      else if key = str_bytes ''ts_ns'' then store (assign_opt_u64 body p) (\<lambda>v. tk_ts_ns_update (\<lambda>_. v)) out
      else if key = str_bytes ''right'' then store (assign_string body p) (\<lambda>v. tk_right_update (\<lambda>_. v)) out
      else if key = str_bytes ''strike'' then store (read_f64 body p) (\<lambda>v. tk_strike_update (\<lambda>_. v)) out
      else if key = str_bytes ''expiry'' then store (assign_string body p) (\<lambda>v. tk_expiry_update (\<lambda>_. v)) out
      else if key = str_bytes ''bid_size'' then
        store (assign_opt_i32 body p) (\<lambda>v. tk_bid_size_update (\<lambda>_. v)) out
      else if key = str_bytes ''ask_size'' then
        store (assign_opt_i32 body p) (\<lambda>v. tk_ask_size_update (\<lambda>_. v)) out
      else if key = str_bytes ''depth_bid_0'' then
        store (assign_opt_f64 body p) (\<lambda>v. depth_bid_0_update (\<lambda>_. v)) out
      else if key = str_bytes ''depth_bid_1'' then
        store (assign_opt_f64 body p) (\<lambda>v. depth_bid_1_update (\<lambda>_. v)) out
      else if key = str_bytes ''depth_ask_0'' then
        store (assign_opt_f64 body p) (\<lambda>v. depth_ask_0_update (\<lambda>_. v)) out
      else if key = str_bytes ''depth_ask_1'' then
        store (assign_opt_f64 body p) (\<lambda>v. depth_ask_1_update (\<lambda>_. v)) out
      else if key = str_bytes ''broker_recv_ns'' then
        store (assign_opt_u64 body p) (\<lambda>v. tk_broker_recv_ns_update (\<lambda>_. v)) out
      else (out, skip_value body p))"

definition reset_options :: "tick_msg \<Rightarrow> tick_msg" where
  "reset_options out =
     out\<lparr>tk_bid := None, tk_ask := None, tk_bid_size := None, tk_ask_size := None, tk_ts_ns := None,
         tk_broker_recv_ns := None, depth_bid_0 := None, depth_bid_1 := None, depth_ask_0 := None,
         depth_ask_1 := None\<rparr>"

definition decode_tick :: "bytes \<Rightarrow> tick_msg \<Rightarrow> bool \<times> tick_msg" where
  "decode_tick body out =
     (case read_map_header body 0 of
        None \<Rightarrow> (False, out)
      | Some (n, p) \<Rightarrow>
          (let (out', r) = walk_pairs (tick_field body) body n p (reset_options out) in (r \<noteq> None, out')))"

subsection \<open>Written values\<close>

datatype mp_val = MStr string | MF64 f64 | MU32 u32 | MU64 u64 | MI32 i32 | MI64 i64 | MNil

fun enc_val :: "mp_val \<Rightarrow> bytes" where
  "enc_val (MStr s) = write_str [] s"
| "enc_val (MF64 x) = 0xcb # u64_be (to_bits x)"
| "enc_val (MU32 v) = 0xce # u32_be v"
| "enc_val (MU64 v) = 0xcf # u64_be v"
| "enc_val (MI32 v) = 0xd2 # u32_be v"
| "enc_val (MI64 v) = 0xd3 # u64_be v"
| "enc_val MNil = [0xc0]"

definition enc_pairs :: "(string \<times> mp_val) list \<Rightarrow> bytes" where
  "enc_pairs kvs = concat (map (\<lambda>(k, v). write_fixstr [] k @ enc_val v) kvs)"

definition enc_map :: "(string \<times> mp_val) list \<Rightarrow> bytes" where
  "enc_map kvs = (0x80 OR of_nat (length kvs)) # enc_pairs kvs"

fun fits :: "mp_val \<Rightarrow> bool" where
  "fits (MStr s) \<longleftrightarrow> length s < 2 ^ 32"
| "fits _ \<longleftrightarrow> True"

lemma enc_pairs_simps [simp]:
  "enc_pairs [] = []" "enc_pairs ((k, v) # kvs) = write_fixstr [] k @ enc_val v @ enc_pairs kvs"
  "enc_pairs (kvs @ kvs') = enc_pairs kvs @ enc_pairs kvs'"
  by (simp_all add: enc_pairs_def)

lemma writers [wire_simps]:
  "write_str_kv b k s = b @ enc_pairs [(k, MStr s)]"
  "write_f64_kv b k x = b @ enc_pairs [(k, MF64 x)]"
  "write_u32_kv b k v = b @ enc_pairs [(k, MU32 v)]"
  "write_u64_kv b k u = b @ enc_pairs [(k, MU64 u)]"
  "write_i32_kv b k v = b @ enc_pairs [(k, MI32 v)]"
  "write_i64_kv b k u = b @ enc_pairs [(k, MI64 u)]"
  "write_opt_f64_kv b k y = b @ enc_pairs [(k, case y of Some x \<Rightarrow> MF64 x | None \<Rightarrow> MNil)]"
  "write_opt_i32_kv b k z = b @ enc_pairs [(k, case z of Some v \<Rightarrow> MI32 v | None \<Rightarrow> MNil)]"
  by (simp_all add: write_str_kv_def write_f64_kv_def write_u32_kv_def write_u64_kv_def write_i32_kv_def
      write_i64_kv_def write_opt_f64_kv_def write_opt_i32_kv_def write_fixstr_def write_str_def Let_def
      split: option.split)

lemma write_some [wire_simps]:
  "write_some_f64 k y b = b @ enc_pairs (case y of Some x \<Rightarrow> [(k, MF64 x)] | None \<Rightarrow> [])"
  "write_some_u64 k w b = b @ enc_pairs (case w of Some u \<Rightarrow> [(k, MU64 u)] | None \<Rightarrow> [])"
  by (simp_all add: write_some_f64_def write_some_u64_def writers split: option.split)

lemma get_range_payload [wire_simps]:
  "get_range (pre @ b # u16_be h @ post) (Suc (length pre)) (length pre + 3) = Some (u16_be h)"
  "get_range (pre @ b # u32_be w @ post) (Suc (length pre)) (length pre + 5) = Some (u32_be w)"
  "get_range (pre @ b # u64_be d @ post) (Suc (length pre)) (length pre + 9) = Some (u64_be d)"
  by (simp_all add: get_range_def subslice_def)

lemma get_at_head [wire_simps]: "get_at (pre @ b # rest) (length pre) = Some b"
  by (simp add: get_at_def)

text \<open>A written value is one complete object of the format, of a type the reader and the specification agree on.\<close>

lemma u_be_be_bytes:
  "n < 65536 \<Longrightarrow> u16_be (of_nat n) = be_bytes 2 n" "n < 4294967296 \<Longrightarrow> u32_be (of_nat n) = be_bytes 4 n"
  by (simp_all add: u16_be_def u32_be_def unat_of_nat)

lemma write_str_object:
  assumes "length s < 2 ^ 32" shows "mp_object width (write_str [] s)"
proof -
  let ?n = "length (str_bytes s)"
  obtain h where h: "write_str [] s = h @ str_bytes s" "blob_head h ?n"
    using assms by (auto simp: write_str_def Let_def blob_head_def sized_head_def u_be_be_bytes)
  show ?thesis unfolding h(1) by (rule mp_object_mp_objects.blob [OF h(2)])
qed

lemma enc_val_object:
  assumes "fits v" shows "mp_object code_width (enc_val v)" "mp_object spec_width (enc_val v)"
  using assms
  by (cases v; auto intro!: mp_object_mp_objects.scalar simp: write_str_object code_width_def spec_width_def)+

lemma skip_enc_val: "fits v \<Longrightarrow> skip_value (pre @ enc_val v @ post) (length pre) = Some (length pre + length (enc_val v))"
  by (rule skip_value_object(1) [OF enc_val_object(1)])

lemma read_str_write_str:
  assumes "length s < 2 ^ 32"
  shows "read_str_bytes (pre @ write_str [] s @ post) (length pre) =
    Some (str_bytes s, length pre + length (write_str [] s))"
proof -
  let ?n = "length s"
  have u: "?n < 256 \<Longrightarrow> unat (of_nat ?n :: u8) = ?n" by (simp add: unat_of_nat)
  have g: "get_at (pre @ b # c # rest) (Suc (length pre)) = Some c" for b c rest by (simp add: get_at_1)
  consider "?n < 32" | "32 \<le> ?n" "?n < 256" | "256 \<le> ?n" "?n < 65536" | "65536 \<le> ?n" by linarith
  then show ?thesis
  proof cases
    case 1
    then show ?thesis
      by (simp add: read_str_bytes_def read_str_span_def write_str_def mask_head subslice_def wire_simps)
  next
    case 2
    then show ?thesis
      by (simp add: read_str_bytes_def read_str_span_def write_str_def g u subslice_def wire_simps)
  next
    case 3
    then show ?thesis
      by (simp add: read_str_bytes_def read_str_span_def write_str_def subslice_def wire_simps unat_of_nat)
  next
    case 4
    then show ?thesis using assms
      by (simp add: read_str_bytes_def read_str_span_def write_str_def subslice_def wire_simps unat_of_nat)
  qed
qed

lemma write_fixstr_eq: "length k < 32 \<Longrightarrow> write_fixstr [] k = write_str [] k"
  by (simp add: write_fixstr_def write_str_def)

lemma read_enc_val:
  "read_f64 (pre @ enc_val (MF64 x) @ post) (length pre) = Some (x, length pre + length (enc_val (MF64 x)))"
  "read_int (pre @ enc_val (MU64 u) @ post) (length pre) = Some (u, length pre + length (enc_val (MU64 u)))"
  "read_int (pre @ enc_val (MI32 w) @ post) (length pre) = Some (scast w, length pre + length (enc_val (MI32 w)))"
  by (simp_all add: read_f64_def read_int_def wire_simps)

lemma ucast_scast_i32: "ucast (scast (w :: i32) :: i64) = w"
  by (rule bit_word_eqI) (simp add: bit_ucast_iff bit_signed_iff)

subsection \<open>Reading what was written\<close>

text \<open>
  What the match on the key owes the loop: for the values it accepts under a key, it reads exactly the
  written value and has a known effect on the accumulator.
\<close>

locale pair_reader =
  fixes field :: "bytes \<Rightarrow> bytes \<Rightarrow> nat \<Rightarrow> 'a \<Rightarrow> 'a \<times> nat option"
    and accepts :: "string \<Rightarrow> mp_val \<Rightarrow> bool"
    and effect :: "string \<Rightarrow> mp_val \<Rightarrow> 'a \<Rightarrow> 'a"
  assumes field_reads:
    "accepts k v \<Longrightarrow> field (pre @ enc_val v @ post) (str_bytes k) (length pre) acc =
      (effect k v acc, Some (length pre + length (enc_val v)))"
begin

definition readable :: "string \<times> mp_val \<Rightarrow> bool" where
  "readable kv \<longleftrightarrow> length (fst kv) < 32 \<and> accepts (fst kv) (snd kv)"

lemma walk_enc_pairs:
  assumes "list_all readable kvs" "body = pre @ enc_pairs kvs @ post"
  shows "walk_pairs (field body) body (length kvs) (length pre) acc =
    (fold (\<lambda>(k, v). effect k v) kvs acc, Some (length pre + length (enc_pairs kvs)))"
  using assms
proof (induction kvs arbitrary: pre acc)
  case (Cons kv kvs)
  obtain k v where kv: "kv = (k, v)" by (cases kv)
  have ok: "length k < 32" "accepts k v" using Cons.prems(1) by (simp_all add: kv readable_def)
  let ?k = "write_fixstr [] k"
  have b1: "body = pre @ write_str [] k @ (enc_val v @ enc_pairs kvs @ post)"
    and b2: "body = (pre @ ?k) @ enc_val v @ (enc_pairs kvs @ post)"
    and b3: "body = (pre @ ?k @ enc_val v) @ enc_pairs kvs @ post"
    using Cons.prems(2) ok(1) by (simp_all add: kv write_fixstr_eq)
  have key: "read_str_bytes body (length pre) = Some (str_bytes k, length (pre @ ?k))"
    using read_str_write_str [of k pre "enc_val v @ enc_pairs kvs @ post"] ok(1)
    by (simp add: b1 [symmetric] write_fixstr_eq)
  have val: "field body (str_bytes k) (length (pre @ ?k)) acc = (effect k v acc, Some (length (pre @ ?k @ enc_val v)))"
    using field_reads [OF ok(2), of "pre @ ?k" "enc_pairs kvs @ post" acc] by (simp add: b2 add.assoc)
  have rest: "walk_pairs (field body) body (length kvs) (length (pre @ ?k @ enc_val v)) (effect k v acc) =
      (fold (\<lambda>(k, v). effect k v) kvs (effect k v acc),
       Some (length (pre @ ?k @ enc_val v) + length (enc_pairs kvs)))"
    using Cons.IH [OF _ b3] Cons.prems(1) by (simp add: kv)
  show ?case using key val rest by (simp add: kv)
qed simp

lemma walk_enc_map:
  assumes "list_all readable kvs" "length kvs < 16"
  shows "\<exists>p. read_map_header (enc_map kvs) 0 = Some (length kvs, p) \<and>
    walk_pairs (field (enc_map kvs)) (enc_map kvs) (length kvs) p acc =
      (fold (\<lambda>(k, v). effect k v) kvs acc, Some (length (enc_map kvs)))"
proof (intro exI conjI)
  show "read_map_header (enc_map kvs) 0 = Some (length kvs, 1)"
    using mask_head(3) [OF assms(2)] by (simp add: read_map_header_def enc_map_def get_at_def)
  show "walk_pairs (field (enc_map kvs)) (enc_map kvs) (length kvs) 1 acc =
      (fold (\<lambda>(k, v). effect k v) kvs acc, Some (length (enc_map kvs)))"
    using walk_enc_pairs [OF assms(1), of "enc_map kvs" "[0x80 OR of_nat (length kvs)]" "[]" acc]
    by (simp add: enc_map_def)
qed

end

text \<open>The two matches of the trader.\<close>

definition header_accepts :: "string \<Rightarrow> mp_val \<Rightarrow> bool" where
  "header_accepts k v \<longleftrightarrow> fits v \<and> (k = ''type'' \<longrightarrow> (\<exists>s. v = MStr s)) \<and> (k = ''ts_ns'' \<longrightarrow> (\<exists>u. v = MU64 u))"

definition header_effect :: "string \<Rightarrow> mp_val \<Rightarrow> bytes option \<times> u64 option \<Rightarrow> bytes option \<times> u64 option" where
  "header_effect k v = (\<lambda>(ty, ts).
     (if k = ''type'' then (case v of MStr s \<Rightarrow> Some (str_bytes s) | _ \<Rightarrow> ty) else ty,
      if k = ''ts_ns'' then (case v of MU64 u \<Rightarrow> Some u | _ \<Rightarrow> ts) else ts))"

interpretation header: pair_reader header_field header_accepts header_effect
proof
  fix k v pre post and acc :: "bytes option \<times> u64 option"
  assume a: "header_accepts k v"
  obtain ty ts where acc: "acc = (ty, ts)" by (cases acc)
  show "header_field (pre @ enc_val v @ post) (str_bytes k) (length pre) acc =
      (header_effect k v acc, Some (length pre + length (enc_val v)))"
    using a read_enc_val(2) [of pre _ post] read_str_write_str [of _ pre post] skip_enc_val [of v pre post]
    by (auto simp: header_field_def header_effect_def header_accepts_def acc str_bytes_inj get_at_head)
qed

fun opt_f64 :: "mp_val \<Rightarrow> f64 option" where
  "opt_f64 (MF64 x) = Some x"
| "opt_f64 _ = None"

fun opt_u64 :: "mp_val \<Rightarrow> u64 option" where
  "opt_u64 (MU64 u) = Some u"
| "opt_u64 _ = None"

fun opt_i32 :: "mp_val \<Rightarrow> i32 option" where
  "opt_i32 (MI32 w) = Some w"
| "opt_i32 _ = None"

fun str_of :: "mp_val \<Rightarrow> string" where
  "str_of (MStr s) = s"
| "str_of _ = []"

definition f64_keys :: "string list" where
  "f64_keys = [''bid'', ''ask'', ''depth_bid_0'', ''depth_bid_1'', ''depth_ask_0'', ''depth_ask_1'']"

definition tick_accepts :: "string \<Rightarrow> mp_val \<Rightarrow> bool" where
  "tick_accepts k v \<longleftrightarrow> fits v \<and>
     (k \<in> set f64_keys \<longrightarrow> v = MNil \<or> opt_f64 v \<noteq> None) \<and>
     (k \<in> {''ts_ns'', ''broker_recv_ns''} \<longrightarrow> v = MNil \<or> opt_u64 v \<noteq> None) \<and>
     (k \<in> {''bid_size'', ''ask_size''} \<longrightarrow> v = MNil \<or> opt_i32 v \<noteq> None) \<and>
     (k \<in> {''expiry'', ''right''} \<longrightarrow> v = MStr (str_of v)) \<and> (k = ''strike'' \<longrightarrow> opt_f64 v \<noteq> None)"

definition tick_effect :: "string \<Rightarrow> mp_val \<Rightarrow> tick_msg \<Rightarrow> tick_msg" where
  "tick_effect k v t =
     (if k = ''bid'' then t\<lparr>tk_bid := opt_f64 v\<rparr> else if k = ''ask'' then t\<lparr>tk_ask := opt_f64 v\<rparr>
      else if k = ''ts_ns'' then t\<lparr>tk_ts_ns := opt_u64 v\<rparr> else if k = ''right'' then t\<lparr>tk_right := str_of v\<rparr>
      else if k = ''strike'' then t\<lparr>tk_strike := the (opt_f64 v)\<rparr>
      else if k = ''expiry'' then t\<lparr>tk_expiry := str_of v\<rparr>
      else if k = ''bid_size'' then t\<lparr>tk_bid_size := opt_i32 v\<rparr>
      else if k = ''ask_size'' then t\<lparr>tk_ask_size := opt_i32 v\<rparr>
      else if k = ''depth_bid_0'' then t\<lparr>depth_bid_0 := opt_f64 v\<rparr>
      else if k = ''depth_bid_1'' then t\<lparr>depth_bid_1 := opt_f64 v\<rparr>
      else if k = ''depth_ask_0'' then t\<lparr>depth_ask_0 := opt_f64 v\<rparr>
      else if k = ''depth_ask_1'' then t\<lparr>depth_ask_1 := opt_f64 v\<rparr>
      else if k = ''broker_recv_ns'' then t\<lparr>tk_broker_recv_ns := opt_u64 v\<rparr> else t)"

lemma assign_enc_val:
  "v = MNil \<or> opt_f64 v \<noteq> None \<Longrightarrow>
    assign_opt_f64 (pre @ enc_val v @ post) (length pre) = Some (opt_f64 v, length pre + length (enc_val v))"
  "v = MNil \<or> opt_u64 v \<noteq> None \<Longrightarrow>
    assign_opt_u64 (pre @ enc_val v @ post) (length pre) = Some (opt_u64 v, length pre + length (enc_val v))"
  "v = MNil \<or> opt_i32 v \<noteq> None \<Longrightarrow>
    assign_opt_i32 (pre @ enc_val v @ post) (length pre) = Some (opt_i32 v, length pre + length (enc_val v))"
  "v = MStr (str_of v) \<Longrightarrow> fits v \<Longrightarrow>
    assign_string (pre @ enc_val v @ post) (length pre) = Some (str_of v, length pre + length (enc_val v))"
  "opt_f64 v \<noteq> None \<Longrightarrow>
    read_f64 (pre @ enc_val v @ post) (length pre) = Some (the (opt_f64 v), length pre + length (enc_val v))"
  using read_enc_val [of pre _ post] read_str_write_str [of "str_of v" pre post]
  by (cases v; simp add: assign_opt_f64_def assign_opt_u64_def assign_opt_i32_def assign_opt_def
      assign_string_def get_at_head ucast_scast_i32)+

interpretation tick: pair_reader tick_field tick_accepts tick_effect
proof
  fix k v pre post and acc :: tick_msg
  assume a: "tick_accepts k v"
  note reads = assign_enc_val [of v pre post] skip_enc_val [of v pre post]
  show "tick_field (pre @ enc_val v @ post) (str_bytes k) (length pre) acc =
      (tick_effect k v acc, Some (length pre + length (enc_val v)))"
    using a reads unfolding tick_field_def tick_effect_def tick_accepts_def f64_keys_def str_bytes_inj
    by (simp add: store_def)
qed

subsection \<open>Round trips\<close>

definition event_tick :: "tick_event \<Rightarrow> tick_msg" where
  "event_tick ev =
     \<lparr>tk_strike = te_strike ev, tk_expiry = te_expiry ev, tk_right = te_right ev, tk_bid = te_bid ev,
      tk_ask = te_ask ev, tk_bid_size = te_bid_size ev, tk_ask_size = te_ask_size ev,
      tk_ts_ns = Some (te_ts_ns ev), tk_broker_recv_ns = Some (te_broker_recv_ns ev),
      depth_bid_0 = te_depth_bid_0 ev, depth_bid_1 = te_depth_bid_1 ev, depth_ask_0 = te_depth_ask_0 ev,
      depth_ask_1 = te_depth_ask_1 ev\<rparr>"

definition some_pair :: "string \<Rightarrow> ('a \<Rightarrow> mp_val) \<Rightarrow> 'a option \<Rightarrow> (string \<times> mp_val) list" where
  "some_pair k c x = (case x of Some v \<Rightarrow> [(k, c v)] | None \<Rightarrow> [])"

definition nil_or :: "('a \<Rightarrow> mp_val) \<Rightarrow> 'a option \<Rightarrow> mp_val" where
  "nil_or c x = (case x of Some v \<Rightarrow> c v | None \<Rightarrow> MNil)"

definition tick_pairs :: "tick_event \<Rightarrow> (string \<times> mp_val) list" where
  "tick_pairs ev =
     [(''type'', MStr (te_ty ev)), (''strike'', MF64 (te_strike ev)), (''expiry'', MStr (te_expiry ev)),
      (''right'', MStr (te_right ev)), (''bid'', nil_or MF64 (te_bid ev)), (''ask'', nil_or MF64 (te_ask ev)),
      (''bid_size'', nil_or MI32 (te_bid_size ev)), (''ask_size'', nil_or MI32 (te_ask_size ev)),
      (''ts_ns'', MU64 (te_ts_ns ev)), (''broker_recv_ns'', MU64 (te_broker_recv_ns ev))] @
     some_pair ''depth_bid_0'' MF64 (te_depth_bid_0 ev) @ some_pair ''depth_bid_1'' MF64 (te_depth_bid_1 ev) @
     some_pair ''depth_ask_0'' MF64 (te_depth_ask_0 ev) @ some_pair ''depth_ask_1'' MF64 (te_depth_ask_1 ev)"

definition event_ok :: "tick_event \<Rightarrow> bool" where
  "event_ok ev \<longleftrightarrow> length (te_ty ev) < 2 ^ 32 \<and> length (te_expiry ev) < 2 ^ 32 \<and> length (te_right ev) < 2 ^ 32"

lemma some_pair_simps [simp]:
  "some_pair k c None = []" "some_pair k c (Some v) = [(k, c v)]"
  "nil_or c None = MNil" "nil_or c (Some v) = c v"
  by (simp_all add: some_pair_def nil_or_def)

lemma count_some_pair: "count_some x = of_nat (length (some_pair k c x))"
  by (cases x) (simp_all add: count_some_def)

lemma length_some_pair: "length (some_pair k c x) \<le> 1"
  by (cases x) simp_all

lemma encode_tick_enc_map: "encode_tick_into ev buf = buf @ enc_map (tick_pairs ev)"
  unfolding encode_tick_into_def Let_def wire_simps
  by (simp add: enc_map_def tick_pairs_def nil_or_def some_pair_def count_some_def split: option.split)

lemma length_tick_pairs: "length (tick_pairs ev) < 16"
  using length_some_pair [of "''depth_bid_0''" MF64 "te_depth_bid_0 ev"]
    length_some_pair [of "''depth_bid_1''" MF64 "te_depth_bid_1 ev"]
    length_some_pair [of "''depth_ask_0''" MF64 "te_depth_ask_0 ev"]
    length_some_pair [of "''depth_ask_1''" MF64 "te_depth_ask_1 ev"]
  by (simp add: tick_pairs_def)

lemma some_pair_readable:
  "k \<in> set f64_keys \<Longrightarrow> list_all tick.readable (some_pair k MF64 x)"
  by (cases x) (auto simp: tick.readable_def tick_accepts_def f64_keys_def)

lemma fold_some_pair:
  "depth_bid_0 t = None \<Longrightarrow> fold (\<lambda>(k, v). tick_effect k v) (some_pair ''depth_bid_0'' MF64 x) t = t\<lparr>depth_bid_0 := x\<rparr>"
  "depth_bid_1 t = None \<Longrightarrow> fold (\<lambda>(k, v). tick_effect k v) (some_pair ''depth_bid_1'' MF64 x) t = t\<lparr>depth_bid_1 := x\<rparr>"
  "depth_ask_0 t = None \<Longrightarrow> fold (\<lambda>(k, v). tick_effect k v) (some_pair ''depth_ask_0'' MF64 x) t = t\<lparr>depth_ask_0 := x\<rparr>"
  "depth_ask_1 t = None \<Longrightarrow> fold (\<lambda>(k, v). tick_effect k v) (some_pair ''depth_ask_1'' MF64 x) t = t\<lparr>depth_ask_1 := x\<rparr>"
  by (cases x; simp add: tick_effect_def)+

lemma opt_nil_or [simp]: "opt_f64 (nil_or MF64 x) = x" "opt_i32 (nil_or MI32 y) = y"
  by (cases x; cases y; simp)+

lemma tick_pairs_readable:
  assumes "event_ok ev" shows "list_all tick.readable (tick_pairs ev)"
proof -
  have "tick_accepts ''bid'' (nil_or MF64 x)" "tick_accepts ''ask'' (nil_or MF64 x)"
    "tick_accepts ''bid_size'' (nil_or MI32 y)" "tick_accepts ''ask_size'' (nil_or MI32 y)" for x y
    by (cases x; cases y; simp add: tick_accepts_def f64_keys_def)+
  moreover have "list_all tick.readable (some_pair k MF64 x)" if "k \<in> set f64_keys" for k x
    using some_pair_readable [OF that] .
  ultimately show ?thesis
    using assms
    by (simp add: tick_pairs_def event_ok_def f64_keys_def) (simp add: tick.readable_def tick_accepts_def f64_keys_def)
qed

lemma header_pairs_readable:
  assumes "event_ok ev" shows "list_all header.readable (tick_pairs ev)"
proof -
  have "fits (nil_or MF64 x)" "fits (nil_or MI32 y)" for x y by (cases x; cases y; simp)+
  moreover have "list_all header.readable (some_pair k MF64 x)" if "k \<in> set f64_keys" for k x
    using that by (cases x) (auto simp: header.readable_def header_accepts_def f64_keys_def)
  ultimately show ?thesis
    using assms by (simp add: tick_pairs_def event_ok_def f64_keys_def) (simp add: header.readable_def header_accepts_def)
qed

lemma decode_tick_encoded:
  assumes "event_ok ev"
  shows "decode_tick (encode_tick_into ev []) out = (True, event_tick ev)"
proof -
  let ?b = "enc_map (tick_pairs ev)"
  obtain p where p: "read_map_header ?b 0 = Some (length (tick_pairs ev), p)"
    "walk_pairs (tick_field ?b) ?b (length (tick_pairs ev)) p (reset_options out) =
      (fold (\<lambda>(k, v). tick_effect k v) (tick_pairs ev) (reset_options out), Some (length ?b))"
    using tick.walk_enc_map [OF tick_pairs_readable [OF assms] length_tick_pairs] by blast
  have "fold (\<lambda>(k, v). tick_effect k v) (tick_pairs ev) (reset_options out) = event_tick ev"
    by (simp add: tick_pairs_def fold_some_pair tick_effect_def reset_options_def event_tick_def)
  with p show ?thesis by (simp add: decode_tick_def encode_tick_enc_map)
qed

text \<open>
  \<^bold>\<open>C15.\<close> What the broker encodes is what the trader decodes: for every tick event (with strings below
  4 GiB) the encoder's bytes decode, into a \<open>TickMsg\<close> left over from any earlier tick, to exactly the
  fields of the event, absent depth levels being \<open>None\<close>, and the header walk finds its type and
  timestamp.
\<close>

theorem tick_round_trip:
  assumes "event_ok ev"
  shows "decode_tick (encode_tick_into ev []) out = (True, event_tick ev) \<and>
    decode_header (encode_tick_into ev []) = Some (str_bytes (te_ty ev), Some (te_ts_ns ev))"
proof -
  let ?b = "enc_map (tick_pairs ev)"
  obtain q where q: "read_map_header ?b 0 = Some (length (tick_pairs ev), q)"
    "walk_pairs (header_field ?b) ?b (length (tick_pairs ev)) q (None, None) =
      (fold (\<lambda>(k, v). header_effect k v) (tick_pairs ev) (None, None), Some (length ?b))"
    using header.walk_enc_map [OF header_pairs_readable [OF assms] length_tick_pairs] by blast
  have "fold (\<lambda>(k, v). header_effect k v) (tick_pairs ev) (None, None) = (Some (str_bytes (te_ty ev)), Some (te_ts_ns ev))"
    by (simp add: tick_pairs_def header_effect_def some_pair_def split: option.split)
  with q have "decode_header ?b = Some (str_bytes (te_ty ev), Some (te_ts_ns ev))" by (simp add: decode_header_def)
  with decode_tick_encoded [OF assms] show ?thesis by (simp add: encode_tick_enc_map)
qed

definition demo_event :: tick_event where
  "demo_event =
     \<lparr>te_ty = ''tick'', te_strike = F64 0x4018000000000000, te_expiry = ''20260526'', te_right = ''C'',
      te_bid = Some (F64 1), te_ask = None, te_bid_size = Some 5, te_ask_size = Some (- 1), te_ts_ns = 7,
      te_broker_recv_ns = 9, te_depth_bid_0 = None, te_depth_bid_1 = None, te_depth_ask_0 = Some (F64 3),
      te_depth_ask_1 = None\<rparr>"

theorem tick_round_trip_witness:
  "decode_tick (encode_tick_into demo_event []) (event_tick demo_event\<lparr>tk_ask := Some (F64 8)\<rparr>)
     = (True, event_tick demo_event)"
proof -
  have "event_ok demo_event" by (simp add: event_ok_def demo_event_def)
  from tick_round_trip [OF this] show ?thesis by simp
qed

subsection \<open>What the decoder does not check\<close>

lemma fold_tick_effect_keeps:
  "''strike'' \<notin> fst ` set kvs \<Longrightarrow> tk_strike (fold (\<lambda>(k, v). tick_effect k v) kvs t) = tk_strike t"
  "''expiry'' \<notin> fst ` set kvs \<Longrightarrow> tk_expiry (fold (\<lambda>(k, v). tick_effect k v) kvs t) = tk_expiry t"
  "''right'' \<notin> fst ` set kvs \<Longrightarrow> tk_right (fold (\<lambda>(k, v). tick_effect k v) kvs t) = tk_right t"
  by (induction kvs arbitrary: t; force simp: tick_effect_def split: if_splits)+

text \<open>
  The decoder accepts a map without the fields \<open>strike\<close>, \<open>expiry\<close> or \<open>right\<close>: it reports success and
  each missing one of them keeps the value that \<open>out\<close> had before.  It also accepts a body that ends
  inside the value of an unknown last key.
\<close>

theorem incomplete_ticks_accepted:
  assumes "list_all tick.readable kvs" "length kvs < 16"
  shows "(\<exists>t. decode_tick (enc_map kvs) out = (True, t) \<and>
      (''strike'' \<notin> fst ` set kvs \<longrightarrow> tk_strike t = tk_strike out) \<and>
      (''expiry'' \<notin> fst ` set kvs \<longrightarrow> tk_expiry t = tk_expiry out) \<and>
      (''right'' \<notin> fst ` set kvs \<longrightarrow> tk_right t = tk_right out)) \<and>
    decode_tick [0x81, 0xa1, 0x78, 0xcb] out = (True, reset_options out)"
proof
  let ?b = "enc_map kvs"
  let ?t = "fold (\<lambda>(k, v). tick_effect k v) kvs (reset_options out)"
  obtain p where "read_map_header ?b 0 = Some (length kvs, p)"
    "walk_pairs (tick_field ?b) ?b (length kvs) p (reset_options out) = (?t, Some (length ?b))"
    using tick.walk_enc_map [OF assms] by blast
  then have "decode_tick ?b out = (True, ?t)" by (simp add: decode_tick_def)
  then show "\<exists>t. decode_tick ?b out = (True, t) \<and>
      (''strike'' \<notin> fst ` set kvs \<longrightarrow> tk_strike t = tk_strike out) \<and>
      (''expiry'' \<notin> fst ` set kvs \<longrightarrow> tk_expiry t = tk_expiry out) \<and>
      (''right'' \<notin> fst ` set kvs \<longrightarrow> tk_right t = tk_right out)"
    by (intro exI [of _ ?t]) (simp add: fold_tick_effect_keeps, simp add: reset_options_def)
  let ?c = "[0x81, 0xa1, 0x78, 0xcb] :: bytes"
  have "read_map_header ?c 0 = Some (1, 1)" by code_simp
  moreover have "read_str_bytes ?c 1 = Some ([0x78], 3)" by code_simp
  moreover have "skip_value ?c 3 = Some 12" by code_simp
  moreover have "tick_field ?c [0x78] 3 t = (t, skip_value ?c 3)" for t
    by (simp add: tick_field_def str_bytes_def)
  ultimately show "decode_tick ?c out = (True, reset_options out)"
    by (simp add: decode_tick_def numeral_eq_Suc)
qed

theorem incomplete_ticks_accepted_witness:
  "fst (decode_tick (enc_map [(''bid'', MF64 (F64 1))]) (event_tick demo_event))"
proof -
  have "list_all tick.readable [(''bid'', MF64 (F64 1))]"
    by (simp add: tick.readable_def tick_accepts_def f64_keys_def)
  from incomplete_ticks_accepted [OF this, of "event_tick demo_event"] show ?thesis by force
qed

subsection \<open>Commands are well-formed maps\<close>

definition place_pairs :: "place_order_msg \<Rightarrow> (string \<times> mp_val) list" where
  "place_pairs p =
     [(''type'', MStr (pm_type p)), (''ts_ns'', MU64 (pm_ts_ns p)), (''strike'', MF64 (pm_strike p)),
      (''expiry'', MStr (pm_expiry p)), (''right'', MStr (pm_right p)), (''side'', MStr (pm_side p)),
      (''qty'', MI32 (pm_qty p)), (''price'', MF64 (pm_price p)), (''orderRef'', MStr (pm_order_ref p)),
      (''gtd_seconds'', MU32 (pm_gtd_seconds p))] @ some_pair ''triggering_tick_broker_recv_ns'' MU64 (pm_trigger p)"

definition modify_pairs :: "modify_order_msg \<Rightarrow> (string \<times> mp_val) list" where
  "modify_pairs m =
     [(''type'', MStr (mm_type m)), (''ts_ns'', MU64 (mm_ts_ns m)), (''order_id'', MI64 (mm_order_id m)),
      (''price'', MF64 (mm_price m)), (''gtd_seconds'', MU32 (mm_gtd_seconds m))] @
     some_pair ''triggering_tick_broker_recv_ns'' MU64 (mm_trigger m)"

definition cancel_pairs :: "cancel_order_msg \<Rightarrow> (string \<times> mp_val) list" where
  "cancel_pairs c = [(''type'', MStr (cm_type c)), (''ts_ns'', MU64 (cm_ts_ns c)), (''orderId'', MI64 (cm_order_id c))]"

lemma encode_enc_map:
  "encode_place_into buf p = buf @ enc_map (place_pairs p)"
  "encode_modify_into buf m = buf @ enc_map (modify_pairs m)"
  "encode_cancel_into buf c = buf @ enc_map (cancel_pairs c)"
proof -
  show "encode_place_into buf p = buf @ enc_map (place_pairs p)"
    unfolding encode_place_into_def Let_def wire_simps
    by (cases "pm_trigger p") (simp_all add: enc_map_def place_pairs_def count_some_def)
  show "encode_modify_into buf m = buf @ enc_map (modify_pairs m)"
    unfolding encode_modify_into_def Let_def wire_simps
    by (cases "mm_trigger m") (simp_all add: enc_map_def modify_pairs_def count_some_def)
  show "encode_cancel_into buf c = buf @ enc_map (cancel_pairs c)"
    unfolding encode_cancel_into_def Let_def wire_simps by (simp add: enc_map_def cancel_pairs_def)
qed

text \<open>A map that its reader can trust: the announced number of pairs, distinct keys, one complete object.\<close>

definition well_formed_map :: "(string \<times> mp_val) list \<Rightarrow> bool" where
  "well_formed_map kvs \<longleftrightarrow>
     distinct (map fst kvs) \<and> unat (hd (enc_map kvs) AND 0x0f) = length kvs \<and> mp_object spec_width (enc_map kvs)"

lemma enc_pairs_objects:
  "list_all (\<lambda>(k, v). length k < 32 \<and> fits v) kvs \<Longrightarrow> mp_objects spec_width (length kvs * 2) (enc_pairs kvs)"
proof (induction kvs)
  case (Cons kv kvs)
  obtain k v where kv: "kv = (k, v)" by (cases kv)
  have "mp_object spec_width (write_fixstr [] k)" "mp_object spec_width (enc_val v)"
    "mp_objects spec_width (length kvs * 2) (enc_pairs kvs)"
    using Cons by (simp_all add: kv write_fixstr_eq write_str_object enc_val_object)
  then show ?case by (simp add: kv mp_object_mp_objects.more)
qed (simp add: mp_object_mp_objects.none)

lemma well_formed_mapI:
  assumes "distinct (map fst kvs)" "list_all (\<lambda>(k, v). length k < 32 \<and> fits v) kvs" "length kvs < 16"
  shows "well_formed_map kvs"
proof -
  have "seq_head [0x80 OR of_nat (length kvs)] (length kvs * 2)" using assms(3) by (auto simp: seq_head_def)
  from mp_object_mp_objects.seq [OF this enc_pairs_objects [OF assms(2)]] mask_head(3) [OF assms(3)] assms(1)
  show ?thesis by (simp add: well_formed_map_def enc_map_def)
qed

lemma command_maps_well_formed:
  "list_all (\<lambda>s. length s < 2 ^ 32) [pm_type p, pm_expiry p, pm_right p, pm_side p, pm_order_ref p] \<Longrightarrow>
     well_formed_map (place_pairs p)"
  "length (mm_type m) < 2 ^ 32 \<Longrightarrow> well_formed_map (modify_pairs m)"
  "length (cm_type c) < 2 ^ 32 \<Longrightarrow> well_formed_map (cancel_pairs c)"
proof -
  show "well_formed_map (place_pairs p)"
    if "list_all (\<lambda>s. length s < 2 ^ 32) [pm_type p, pm_expiry p, pm_right p, pm_side p, pm_order_ref p]"
    by (rule well_formed_mapI) (use that in \<open>cases "pm_trigger p"; simp add: place_pairs_def some_pair_def\<close>)+
  show "well_formed_map (modify_pairs m)" if "length (mm_type m) < 2 ^ 32"
    by (rule well_formed_mapI) (use that in \<open>cases "mm_trigger m"; simp add: modify_pairs_def some_pair_def\<close>)+
  show "well_formed_map (cancel_pairs c)" if "length (cm_type c) < 2 ^ 32"
    by (rule well_formed_mapI) (use that in \<open>simp_all add: cancel_pairs_def\<close>)
qed

text \<open>
  \<^bold>\<open>C31.\<close> The trader's three command encoders append one MessagePack map with exactly the fields of the
  command, in the order and under the keys of its message type, the optional trigger timestamp present
  exactly if it is set; the map announces the right number of pairs, has distinct keys and is one
  complete object of the MessagePack specification.
\<close>

theorem commands_well_formed:
  assumes "list_all (\<lambda>s. length s < 2 ^ 32) [pm_type p, pm_expiry p, pm_right p, pm_side p, pm_order_ref p, mm_type m, cm_type c]"
  shows "encode_place_into buf p = buf @ enc_map (place_pairs p) \<and> well_formed_map (place_pairs p) \<and>
    encode_modify_into buf m = buf @ enc_map (modify_pairs m) \<and> well_formed_map (modify_pairs m) \<and>
    encode_cancel_into buf c = buf @ enc_map (cancel_pairs c) \<and> well_formed_map (cancel_pairs c)"
proof (intro conjI)
  show "encode_place_into buf p = buf @ enc_map (place_pairs p)" by (rule encode_enc_map)
  show "encode_modify_into buf m = buf @ enc_map (modify_pairs m)" by (rule encode_enc_map)
  show "encode_cancel_into buf c = buf @ enc_map (cancel_pairs c)" by (rule encode_enc_map)
qed (use assms in \<open>simp_all add: command_maps_well_formed\<close>)

definition demo_place :: place_order_msg where
  "demo_place = \<lparr>pm_type = ''place_order'', pm_ts_ns = 1, pm_strike = F64 2, pm_expiry = ''20260526'', pm_right = ''C'',
     pm_side = ''BUY'', pm_qty = 1, pm_price = F64 3, pm_order_ref = ''corsair_trader_rust'', pm_gtd_seconds = 30,
     pm_trigger = Some 9\<rparr>"

theorem commands_well_formed_witness:
  "well_formed_map (place_pairs demo_place) \<and>
   well_formed_map (cancel_pairs \<lparr>cm_type = ''cancel_order'', cm_ts_ns = 1, cm_order_id = 17\<rparr>)"
  using commands_well_formed [of demo_place
      "\<lparr>mm_type = ''modify_order'', mm_ts_ns = 1, mm_order_id = 17, mm_price = F64 3, mm_gtd_seconds = 30, mm_trigger = None\<rparr>"
      "\<lparr>cm_type = ''cancel_order'', cm_ts_ns = 1, cm_order_id = 17\<rparr>" "[]"]
  by (simp add: demo_place_def)

end
