(* ===== verification/Trader_Loop.thy ===== *)
theory Trader_Loop
  imports Decision Tick_Codec Ipc_Server "HOL-Library.AList"
begin

section \<open>The trader's event loop\<close>

text \<open>
  Model of \<^verbatim>\<open>process_event\<close>, \<^verbatim>\<open>on_tick\<close> and \<^verbatim>\<open>staleness_check\<close> of \<^verbatim>\<open>rust/corsair_trader/src/main.rs\<close>: the
  whole state the hot loop and the 10 Hz staleness task work on, the commands ring they share
  included.  An event is the body of a frame; its header and ticks are decoded by the code of
  \<open>Tick_Codec\<close>, the other message types by \<^verbatim>\<open>rmp_serde\<close>, a third-party crate, whose results are the
  fields of the argument \<open>dec\<close>.  The staleness task also encodes with \<^verbatim>\<open>rmp_serde\<close> (argument \<open>enc\<close>).  The
  two clock readings are arguments, and so is \<open>places\<close>, the environment variable that enables
  orders.  \<open>None\<close> is a panic of the ring.

  Not modelled here: log files and latency histograms, which nothing reads back.  Characters are
  bytes, so \<^verbatim>\<open>chars().next()\<close> is the first byte: the same for the ASCII fields of this protocol.
\<close>

subsection \<open>Messages\<close>

record vol_surface_msg =
  vm_expiry :: string
  vm_side :: string
  vm_forward :: f64
  vm_params :: vol_params
  vm_ts_ns :: "u64 option"
  vm_calibrated_min_k :: "f64 option"
  vm_calibrated_max_k :: "f64 option"
  vm_spot_at_fit :: "f64 option"

record risk_state_msg =
  rm_margin_pct :: f64
  rm_hedge_delta :: i64
  rm_effective_delta :: f64
  rm_theta :: f64
  rm_vega :: f64

record place_ack_msg =
  pa_order_id :: i64
  pa_strike :: f64
  pa_expiry :: string
  pa_right :: string
  pa_side :: string
  pa_price :: f64

record order_ack_msg =
  oa_order_id :: "i64 option"
  oa_status :: "string option"

record kill_msg =
  km_source :: "string option"
  km_reason :: "string option"

record hello_config =
  hc_min_edge_ticks :: "i64 option"
  hc_tick_size :: "f64 option"
  hc_delta_ceiling :: "f64 option"
  hc_margin_ceiling_pct :: "f64 option"
  hc_gtd_lifetime_s :: "f64 option"
  hc_gtd_refresh_lead_s :: "f64 option"
  hc_dead_band_ticks :: "i64 option"
  hc_spread_edge_mul :: "f64 option"
  hc_theta_kill :: "f64 option"
  hc_vega_kill :: "f64 option"
  hc_contract_multiplier :: "f64 option"

record hello_msg =
  hm_config :: "hello_config option"
  hm_active_kills :: "string list"

record decoders =
  dec_underlying :: "bytes \<Rightarrow> f64 option"
  dec_vol_surface :: "bytes \<Rightarrow> vol_surface_msg option"
  dec_risk_state :: "bytes \<Rightarrow> risk_state_msg option"
  dec_place_ack :: "bytes \<Rightarrow> place_ack_msg option"
  dec_order_ack :: "bytes \<Rightarrow> order_ack_msg option"
  dec_kill :: "bytes \<Rightarrow> kill_msg option"
  dec_weekend :: "bytes \<Rightarrow> bool option"
  dec_hello :: "bytes \<Rightarrow> hello_msg option"

record encoders =
  enc_modify :: "modify_order_msg \<Rightarrow> bytes option"
  enc_cancel :: "cancel_order_msg \<Rightarrow> bytes option"

subsection \<open>State\<close>

record option_state =
  os_bid :: "f64 option"
  os_ask :: "f64 option"
  os_bid_size :: "i32 option"
  os_ask_size :: "i32 option"

record trader =
  tr_shared :: shared_state
  tr_scalars :: scalar_snapshot
  tr_hedge_delta :: "i64 option"
  tr_multiplier :: f64
  tr_options :: "i64 \<times> string \<times> char \<rightharpoonup> option_state"
  tr_kills :: "string \<rightharpoonup> string"
  orderid_to_key :: "i64 \<rightharpoonup> our_order_key"
  tr_counters :: counters
  cmd_shm :: shm
  cmd_ring :: ring

definition drop_parse :: "trader \<Rightarrow> trader" where
  "drop_parse w = w\<lparr>tr_counters := bump dropped_parse_errors 1 (tr_counters w)\<rparr>"

definition map_orders ::
  "((our_order_key \<times> our_order) list \<Rightarrow> (our_order_key \<times> our_order) list) \<Rightarrow> trader \<Rightarrow> trader" where
  "map_orders f w = w\<lparr>tr_shared := (tr_shared w)\<lparr>our_orders := f (our_orders (tr_shared w))\<rparr>\<rparr>"

subsection \<open>Messages other than ticks\<close>

definition on_underlying :: "f64 \<Rightarrow> trader \<Rightarrow> trader" where
  "on_underlying px w = w\<lparr>tr_scalars := (tr_scalars w)\<lparr>sn_underlying := px\<rparr>\<rparr>"

definition on_vol_surface :: "vol_surface_msg \<Rightarrow> trader \<Rightarrow> trader" where
  "on_vol_surface vs w =
     (let spot = (case vm_spot_at_fit vs of Some v \<Rightarrow> v | None \<Rightarrow> sn_underlying (tr_scalars w));
          entry = \<lparr>vs_forward = FitForward (vm_forward vs), vs_params = vm_params vs,
                   fit_ts_ns = (case vm_ts_ns vs of Some t \<Rightarrow> t | None \<Rightarrow> 0),
                   calibrated_min_k = vm_calibrated_min_k vs, calibrated_max_k = vm_calibrated_max_k vs,
                   vs_spot_at_fit = SpotAtFit spot\<rparr>;
          side_upper = map to_ascii_uppercase (vm_side vs);
          put = (\<lambda>c m. m((vm_expiry vs, c) \<mapsto> entry));
          m = vol_surfaces (tr_shared w);
          m' = (if side_upper = ''BOTH'' then put CHR ''P'' (put CHR ''C'' m)
                else put (case side_upper of [] \<Rightarrow> CHR ''C'' | c # _ \<Rightarrow> c) m)
      in w\<lparr>tr_shared := (tr_shared w)\<lparr>vol_surfaces := m'\<rparr>\<rparr>)"

definition on_risk_state :: "u64 \<Rightarrow> risk_state_msg \<Rightarrow> trader \<Rightarrow> trader" where
  "on_risk_state mns r w =
     w\<lparr>tr_hedge_delta := Some (rm_hedge_delta r),
       tr_scalars := (tr_scalars w)\<lparr>risk_effective_delta := Some (rm_effective_delta r),
         risk_margin_pct := Some (rm_margin_pct r), risk_theta := Some (rm_theta r),
         risk_vega := Some (rm_vega r), risk_state_age_ns := mns\<rparr>\<rparr>"

definition on_place_ack :: "u64 \<Rightarrow> place_ack_msg \<Rightarrow> trader \<Rightarrow> trader" where
  "on_place_ack mns p w =
     (case pa_right p of
        [] \<Rightarrow> drop_parse w
      | c # _ \<Rightarrow>
          (case (if pa_side p = ''BUY'' then Some CHR ''B'' else if pa_side p = ''SELL'' then Some CHR ''S'' else None) of
             None \<Rightarrow> w
           | Some s_char \<Rightarrow>
               let key = (trader_strike_key (pa_strike p), pa_expiry p, to_ascii_uppercase c, s_char);
                   order = (case map_of (our_orders (tr_shared w)) key of
                              Some ord \<Rightarrow> ord\<lparr>order_id := Some (pa_order_id p)\<rparr>
                            | None \<Rightarrow> \<lparr>oo_price = pa_price p, place_monotonic_ns = mns,
                                       order_id = Some (pa_order_id p)\<rparr>)
               in (map_orders (AList.update key order) w)\<lparr>orderid_to_key := (orderid_to_key w)(pa_order_id p \<mapsto> key)\<rparr>))"

definition terminal_status :: "string \<Rightarrow> bool" where
  "terminal_status s \<longleftrightarrow>
     s \<in> {''Filled'', ''Cancelled'', ''ApiCancelled'', ''Inactive'', ''Rejected'', ''ApiRejected''}"

text \<open>Removal of an order id together with the order at the key it points to.\<close>

definition forget_order :: "i64 \<Rightarrow> trader \<Rightarrow> trader" where
  "forget_order oid w =
     (case orderid_to_key w oid of
        None \<Rightarrow> w
      | Some key \<Rightarrow> (map_orders (AList.delete key) w)\<lparr>orderid_to_key := (orderid_to_key w)(oid := None)\<rparr>)"

definition on_order_status :: "order_ack_msg \<Rightarrow> trader \<Rightarrow> trader" where
  "on_order_status a w =
     (case oa_order_id a of
        None \<Rightarrow> w
      | Some oid \<Rightarrow>
          if terminal_status (case oa_status a of Some s \<Rightarrow> s | None \<Rightarrow> '''') then forget_order oid w else w)"

definition add_kill :: "string \<Rightarrow> string \<Rightarrow> trader \<Rightarrow> trader" where
  "add_kill src why w =
     (let sh = tr_shared w;
          sh' = (if tr_kills w src = None then sh\<lparr>kills_count := kills_count sh + 1\<rparr> else sh)
      in w\<lparr>tr_kills := (tr_kills w)(src \<mapsto> why), tr_shared := sh'\<rparr>)"

definition usable_source :: "kill_msg \<Rightarrow> string option" where
  "usable_source k = (case km_source k of Some s \<Rightarrow> if s \<noteq> [] then Some s else None | None \<Rightarrow> None)"

definition on_kill :: "kill_msg \<Rightarrow> trader \<Rightarrow> trader" where
  "on_kill k w =
     (case usable_source k of
        None \<Rightarrow> drop_parse w
      | Some src \<Rightarrow> add_kill src (case km_reason k of Some r \<Rightarrow> r | None \<Rightarrow> ''?'') w)"

definition on_resume :: "kill_msg \<Rightarrow> trader \<Rightarrow> trader" where
  "on_resume k w =
     (case usable_source k of
        None \<Rightarrow> drop_parse w
      | Some src \<Rightarrow>
          if tr_kills w src \<noteq> None
          then w\<lparr>tr_kills := (tr_kills w)(src := None),
                 tr_shared := (tr_shared w)\<lparr>kills_count := kills_count (tr_shared w) - 1\<rparr>\<rparr>
          else w)"

definition on_weekend_pause :: "bool \<Rightarrow> trader \<Rightarrow> trader" where
  "on_weekend_pause b w = w\<lparr>tr_scalars := (tr_scalars w)\<lparr>weekend_paused := b\<rparr>\<rparr>"

definition or_else :: "'a option \<Rightarrow> 'a \<Rightarrow> 'a" where
  "or_else x d = (case x of Some v \<Rightarrow> v | None \<Rightarrow> d)"

definition apply_hello_config :: "hello_config \<Rightarrow> trader \<Rightarrow> trader" where
  "apply_hello_config c w =
     (let sc = tr_scalars w in
      w\<lparr>tr_multiplier := or_else (hc_contract_multiplier c) (tr_multiplier w),
        tr_scalars := sc\<lparr>min_edge_ticks := or_else (map_option ucast (hc_min_edge_ticks c)) (min_edge_ticks sc),
          tick_size := or_else (hc_tick_size c) (tick_size sc),
          delta_ceiling := or_else (hc_delta_ceiling c) (delta_ceiling sc),
          sn_margin_ceiling_pct := or_else (hc_margin_ceiling_pct c) (sn_margin_ceiling_pct sc),
          gtd_lifetime_s := or_else (hc_gtd_lifetime_s c) (gtd_lifetime_s sc),
          gtd_refresh_lead_s := or_else (hc_gtd_refresh_lead_s c) (gtd_refresh_lead_s sc),
          dead_band_ticks := or_else (map_option ucast (hc_dead_band_ticks c)) (dead_band_ticks sc),
          spread_edge_mul := or_else (hc_spread_edge_mul c) (spread_edge_mul sc),
          sn_theta_kill := or_else (hc_theta_kill c) (sn_theta_kill sc),
          sn_vega_kill := or_else (hc_vega_kill c) (sn_vega_kill sc)\<rparr>\<rparr>)"

definition on_hello :: "hello_msg \<Rightarrow> trader \<Rightarrow> trader" where
  "on_hello h w =
     (let w1 = (case hm_config h of Some c \<Rightarrow> apply_hello_config c w | None \<Rightarrow> w)
      in fold (\<lambda>src. add_kill src ''rehydrated_from_hello'') (hm_active_kills h) w1)"

subsection \<open>Ticks\<close>

text \<open>A frame is encoded in place: a length placeholder, the body, then the length is filled in.\<close>

definition frame_with :: "bytes \<Rightarrow> (bytes \<Rightarrow> bytes) \<Rightarrow> bytes \<times> nat \<times> nat" where
  "frame_with buf encode_body =
     (let frame_start = length buf;
          b0 = buf @ [0, 0, 0, 0];
          body_start = length b0;
          b1 = encode_body b0;
          body_len = (of_nat (length b1 - body_start) :: u32)
      in (write_at b1 frame_start (u32_be body_len), frame_start, length b1))"

record outbox =
  wire_buf :: bytes
  frame_ranges :: "(nat \<times> nat) list"
  places_to_track :: "(our_order_key \<times> our_order \<times> i64 option \<times> nat) list"
  modifies_to_track :: "(our_order_key \<times> f64 \<times> i64 \<times> nat) list"
  cancels_to_track :: "(i64 \<times> nat) list"
  cancel_all_fired :: bool

definition empty_outbox :: outbox where
  "empty_outbox = \<lparr>wire_buf = [], frame_ranges = [], places_to_track = [], modifies_to_track = [],
     cancels_to_track = [], cancel_all_fired = False\<rparr>"

definition push_frame :: "(bytes \<Rightarrow> bytes) \<Rightarrow> outbox \<Rightarrow> outbox" where
  "push_frame encode_body ob =
     (let (buf, a, b) = frame_with (wire_buf ob) encode_body
      in ob\<lparr>wire_buf := buf, frame_ranges := frame_ranges ob @ [(a, b)]\<rparr>)"

fun side_as_str :: "side \<Rightarrow> string" where
  "side_as_str Buy = ''BUY''"
| "side_as_str Sell = ''SELL''"

record send_ctx =
  sc_wall :: u64
  sc_mono :: u64
  sc_tick :: tick_msg
  sc_expiry :: string
  sc_right :: char
  sc_gtd :: f64

definition cancel_msg :: "send_ctx \<Rightarrow> i64 \<Rightarrow> cancel_order_msg" where
  "cancel_msg x oid = \<lparr>cm_type = ''cancel_order'', cm_ts_ns = sc_wall x, cm_order_id = oid\<rparr>"

definition place_msg :: "send_ctx \<Rightarrow> side \<Rightarrow> f64 \<Rightarrow> place_order_msg" where
  "place_msg x s px =
     \<lparr>pm_type = ''place_order'', pm_ts_ns = sc_wall x, pm_strike = tk_strike (sc_tick x),
      pm_expiry = tk_expiry (sc_tick x), pm_right = tk_right (sc_tick x), pm_side = side_as_str s, pm_qty = 1,
      pm_price = px, pm_order_ref = ''corsair_trader_rust'', pm_gtd_seconds = f64_as_u32 (sc_gtd x),
      pm_trigger = tk_broker_recv_ns (sc_tick x)\<rparr>"

definition modify_msg :: "send_ctx \<Rightarrow> i64 \<Rightarrow> f64 \<Rightarrow> modify_order_msg" where
  "modify_msg x oid px =
     \<lparr>mm_type = ''modify_order'', mm_ts_ns = sc_wall x, mm_order_id = oid, mm_price = px,
      mm_gtd_seconds = f64_as_u32 (sc_gtd x), mm_trigger = tk_broker_recv_ns (sc_tick x)\<rparr>"

definition send_key :: "send_ctx \<Rightarrow> side \<Rightarrow> our_order_key" where
  "send_key x s = (trader_strike_key (tk_strike (sc_tick x)), sc_expiry x, sc_right x, side_as_char s)"

definition push_cancel :: "send_ctx \<Rightarrow> i64 \<Rightarrow> outbox \<Rightarrow> outbox" where
  "push_cancel x oid = push_frame (\<lambda>b. encode_cancel_into b (cancel_msg x oid))"

fun encode_decision :: "send_ctx \<Rightarrow> decision \<Rightarrow> outbox \<Rightarrow> outbox" where
  "encode_decision x (PlaceOrder s px cancel_old_oid) ob =
     (let ob1 = (case cancel_old_oid of Some oid \<Rightarrow> push_cancel x oid ob | None \<Rightarrow> ob);
          i = length (frame_ranges ob1);
          ob2 = push_frame (\<lambda>b. encode_place_into b (place_msg x s px)) ob1;
          order = \<lparr>oo_price = px, place_monotonic_ns = sc_mono x, order_id = None\<rparr>
      in ob2\<lparr>places_to_track := places_to_track ob2 @ [(send_key x s, order, cancel_old_oid, i)]\<rparr>)"
| "encode_decision x (ModifyOrder s oid px) ob =
     (let i = length (frame_ranges ob);
          ob1 = push_frame (\<lambda>b. encode_modify_into b (modify_msg x oid px)) ob
      in ob1\<lparr>modifies_to_track := modifies_to_track ob1 @ [(send_key x s, px, oid, i)]\<rparr>)"
| "encode_decision x (CancelAll ids) ob =
     (let ob1 = fold (\<lambda>oid b. (push_cancel x oid b)
                        \<lparr>cancels_to_track := cancels_to_track b @ [(oid, length (frame_ranges b))]\<rparr>) ids ob
      in ob1\<lparr>modifies_to_track := [], places_to_track := [], cancel_all_fired := True\<rparr>)"

text \<open>The ring writes of one tick, with the verdict on each frame.\<close>

fun write_frames :: "bytes list \<Rightarrow> trader \<Rightarrow> (bool list \<times> trader) option" where
  "write_frames [] w = Some ([], w)"
| "write_frames (f # fs) w =
     do { (ok, m, r) \<leftarrow> write_frame (cmd_shm w) (cmd_ring w) f;
          (oks, w') \<leftarrow> write_frames fs
             (w\<lparr>cmd_shm := m, cmd_ring := r,
                tr_counters := (if ok then tr_counters w else bump place_dropped 1 (tr_counters w))\<rparr>);
          Some (ok # oks, w') }"

text \<open>Index into the verdicts (\<^verbatim>\<open>frame_ok[i]\<close>; the indices recorded above are in range).\<close>

definition ok_at :: "bool list \<Rightarrow> nat \<Rightarrow> bool" where
  "ok_at oks i = (case get_at oks i of Some b \<Rightarrow> b | None \<Rightarrow> False)"

definition track_cancel :: "bool list \<Rightarrow> i64 \<times> nat \<Rightarrow> trader \<Rightarrow> trader" where
  "track_cancel oks = (\<lambda>(oid, i) w. if ok_at oks i then forget_order oid w else w)"

definition track_place :: "bool list \<Rightarrow> our_order_key \<times> our_order \<times> i64 option \<times> nat \<Rightarrow> trader \<Rightarrow> trader" where
  "track_place oks = (\<lambda>(key, order, old, i) w.
     if \<not> ok_at oks i then w
     else let w1 = (case old of Some oid \<Rightarrow> w\<lparr>orderid_to_key := (orderid_to_key w)(oid := None)\<rparr> | None \<Rightarrow> w)
          in map_orders (AList.update key order) w1)"

definition amend_order :: "our_order_key \<Rightarrow> f64 \<Rightarrow> u64 \<Rightarrow> trader \<Rightarrow> trader" where
  "amend_order key px mns w =
     (case map_of (our_orders (tr_shared w)) key of
        None \<Rightarrow> w
      | Some ord \<Rightarrow> map_orders (AList.update key (ord\<lparr>oo_price := px, place_monotonic_ns := mns\<rparr>)) w)"

definition track_modify :: "u64 \<Rightarrow> bool list \<Rightarrow> our_order_key \<times> f64 \<times> i64 \<times> nat \<Rightarrow> trader \<Rightarrow> trader" where
  "track_modify mns oks = (\<lambda>(key, px, oid, i) w. if ok_at oks i then amend_order key px mns w else w)"

definition outbox_frames :: "outbox \<Rightarrow> bytes list" where
  "outbox_frames ob = map (\<lambda>(a, b). subslice (wire_buf ob) a b) (frame_ranges ob)"

definition track_all :: "u64 \<Rightarrow> outbox \<Rightarrow> bool list \<Rightarrow> trader \<Rightarrow> trader" where
  "track_all mns ob oks w =
     (let w2 = (if cancel_all_fired ob then fold (track_cancel oks) (cancels_to_track ob) w else w);
          w3 = fold (track_place oks) (places_to_track ob) w2
      in fold (track_modify mns oks) (modifies_to_track ob) w3)"

definition send_decisions :: "send_ctx \<Rightarrow> decision list \<Rightarrow> trader \<Rightarrow> trader option" where
  "send_decisions x ds w =
     (let ob = fold (encode_decision x) ds empty_outbox
      in do { (oks, w1) \<leftarrow> write_frames (outbox_frames ob) w; Some (track_all (sc_mono x) ob oks w1) })"

definition or_opt :: "'a option \<Rightarrow> 'a option \<Rightarrow> 'a option" where
  "or_opt x y = (case x of Some v \<Rightarrow> Some v | None \<Rightarrow> y)"

definition merge_option :: "tick_msg \<Rightarrow> option_state option \<Rightarrow> option_state" where
  "merge_option t cached =
     \<lparr>os_bid = or_opt (tk_bid t) (Option.bind cached os_bid), os_ask = or_opt (tk_ask t) (Option.bind cached os_ask),
      os_bid_size = or_opt (tk_bid_size t) (Option.bind cached os_bid_size),
      os_ask_size = or_opt (tk_ask_size t) (Option.bind cached os_ask_size)\<rparr>"

definition on_tick ::
  "libm \<Rightarrow> (string \<Rightarrow> f64 option) \<Rightarrow> bool \<Rightarrow> u64 \<Rightarrow> u64 \<Rightarrow> tick_msg \<Rightarrow> trader \<Rightarrow> trader option" where
  "on_tick lm tte_of places wall mns tick w =
     (case tk_right tick of
        [] \<Rightarrow> Some (drop_parse w)
      | c # _ \<Rightarrow>
          let rt = to_ascii_uppercase c;
              key = (trader_strike_key (tk_strike tick), tk_expiry tick, rt);
              opt = merge_option tick (tr_options w key);
              tick' = tick\<lparr>tk_bid := os_bid opt, tk_ask := os_ask opt, tk_bid_size := os_bid_size opt,
                          tk_ask_size := os_ask_size opt\<rparr>;
              (ds, cs, sh) = decide_on_tick lm tte_of (tr_shared w) (tr_counters w) tick' (tk_expiry tick) rt
                               mns wall (tr_scalars w);
              w1 = w\<lparr>tr_options := (tr_options w)(key \<mapsto> opt), tr_counters := cs, tr_shared := sh\<rparr>
          in if ds = [] \<or> \<not> places then Some w1
             else send_decisions \<lparr>sc_wall = wall, sc_mono = mns, sc_tick = tick', sc_expiry = tk_expiry tick,
                                  sc_right = rt, sc_gtd = gtd_lifetime_s (tr_scalars w)\<rparr> ds w1)"

text \<open>\<^verbatim>\<open>TickMsg::default()\<close>\<close>

definition default_tick :: tick_msg where
  "default_tick =
     \<lparr>tk_strike = 0, tk_expiry = [], tk_right = [], tk_bid = None, tk_ask = None, tk_bid_size = None,
      tk_ask_size = None, tk_ts_ns = None, tk_broker_recv_ns = None, depth_bid_0 = None, depth_bid_1 = None,
      depth_ask_0 = None, depth_ask_1 = None\<rparr>"

subsection \<open>Dispatch\<close>

definition decoded :: "'m option \<Rightarrow> ('m \<Rightarrow> trader \<Rightarrow> trader) \<Rightarrow> trader \<Rightarrow> trader option" where
  "decoded msg handle w = Some (case msg of Some v \<Rightarrow> handle v w | None \<Rightarrow> drop_parse w)"

definition process_event ::
  "libm \<Rightarrow> (string \<Rightarrow> f64 option) \<Rightarrow> decoders \<Rightarrow> bool \<Rightarrow> u64 \<Rightarrow> u64 \<Rightarrow> bytes \<Rightarrow> trader \<Rightarrow> trader option" where
  "process_event lm tte_of dec places wall mns body w =
     (case decode_header body of
        None \<Rightarrow> Some (drop_parse w)
      | Some (ty, ts) \<Rightarrow>
          if ty = str_bytes ''tick'' then
            (case decode_tick body default_tick of
               (False, _) \<Rightarrow> Some (drop_parse w)
             | (True, t) \<Rightarrow> on_tick lm tte_of places wall mns (t\<lparr>tk_ts_ns := or_opt (tk_ts_ns t) ts\<rparr>) w)
          else if ty = str_bytes ''underlying_tick'' then decoded (dec_underlying dec body) on_underlying w
          else if ty = str_bytes ''vol_surface'' then decoded (dec_vol_surface dec body) on_vol_surface w
          else if ty = str_bytes ''risk_state'' then decoded (dec_risk_state dec body) (on_risk_state mns) w
          else if ty = str_bytes ''place_ack'' then decoded (dec_place_ack dec body) (on_place_ack mns) w
          else if ty = str_bytes ''order_status'' \<or> ty = str_bytes ''order_ack'' then
            decoded (dec_order_ack dec body) on_order_status w
          else if ty = str_bytes ''kill'' then decoded (dec_kill dec body) on_kill w
          else if ty = str_bytes ''resume'' then decoded (dec_kill dec body) on_resume w
          else if ty = str_bytes ''weekend_pause'' then decoded (dec_weekend dec body) on_weekend_pause w
          else if ty = str_bytes ''hello'' then decoded (dec_hello dec body) on_hello w
          else Some w)"

subsection \<open>The staleness task\<close>

definition STALENESS_TICKS :: i32 where "STALENESS_TICKS = 1"

datatype action = Modify i64 our_order_key f64 | Cancel i64 our_order_key bool

definition market_dark :: "option_state \<Rightarrow> bool" where
  "market_dark l \<longleftrightarrow>
     \<not> (case os_bid l of Some b \<Rightarrow> 0 < b | None \<Rightarrow> False) \<or> \<not> (case os_ask l of Some a \<Rightarrow> 0 < a | None \<Rightarrow> False) \<or>
     size_or_zero (os_bid_size l) \<le>s 0 \<or> size_or_zero (os_ask_size l) \<le>s 0"

definition stale_action ::
  "libm \<Rightarrow> (string \<Rightarrow> f64 option) \<Rightarrow> trader \<Rightarrow> our_order_key \<times> our_order \<Rightarrow> action option" where
  "stale_action lm tte_of w = (\<lambda>((sk, ex, rt, sc), order).
     let sn = tr_scalars w; tick = tick_size sn in
     do { oid \<leftarrow> order_id order;
          vp \<leftarrow> lookup_vol_surface (tr_shared w) ex rt;
          tte \<leftarrow> tte_of ex;
          if \<not> 0 < tte then None
          else do { (_, gx) \<leftarrow> compute_theo lm (vs_forward vp) (i64_as_f64 sk / lit 10000) tte rt (vs_params vp);
            let theo = fmax (tg_theo gx + tg_delta gx * (sn_underlying sn - saf_raw (vs_spot_at_fit vp))) (lit (1 / 100));
                drift = (if sc = CHR ''B'' then oo_price order - theo else theo - oo_price order)
            in if i32_as_f64 STALENESS_TICKS * tick < drift then
                 let edge = i32_as_f64 (min_edge_ticks sn) * tick;
                     raw_new = (if sc = CHR ''B'' then theo - edge else theo + edge);
                     new_price = fround (raw_new / tick) * tick
                 in if tick * lit (1 / 100) < \<bar>new_price - oo_price order\<bar>
                    then Some (Modify oid (sk, ex, rt, sc) new_price) else None
               else case tr_options w (sk, ex, rt) of
                      Some l \<Rightarrow> if market_dark l then Some (Cancel oid (sk, ex, rt, sc) True) else None
                    | None \<Rightarrow> None } })"

text \<open>Sending one frame of the staleness task; \<open>True\<close> unless the ring dropped the frame.\<close>

definition send_encoded :: "bytes option \<Rightarrow> trader \<Rightarrow> (bool \<times> trader) option" where
  "send_encoded body w =
     (case body of
        None \<Rightarrow> Some (True, w)
      | Some b \<Rightarrow>
          do { (ok, m, r) \<leftarrow> write_frame (cmd_shm w) (cmd_ring w) (pack_frame b);
               Some (ok, w\<lparr>cmd_shm := m, cmd_ring := r,
                           tr_counters := (if ok then tr_counters w else bump place_dropped 1 (tr_counters w))\<rparr>) })"

fun apply_action :: "encoders \<Rightarrow> u64 \<Rightarrow> u64 \<Rightarrow> f64 \<Rightarrow> action \<Rightarrow> trader \<Rightarrow> trader option" where
  "apply_action enc wall mns gtd (Modify oid key px) w =
     do { (ok, w1) \<leftarrow> send_encoded (enc_modify enc \<lparr>mm_type = ''modify_order'', mm_ts_ns = wall, mm_order_id = oid,
             mm_price = px, mm_gtd_seconds = f64_as_u32 gtd, mm_trigger = None\<rparr>) w;
          Some (if ok then (amend_order key px mns w1)\<lparr>tr_counters := bump staleness_modify 1 (tr_counters w1)\<rparr> else w1) }"
| "apply_action enc wall mns gtd (Cancel oid key dark) w =
     do { (_, w1) \<leftarrow> send_encoded (enc_cancel enc \<lparr>cm_type = ''cancel_order'', cm_ts_ns = wall, cm_order_id = oid\<rparr>) w;
          Some ((map_orders (AList.delete key) w1)\<lparr>orderid_to_key := (orderid_to_key w1)(oid := None),
             tr_counters := bump (if dark then staleness_cancel_dark else staleness_cancel) 1 (tr_counters w1)\<rparr>) }"

fun apply_actions :: "encoders \<Rightarrow> u64 \<Rightarrow> u64 \<Rightarrow> f64 \<Rightarrow> action list \<Rightarrow> trader \<Rightarrow> trader option" where
  "apply_actions enc wall mns gtd [] w = Some w"
| "apply_actions enc wall mns gtd (a # acts) w =
     do { w1 \<leftarrow> apply_action enc wall mns gtd a w; apply_actions enc wall mns gtd acts w1 }"

definition staleness_check ::
  "libm \<Rightarrow> (string \<Rightarrow> f64 option) \<Rightarrow> encoders \<Rightarrow> u64 \<Rightarrow> u64 \<Rightarrow> trader \<Rightarrow> trader option" where
  "staleness_check lm tte_of enc wall mns w =
     apply_actions enc wall mns (gtd_lifetime_s (tr_scalars w))
       (List.map_filter (stale_action lm tte_of w) (our_orders (tr_shared w))) w"

end
