(* ===== verification/Trader_Kills.thy ===== *)
theory Trader_Kills
  imports Trader_Loop
begin

section \<open>Kills, halts and the trader's view\<close>

text \<open>
  Properties of the event loop of \<open>Trader_Loop\<close> for every sequence of events: the kill switch, what the
  staleness task does with it, and two ways in which the view of the resting orders loses a live
  order.
\<close>

subsection \<open>What each step leaves alone\<close>

lemma decide_side_kills: "kills_count (snd (snd (decide_side sn now q s (out, cs, st)))) = kills_count st"
  by (simp add: decide_side_def Let_def split: target_result.split option.split prod.split)

lemma decide_on_tick_kills:
  assumes "decide_on_tick lm tte_of st cs tick ex rt now wall sn = (ds, cs', st')"
  shows "kills_count st' = kills_count st"
proof -
  have theo: "kills_count st1 = kills_count st" if "theo_lookup lm k tte ex rt vp st = Some (g, st1)" for k tte vp g st1
    using that by (auto simp: theo_lookup_def Let_def split: option.splits bind_splits)
  have both: "kills_count (snd (snd (quote_both sn now tick q c s))) = kills_count s" for q c s
    using decide_side_kills [of sn now q Sell] decide_side_kills [of sn now q Buy]
    by (simp add: quote_both_def) (metis prod.collapse)
  have "kills_count (snd (snd (decide_on_tick lm tte_of st cs tick ex rt now wall sn))) = kills_count st"
    unfolding decide_on_tick_def Let_def case_prod_beta
    by (auto simp: both dest: theo split: option.split)
  then show ?thesis by (simp add: assms)
qed

lemma map_orders_simps [simp]:
  "tr_kills (map_orders f w) = tr_kills w" "kills_count (tr_shared (map_orders f w)) = kills_count (tr_shared w)"
  "cmd_shm (map_orders f w) = cmd_shm w" "cmd_ring (map_orders f w) = cmd_ring w"
  "our_orders (tr_shared (map_orders f w)) = f (our_orders (tr_shared w))"
  "orderid_to_key (map_orders f w) = orderid_to_key w"
  by (simp_all add: map_orders_def)

lemma drop_parse_simps [simp]:
  "tr_kills (drop_parse w) = tr_kills w" "tr_shared (drop_parse w) = tr_shared w"
  "cmd_shm (drop_parse w) = cmd_shm w" "cmd_ring (drop_parse w) = cmd_ring w"
  by (simp_all add: drop_parse_def)

lemma forget_order_simps [simp]:
  "tr_kills (forget_order i w) = tr_kills w" "kills_count (tr_shared (forget_order i w)) = kills_count (tr_shared w)"
  "cmd_shm (forget_order i w) = cmd_shm w" "cmd_ring (forget_order i w) = cmd_ring w"
  by (simp_all add: forget_order_def split: option.split)

lemma amend_order_simps [simp]:
  "tr_kills (amend_order k px t w) = tr_kills w"
  "kills_count (tr_shared (amend_order k px t w)) = kills_count (tr_shared w)"
  "cmd_shm (amend_order k px t w) = cmd_shm w" "cmd_ring (amend_order k px t w) = cmd_ring w"
  "orderid_to_key (amend_order k px t w) = orderid_to_key w"
  by (simp_all add: amend_order_def split: option.split)

lemma add_kill_simps [simp]:
  "cmd_shm (add_kill s r w) = cmd_shm w" "cmd_ring (add_kill s r w) = cmd_ring w"
  "tr_kills (add_kill s r w) = (tr_kills w)(s \<mapsto> r)"
  by (simp_all add: add_kill_def Let_def)

lemma fold_add_kill_ring [simp]:
  "cmd_shm (fold (\<lambda>s. add_kill s r) ss w) = cmd_shm w" "cmd_ring (fold (\<lambda>s. add_kill s r) ss w) = cmd_ring w"
  by (induction ss arbitrary: w) simp_all

subsection \<open>Kills\<close>

text \<open>The invariant of the kill gate: the counter the hot path reads is the number of active kills.\<close>

definition kills_ok :: "trader \<Rightarrow> bool" where
  "kills_ok w \<longleftrightarrow> finite (dom (tr_kills w)) \<and> kills_count (tr_shared w) = card (dom (tr_kills w))"

lemma kills_okI:
  "kills_ok w \<Longrightarrow> tr_kills w' = tr_kills w \<Longrightarrow> kills_count (tr_shared w') = kills_count (tr_shared w) \<Longrightarrow> kills_ok w'"
  by (simp add: kills_ok_def)

lemma kills_ok_add_kill: "kills_ok w \<Longrightarrow> kills_ok (add_kill src r w)"
  by (auto simp: kills_ok_def add_kill_def Let_def card_insert_if domIff)

lemma kills_ok_fold: "kills_ok w \<Longrightarrow> kills_ok (fold (\<lambda>s. add_kill s r) ss w)"
  by (induction ss arbitrary: w) (simp_all add: kills_ok_add_kill)

lemma kills_ok_on_resume: "kills_ok w \<Longrightarrow> kills_ok (on_resume k w)"
  by (auto simp: kills_ok_def on_resume_def card_Diff_singleton domIff split: option.split)

lemma apply_hello_config_simps [simp]:
  "tr_kills (apply_hello_config c w) = tr_kills w" "tr_shared (apply_hello_config c w) = tr_shared w"
  "cmd_shm (apply_hello_config c w) = cmd_shm w" "cmd_ring (apply_hello_config c w) = cmd_ring w"
  by (simp_all add: apply_hello_config_def Let_def)

lemma kills_ok_on_hello: "kills_ok w \<Longrightarrow> kills_ok (on_hello h w)"
  unfolding on_hello_def Let_def
  by (rule kills_ok_fold) (auto intro: kills_okI split: option.split)

lemma dom_fold_add_kill: "dom (tr_kills w) \<subseteq> dom (tr_kills (fold (\<lambda>s. add_kill s r) ss w))"
proof (induction ss arbitrary: w)
  case (Cons s ss)
  have "dom (tr_kills w) \<subseteq> dom (tr_kills (add_kill s r w))" by auto
  from subset_trans [OF this Cons [of "add_kill s r w"]] show ?case by simp
qed simp

lemma write_frames_keeps:
  "write_frames fs w = Some (oks, w') \<Longrightarrow> tr_kills w' = tr_kills w \<and> tr_shared w' = tr_shared w \<and>
    orderid_to_key w' = orderid_to_key w \<and> length oks = length fs"
proof (induction fs arbitrary: w oks)
  case (Cons f fs)
  from Cons.prems obtain ok m r oks' where "write_frame (cmd_shm w) (cmd_ring w) f = Some (ok, m, r)"
    and oks: "oks = ok # oks'" and rest: "write_frames fs (w\<lparr>cmd_shm := m, cmd_ring := r,
        tr_counters := (if ok then tr_counters w else bump place_dropped 1 (tr_counters w))\<rparr>) = Some (oks', w')"
    by (auto split: bind_splits)
  from Cons.IH [OF rest] oks show ?case by simp
qed simp

lemma fold_keeps: "(\<And>x w. f (g x w) = f w) \<Longrightarrow> f (fold g xs w) = f w"
  by (induction xs arbitrary: w) auto

lemma track_simps [simp]:
  "tr_kills (track_cancel oks c w) = tr_kills w" "tr_kills (track_place oks p w) = tr_kills w"
  "tr_kills (track_modify t oks m w) = tr_kills w"
  "kills_count (tr_shared (track_cancel oks c w)) = kills_count (tr_shared w)"
  "kills_count (tr_shared (track_place oks p w)) = kills_count (tr_shared w)"
  "kills_count (tr_shared (track_modify t oks m w)) = kills_count (tr_shared w)"
  by (auto simp: track_cancel_def track_place_def track_modify_def Let_def split: prod.split option.split)

lemma track_all_kills:
  "tr_kills (track_all t ob oks w) = tr_kills w"
  "kills_count (tr_shared (track_all t ob oks w)) = kills_count (tr_shared w)"
  by (simp_all add: track_all_def Let_def fold_keeps [where f = tr_kills]
      fold_keeps [where f = "\<lambda>w. kills_count (tr_shared w)"])

lemma track_all_shm: "cmd_shm (track_all t ob oks w) = cmd_shm w"
proof -
  have "cmd_shm (track_cancel oks c w) = cmd_shm w" "cmd_shm (track_place oks p w) = cmd_shm w"
    "cmd_shm (track_modify t oks m w) = cmd_shm w" for c p m w
    by (auto simp: track_cancel_def track_place_def track_modify_def Let_def split: prod.split option.split)
  then show ?thesis by (simp add: track_all_def Let_def fold_keeps [where f = cmd_shm])
qed

lemma send_decisions_kills:
  assumes "send_decisions x ds w = Some w'"
  shows "tr_kills w' = tr_kills w \<and> kills_count (tr_shared w') = kills_count (tr_shared w)"
  using assms by (auto simp: send_decisions_def Let_def track_all_kills dest: write_frames_keeps split: bind_splits)

lemma on_tick_kills:
  assumes "on_tick lm tte_of places wall mns tick w = Some w'"
  shows "tr_kills w' = tr_kills w \<and> kills_count (tr_shared w') = kills_count (tr_shared w)"
proof (cases "tk_right tick")
  case (Cons c cs)
  then show ?thesis
    using assms unfolding on_tick_def Let_def
    by (auto simp: case_prod_beta dest!: send_decisions_kills split: if_splits prod.splits)
      (metis decide_on_tick_kills prod.collapse)+
qed (use assms in \<open>auto simp: on_tick_def\<close>)

text \<open>With a kill active the decision is empty and the ring is not touched.\<close>

lemma on_tick_killed:
  assumes "0 < kills_count (tr_shared w)"
  shows "\<exists>w'. on_tick lm tte_of places wall mns tick w = Some w' \<and> cmd_shm w' = cmd_shm w \<and> cmd_ring w' = cmd_ring w"
proof (cases "tk_right tick")
  case (Cons c cs)
  have "decide_on_tick lm tte_of (tr_shared w) k t ex rt mns wall sn = ([], k, tr_shared w)" for k t ex rt sn
    using assms by (simp add: decide_on_tick_def Let_def)
  then show ?thesis using Cons by (simp add: on_tick_def Let_def)
qed (simp add: on_tick_def)

definition resumes :: "decoders \<Rightarrow> string \<Rightarrow> bytes \<Rightarrow> bool" where
  "resumes dec src body \<longleftrightarrow>
     (case decode_header body of
        Some (ty, _) \<Rightarrow> ty = str_bytes ''resume'' \<and>
          (case dec_kill dec body of Some k \<Rightarrow> usable_source k = Some src | None \<Rightarrow> False)
      | None \<Rightarrow> False)"

text \<open>The effect of every message but a tick and a resume on the ring and the kills.\<close>

definition quiet :: "trader \<Rightarrow> trader \<Rightarrow> bool" where
  "quiet w w' \<longleftrightarrow> cmd_shm w' = cmd_shm w \<and> cmd_ring w' = cmd_ring w \<and> kills_ok w' \<and>
     dom (tr_kills w) \<subseteq> dom (tr_kills w')"

lemma quietI:
  "kills_ok w \<Longrightarrow> cmd_shm w' = cmd_shm w \<Longrightarrow> cmd_ring w' = cmd_ring w \<Longrightarrow> tr_kills w' = tr_kills w \<Longrightarrow>
    kills_count (tr_shared w') = kills_count (tr_shared w) \<Longrightarrow> quiet w w'"
  by (simp add: quiet_def kills_ok_def)

lemma quiet_handlers:
  assumes "kills_ok w"
  shows "quiet w w" "quiet w (drop_parse w)" "quiet w (on_underlying px w)" "quiet w (on_vol_surface vs w)"
    "quiet w (on_risk_state t r w)" "quiet w (on_place_ack t p w)" "quiet w (on_order_status a w)"
    "quiet w (on_weekend_pause b w)"
  by (rule quietI [OF assms];
      simp add: on_underlying_def on_vol_surface_def on_risk_state_def on_place_ack_def on_order_status_def
        on_weekend_pause_def Let_def split: option.split list.split)+

lemma quiet_on_kill: "kills_ok w \<Longrightarrow> quiet w (on_kill k w)"
  using kills_ok_add_kill [of w] quiet_handlers(2) [of w]
  by (auto simp: on_kill_def quiet_def split: option.split)

lemma quiet_on_hello:
  assumes "kills_ok w" shows "quiet w (on_hello h w)"
proof -
  let ?w = "case hm_config h of Some c \<Rightarrow> apply_hello_config c w | None \<Rightarrow> w"
  have "tr_kills ?w = tr_kills w" "cmd_shm ?w = cmd_shm w" "cmd_ring ?w = cmd_ring w"
    by (simp_all split: option.split)
  with dom_fold_add_kill [of ?w "''rehydrated_from_hello''" "hm_active_kills h"] kills_ok_on_hello [OF assms]
  show ?thesis by (simp add: quiet_def on_hello_def Let_def)
qed

lemma on_resume_other: "usable_source k \<noteq> Some src \<Longrightarrow> tr_kills (on_resume k w) src = tr_kills w src"
  and on_resume_ring: "cmd_shm (on_resume k w) = cmd_shm w" "cmd_ring (on_resume k w) = cmd_ring w"
  by (auto simp: on_resume_def split: option.split)

lemma if_prop: "(c \<Longrightarrow> P a) \<Longrightarrow> (\<not> c \<Longrightarrow> P b) \<Longrightarrow> P (if c then a else b)"
  by simp

lemma decoded_quiet:
  "(\<And>v. msg = Some v \<Longrightarrow> P (handle v w)) \<Longrightarrow> P (drop_parse w) \<Longrightarrow> \<exists>w'. decoded msg handle w = Some w' \<and> P w'"
  by (simp add: decoded_def split: option.split)

lemma process_event_killed:
  assumes "kills_ok w" "src \<in> dom (tr_kills w)" "\<not> resumes dec src body"
  shows "\<exists>w'. process_event lm tte_of dec places wall mns body w = Some w' \<and>
    cmd_shm w' = cmd_shm w \<and> cmd_ring w' = cmd_ring w \<and> kills_ok w' \<and> src \<in> dom (tr_kills w')"
proof (cases "decode_header body")
  case None
  with quiet_handlers(2) [OF assms(1)] assms(2) show ?thesis by (auto simp: process_event_def quiet_def)
next
  case (Some h)
  obtain ty ts where h: "decode_header body = Some (ty, ts)" using Some by (cases h) simp
  let ?P = "\<lambda>w'. cmd_shm w' = cmd_shm w \<and> cmd_ring w' = cmd_ring w \<and> kills_ok w' \<and> src \<in> dom (tr_kills w')"
  have "dom (tr_kills w) \<noteq> {}" "finite (dom (tr_kills w))" using assms(1,2) by (auto simp: kills_ok_def)
  then have k: "0 < kills_count (tr_shared w)" using assms(1) by (simp add: kills_ok_def card_gt_0_iff)
  have q: "?P w'" if "quiet w w'" for w' using that assms(2) by (auto simp: quiet_def)
  have tick: "\<exists>w'. on_tick lm tte_of places wall mns t w = Some w' \<and> ?P w'" for t
    using on_tick_killed [OF k, of lm tte_of places wall mns t] on_tick_kills [of lm tte_of places wall mns t w] assms(1,2)
    by (auto simp: kills_ok_def)
  have r: "\<exists>w'. decoded (dec_kill dec body) on_resume w = Some w' \<and> ?P w'" if "ty = str_bytes ''resume''"
  proof (rule decoded_quiet [where P = ?P])
    fix v assume "dec_kill dec body = Some v"
    then have "usable_source v \<noteq> Some src" using assms(3) h that by (simp add: resumes_def)
    then show "?P (on_resume v w)"
      using on_resume_other [of v src w] kills_ok_on_resume [OF assms(1)] assms(2) by (simp add: on_resume_ring domIff)
  qed (rule q [OF quiet_handlers(2) [OF assms(1)]])
  have hs: "\<exists>w'. decoded (dec_underlying dec body) on_underlying w = Some w' \<and> ?P w'"
    "\<exists>w'. decoded (dec_vol_surface dec body) on_vol_surface w = Some w' \<and> ?P w'"
    "\<exists>w'. decoded (dec_risk_state dec body) (on_risk_state mns) w = Some w' \<and> ?P w'"
    "\<exists>w'. decoded (dec_place_ack dec body) (on_place_ack mns) w = Some w' \<and> ?P w'"
    "\<exists>w'. decoded (dec_order_ack dec body) on_order_status w = Some w' \<and> ?P w'"
    "\<exists>w'. decoded (dec_kill dec body) on_kill w = Some w' \<and> ?P w'"
    "\<exists>w'. decoded (dec_weekend dec body) on_weekend_pause w = Some w' \<and> ?P w'"
    "\<exists>w'. decoded (dec_hello dec body) on_hello w = Some w' \<and> ?P w'"
    by (rule decoded_quiet [where P = ?P];
        rule q, rule quiet_handlers [OF assms(1)] quiet_on_kill [OF assms(1)] quiet_on_hello [OF assms(1)])+
  define Q where "Q X \<longleftrightarrow> (\<exists>w'. X = Some w' \<and> ?P w')" for X
  have "Q (Some w)" "Q (Some (drop_parse w))"
    using q [OF quiet_handlers(1) [OF assms(1)]] q [OF quiet_handlers(2) [OF assms(1)]] by (simp_all add: Q_def)
  moreover have "Q (case decode_tick body default_tick of (False, _) \<Rightarrow> Some (drop_parse w)
      | (True, t) \<Rightarrow> on_tick lm tte_of places wall mns (t\<lparr>tk_ts_ns := or_opt (tk_ts_ns t) ts\<rparr>) w)"
    using tick calculation(2) by (cases "decode_tick body default_tick") (simp add: Q_def split: bool.split)
  ultimately have "Q (process_event lm tte_of dec places wall mns body w)"
    unfolding process_event_def h option.case prod.case
    by (intro if_prop [where P = Q]) (use r hs in \<open>simp_all only: Q_def\<close>)
  then show ?thesis by (simp only: Q_def)
qed

text \<open>A sequence of events with the clock readings at which each is processed.\<close>

fun run_events ::
  "libm \<Rightarrow> (string \<Rightarrow> f64 option) \<Rightarrow> decoders \<Rightarrow> bool \<Rightarrow> (u64 \<times> u64 \<times> bytes) list \<Rightarrow> trader \<Rightarrow> trader option" where
  "run_events lm tte_of dec places [] w = Some w"
| "run_events lm tte_of dec places ((wall, mns, body) # evs) w =
     do { w1 \<leftarrow> process_event lm tte_of dec places wall mns body w; run_events lm tte_of dec places evs w1 }"

text \<open>
  \<^bold>\<open>C6.\<close> The kill switch of the trader.  From a state where the kill counter agrees with the set of active
  kills and some source has killed, whatever sequence of events arrives (malformed ones, ticks,
  duplicate kills, hellos, resumes of other sources), as long as none of them resumes that source:
  the loop does not panic, not one byte is written to the commands ring by it, the source stays
  killed and the counter still agrees with the set.
\<close>

theorem killed_trader_is_silent:
  assumes "kills_ok w" "src \<in> dom (tr_kills w)" "list_all (\<lambda>(_, _, body). \<not> resumes dec src body) evs"
  shows "\<exists>w'. run_events lm tte_of dec places evs w = Some w' \<and> cmd_shm w' = cmd_shm w \<and> cmd_ring w' = cmd_ring w \<and>
    kills_ok w' \<and> src \<in> dom (tr_kills w')"
  using assms
proof (induction evs arbitrary: w)
  case (Cons e evs)
  obtain wall mns body where e: "e = (wall, mns, body)" by (cases e)
  obtain w1 where w1: "process_event lm tte_of dec places wall mns body w = Some w1" "cmd_shm w1 = cmd_shm w"
    "cmd_ring w1 = cmd_ring w" "kills_ok w1" "src \<in> dom (tr_kills w1)"
    using process_event_killed [OF Cons.prems(1,2), of dec body lm tte_of places wall mns] Cons.prems(3) by (auto simp: e)
  with Cons.IH [OF w1(4,5)] Cons.prems(3) show ?case by (auto simp: e)
qed auto

definition demo_world :: trader where
  "demo_world =
     \<lparr>tr_shared = \<lparr>kills_count = 1, vol_surfaces = Map.empty, theo_cache = [],
        our_orders = [((60000, ''20260526'', CHR ''C'', CHR ''B''), \<lparr>oo_price = F64 1, place_monotonic_ns = 5, order_id = None\<rparr>)],
        outbound_limiter = \<lparr>slot_a = 0, slot_b = 0\<rparr>, burst_window_ns = 0\<rparr>,
      tr_scalars = default_scalars, tr_hedge_delta = None, tr_multiplier = F64 0, tr_options = Map.empty,
      tr_kills = [''daily_halt'' \<mapsto> ''loss''], orderid_to_key = Map.empty, tr_counters = (\<lambda>_. 0),
      cmd_shm = demo_shm, cmd_ring = demo_ring\<rparr>"

definition demo_decoders :: decoders where
  "demo_decoders =
     \<lparr>dec_underlying = (\<lambda>_. Some (F64 2)), dec_vol_surface = (\<lambda>_. None), dec_risk_state = (\<lambda>_. None),
      dec_place_ack = (\<lambda>_. None), dec_order_ack = (\<lambda>_. None),
      dec_kill = (\<lambda>_. Some \<lparr>km_source = Some ''operational'', km_reason = None\<rparr>),
      dec_weekend = (\<lambda>_. None), dec_hello = (\<lambda>_. None)\<rparr>"

theorem killed_trader_is_silent_witness:
  "\<exists>w'. run_events demo_libm (\<lambda>_. None) demo_decoders True
      [(1, 1, encode_tick_into demo_event []), (2, 2, enc_map [(''type'', MStr ''resume'')])] demo_world = Some w' \<and>
    cmd_shm w' = cmd_shm demo_world"
proof -
  have "kills_ok demo_world" "''daily_halt'' \<in> dom (tr_kills demo_world)"
    by (simp_all add: kills_ok_def demo_world_def)
  moreover have "\<not> resumes demo_decoders ''daily_halt'' body" for body
    by (simp add: resumes_def demo_decoders_def usable_source_def split: option.split)
  ultimately show ?thesis
    using killed_trader_is_silent [of demo_world "''daily_halt''" demo_decoders
        "[(1, 1, encode_tick_into demo_event []), (2, 2, enc_map [(''type'', MStr ''resume'')])]"
        demo_libm "\<lambda>_. None" True] by auto
qed

subsection \<open>The staleness task and the halts\<close>

definition set_halts :: "(string \<rightharpoonup> string) \<Rightarrow> nat \<Rightarrow> bool \<Rightarrow> trader \<Rightarrow> trader" where
  "set_halts ks n paused w =
     w\<lparr>tr_kills := ks, tr_shared := (tr_shared w)\<lparr>kills_count := n\<rparr>,
       tr_scalars := (tr_scalars w)\<lparr>weekend_paused := paused\<rparr>\<rparr>"

lemma set_halts_simps [simp]:
  "our_orders (tr_shared (set_halts ks n b w)) = our_orders (tr_shared w)" "cmd_shm (set_halts ks n b w) = cmd_shm w"
  "cmd_ring (set_halts ks n b w) = cmd_ring w" "orderid_to_key (set_halts ks n b w) = orderid_to_key w"
  "tr_counters (set_halts ks n b w) = tr_counters w" "map_orders f (set_halts ks n b w) = set_halts ks n b (map_orders f w)"
  "gtd_lifetime_s (tr_scalars (set_halts ks n b w)) = gtd_lifetime_s (tr_scalars w)"
  by (simp_all add: set_halts_def map_orders_def)

lemma set_halts_updates [simp]:
  "(set_halts ks n b w)\<lparr>cmd_shm := m\<rparr> = set_halts ks n b (w\<lparr>cmd_shm := m\<rparr>)"
  "(set_halts ks n b w)\<lparr>cmd_ring := r\<rparr> = set_halts ks n b (w\<lparr>cmd_ring := r\<rparr>)"
  "(set_halts ks n b w)\<lparr>tr_counters := c\<rparr> = set_halts ks n b (w\<lparr>tr_counters := c\<rparr>)"
  "(set_halts ks n b w)\<lparr>orderid_to_key := k\<rparr> = set_halts ks n b (w\<lparr>orderid_to_key := k\<rparr>)"
  by (simp_all add: set_halts_def)

lemma set_halts_reads:
  "lookup_vol_surface (tr_shared (set_halts ks n b w)) = lookup_vol_surface (tr_shared w)"
  "tr_options (set_halts ks n b w) = tr_options w"
  "tick_size (tr_scalars (set_halts ks n b w)) = tick_size (tr_scalars w)"
  "min_edge_ticks (tr_scalars (set_halts ks n b w)) = min_edge_ticks (tr_scalars w)"
  "sn_underlying (tr_scalars (set_halts ks n b w)) = sn_underlying (tr_scalars w)"
  by (simp_all add: set_halts_def lookup_vol_surface_def fun_eq_iff split: option.split)

lemma stale_action_halts: "stale_action lm tte_of (set_halts ks n b w) = stale_action lm tte_of w"
  unfolding stale_action_def Let_def set_halts_reads ..

lemma amend_order_halts: "amend_order key px t (set_halts ks n b w) = set_halts ks n b (amend_order key px t w)"
  by (simp add: amend_order_def split: option.split)

lemma send_encoded_halts:
  "send_encoded body (set_halts ks n b w) = map_option (\<lambda>(ok, w'). (ok, set_halts ks n b w')) (send_encoded body w)"
proof (cases body)
  case (Some bs)
  then show ?thesis
    by (cases "write_frame (cmd_shm w) (cmd_ring w) (pack_frame bs)") (auto simp: send_encoded_def)
qed (simp add: send_encoded_def)

lemma apply_action_halts:
  "apply_action enc wall t gtd a (set_halts ks n b w) = map_option (set_halts ks n b) (apply_action enc wall t gtd a w)"
proof (cases a)
  case (Modify oid key px)
  let ?body = "enc_modify enc \<lparr>mm_type = ''modify_order'', mm_ts_ns = wall, mm_order_id = oid, mm_price = px,
      mm_gtd_seconds = f64_as_u32 gtd, mm_trigger = None\<rparr>"
  show ?thesis using Modify
    by (cases "send_encoded ?body w") (auto simp: send_encoded_halts amend_order_halts)
next
  case (Cancel oid key dark)
  let ?body = "enc_cancel enc \<lparr>cm_type = ''cancel_order'', cm_ts_ns = wall, cm_order_id = oid\<rparr>"
  show ?thesis using Cancel
    by (cases "send_encoded ?body w") (auto simp: send_encoded_halts)
qed

lemma apply_actions_halts:
  "apply_actions enc wall t gtd acts (set_halts ks n b w) =
     map_option (set_halts ks n b) (apply_actions enc wall t gtd acts w)"
  by (induction acts arbitrary: w)
    (simp_all add: apply_action_halts map_option_bind bind_map_option comp_def)

text \<open>
  The staleness task does not look at the kills, at the kill counter or at the weekend pause: it sends
  the same modifications and cancellations and reaches the same orders whatever they are.  In
  particular it keeps modifying resting orders to new prices while the trader is killed.
\<close>

theorem staleness_ignores_halts:
  "staleness_check lm tte_of enc wall mns (set_halts ks n paused w) =
     map_option (set_halts ks n paused) (staleness_check lm tte_of enc wall mns w)"
  by (simp add: staleness_check_def stale_action_halts apply_actions_halts)

text \<open>
  Two slips in the trader's view of its orders.  When an order's acknowledgement comes after its
  replacement at the same key was placed and acknowledged, or the other way round, both order ids
  point to the key, and a terminal status of the first one removes the entry of the second, which
  is still live.  And when the ring drops the cancellation of the staleness task, the order is removed
  from the view although it still rests.
\<close>

theorem view_loses_live_orders:
  "(let key = (trader_strike_key k, ex, to_ascii_uppercase c, CHR ''B'');
        ack = (\<lambda>oid. \<lparr>pa_order_id = oid, pa_strike = k, pa_expiry = ex, pa_right = c # cs, pa_side = ''BUY'', pa_price = px\<rparr>);
        w2 = on_place_ack t2 (ack new) (on_place_ack t1 (ack old) w);
        w3 = on_order_status \<lparr>oa_order_id = Some old, oa_status = Some ''Cancelled''\<rparr> w2
    in old \<noteq> new \<longrightarrow>
       (\<exists>r. map_of (our_orders (tr_shared w2)) key = Some r \<and> order_id r = Some new) \<and>
       map_of (our_orders (tr_shared w3)) key = None \<and> orderid_to_key w3 new = Some key) \<and>
   (write_frame (cmd_shm w) (cmd_ring w) (pack_frame body) = Some (False, m, r) \<and>
    enc_cancel enc \<lparr>cm_type = ''cancel_order'', cm_ts_ns = wall, cm_order_id = oid\<rparr> = Some body \<longrightarrow>
    (\<exists>w'. apply_action enc wall t1 gtd (Cancel oid key' dark) w = Some w' \<and>
      map_of (our_orders (tr_shared w')) key' = None))"
proof (rule conjI)
  let ?key = "(trader_strike_key k, ex, to_ascii_uppercase c, CHR ''B'')"
  let ?ack = "\<lambda>oid. \<lparr>pa_order_id = oid, pa_strike = k, pa_expiry = ex, pa_right = c # cs, pa_side = ''BUY'', pa_price = px\<rparr>"
  let ?w2 = "on_place_ack t2 (?ack new) (on_place_ack t1 (?ack old) w)"
  let ?w3 = "on_order_status \<lparr>oa_order_id = Some old, oa_status = Some ''Cancelled''\<rparr> ?w2"
  have ack: "map_of (our_orders (tr_shared (on_place_ack t (?ack oid) v))) ?key \<noteq> None"
    "order_id (the (map_of (our_orders (tr_shared (on_place_ack t (?ack oid) v))) ?key)) = Some oid"
    "orderid_to_key (on_place_ack t (?ack oid) v) = (orderid_to_key v)(oid \<mapsto> ?key)" for t oid v
    by (simp_all add: on_place_ack_def Let_def update_conv' split: option.split)
  have "?w3 = forget_order old ?w2" by (simp add: on_order_status_def terminal_status_def)
  moreover have "map_of (our_orders (tr_shared (forget_order old v))) ?key = None \<and>
      orderid_to_key (forget_order old v) new = Some ?key"
    if "orderid_to_key v old = Some ?key" "orderid_to_key v new = Some ?key" "old \<noteq> new" for v
    using that by (simp add: forget_order_def delete_conv')
  ultimately have "old \<noteq> new \<longrightarrow> (\<exists>r. map_of (our_orders (tr_shared ?w2)) ?key = Some r \<and> order_id r = Some new) \<and>
       map_of (our_orders (tr_shared ?w3)) ?key = None \<and> orderid_to_key ?w3 new = Some ?key"
    using ack(1,2) [of t2 new "on_place_ack t1 (?ack old) w"] ack(3) by (auto simp del: forget_order_simps)
  then show "let key = ?key; ack = ?ack; w2 = on_place_ack t2 (ack new) (on_place_ack t1 (ack old) w);
        w3 = on_order_status \<lparr>oa_order_id = Some old, oa_status = Some ''Cancelled''\<rparr> w2
    in old \<noteq> new \<longrightarrow>
       (\<exists>r. map_of (our_orders (tr_shared w2)) key = Some r \<and> order_id r = Some new) \<and>
       map_of (our_orders (tr_shared w3)) key = None \<and> orderid_to_key w3 new = Some key"
    unfolding Let_def .
qed (auto simp: send_encoded_def delete_conv')

theorem view_loses_live_orders_witness:
  "orderid_to_key (on_order_status \<lparr>oa_order_id = Some 1, oa_status = Some ''Cancelled''\<rparr>
     (on_place_ack 8 \<lparr>pa_order_id = 2, pa_strike = F64 0, pa_expiry = ''X'', pa_right = ''C'', pa_side = ''BUY'', pa_price = F64 1\<rparr>
       (on_place_ack 7 \<lparr>pa_order_id = 1, pa_strike = F64 0, pa_expiry = ''X'', pa_right = ''C'', pa_side = ''BUY'', pa_price = F64 1\<rparr>
         demo_world))) 2 \<noteq> None"
  using view_loses_live_orders [of "F64 0" "''X''" "CHR ''C''" "[]" "F64 1" 8 2 7 1 demo_world] by (simp add: Let_def)

end
