(* ===== verification/Trader_View.thy ===== *)
theory Trader_View
  imports Trader_Kills
begin

section \<open>The trader's view of its orders and the commands ring\<close>

text \<open>
  The sending half of \<^verbatim>\<open>on_tick\<close>: the in-place framing of the commands is the framing of
  \<open>Ipc_Protocol\<close>, the ring takes a subsequence of the frames, and the order table changes only
  where the ring took the command.
\<close>

subsection \<open>The view and the ring\<close>

text \<open>The commands of a decision, as bodies of frames.\<close>

fun decision_bodies :: "send_ctx \<Rightarrow> decision \<Rightarrow> bytes list" where
  "decision_bodies x (PlaceOrder s px old) =
     (case old of Some oid \<Rightarrow> [encode_cancel_into [] (cancel_msg x oid)] | None \<Rightarrow> []) @
     [encode_place_into [] (place_msg x s px)]"
| "decision_bodies x (ModifyOrder s oid px) = [encode_modify_into [] (modify_msg x oid px)]"
| "decision_bodies x (CancelAll ids) = map (\<lambda>oid. encode_cancel_into [] (cancel_msg x oid)) ids"

text \<open>An encoder only appends.\<close>

definition appends :: "(bytes \<Rightarrow> bytes) \<Rightarrow> bool" where
  "appends enc \<longleftrightarrow> (\<forall>b. enc b = b @ enc [])"

lemma writers_append:
  "appends (\<lambda>b. encode_cancel_into b c)" "appends (\<lambda>b. encode_place_into b p)" "appends (\<lambda>b. encode_modify_into b m)"
  by (simp_all add: appends_def encode_enc_map)

lemma frame_with_pack:
  assumes "appends enc"
  shows "frame_with buf enc = (buf @ pack_frame (enc []), length buf, length buf + length (pack_frame (enc [])))"
proof -
  have e: "enc (buf @ [0, 0, 0, 0]) = buf @ [0, 0, 0, 0] @ enc []"
    using assms unfolding appends_def by (metis append_assoc)
  then show ?thesis by (simp add: frame_with_def Let_def e write_at_def pack_frame_def)
qed

text \<open>
  The invariant of the loop that encodes the decisions: the buffer is the frames of the commands so
  far, the ranges cut it into them, and every tracked entry points at the frame of its command.
\<close>

definition buffer_ok :: "bytes list \<Rightarrow> outbox \<Rightarrow> bool" where
  "buffer_ok bodies ob \<longleftrightarrow>
     wire_buf ob = concat (map pack_frame bodies) \<and> outbox_frames ob = map pack_frame bodies \<and>
     list_all (\<lambda>(a, b). b \<le> length (wire_buf ob)) (frame_ranges ob)"

definition place_frame :: "send_ctx \<Rightarrow> decision set \<Rightarrow> bytes list \<Rightarrow> our_order_key \<times> our_order \<times> i64 option \<times> nat \<Rightarrow> bool" where
  "place_frame x ds bodies = (\<lambda>(key, order, old, i). \<exists>s px. PlaceOrder s px old \<in> ds \<and> key = send_key x s \<and>
     i < length bodies \<and> bodies ! i = encode_place_into [] (place_msg x s px))"

definition modify_frame :: "send_ctx \<Rightarrow> decision set \<Rightarrow> bytes list \<Rightarrow> our_order_key \<times> f64 \<times> i64 \<times> nat \<Rightarrow> bool" where
  "modify_frame x ds bodies = (\<lambda>(key, px, oid, i). \<exists>s. ModifyOrder s oid px \<in> ds \<and> key = send_key x s \<and>
     i < length bodies \<and> bodies ! i = encode_modify_into [] (modify_msg x oid px))"

definition cancel_frame :: "send_ctx \<Rightarrow> decision set \<Rightarrow> bytes list \<Rightarrow> i64 \<times> nat \<Rightarrow> bool" where
  "cancel_frame x ds bodies = (\<lambda>(oid, i). (\<exists>ids. CancelAll ids \<in> ds \<and> oid \<in> set ids) \<and>
     i < length bodies \<and> bodies ! i = encode_cancel_into [] (cancel_msg x oid))"

definition outbox_inv :: "send_ctx \<Rightarrow> decision set \<Rightarrow> bytes list \<Rightarrow> outbox \<Rightarrow> bool" where
  "outbox_inv x ds bodies ob \<longleftrightarrow> buffer_ok bodies ob \<and> list_all (place_frame x ds bodies) (places_to_track ob) \<and>
     list_all (modify_frame x ds bodies) (modifies_to_track ob) \<and> list_all (cancel_frame x ds bodies) (cancels_to_track ob)"

lemma frame_mono:
  "ds \<subseteq> ds' \<Longrightarrow> place_frame x ds bodies p \<Longrightarrow> place_frame x ds' (bodies @ bs) p"
  "ds \<subseteq> ds' \<Longrightarrow> modify_frame x ds bodies m \<Longrightarrow> modify_frame x ds' (bodies @ bs) m"
  "ds \<subseteq> ds' \<Longrightarrow> cancel_frame x ds bodies c \<Longrightarrow> cancel_frame x ds' (bodies @ bs) c"
  by (force simp: place_frame_def modify_frame_def cancel_frame_def nth_append split: prod.splits)+

lemma frame_mono_all:
  assumes "ds \<subseteq> ds'"
  shows "list_all (place_frame x ds bodies) ps \<Longrightarrow> list_all (place_frame x ds' (bodies @ bs)) ps"
    "list_all (modify_frame x ds bodies) ms \<Longrightarrow> list_all (modify_frame x ds' (bodies @ bs)) ms"
    "list_all (cancel_frame x ds bodies) cs \<Longrightarrow> list_all (cancel_frame x ds' (bodies @ bs)) cs"
  using frame_mono [OF assms] by (auto elim!: list.pred_mono_strong)

lemma buffer_ok_push:
  assumes "buffer_ok bodies ob" "appends enc"
  shows "buffer_ok (bodies @ [enc []]) (push_frame enc ob)"
proof -
  let ?f = "pack_frame (enc [])" and ?w = "wire_buf ob"
  have "subslice (?w @ ?f) a b = subslice ?w a b" if "b \<le> length ?w" for a b
    using that by (simp add: subslice_def)
  then have old: "map (\<lambda>(a, b). subslice (?w @ ?f) a b) (frame_ranges ob) = map pack_frame bodies"
    using assms(1) unfolding outbox_frames_def buffer_ok_def list_all_iff
    by (metis (mono_tags, lifting) case_prod_beta map_cong)
  have "subslice (?w @ ?f) (length ?w) (length ?w + length ?f) = ?f" by (simp add: subslice_def)
  then have "outbox_frames (push_frame enc ob) = map pack_frame (bodies @ [enc []])"
    unfolding outbox_frames_def push_frame_def frame_with_pack [OF assms(2)]
    by (simp add: old del: map_eq_conv length_pack_frame)
  moreover have "list_all (\<lambda>(a, b). b \<le> length (?w @ ?f)) (frame_ranges ob)"
    using assms(1) by (force simp: buffer_ok_def list_all_iff)
  ultimately show ?thesis
    using assms(1) unfolding buffer_ok_def by (simp add: push_frame_def frame_with_pack [OF assms(2)])
qed

lemma push_frame_simps [simp]:
  "places_to_track (push_frame enc ob) = places_to_track ob" "modifies_to_track (push_frame enc ob) = modifies_to_track ob"
  "cancels_to_track (push_frame enc ob) = cancels_to_track ob"
  by (simp_all add: push_frame_def split: prod.split)

lemma length_frame_ranges: "buffer_ok bodies ob \<Longrightarrow> length (frame_ranges ob) = length bodies"
  by (metis buffer_ok_def length_map outbox_frames_def)

lemma outbox_inv_mono:
  assumes "outbox_inv x ds bodies ob" "ds \<subseteq> ds'" shows "outbox_inv x ds' bodies ob"
  using assms frame_mono_all [OF assms(2), of x bodies _ "[]"] by (auto simp: outbox_inv_def)

lemma outbox_inv_push:
  assumes "outbox_inv x ds bodies ob" "appends enc" "ds \<subseteq> ds'"
  shows "outbox_inv x ds' (bodies @ [enc []]) (push_frame enc ob)"
  using assms(1) buffer_ok_push [OF _ assms(2)] frame_mono_all [OF assms(3)] by (simp add: outbox_inv_def)

lemma buffer_ok_tracking [simp]:
  "buffer_ok bodies (ob\<lparr>places_to_track := p\<rparr>) = buffer_ok bodies ob"
  "buffer_ok bodies (ob\<lparr>modifies_to_track := m\<rparr>) = buffer_ok bodies ob"
  "buffer_ok bodies (ob\<lparr>cancels_to_track := c\<rparr>) = buffer_ok bodies ob"
  "buffer_ok bodies (ob\<lparr>cancel_all_fired := f\<rparr>) = buffer_ok bodies ob"
  by (simp_all add: buffer_ok_def outbox_frames_def)

lemma outbox_inv_cancels:
  assumes "outbox_inv x ds bodies ob" "ds \<subseteq> ds'" "CancelAll all \<in> ds'" "set ids \<subseteq> set all"
  shows "outbox_inv x ds' (bodies @ map (\<lambda>oid. encode_cancel_into [] (cancel_msg x oid)) ids)
    (fold (\<lambda>oid b. (push_cancel x oid b)\<lparr>cancels_to_track := cancels_to_track b @ [(oid, length (frame_ranges b))]\<rparr>) ids ob)"
  using assms
proof (induction ids arbitrary: bodies ob ds)
  case Nil
  then show ?case using outbox_inv_mono [of x ds bodies ob ds'] by simp
next
  case (Cons oid ids)
  let ?b = "encode_cancel_into [] (cancel_msg x oid)"
  let ?ob = "(push_cancel x oid ob)\<lparr>cancels_to_track := cancels_to_track ob @ [(oid, length (frame_ranges ob))]\<rparr>"
  have len: "length (frame_ranges ob) = length bodies"
    using Cons.prems(1) length_frame_ranges by (auto simp: outbox_inv_def)
  have "outbox_inv x ds' (bodies @ [?b]) (push_cancel x oid ob)"
    using outbox_inv_push [OF Cons.prems(1) writers_append(1) Cons.prems(2)] by (simp add: push_cancel_def)
  moreover have "cancel_frame x ds' (bodies @ [?b]) (oid, length bodies)"
    using Cons.prems(3,4) by (auto simp: cancel_frame_def)
  ultimately have "outbox_inv x ds' (bodies @ [?b]) ?ob"
    by (simp add: outbox_inv_def push_cancel_def len)
  from Cons.IH [OF this subset_refl Cons.prems(3)] Cons.prems(4) show ?case by (simp add: len)
qed

lemma place_frame_last:
  "PlaceOrder s px old \<in> ds \<Longrightarrow>
    place_frame x ds (bs @ [encode_place_into [] (place_msg x s px)]) (send_key x s, ord, old, length bs)"
  by (auto simp: place_frame_def)

lemma outbox_inv_decision:
  assumes "outbox_inv x ds bodies ob"
  shows "outbox_inv x (insert d ds) (bodies @ decision_bodies x d) (encode_decision x d ob)"
proof (cases d)
  case (PlaceOrder s px old)
  let ?c = "case old of Some oid \<Rightarrow> [encode_cancel_into [] (cancel_msg x oid)] | None \<Rightarrow> []"
  let ?ob1 = "case old of Some oid \<Rightarrow> push_cancel x oid ob | None \<Rightarrow> ob"
  let ?p = "encode_place_into [] (place_msg x s px)"
  have ob1: "outbox_inv x (insert d ds) (bodies @ ?c) ?ob1"
  proof (cases old)
    case None
    then show ?thesis using outbox_inv_mono [OF assms, of "insert d ds"] by auto
  next
    case (Some oid)
    then show ?thesis
      using outbox_inv_push [OF assms writers_append(1), of "insert d ds"] by (auto simp: push_cancel_def)
  qed
  have len: "length (frame_ranges ?ob1) = length (bodies @ ?c)"
    using ob1 length_frame_ranges by (auto simp: outbox_inv_def simp del: length_append)
  have "outbox_inv x (insert d ds) ((bodies @ ?c) @ [?p]) (push_frame (\<lambda>b. encode_place_into b (place_msg x s px)) ?ob1)"
    by (rule outbox_inv_push [OF ob1 writers_append(2)]) simp
  moreover have "place_frame x (insert d ds) ((bodies @ ?c) @ [?p]) (send_key x s, ord, old, length (bodies @ ?c))" for ord
    by (rule place_frame_last) (simp add: PlaceOrder)
  ultimately show ?thesis
    using PlaceOrder len by (simp add: outbox_inv_def Let_def del: length_append)
next
  case (ModifyOrder s oid px)
  let ?m = "encode_modify_into [] (modify_msg x oid px)"
  have len: "length (frame_ranges ob) = length bodies"
    using assms length_frame_ranges by (auto simp: outbox_inv_def)
  have "outbox_inv x (insert d ds) (bodies @ [?m]) (push_frame (\<lambda>b. encode_modify_into b (modify_msg x oid px)) ob)"
    by (rule outbox_inv_push [OF assms writers_append(3)]) auto
  moreover have "modify_frame x (insert d ds) (bodies @ [?m]) (send_key x s, px, oid, length bodies)"
    by (auto simp: modify_frame_def ModifyOrder)
  ultimately show ?thesis using ModifyOrder len by (simp add: outbox_inv_def Let_def)
next
  case (CancelAll ids)
  from outbox_inv_cancels [OF assms, of "insert d ds" ids ids] CancelAll show ?thesis
    by (auto simp: outbox_inv_def Let_def)
qed

lemma outbox_inv_fold:
  "outbox_inv x es bodies ob \<Longrightarrow>
    outbox_inv x (set ds \<union> es) (bodies @ concat (map (decision_bodies x) ds)) (fold (encode_decision x) ds ob)"
proof (induction ds arbitrary: es bodies ob)
  case (Cons d ds)
  from Cons.IH [OF outbox_inv_decision [OF Cons.prems, of d]] show ?case by simp
qed simp

lemma outbox_inv_all:
  "outbox_inv x (set ds) (concat (map (decision_bodies x) ds)) (fold (encode_decision x) ds empty_outbox)"
proof -
  have "outbox_inv x {} [] empty_outbox"
    by (simp add: outbox_inv_def buffer_ok_def empty_outbox_def outbox_frames_def)
  from outbox_inv_fold [OF this, of ds] show ?thesis by simp
qed

text \<open>The ring takes the frames in order; a frame it drops leaves no trace in it.\<close>

definition kept :: "bool list \<Rightarrow> 'a list \<Rightarrow> 'a list" where
  "kept oks xs = map snd (filter fst (zip oks xs))"

lemma kept_simps [simp]: "kept [] xs = []" "kept (b # bs) (x # xs) = (if b then x # kept bs xs else kept bs xs)"
  by (simp_all add: kept_def)

lemma write_frames_step:
  assumes "ring_inv (capacity (cmd_ring w)) (cmd_shm w)"
    and "unat (hdr_write (cmd_shm w)) + length (concat fs) < 2 ^ 64"
  shows "\<exists>oks w'. write_frames fs w = Some (oks, w') \<and> length oks = length fs \<and>
    pending (capacity (cmd_ring w)) (cmd_shm w') = pending (capacity (cmd_ring w)) (cmd_shm w) @ concat (kept oks fs)"
  using assms
proof (induction fs arbitrary: w)
  case (Cons f fs)
  let ?cap = "capacity (cmd_ring w)"
  have b: "unat (hdr_write (cmd_shm w)) + length f < 2 ^ 64" using Cons.prems(2) by simp
  define cs where "cs ok = (if ok then tr_counters w else bump place_dropped 1 (tr_counters w))" for ok
  show ?case
  proof (cases "accepts ?cap (cmd_shm w) (length f)")
    case True
    with write_frame_step [OF Cons.prems(1) b] obtain m where
      m: "write_frame (cmd_shm w) (cmd_ring w) f = Some (True, m, cmd_ring w)" "stored ?cap (cmd_shm w) f m" by auto
    let ?w = "w\<lparr>cmd_shm := m, cmd_ring := cmd_ring w, tr_counters := tr_counters w\<rparr>"
    have "ring_inv (capacity (cmd_ring ?w)) (cmd_shm ?w)" "unat (hdr_write (cmd_shm ?w)) + length (concat fs) < 2 ^ 64"
      using m(2) Cons.prems(2) by (simp_all add: stored_def)
    from Cons.IH [OF this] obtain oks w' where "write_frames fs ?w = Some (oks, w')" "length oks = length fs"
      "pending ?cap (cmd_shm w') = pending ?cap m @ concat (kept oks fs)" by auto
    with m show ?thesis by (intro exI [of _ "True # oks"] exI [of _ w']) (simp add: stored_def)
  next
    case False
    let ?r = "(cmd_ring w)\<lparr>frames_dropped := frames_dropped (cmd_ring w) + 1\<rparr>"
    from False write_frame_step [OF Cons.prems(1) b]
    have m: "write_frame (cmd_shm w) (cmd_ring w) f = Some (False, cmd_shm w, ?r)" by simp
    let ?w = "w\<lparr>cmd_shm := cmd_shm w, cmd_ring := ?r, tr_counters := bump place_dropped 1 (tr_counters w)\<rparr>"
    have "ring_inv (capacity (cmd_ring ?w)) (cmd_shm ?w)" "unat (hdr_write (cmd_shm ?w)) + length (concat fs) < 2 ^ 64"
      using Cons.prems by simp_all
    from Cons.IH [OF this] obtain oks w' where "write_frames fs ?w = Some (oks, w')" "length oks = length fs"
      "pending ?cap (cmd_shm w') = pending ?cap (cmd_shm w) @ concat (kept oks fs)" by auto
    with m show ?thesis by (intro exI [of _ "False # oks"] exI [of _ w']) simp
  qed
qed simp

text \<open>Which keys a tracked entry can change, if its frame went out.\<close>

lemma ok_at_kept:
  "ok_at oks i \<Longrightarrow> length oks = length bs \<Longrightarrow> i < length bs \<and> bs ! i \<in> set (kept oks bs)"
proof (induction oks arbitrary: bs i)
  case (Cons ok oks)
  then obtain b bs' where bs: "bs = b # bs'" by (cases bs) auto
  show ?case
  proof (cases i)
    case (Suc j)
    then have "ok_at oks j" using Cons.prems(1) by (simp add: ok_at_def get_at_def split: if_splits)
    from Cons.IH [OF this, of bs'] Cons.prems(2) show ?thesis by (simp add: bs Suc)
  qed (use Cons.prems in \<open>simp add: bs ok_at_def get_at_def\<close>)
qed (simp add: ok_at_def get_at_def)

abbreviation order_at :: "trader \<Rightarrow> our_order_key \<Rightarrow> our_order option" where
  "order_at w key \<equiv> map_of (our_orders (tr_shared w)) key"

lemma fold_changes:
  assumes "\<And>e w. e \<in> set es \<Longrightarrow> \<not> touches e \<Longrightarrow> f (g e w) = f w"
  shows "f (fold g es w) \<noteq> f w \<Longrightarrow> \<exists>e \<in> set es. touches e"
  using assms
proof (induction es arbitrary: w)
  case (Cons e es)
  show ?case
  proof (cases "touches e")
    case False
    then have "f (g e w) = f w" using Cons.prems(2) by simp
    then have "f (fold g es (g e w)) \<noteq> f (g e w)" using Cons.prems(1) by simp
    from Cons.IH [OF this] Cons.prems(2) show ?thesis by simp
  qed simp
qed simp

lemma track_place_other: "\<not> (ok_at oks i \<and> key' = key) \<Longrightarrow> order_at (track_place oks (key', order, old, i) w) key = order_at w key"
  by (auto simp: track_place_def Let_def update_conv' map_orders_def split: option.split)

lemma track_modify_other: "\<not> (ok_at oks i \<and> key' = key) \<Longrightarrow> order_at (track_modify t oks (key', px, oid, i) w) key = order_at w key"
  by (auto simp: track_modify_def amend_order_def update_conv' split: option.split)

lemma track_cancel_keys: "orderid_to_key (track_cancel oks c w) oid \<noteq> None \<Longrightarrow>
    orderid_to_key (track_cancel oks c w) oid = orderid_to_key w oid"
  by (auto simp: track_cancel_def forget_order_def split: prod.splits option.splits if_splits)

lemma fold_track_cancel:
  assumes "order_at (fold (track_cancel oks) cs w) key \<noteq> order_at w key"
  shows "\<exists>(oid, i) \<in> set cs. ok_at oks i \<and> orderid_to_key w oid = Some key"
  using assms
proof (induction cs arbitrary: w)
  case (Cons c cs)
  obtain oid i where c: "c = (oid, i)" by (cases c)
  show ?case
  proof (cases "order_at (track_cancel oks c w) key = order_at w key")
    case True
    then have "\<exists>(oid, i) \<in> set cs. ok_at oks i \<and> orderid_to_key (track_cancel oks c w) oid = Some key"
      using Cons by simp
    then show ?thesis using track_cancel_keys [of oks c w] by fastforce
  next
    case False
    then have "ok_at oks i \<and> orderid_to_key w oid = Some key"
      by (auto simp: track_cancel_def c forget_order_def delete_conv' split: option.splits if_splits)
    then show ?thesis by (auto simp: c)
  qed
qed simp

text \<open>The command that explains a change at a key.\<close>

definition explains :: "send_ctx \<Rightarrow> decision set \<Rightarrow> (i64 \<rightharpoonup> our_order_key) \<Rightarrow> our_order_key \<Rightarrow> bytes \<Rightarrow> bool" where
  "explains x ds ids key body \<longleftrightarrow>
     (\<exists>s px old. PlaceOrder s px old \<in> ds \<and> key = send_key x s \<and> body = encode_place_into [] (place_msg x s px)) \<or>
     (\<exists>s oid px. ModifyOrder s oid px \<in> ds \<and> key = send_key x s \<and> body = encode_modify_into [] (modify_msg x oid px)) \<or>
     (\<exists>all oid. CancelAll all \<in> ds \<and> oid \<in> set all \<and> ids oid = Some key \<and> body = encode_cancel_into [] (cancel_msg x oid))"

lemma track_all_explained:
  assumes inv: "outbox_inv x ds bodies ob" and len: "length oks = length bodies"
    and change: "order_at (track_all t ob oks w) key \<noteq> order_at w key"
  shows "\<exists>body \<in> set (kept oks bodies). explains x ds (orderid_to_key w) key body"
proof -
  let ?w2 = "if cancel_all_fired ob then fold (track_cancel oks) (cancels_to_track ob) w else w"
  let ?w3 = "fold (track_place oks) (places_to_track ob) ?w2"
  note sent = ok_at_kept [OF _ len]
  consider "order_at (fold (track_modify t oks) (modifies_to_track ob) ?w3) key \<noteq> order_at ?w3 key"
    | "order_at ?w3 key \<noteq> order_at ?w2 key" | "order_at ?w2 key \<noteq> order_at w key"
    using change unfolding track_all_def Let_def by metis
  then show ?thesis
  proof cases
    case 1
    have "\<exists>e \<in> set (modifies_to_track ob). case e of (k, px, oid, i) \<Rightarrow> ok_at oks i \<and> k = key"
      by (rule fold_changes [where f = "\<lambda>w. order_at w key", OF _ 1]) (clarsimp, metis track_modify_other)
    then obtain px oid i where e: "(key, px, oid, i) \<in> set (modifies_to_track ob)" "ok_at oks i" by auto
    then have "modify_frame x ds bodies (key, px, oid, i)" using inv by (auto simp: outbox_inv_def list_all_iff)
    then show ?thesis using sent [OF e(2)] by (force simp: modify_frame_def explains_def)
  next
    case 2
    have "\<exists>e \<in> set (places_to_track ob). case e of (k, ord, old, i) \<Rightarrow> ok_at oks i \<and> k = key"
      by (rule fold_changes [where f = "\<lambda>w. order_at w key", OF _ 2]) (clarsimp, metis track_place_other)
    then obtain ord old i where e: "(key, ord, old, i) \<in> set (places_to_track ob)" "ok_at oks i" by auto
    then have "place_frame x ds bodies (key, ord, old, i)" using inv by (auto simp: outbox_inv_def list_all_iff)
    then show ?thesis using sent [OF e(2)] by (force simp: place_frame_def explains_def)
  next
    case 3
    then obtain oid i where e: "(oid, i) \<in> set (cancels_to_track ob)" "ok_at oks i" "orderid_to_key w oid = Some key"
      using fold_track_cancel [of oks "cancels_to_track ob" w key] by (auto split: if_splits)
    then have "cancel_frame x ds bodies (oid, i)" using inv by (auto simp: outbox_inv_def list_all_iff)
    then show ?thesis using sent [OF e(2)] e(3) by (force simp: cancel_frame_def explains_def)
  qed
qed

text \<open>
  \<^bold>\<open>C13.\<close> The trader's view of its orders follows the commands ring.  Whatever the decisions of a tick, sending
  them does not panic, appends to the ring exactly the frames of a subsequence of their commands, in
  order, and changes the order at a key only if the ring took the command that explains the change:
  the placement or modification for that key, or the cancellation of an id that pointed to it.  A
  command the ring drops leaves the view as it was.
\<close>

theorem view_follows_ring:
  assumes "ring_inv (capacity (cmd_ring w)) (cmd_shm w)"
    and "unat (hdr_write (cmd_shm w)) + length (concat (map pack_frame (concat (map (decision_bodies x) ds)))) < 2 ^ 64"
  shows "\<exists>w' oks. send_decisions x ds w = Some w' \<and> length oks = length (concat (map (decision_bodies x) ds)) \<and>
    pending (capacity (cmd_ring w)) (cmd_shm w') = pending (capacity (cmd_ring w)) (cmd_shm w) @
      concat (map pack_frame (kept oks (concat (map (decision_bodies x) ds)))) \<and>
    (\<forall>key. map_of (our_orders (tr_shared w')) key \<noteq> map_of (our_orders (tr_shared w)) key \<longrightarrow>
      (\<exists>body \<in> set (kept oks (concat (map (decision_bodies x) ds))). explains x (set ds) (orderid_to_key w) key body))"
proof -
  let ?bodies = "concat (map (decision_bodies x) ds)" and ?ob = "fold (encode_decision x) ds empty_outbox"
  have inv: "outbox_inv x (set ds) ?bodies ?ob" by (rule outbox_inv_all)
  then have frames: "outbox_frames ?ob = map pack_frame ?bodies" by (simp add: outbox_inv_def buffer_ok_def)
  from write_frames_step [OF assms] obtain oks w1 where
    w1: "write_frames (outbox_frames ?ob) w = Some (oks, w1)" "length oks = length ?bodies"
      "pending (capacity (cmd_ring w)) (cmd_shm w1) = pending (capacity (cmd_ring w)) (cmd_shm w) @
        concat (kept oks (map pack_frame ?bodies))"
    unfolding frames by auto
  have keep: "tr_shared w1 = tr_shared w" "orderid_to_key w1 = orderid_to_key w"
    using write_frames_keeps [OF w1(1)] by auto
  have "kept oks (map pack_frame ?bodies) = map pack_frame (kept oks ?bodies)"
    by (simp add: kept_def zip_map2 filter_map comp_def case_prod_beta)
  moreover have "cmd_shm (track_all (sc_mono x) ?ob oks w1) = cmd_shm w1"
    by (rule track_all_shm)
  ultimately show ?thesis
    using w1 track_all_explained [OF inv w1(2), of "sc_mono x" w1] keep
    by (intro exI [of _ "track_all (sc_mono x) ?ob oks w1"] exI [of _ oks]) (simp add: send_decisions_def Let_def)
qed

definition demo_send :: send_ctx where
  "demo_send = \<lparr>sc_wall = 1, sc_mono = 1, sc_tick = default_tick, sc_expiry = ''20260526'', sc_right = CHR ''C'', sc_gtd = 0\<rparr>"

theorem view_follows_ring_witness:
  "\<exists>w' oks. send_decisions demo_send [CancelAll [17]] demo_world = Some w' \<and> length oks = 1 \<and>
    pending 16 (cmd_shm w') = pending 16 demo_shm @ concat (map pack_frame (kept oks (decision_bodies demo_send (CancelAll [17]))))"
proof -
  have r: "ring_inv (capacity (cmd_ring demo_world)) (cmd_shm demo_world)" using demo_inv by (simp add: demo_world_def)
  have "length (encode_cancel_into [] (cancel_msg demo_send 17)) < 100"
    by (simp add: cancel_msg_def demo_send_def encode_cancel_into_def Let_def write_str_kv_def write_u64_kv_def
        write_i64_kv_def write_str_def write_fixstr_def)
  then have "unat (hdr_write (cmd_shm demo_world)) +
      length (concat (map pack_frame (concat (map (decision_bodies demo_send) [CancelAll [17]])))) < 2 ^ 64"
    by (simp add: demo_world_def demo_shm_def)
  from view_follows_ring [OF r this] show ?thesis by (simp add: demo_world_def demo_ring_def) blast
qed

end
