(* ===== verification/Ibkr_Codec.thy ===== *)
theory Ibkr_Codec
  imports Broker_Api
begin

section \<open>The IBKR wire codec\<close>

text \<open>
  \<^verbatim>\<open>rust/corsair_broker_ibkr_native/src/codec.rs\<close> with the constants of \<^verbatim>\<open>messages.rs\<close> and the
  errors of \<^verbatim>\<open>error.rs\<close>: frames of NUL-terminated fields behind a 4-byte length, and the text form
  of numbers in both directions.

  The formatters \<^verbatim>\<open>itoa\<close> and \<^verbatim>\<open>ryu\<close> are third-party crates; they are the two components of the
  parameter \<open>fmt\<close>.  What the standard library does (\<^verbatim>\<open>to_string\<close> and \<^verbatim>\<open>parse\<close> of integers and
  floats, \<^verbatim>\<open>from_utf8_lossy\<close>, \<^verbatim>\<open>split\<close>) is defined here.  Of an error message the model keeps the
  fixed text; the interpolated values are only logged.
\<close>

subsection \<open>Standard library: decimal numbers\<close>

fun nat_dec :: "nat \<Rightarrow> string" where
  "nat_dec n = (if n < 10 then [char_of (48 + n)] else nat_dec (n div 10) @ [char_of (48 + n mod 10)])"

declare nat_dec.simps [simp del]

definition int_dec :: "int \<Rightarrow> string" where
  "int_dec i = (if i < 0 then CHR ''-'' # nat_dec (nat (- i)) else nat_dec (nat i))"

definition digit_val :: "char \<Rightarrow> nat option" where
  "digit_val c = (let n = of_char c in if 48 \<le> n \<and> n \<le> 57 then Some (n - 48) else None)"

fun digits_val :: "nat \<Rightarrow> string \<Rightarrow> nat option" where
  "digits_val acc [] = Some acc"
| "digits_val acc (c # s) =
     (case digit_val c of None \<Rightarrow> None | Some d \<Rightarrow> digits_val (10 * acc + d) s)"

definition split_sign :: "string \<Rightarrow> bool \<times> string" where
  "split_sign s = (case s of c # r \<Rightarrow>
       if c = CHR ''-'' then (True, r) else if c = CHR ''+'' then (False, r) else (False, s)
     | [] \<Rightarrow> (False, []))"

text \<open>\<^verbatim>\<open>str::parse\<close> for an integer type of the given range: an optional sign and at least one digit.\<close>

definition parse_integer :: "int \<Rightarrow> int \<Rightarrow> string \<Rightarrow> int option" where
  "parse_integer lo hi s =
     (let (neg, ds) = split_sign s in
      if ds = [] then None
      else case digits_val 0 ds of
          None \<Rightarrow> None
        | Some n \<Rightarrow> let i = (if neg then - int n else int n) in if lo \<le> i \<and> i \<le> hi then Some i else None)"

text \<open>
  \<^verbatim>\<open>str::parse\<close> for \<^verbatim>\<open>f64\<close>: a sign, then \<^verbatim>\<open>inf\<close>, \<^verbatim>\<open>infinity\<close> or \<^verbatim>\<open>nan\<close> in any case, or digits with
  a point and an exponent; the result is the double nearest to the number written.
\<close>

definition is_digit :: "char \<Rightarrow> bool" where
  "is_digit c \<longleftrightarrow> digit_val c \<noteq> None"

definition parse_exponent :: "string \<Rightarrow> int option" where
  "parse_exponent s = (case s of
       [] \<Rightarrow> Some 0
     | c # r \<Rightarrow>
         if c = CHR ''e'' \<or> c = CHR ''E'' then
           (let (neg, ds) = split_sign r in
            if ds = [] then None else map_option (\<lambda>n. if neg then - int n else int n) (digits_val 0 ds))
         else None)"

definition ten_power :: "int \<Rightarrow> rat" where
  "ten_power e = (if 0 \<le> e then 10 ^ nat e else 1 / 10 ^ nat (- e))"

definition parse_decimal :: "bool \<Rightarrow> string \<Rightarrow> f64 option" where
  "parse_decimal neg s =
     (let whole = takeWhile is_digit s;
          r = dropWhile is_digit s;
          (frac, e) = (case r of
             c # r' \<Rightarrow> if c = CHR ''.'' then (takeWhile is_digit r', dropWhile is_digit r') else ([], r)
           | [] \<Rightarrow> ([], []))
      in if whole @ frac = [] then None
         else case (digits_val 0 (whole @ frac), parse_exponent e) of
             (Some n, Some k) \<Rightarrow>
               let q = of_nat n * ten_power (k - int (length frac))
               in Some (round_f64 neg (if neg then - q else q))
           | _ \<Rightarrow> None)"

definition parse_float :: "string \<Rightarrow> f64 option" where
  "parse_float s =
     (let (neg, r) = split_sign s; u = map to_ascii_uppercase r in
      if u = ''INF'' \<or> u = ''INFINITY'' then Some (f64_inf neg)
      else if u = ''NAN'' then Some (if neg then fneg f64_nan else f64_nan)
      else parse_decimal neg r)"

subsection \<open>Standard library: UTF-8\<close>

text \<open>
  One step of \<^verbatim>\<open>Utf8Chunks\<close>: whether a character starts the bytes, and its length; otherwise the
  length of the longest prefix of one, which \<^verbatim>\<open>from_utf8_lossy\<close> replaces by U+FFFD.
\<close>

definition byte_at :: "bytes \<Rightarrow> nat \<Rightarrow> u8" where
  "byte_at bs i = (if i < length bs then bs ! i else 0)"

definition utf8_cont :: "u8 \<Rightarrow> bool" where
  "utf8_cont b \<longleftrightarrow> 0x80 \<le> b \<and> b \<le> 0xBF"

definition utf8_second :: "u8 \<Rightarrow> u8 \<Rightarrow> bool" where
  "utf8_second a b \<longleftrightarrow>
     (if a = 0xE0 then 0xA0 \<le> b \<and> b \<le> 0xBF
      else if a = 0xED then 0x80 \<le> b \<and> b \<le> 0x9F
      else if a = 0xF0 then 0x90 \<le> b \<and> b \<le> 0xBF
      else if a = 0xF4 then 0x80 \<le> b \<and> b \<le> 0x8F
      else utf8_cont b)"

definition utf8_step :: "bytes \<Rightarrow> bool \<times> nat" where
  "utf8_step bs =
     (let a = byte_at bs 0 in
      if a < 0x80 then (True, 1)
      else if a < 0xC2 \<or> 0xF4 < a then (False, 1)
      else if \<not> utf8_second a (byte_at bs 1) then (False, 1)
      else if a < 0xE0 then (True, 2)
      else if \<not> utf8_cont (byte_at bs 2) then (False, 2)
      else if a < 0xF0 then (True, 3)
      else if \<not> utf8_cont (byte_at bs 3) then (False, 3)
      else (True, 4))"

lemma utf8_step_pos: "0 < snd (utf8_step bs)"
  by (simp add: utf8_step_def Let_def)

function lossy_bytes :: "bytes \<Rightarrow> bytes" where
  "lossy_bytes bs =
     (if bs = [] then []
      else let (ok, n) = utf8_step bs
           in (if ok then take n bs else [0xEF, 0xBF, 0xBD]) @ lossy_bytes (drop n bs))"
  by pat_completeness auto
termination lossy_bytes
proof (relation "measure length", goal_cases)
  case (2 bs x ok n)
  then have "0 < n" using utf8_step_pos [of bs] by (metis snd_conv)
  then show ?case using 2 by simp
qed simp

function valid_utf8 :: "bytes \<Rightarrow> bool" where
  "valid_utf8 bs =
     (if bs = [] then True else fst (utf8_step bs) \<and> valid_utf8 (drop (snd (utf8_step bs)) bs))"
  by pat_completeness auto
termination valid_utf8
  by (relation "measure length") (simp_all add: utf8_step_pos)

declare lossy_bytes.simps [simp del] valid_utf8.simps [simp del]

definition from_utf8_lossy :: "bytes \<Rightarrow> string" where
  "from_utf8_lossy bs = bytes_str (lossy_bytes bs)"

lemma lossy_bytes_valid: "valid_utf8 bs \<Longrightarrow> lossy_bytes bs = bs"
proof (induction bs rule: lossy_bytes.induct)
  case (1 bs)
  obtain ok n where s: "utf8_step bs = (ok, n)" by (cases "utf8_step bs")
  show ?case
  proof (cases "bs = []")
    case False
    then have "ok" "valid_utf8 (drop n bs)" using 1(2) s by (simp_all add: valid_utf8.simps [of bs])
    then show ?thesis using 1(1) False s by (simp add: lossy_bytes.simps [of bs])
  qed (simp add: lossy_bytes.simps)
qed

lemma ascii_valid_utf8: "(\<And>b. b \<in> set bs \<Longrightarrow> b < 0x80) \<Longrightarrow> valid_utf8 bs"
proof (induction bs)
  case (Cons b bs)
  then have "utf8_step (b # bs) = (True, 1)" by (simp add: utf8_step_def byte_at_def)
  then show ?case using Cons by (simp add: valid_utf8.simps [of "b # bs"])
qed (simp add: valid_utf8.simps)

subsection \<open>Constants and errors\<close>

datatype native_error =
    Io
  | Lost string
  | SocketNotConnected
  | Protocol string
  | ServerVersionTooLow i32 i32
  | HandshakeTimeout
  | Malformed string

definition MAX_MESSAGE_BYTES :: nat where "MAX_MESSAGE_BYTES = 16 * 1024 * 1024"

definition OUT_REQ_MKT_DATA :: i32 where "OUT_REQ_MKT_DATA = 1"
definition OUT_CANCEL_MKT_DATA :: i32 where "OUT_CANCEL_MKT_DATA = 2"
definition OUT_PLACE_ORDER :: i32 where "OUT_PLACE_ORDER = 3"
definition OUT_CANCEL_ORDER :: i32 where "OUT_CANCEL_ORDER = 4"
definition OUT_REQ_MKT_DEPTH :: i32 where "OUT_REQ_MKT_DEPTH = 10"
definition OUT_CANCEL_MKT_DEPTH :: i32 where "OUT_CANCEL_MKT_DEPTH = 11"
definition OUT_REQ_OPEN_ORDERS :: i32 where "OUT_REQ_OPEN_ORDERS = 5"
definition OUT_REQ_ACCT_DATA :: i32 where "OUT_REQ_ACCT_DATA = 6"
definition OUT_REQ_EXECUTIONS :: i32 where "OUT_REQ_EXECUTIONS = 7"
definition OUT_REQ_CONTRACT_DATA :: i32 where "OUT_REQ_CONTRACT_DATA = 9"
definition OUT_REQ_AUTO_OPEN_ORDERS :: i32 where "OUT_REQ_AUTO_OPEN_ORDERS = 15"
definition OUT_REQ_POSITIONS :: i32 where "OUT_REQ_POSITIONS = 61"
definition OUT_START_API :: i32 where "OUT_START_API = 71"

definition MIN_SERVER_VERSION :: i32 where "MIN_SERVER_VERSION = 176"
definition MAX_CLIENT_VERSION :: i32 where "MAX_CLIENT_VERSION = 176"

subsection \<open>Frames\<close>

definition encode_fields :: "string list \<Rightarrow> bytes" where
  "encode_fields flds =
     (let payload = concat (map (\<lambda>f. str_bytes f @ [0]) flds)
      in u32_be (of_nat (length payload)) @ payload)"

definition encode_owned :: "string list \<Rightarrow> bytes" where
  "encode_owned flds = encode_fields flds"

text \<open>\<^verbatim>\<open>slice::split\<close>: the maximal runs between the separators, empty ones included.\<close>

fun split_at_sep :: "('a \<Rightarrow> bool) \<Rightarrow> 'a list \<Rightarrow> 'a list list" where
  "split_at_sep p [] = [[]]"
| "split_at_sep p (x # xs) =
     (if p x then [] # split_at_sep p xs
      else case split_at_sep p xs of [] \<Rightarrow> [[x]] | ys # yss \<Rightarrow> (x # ys) # yss)"

text \<open>The result of the call and the buffer it leaves.\<close>

definition try_decode_frame :: "bytes \<Rightarrow> (native_error + string list option) \<times> bytes" where
  "try_decode_frame buf =
     (if length buf < 4 then (Inr None, buf)
      else let size = be_nat (take 4 buf) in
        if MAX_MESSAGE_BYTES < size then (Inl (Protocol ''oversize message''), buf)
        else if length buf < 4 + size then (Inr None, buf)
        else
          let payload = subslice buf 4 (4 + size);
              flds = map from_utf8_lossy (split_at_sep (\<lambda>b. b = 0) payload);
              flds' = (if flds \<noteq> [] \<and> List.last flds = [] then butlast flds else flds)
          in (Inr (Some flds'), drop (4 + size) buf))"

lemma try_decode_frame_shorter:
  "try_decode_frame buf = (Inr (Some flds), rest) \<Longrightarrow> length rest < length buf"
  by (auto simp: try_decode_frame_def Let_def split: if_splits)

function try_decode_all :: "bytes \<Rightarrow> (native_error + string list list) \<times> bytes" where
  "try_decode_all buf =
     (case try_decode_frame buf of
        (Inl e, rest) \<Rightarrow> (Inl e, rest)
      | (Inr None, rest) \<Rightarrow> (Inr [], rest)
      | (Inr (Some flds), rest) \<Rightarrow>
          (case try_decode_all rest of
             (Inl e, rest') \<Rightarrow> (Inl e, rest')
           | (Inr out, rest') \<Rightarrow> (Inr (flds # out), rest')))"
  by pat_completeness auto
termination try_decode_all
  by (relation "measure length") (auto dest: try_decode_frame_shorter [OF sym])

declare try_decode_all.simps [simp del]

definition encode_handshake :: "i32 \<Rightarrow> i32 \<Rightarrow> bytes" where
  "encode_handshake min_version max_version =
     (let version_str = ''v'' @ int_dec (sint min_version) @ ''..'' @ int_dec (sint max_version)
      in str_bytes ''API'' @ [0] @ u32_be (of_nat (length version_str)) @ str_bytes version_str)"

subsection \<open>Field text\<close>

text \<open>The number formatters of the crates \<^verbatim>\<open>itoa\<close> and \<^verbatim>\<open>ryu\<close>.\<close>

record fmt =
  itoa :: "int \<Rightarrow> string"
  ryu :: "f64 \<Rightarrow> string"

definition encode_int :: "fmt \<Rightarrow> i32 \<Rightarrow> string" where
  "encode_int F v = itoa F (sint v)"

definition encode_int64 :: "fmt \<Rightarrow> i64 \<Rightarrow> string" where
  "encode_int64 F v = itoa F (sint v)"

definition encode_f64 :: "fmt \<Rightarrow> f64 \<Rightarrow> string" where
  "encode_f64 F v = (if is_infinite v then ''Infinite'' else ryu F v)"

definition encode_qty :: "fmt \<Rightarrow> f64 \<Rightarrow> string" where
  "encode_qty F v =
     (if feq (ffract v) 0 \<and> is_finite v \<and> \<bar>v\<bar> < lit 1000000000000000000
      then itoa F (sint (f64_as_i64 v)) else encode_f64 F v)"

definition write_int :: "fmt \<Rightarrow> bytes \<Rightarrow> i32 \<Rightarrow> bytes" where
  "write_int F buf v = buf @ str_bytes (itoa F (sint v))"

definition write_int64 :: "fmt \<Rightarrow> bytes \<Rightarrow> i64 \<Rightarrow> bytes" where
  "write_int64 F buf v = buf @ str_bytes (itoa F (sint v))"

definition write_f64 :: "fmt \<Rightarrow> bytes \<Rightarrow> f64 \<Rightarrow> bytes" where
  "write_f64 F buf v = (if is_infinite v then buf @ str_bytes ''Infinite'' else buf @ str_bytes (ryu F v))"

definition write_qty :: "fmt \<Rightarrow> bytes \<Rightarrow> f64 \<Rightarrow> bytes" where
  "write_qty F buf v =
     (if feq (ffract v) 0 \<and> is_finite v \<and> \<bar>v\<bar> < lit 1000000000000000000
      then buf @ str_bytes (itoa F (sint (f64_as_i64 v))) else write_f64 F buf v)"

definition encode_bool :: "bool \<Rightarrow> string" where
  "encode_bool v = (if v then ''1'' else ''0'')"

definition encode_unset :: string where "encode_unset = []"

definition parse_int :: "string \<Rightarrow> native_error + i32" where
  "parse_int s = (case parse_integer (- (2 ^ 31)) (2 ^ 31 - 1) s of
       Some i \<Rightarrow> Inr (word_of_int i) | None \<Rightarrow> Inl (Malformed ''expected int''))"

definition parse_int64 :: "string \<Rightarrow> native_error + i64" where
  "parse_int64 s = (case parse_integer (- (2 ^ 63)) (2 ^ 63 - 1) s of
       Some i \<Rightarrow> Inr (word_of_int i) | None \<Rightarrow> Inl (Malformed ''expected int64''))"

definition parse_f64 :: "string \<Rightarrow> native_error + f64" where
  "parse_f64 s =
     (if s = [] then Inr 0
      else if s = ''Infinite'' then Inr (f64_inf False)
      else case parse_float s of Some x \<Rightarrow> Inr x | None \<Rightarrow> Inl (Malformed ''expected f64''))"

definition parse_bool :: "string \<Rightarrow> bool" where
  "parse_bool s \<longleftrightarrow> s = ''1'' \<or> map to_ascii_uppercase s = ''TRUE''"

subsection \<open>Decimal round trips\<close>

lemma digit_val_char [simp]: "d < 10 \<Longrightarrow> digit_val (char_of (48 + d)) = Some d"
  by (simp add: digit_val_def of_char_of)

lemma digit_chars:
  "char_of (48 :: nat) = CHR ''0''"
  "char_of (49 :: nat) = CHR ''1''"
  "char_of (50 :: nat) = CHR ''2''"
  "char_of (51 :: nat) = CHR ''3''"
  "char_of (52 :: nat) = CHR ''4''"
  "char_of (53 :: nat) = CHR ''5''"
  "char_of (54 :: nat) = CHR ''6''"
  "char_of (55 :: nat) = CHR ''7''"
  "char_of (56 :: nat) = CHR ''8''"
  "char_of (57 :: nat) = CHR ''9''"
  by code_simp+

lemma digits_val_append: "digits_val acc (s @ t) = Option.bind (digits_val acc s) (\<lambda>n. digits_val n t)"
  by (induction s arbitrary: acc) (auto split: option.splits)

lemma digits_val_nat_dec: "digits_val 0 (nat_dec n) = Some n"
proof (induction n rule: nat_dec.induct)
  case (1 n)
  show ?case
    by (cases "n < 10") (simp_all add: nat_dec.simps [of n] 1 digits_val_append)
qed

lemma digit_not_sign:
  "d < (10 :: nat) \<Longrightarrow> char_of (48 + d) \<noteq> CHR ''-''" "d < (10 :: nat) \<Longrightarrow> char_of (48 + d) \<noteq> CHR ''+''"
  by (auto dest: arg_cong [where f = "of_char :: char \<Rightarrow> nat"] simp: of_char_of)

lemma nat_dec_head: "\<exists>c r. nat_dec n = c # r \<and> c \<noteq> CHR ''-'' \<and> c \<noteq> CHR ''+''"
proof (induction n rule: nat_dec.induct)
  case (1 n)
  then show ?case by (cases "n < 10") (auto simp: nat_dec.simps [of n] digit_not_sign)
qed

lemma split_sign_nat_dec [simp]: "split_sign (nat_dec n) = (False, nat_dec n)"
  using nat_dec_head [of n] by (auto simp: split_sign_def)

lemma nat_dec_not_Nil [simp]: "nat_dec n \<noteq> []"
  using nat_dec_head [of n] by auto

lemma parse_integer_int_dec:
  "lo \<le> i \<Longrightarrow> i \<le> hi \<Longrightarrow> parse_integer lo hi (int_dec i) = Some i"
  by (auto simp: parse_integer_def int_dec_def digits_val_nat_dec split_sign_def [of "_ # _"])

lemma parse_int_dec [simp]: "parse_int (int_dec (sint v)) = Inr v"
  using i32_range [of v] by (simp add: parse_int_def parse_integer_int_dec)

lemma parse_int64_dec [simp]: "parse_int64 (int_dec (sint v)) = Inr v"
  using sint_greater_eq [of v] sint_less [of v] by (simp add: parse_int64_def parse_integer_int_dec)

subsection \<open>Frames on a byte stream\<close>

text \<open>A field survives the wire if it is UTF-8, as every Rust string is, and has no NUL.\<close>

definition field_ok :: "string \<Rightarrow> bool" where
  "field_ok f \<longleftrightarrow> valid_utf8 (str_bytes f) \<and> 0 \<notin> set (str_bytes f)"

lemma str_bytes_Nil [simp]: "str_bytes [] = []"
  by (simp add: str_bytes_def)

text \<open>ASCII text without NUL is such a field; this is how concrete fields are checked.\<close>

definition ascii_field :: "string \<Rightarrow> bool" where
  "ascii_field f \<longleftrightarrow> list_all (\<lambda>c. 0 < (of_char c :: nat) \<and> (of_char c :: nat) < 128) f"

lemma ascii_field_ok:
  assumes "ascii_field f"
  shows "field_ok f"
proof -
  have "b \<noteq> 0 \<and> b < 0x80" if m: "b \<in> set (str_bytes f)" for b
  proof -
    from m obtain c where c: "c \<in> set f" "b = of_char c" unfolding str_bytes_def set_map by (rule imageE)
    moreover have "0 < (of_char c :: nat)" "(of_char c :: nat) < 128"
      using c assms by (auto simp: ascii_field_def list_all_iff)
    ultimately have "0 < unat b" "unat b < 128" by (simp_all add: unat_of_char)
    then show ?thesis by (auto simp: word_less_nat_alt)
  qed
  then show ?thesis by (auto simp: field_ok_def intro: ascii_valid_utf8)
qed

definition payload_of :: "string list \<Rightarrow> bytes" where
  "payload_of flds = concat (map (\<lambda>f. str_bytes f @ [0]) flds)"

definition msg_ok :: "string list \<Rightarrow> bool" where
  "msg_ok flds \<longleftrightarrow> list_all field_ok flds \<and> length (payload_of flds) \<le> MAX_MESSAGE_BYTES"

lemma split_at_sep_append:
  "\<forall>x\<in>set xs. \<not> p x \<Longrightarrow> p y \<Longrightarrow> split_at_sep p (xs @ y # ys) = xs # split_at_sep p ys"
  by (induction xs) auto

lemma split_payload:
  "list_all field_ok flds \<Longrightarrow>
     split_at_sep (\<lambda>b. b = 0) (payload_of flds) = map str_bytes flds @ [[]]"
proof (induction flds)
  case (Cons f flds)
  have "\<forall>x\<in>set (str_bytes f). x \<noteq> 0" using Cons.prems by (auto simp: field_ok_def)
  then show ?case using Cons by (simp add: payload_of_def split_at_sep_append)
qed (simp add: payload_of_def)

lemma from_utf8_lossy_field [simp]: "field_ok f \<Longrightarrow> from_utf8_lossy (str_bytes f) = f"
  by (simp add: field_ok_def from_utf8_lossy_def lossy_bytes_valid)

lemma encode_fields_payload:
  "encode_fields flds = u32_be (of_nat (length (payload_of flds))) @ payload_of flds"
  by (simp add: encode_fields_def payload_of_def Let_def)

lemma be_nat_frame_length:
  "msg_ok flds \<Longrightarrow> be_nat (u32_be (of_nat (length (payload_of flds)))) = length (payload_of flds)"
  by (simp add: msg_ok_def MAX_MESSAGE_BYTES_def be_nat_u_be unat_of_nat)

lemma encoded_frame:
  "length (encode_fields flds @ rest) = 4 + length (payload_of flds) + length rest"
  "subslice (encode_fields flds @ rest) 4 (4 + length (payload_of flds)) = payload_of flds"
  "drop (4 + length (payload_of flds)) (encode_fields flds @ rest) = rest"
  "msg_ok flds \<Longrightarrow> be_nat (take 4 (encode_fields flds @ rest)) = length (payload_of flds)"
  by (simp_all add: encode_fields_payload subslice_append_left be_nat_frame_length)

lemma try_decode_encoded:
  assumes "msg_ok flds"
  shows "try_decode_frame (encode_fields flds @ rest) = (Inr (Some flds), rest)"
proof -
  have "map (from_utf8_lossy \<circ> str_bytes) flds = flds"
    using assms by (intro map_idI) (simp add: msg_ok_def list_all_iff)
  moreover have "from_utf8_lossy [] = []"
    by (simp add: from_utf8_lossy_def lossy_bytes.simps bytes_str_def)
  moreover have "list_all field_ok flds" "length (payload_of flds) \<le> MAX_MESSAGE_BYTES"
    using assms by (simp_all add: msg_ok_def)
  ultimately show ?thesis
    using encoded_frame [of flds rest] assms
    by (simp add: try_decode_frame_def Let_def split_payload not_less)
qed

lemma try_decode_frame_append:
  "try_decode_frame buf = (Inr (Some flds), rest) \<Longrightarrow>
     try_decode_frame (buf @ more_data) = (Inr (Some flds), rest @ more_data)"
  by (auto simp: try_decode_frame_def Let_def subslice_def split: if_splits)

text \<open>Decoding what has arrived and decoding the rest later is decoding everything at once.\<close>

lemma try_decode_all_append:
  "try_decode_all buf = (Inr out, rest) \<Longrightarrow>
     try_decode_all (buf @ more_data) =
       (case try_decode_all (rest @ more_data) of
          (Inl e, r) \<Rightarrow> (Inl e, r) | (Inr out', r) \<Rightarrow> (Inr (out @ out'), r))"
proof (induction buf arbitrary: out rule: try_decode_all.induct)
  case (1 buf)
  from "1.prems" consider
      (none) "try_decode_frame buf = (Inr None, rest)" "out = []"
    | (some) flds r out' where "try_decode_frame buf = (Inr (Some flds), r)"
        "try_decode_all r = (Inr out', rest)" "out = flds # out'"
    by (auto simp: try_decode_all.simps [of buf] split: prod.splits sum.splits option.splits)
  then show ?case
  proof cases
    case none
    then have "buf = rest" by (auto simp: try_decode_frame_def Let_def split: if_splits)
    then show ?thesis using none by (simp split: prod.splits sum.splits)
  next
    case some
    have "try_decode_all (r @ more_data) =
        (case try_decode_all (rest @ more_data) of
           (Inl e, r') \<Rightarrow> (Inl e, r') | (Inr o', r') \<Rightarrow> (Inr (out' @ o'), r'))"
      by (rule "1.IH" [OF some(1) [symmetric] refl refl some(2)])
    then show ?thesis
      using some(3) try_decode_frame_append [OF some(1)]
      by (simp add: try_decode_all.simps [of "buf @ more_data"] split: prod.splits sum.splits)
  qed
qed

lemma try_decode_all_error:
  "try_decode_all buf = (Inl e, rest) \<Longrightarrow> fst (try_decode_all (buf @ more_data)) = Inl e"
proof (induction buf arbitrary: rest rule: try_decode_all.induct)
  case (1 buf)
  from "1.prems" consider
      (err) "try_decode_frame buf = (Inl e, rest)"
    | (some) flds r where "try_decode_frame buf = (Inr (Some flds), r)" "try_decode_all r = (Inl e, rest)"
    by (auto simp: try_decode_all.simps [of buf] split: prod.splits sum.splits option.splits)
  then show ?case
  proof cases
    case err
    then have "try_decode_frame (buf @ more_data) = (Inl e, rest @ more_data)"
      by (auto simp: try_decode_frame_def Let_def split: if_splits)
    then show ?thesis by (simp add: try_decode_all.simps [of "buf @ more_data"])
  next
    case some
    have "fst (try_decode_all (r @ more_data)) = Inl e"
      by (rule "1.IH" [OF some(1) [symmetric] refl refl some(2)])
    then show ?thesis
      using try_decode_frame_append [OF some(1)]
      by (auto simp: try_decode_all.simps [of "buf @ more_data"] split: prod.splits sum.splits)
  qed
qed

lemma try_decode_all_rest:
  "try_decode_all buf = (Inr out, rest) \<Longrightarrow> try_decode_frame rest = (Inr None, rest)"
proof (induction buf arbitrary: out rule: try_decode_all.induct)
  case (1 buf)
  then show ?case
    by (auto simp: try_decode_all.simps [of buf] split: prod.splits sum.splits option.splits)
      (auto simp: try_decode_frame_def Let_def split: if_splits)
qed

text \<open>A prefix of a decodable stream decodes to a prefix of its frames.\<close>

lemma try_decode_all_prefix:
  assumes "try_decode_all (buf @ more_data) = (Inr out, tail)"
  obtains out1 out2 rest where "try_decode_all buf = (Inr out1, rest)" "out = out1 @ out2"
    "try_decode_all (rest @ more_data) = (Inr out2, tail)"
proof (cases "try_decode_all buf")
  case (Pair r rest)
  show ?thesis
  proof (cases r)
    case (Inl e)
    then have False using assms Pair try_decode_all_error [of buf e rest more_data] by simp
    then show ?thesis ..
  next
    case (Inr out1)
    then show ?thesis
      using that assms Pair try_decode_all_append [of buf out1 rest more_data]
      by (auto split: prod.splits sum.splits)
  qed
qed

lemma try_decode_all_encoded:
  "list_all msg_ok msgs \<Longrightarrow> try_decode_frame tail = (Inr None, tail) \<Longrightarrow>
     try_decode_all (concat (map encode_fields msgs) @ tail) = (Inr msgs, tail)"
proof (induction msgs)
  case (Cons m msgs)
  have "msg_ok m" using Cons.prems by simp
  then show ?case
    using Cons try_decode_encoded [of m "concat (map encode_fields msgs) @ tail"]
    by (simp add: try_decode_all.simps [of "encode_fields m @ concat (map encode_fields msgs) @ tail"])
qed (simp add: try_decode_all.simps)

end
