(* ===== verification/Ibkr_Decoder.thy ===== *)
theory Ibkr_Decoder
  imports Ibkr_Codec
begin

section \<open>Inbound IBKR messages\<close>

text \<open>
  \<^verbatim>\<open>decoder.rs\<close> with the message types of \<^verbatim>\<open>types.rs\<close>: the positional parsers of the inbound
  messages and the dispatch on the type id.  A parser checks the number of fields and then indexes
  them; indexing beyond the end would be a panic, which is an outcome of its own here.
\<close>

subsection \<open>Messages\<close>

record contract_decoded =
  cd_con_id :: i64
  cd_symbol :: string
  cd_sec_type :: string
  cd_last_trade_date :: string
  cd_strike :: f64
  cd_right :: string
  cd_multiplier :: string
  cd_exchange :: string
  cd_primary_exchange :: string
  cd_currency :: string
  cd_local_symbol :: string
  cd_trading_class :: string

record position_msg =
  pm_account :: string
  pm_contract :: contract_decoded
  pm_position :: f64
  pm_avg_cost :: f64

record account_value_msg =
  av_key :: string
  av_value :: string
  av_currency :: string
  av_account :: string

record open_order_msg =
  oo_order_id :: i32
  oo_contract :: contract_decoded
  oo_action :: string
  oo_total_quantity :: f64
  oo_order_type :: string
  oo_lmt_price :: f64
  oo_tif :: string
  oo_account :: string
  oo_order_ref :: string
  oo_status :: string
  oo_filled :: f64
  oo_remaining :: f64

record order_status_msg =
  os_order_id :: i32
  os_status :: string
  os_filled :: f64
  os_remaining :: f64
  os_avg_fill_price :: f64
  os_perm_id :: i32
  os_parent_id :: i32
  os_last_fill_price :: f64
  os_client_id :: i32
  os_why_held :: string
  os_mkt_cap_price :: f64

record execution_msg =
  ex_req_id :: i32
  ex_order_id :: i32
  ex_contract :: contract_decoded
  ex_exec_id :: string
  ex_time :: string
  ex_account :: string
  ex_exchange :: string
  ex_side :: string
  ex_shares :: f64
  ex_price :: f64
  ex_perm_id :: i32
  ex_client_id :: i32
  ex_liquidation :: i32
  ex_cum_qty :: f64
  ex_avg_price :: f64
  ex_order_ref :: string

record commission_report_msg =
  cm_exec_id :: string
  cm_commission :: f64
  cm_currency :: string
  cm_realized_pnl :: f64

record contract_details_msg =
  cdm_req_id :: i32
  cdm_contract :: contract_decoded

record tick_price_msg =
  tp_req_id :: i32
  tp_tick_type :: i32
  tp_price :: f64
  tp_attribs :: i32

record tick_size_msg =
  ts_req_id :: i32
  ts_tick_type :: i32
  ts_size :: f64

record tick_option_computation_msg =
  oc_req_id :: i32
  oc_tick_type :: i32
  oc_tick_attrib :: i32
  oc_implied_vol :: f64
  oc_delta :: f64
  oc_opt_price :: f64
  oc_pv_dividend :: f64
  oc_gamma :: f64
  oc_vega :: f64
  oc_theta :: f64
  oc_und_price :: f64

record market_depth_msg =
  md_req_id :: i32
  md_position :: i32
  md_operation :: i32
  md_side :: i32
  md_price :: f64
  md_size :: f64
  md_market_maker :: "string option"
  md_is_smart_depth :: bool

record error_msg =
  er_req_id :: i32
  er_error_code :: i32
  er_error_string :: string
  er_advanced_order_reject_json :: string

datatype inbound_msg =
    PositionIn position_msg
  | PositionEnd
  | AccountValue account_value_msg
  | AccountUpdateTime string
  | AccountDownloadEnd string
  | OpenOrderIn open_order_msg
  | OpenOrderEnd
  | OrderStatusIn order_status_msg
  | Execution execution_msg
  | ExecutionEnd i32
  | CommissionReport commission_report_msg
  | ContractDetails contract_details_msg
  | ContractDetailsEnd i32
  | TickPrice tick_price_msg
  | TickSize tick_size_msg
  | TickOptionComputation tick_option_computation_msg
  | MarketDepth market_depth_msg
  | ErrorIn error_msg
  | NextValidId i32
  | ManagedAccounts "string list"
  | Unparsed i32 "string list"

definition IN_TICK_PRICE :: i32 where "IN_TICK_PRICE = 1"
definition IN_TICK_SIZE :: i32 where "IN_TICK_SIZE = 2"
definition IN_ORDER_STATUS :: i32 where "IN_ORDER_STATUS = 3"
definition IN_ERR_MSG :: i32 where "IN_ERR_MSG = 4"
definition IN_OPEN_ORDER :: i32 where "IN_OPEN_ORDER = 5"
definition IN_ACCT_VALUE :: i32 where "IN_ACCT_VALUE = 6"
definition IN_PORTFOLIO_VALUE :: i32 where "IN_PORTFOLIO_VALUE = 7"
definition IN_ACCT_UPDATE_TIME :: i32 where "IN_ACCT_UPDATE_TIME = 8"
definition IN_NEXT_VALID_ID :: i32 where "IN_NEXT_VALID_ID = 9"
definition IN_CONTRACT_DATA :: i32 where "IN_CONTRACT_DATA = 10"
definition IN_CONTRACT_DATA_END :: i32 where "IN_CONTRACT_DATA_END = 52"
definition IN_EXECUTION_DATA :: i32 where "IN_EXECUTION_DATA = 11"
definition IN_MANAGED_ACCTS :: i32 where "IN_MANAGED_ACCTS = 15"
definition IN_MARKET_DEPTH :: i32 where "IN_MARKET_DEPTH = 12"
definition IN_MARKET_DEPTH_L2 :: i32 where "IN_MARKET_DEPTH_L2 = 13"
definition IN_TICK_OPTION_COMPUTATION :: i32 where "IN_TICK_OPTION_COMPUTATION = 21"
definition IN_COMMISSION_REPORT :: i32 where "IN_COMMISSION_REPORT = 59"
definition IN_POSITION_DATA :: i32 where "IN_POSITION_DATA = 61"
definition IN_POSITION_END :: i32 where "IN_POSITION_END = 62"
definition IN_OPEN_ORDER_END :: i32 where "IN_OPEN_ORDER_END = 53"
definition IN_ACCOUNT_DOWNLOAD_END :: i32 where "IN_ACCOUNT_DOWNLOAD_END = 54"
definition IN_EXECUTION_DATA_END :: i32 where "IN_EXECUTION_DATA_END = 55"

subsection \<open>Outcomes\<close>

datatype 'a parsed = Parsed 'a | Bad native_error | Panic

fun bindP :: "'a parsed \<Rightarrow> ('a \<Rightarrow> 'b parsed) \<Rightarrow> 'b parsed" where
  "bindP (Parsed x) f = f x"
| "bindP (Bad e) f = Bad e"
| "bindP Panic f = Panic"

fun lift :: "native_error + 'a \<Rightarrow> 'a parsed" where
  "lift (Inl e) = Bad e"
| "lift (Inr x) = Parsed x"

definition idx :: "'a list \<Rightarrow> nat \<Rightarrow> 'a parsed" where
  "idx xs i = (if i < length xs then Parsed (xs ! i) else Panic)"

definition get_or :: "string list \<Rightarrow> nat \<Rightarrow> string \<Rightarrow> string" where
  "get_or flds i d = (if i < length flds then flds ! i else d)"

definition int_at :: "string list \<Rightarrow> nat \<Rightarrow> i32 parsed" where
  "int_at flds i = bindP (idx flds i) (\<lambda>t. lift (parse_int t))"

definition int64_at :: "string list \<Rightarrow> nat \<Rightarrow> i64 parsed" where
  "int64_at flds i = bindP (idx flds i) (\<lambda>t. lift (parse_int64 t))"

definition f64_at :: "string list \<Rightarrow> nat \<Rightarrow> f64 parsed" where
  "f64_at flds i = bindP (idx flds i) (\<lambda>t. lift (parse_f64 t))"

text \<open>The comma-separated account list: \<^verbatim>\<open>split(',')\<close> without the empty parts.\<close>

definition split_accounts :: "string \<Rightarrow> string list" where
  "split_accounts csv = filter (\<lambda>a. a \<noteq> []) (split_at_sep (\<lambda>c. c = CHR '','') csv)"

subsection \<open>Parsers\<close>

definition parse_tick_price :: "string list \<Rightarrow> inbound_msg parsed" where
  "parse_tick_price flds =
     (if length flds < 6 then Bad (Malformed ''tickPrice fields'') else
     bindP (int_at flds 2) (\<lambda>req_id.
     bindP (int_at flds 3) (\<lambda>tick_type.
     bindP (f64_at flds 4) (\<lambda>price.
     bindP (lift (parse_int (get_or flds 6 ''0''))) (\<lambda>attribs.
     Parsed (TickPrice \<lparr>tp_req_id = req_id, tp_tick_type = tick_type, tp_price = price,
       tp_attribs = attribs\<rparr>))))))"

definition parse_tick_size :: "string list \<Rightarrow> inbound_msg parsed" where
  "parse_tick_size flds =
     (if length flds < 5 then Bad (Malformed ''tickSize fields'') else
     bindP (int_at flds 2) (\<lambda>req_id.
     bindP (int_at flds 3) (\<lambda>tick_type.
     bindP (f64_at flds 4) (\<lambda>size.
     Parsed (TickSize \<lparr>ts_req_id = req_id, ts_tick_type = tick_type, ts_size = size\<rparr>)))))"

definition parse_market_depth :: "string list \<Rightarrow> bool \<Rightarrow> inbound_msg parsed" where
  "parse_market_depth flds is_l2 =
     (if length flds < (if is_l2 then 8 else 7) then Bad (Malformed ''marketDepth fields'')
      else if is_l2 then
       bindP (int_at flds 1) (\<lambda>req_id.
       bindP (int_at flds 2) (\<lambda>position.
       bindP (idx flds 3) (\<lambda>maker.
       bindP (int_at flds 4) (\<lambda>operation.
       bindP (int_at flds 5) (\<lambda>side.
       bindP (f64_at flds 6) (\<lambda>price.
       bindP (f64_at flds 7) (\<lambda>size.
       Parsed (MarketDepth \<lparr>md_req_id = req_id, md_position = position, md_operation = operation,
         md_side = side, md_price = price, md_size = size, md_market_maker = Some maker,
         md_is_smart_depth = (case get_at flds 8 of Some t \<Rightarrow> parse_integer (- (2 ^ 31)) (2 ^ 31 - 1) t = Some 1 | None \<Rightarrow> False)\<rparr>))))))))
      else
       bindP (int_at flds 1) (\<lambda>req_id.
       bindP (int_at flds 2) (\<lambda>position.
       bindP (int_at flds 3) (\<lambda>operation.
       bindP (int_at flds 4) (\<lambda>side.
       bindP (f64_at flds 5) (\<lambda>price.
       bindP (f64_at flds 6) (\<lambda>size.
       Parsed (MarketDepth \<lparr>md_req_id = req_id, md_position = position, md_operation = operation,
         md_side = side, md_price = price, md_size = size, md_market_maker = None,
         md_is_smart_depth = False\<rparr>))))))))"

definition parse_tick_option_computation :: "string list \<Rightarrow> inbound_msg parsed" where
  "parse_tick_option_computation flds =
     (if length flds < 12 then Bad (Malformed ''tickOptionComputation fields'') else
     bindP (int_at flds 1) (\<lambda>req_id.
     bindP (int_at flds 2) (\<lambda>tick_type.
     bindP (int_at flds 3) (\<lambda>tick_attrib.
     bindP (f64_at flds 4) (\<lambda>implied_vol.
     bindP (f64_at flds 5) (\<lambda>delta.
     bindP (f64_at flds 6) (\<lambda>opt_price.
     bindP (f64_at flds 7) (\<lambda>pv_dividend.
     bindP (f64_at flds 8) (\<lambda>gamma.
     bindP (f64_at flds 9) (\<lambda>vega.
     bindP (f64_at flds 10) (\<lambda>theta.
     bindP (f64_at flds 11) (\<lambda>und_price.
     Parsed (TickOptionComputation \<lparr>oc_req_id = req_id, oc_tick_type = tick_type,
       oc_tick_attrib = tick_attrib, oc_implied_vol = implied_vol, oc_delta = delta,
       oc_opt_price = opt_price, oc_pv_dividend = pv_dividend, oc_gamma = gamma, oc_vega = vega,
       oc_theta = theta, oc_und_price = und_price\<rparr>)))))))))))))"

definition parse_order_status :: "string list \<Rightarrow> inbound_msg parsed" where
  "parse_order_status flds =
     (if length flds < 12 then Bad (Malformed ''orderStatus fields'') else
     bindP (int_at flds 1) (\<lambda>order_id.
     bindP (idx flds 2) (\<lambda>status.
     bindP (f64_at flds 3) (\<lambda>filled.
     bindP (f64_at flds 4) (\<lambda>remaining.
     bindP (f64_at flds 5) (\<lambda>avg_fill_price.
     bindP (int_at flds 6) (\<lambda>perm_id.
     bindP (int_at flds 7) (\<lambda>parent_id.
     bindP (f64_at flds 8) (\<lambda>last_fill_price.
     bindP (int_at flds 9) (\<lambda>client_id.
     bindP (idx flds 10) (\<lambda>why_held.
     bindP (f64_at flds 11) (\<lambda>mkt_cap_price.
     Parsed (OrderStatusIn \<lparr>os_order_id = order_id, os_status = status, os_filled = filled,
       os_remaining = remaining, os_avg_fill_price = avg_fill_price, os_perm_id = perm_id,
       os_parent_id = parent_id, os_last_fill_price = last_fill_price, os_client_id = client_id,
       os_why_held = why_held, os_mkt_cap_price = mkt_cap_price\<rparr>)))))))))))))"

definition parse_error :: "string list \<Rightarrow> inbound_msg parsed" where
  "parse_error flds =
     (if length flds < 5 then Bad (Malformed ''errMsg fields'') else
     bindP (int_at flds 2) (\<lambda>req_id.
     bindP (int_at flds 3) (\<lambda>error_code.
     bindP (idx flds 4) (\<lambda>error_string.
     Parsed (ErrorIn \<lparr>er_req_id = req_id, er_error_code = error_code,
       er_error_string = error_string, er_advanced_order_reject_json = get_or flds 5 []\<rparr>)))))"

definition parse_account_value :: "string list \<Rightarrow> inbound_msg parsed" where
  "parse_account_value flds =
     (if length flds < 6 then Bad (Malformed ''accountValue fields'') else
     bindP (idx flds 2) (\<lambda>key.
     bindP (idx flds 3) (\<lambda>value.
     bindP (idx flds 4) (\<lambda>currency.
     bindP (idx flds 5) (\<lambda>account.
     Parsed (AccountValue \<lparr>av_key = key, av_value = value, av_currency = currency,
       av_account = account\<rparr>))))))"

definition parse_position :: "string list \<Rightarrow> inbound_msg parsed" where
  "parse_position flds =
     (if length flds < 16 then Bad (Malformed ''position fields'') else
     bindP (idx flds 2) (\<lambda>account.
     bindP (int64_at flds 3) (\<lambda>c_con_id.
     bindP (idx flds 4) (\<lambda>c_symbol.
     bindP (idx flds 5) (\<lambda>c_sec_type.
     bindP (idx flds 6) (\<lambda>c_last_trade_date.
     bindP (f64_at flds 7) (\<lambda>c_strike.
     bindP (idx flds 8) (\<lambda>c_right.
     bindP (idx flds 9) (\<lambda>c_multiplier.
     bindP (idx flds 10) (\<lambda>c_exchange.
     bindP (idx flds 11) (\<lambda>c_currency.
     bindP (idx flds 12) (\<lambda>c_local_symbol.
     bindP (idx flds 13) (\<lambda>c_trading_class.
     bindP (f64_at flds 14) (\<lambda>position.
     bindP (f64_at flds 15) (\<lambda>avg_cost.
     Parsed (PositionIn \<lparr>pm_account = account, pm_contract = \<lparr>cd_con_id = c_con_id,
       cd_symbol = c_symbol, cd_sec_type = c_sec_type, cd_last_trade_date = c_last_trade_date,
       cd_strike = c_strike, cd_right = c_right, cd_multiplier = c_multiplier, cd_exchange = c_exchange,
       cd_primary_exchange = [], cd_currency = c_currency, cd_local_symbol = c_local_symbol,
       cd_trading_class = c_trading_class\<rparr>, pm_position = position,
       pm_avg_cost = avg_cost\<rparr>))))))))))))))))"

definition parse_contract_details :: "string list \<Rightarrow> inbound_msg parsed" where
  "parse_contract_details flds =
     (if length flds < 16 then Bad (Malformed ''contractDetails fields'') else
     bindP (int_at flds 1) (\<lambda>req_id.
     bindP (idx flds 2) (\<lambda>c_symbol.
     bindP (idx flds 3) (\<lambda>c_sec_type.
     bindP (idx flds 4) (\<lambda>c_last_trade_date.
     bindP (f64_at flds 5) (\<lambda>c_strike.
     bindP (idx flds 6) (\<lambda>c_right.
     bindP (idx flds 7) (\<lambda>c_exchange.
     bindP (idx flds 8) (\<lambda>c_currency.
     bindP (idx flds 9) (\<lambda>c_local_symbol.
     bindP (idx flds 11) (\<lambda>c_trading_class.
     bindP (int64_at flds 12) (\<lambda>c_con_id.
     bindP (Parsed (get_or flds 15 [])) (\<lambda>c_multiplier.
     Parsed (ContractDetails \<lparr>cdm_req_id = req_id, cdm_contract = \<lparr>cd_con_id = c_con_id,
       cd_symbol = c_symbol, cd_sec_type = c_sec_type, cd_last_trade_date = c_last_trade_date,
       cd_strike = c_strike, cd_right = c_right, cd_multiplier = c_multiplier, cd_exchange = c_exchange,
       cd_primary_exchange = [], cd_currency = c_currency, cd_local_symbol = c_local_symbol,
       cd_trading_class = c_trading_class\<rparr>\<rparr>))))))))))))))"

definition parse_execution :: "string list \<Rightarrow> inbound_msg parsed" where
  "parse_execution flds =
     (if length flds < 23 then Bad (Malformed ''execDetails fields'') else
     bindP (int_at flds 1) (\<lambda>req_id.
     bindP (int_at flds 2) (\<lambda>order_id.
     bindP (int64_at flds 3) (\<lambda>c_con_id.
     bindP (idx flds 4) (\<lambda>c_symbol.
     bindP (idx flds 5) (\<lambda>c_sec_type.
     bindP (idx flds 6) (\<lambda>c_last_trade_date.
     bindP (f64_at flds 7) (\<lambda>c_strike.
     bindP (idx flds 8) (\<lambda>c_right.
     bindP (idx flds 9) (\<lambda>c_multiplier.
     bindP (idx flds 10) (\<lambda>c_exchange.
     bindP (idx flds 11) (\<lambda>c_currency.
     bindP (idx flds 12) (\<lambda>c_local_symbol.
     bindP (idx flds 13) (\<lambda>c_trading_class.
     bindP (idx flds 14) (\<lambda>exec_id.
     bindP (idx flds 15) (\<lambda>time.
     bindP (idx flds 16) (\<lambda>account.
     bindP (idx flds 17) (\<lambda>exchange.
     bindP (idx flds 18) (\<lambda>side.
     bindP (f64_at flds 19) (\<lambda>shares.
     bindP (f64_at flds 20) (\<lambda>price.
     bindP (int_at flds 21) (\<lambda>perm_id.
     bindP (int_at flds 22) (\<lambda>client_id.
     bindP (lift (parse_int (get_or flds 23 ''0''))) (\<lambda>liquidation.
     bindP (lift (parse_f64 (get_or flds 24 ''0''))) (\<lambda>cum_qty.
     bindP (lift (parse_f64 (get_or flds 25 ''0''))) (\<lambda>avg_price.
     Parsed (Execution \<lparr>ex_req_id = req_id, ex_order_id = order_id,
       ex_contract = \<lparr>cd_con_id = c_con_id, cd_symbol = c_symbol, cd_sec_type = c_sec_type,
       cd_last_trade_date = c_last_trade_date, cd_strike = c_strike, cd_right = c_right,
       cd_multiplier = c_multiplier, cd_exchange = c_exchange, cd_primary_exchange = [],
       cd_currency = c_currency, cd_local_symbol = c_local_symbol,
       cd_trading_class = c_trading_class\<rparr>, ex_exec_id = exec_id, ex_time = time,
       ex_account = account, ex_exchange = exchange, ex_side = side, ex_shares = shares, ex_price = price,
       ex_perm_id = perm_id, ex_client_id = client_id, ex_liquidation = liquidation, ex_cum_qty = cum_qty,
       ex_avg_price = avg_price, ex_order_ref = get_or flds 26 []\<rparr>)))))))))))))))))))))))))))"

definition parse_commission :: "string list \<Rightarrow> inbound_msg parsed" where
  "parse_commission flds =
     (if length flds < 6 then Bad (Malformed ''commissionReport fields'') else
     bindP (idx flds 2) (\<lambda>exec_id.
     bindP (f64_at flds 3) (\<lambda>commission.
     bindP (idx flds 4) (\<lambda>currency.
     bindP (f64_at flds 5) (\<lambda>realized_pnl.
     Parsed (CommissionReport \<lparr>cm_exec_id = exec_id, cm_commission = commission,
       cm_currency = currency, cm_realized_pnl = realized_pnl\<rparr>))))))"

definition parse_open_order :: "string list \<Rightarrow> inbound_msg parsed" where
  "parse_open_order flds =
     (if length flds < 17 then Bad (Malformed ''openOrder fields'') else
     bindP (int_at flds 1) (\<lambda>order_id.
     bindP (int64_at flds 2) (\<lambda>c_con_id.
     bindP (idx flds 3) (\<lambda>c_symbol.
     bindP (idx flds 4) (\<lambda>c_sec_type.
     bindP (idx flds 5) (\<lambda>c_last_trade_date.
     bindP (f64_at flds 6) (\<lambda>c_strike.
     bindP (idx flds 7) (\<lambda>c_right.
     bindP (idx flds 8) (\<lambda>c_multiplier.
     bindP (idx flds 9) (\<lambda>c_exchange.
     bindP (idx flds 10) (\<lambda>c_currency.
     bindP (idx flds 11) (\<lambda>c_local_symbol.
     bindP (idx flds 12) (\<lambda>c_trading_class.
     bindP (idx flds 13) (\<lambda>action.
     bindP (f64_at flds 14) (\<lambda>total_quantity.
     bindP (idx flds 15) (\<lambda>order_type.
     bindP (f64_at flds 16) (\<lambda>lmt_price.
     Parsed (OpenOrderIn \<lparr>oo_order_id = order_id, oo_contract = \<lparr>cd_con_id = c_con_id,
       cd_symbol = c_symbol, cd_sec_type = c_sec_type, cd_last_trade_date = c_last_trade_date,
       cd_strike = c_strike, cd_right = c_right, cd_multiplier = c_multiplier, cd_exchange = c_exchange,
       cd_primary_exchange = [], cd_currency = c_currency, cd_local_symbol = c_local_symbol,
       cd_trading_class = c_trading_class\<rparr>, oo_action = action, oo_total_quantity = total_quantity,
       oo_order_type = order_type, oo_lmt_price = lmt_price, oo_tif = get_or flds 18 [],
       oo_account = get_or flds 20 [], oo_order_ref = get_or flds 23 [], oo_status = [], oo_filled = 0,
       oo_remaining = 0\<rparr>))))))))))))))))))"

definition parse_inbound :: "string list \<Rightarrow> inbound_msg parsed" where
  "parse_inbound flds =
     (if flds = [] then Bad (Malformed ''empty frame'') else
      bindP (int_at flds 0) (\<lambda>ty.
        if ty = IN_TICK_PRICE then parse_tick_price flds
        else if ty = IN_TICK_SIZE then parse_tick_size flds
        else if ty = IN_TICK_OPTION_COMPUTATION then parse_tick_option_computation flds
        else if ty = IN_MARKET_DEPTH then parse_market_depth flds False
        else if ty = IN_MARKET_DEPTH_L2 then parse_market_depth flds True
        else if ty = IN_ORDER_STATUS then parse_order_status flds
        else if ty = IN_ERR_MSG then parse_error flds
        else if ty = IN_OPEN_ORDER then parse_open_order flds
        else if ty = IN_ACCT_VALUE then parse_account_value flds
        else if ty = IN_PORTFOLIO_VALUE then Parsed (Unparsed ty flds)
        else if ty = IN_ACCT_UPDATE_TIME then Parsed (AccountUpdateTime (get_or flds 2 []))
        else if ty = IN_NEXT_VALID_ID then
          bindP (lift (parse_int (get_or flds 2 ''0''))) (\<lambda>oid. Parsed (NextValidId oid))
        else if ty = IN_CONTRACT_DATA then parse_contract_details flds
        else if ty = IN_CONTRACT_DATA_END then
          bindP (lift (parse_int (get_or flds 2 ''0''))) (\<lambda>req_id. Parsed (ContractDetailsEnd req_id))
        else if ty = IN_EXECUTION_DATA then parse_execution flds
        else if ty = IN_MANAGED_ACCTS then Parsed (ManagedAccounts (split_accounts (get_or flds 2 [])))
        else if ty = IN_COMMISSION_REPORT then parse_commission flds
        else if ty = IN_POSITION_DATA then parse_position flds
        else if ty = IN_POSITION_END then Parsed PositionEnd
        else if ty = IN_OPEN_ORDER_END then Parsed OpenOrderEnd
        else if ty = IN_ACCOUNT_DOWNLOAD_END then Parsed (AccountDownloadEnd (get_or flds 2 []))
        else if ty = IN_EXECUTION_DATA_END then
          bindP (lift (parse_int (get_or flds 1 ''0''))) (\<lambda>req_id. Parsed (ExecutionEnd req_id))
        else Parsed (Unparsed ty flds)))"

subsection \<open>Every frame is decoded or rejected as malformed\<close>

definition decodes :: "'a parsed \<Rightarrow> bool" where
  "decodes r \<longleftrightarrow> (\<exists>x. r = Parsed x) \<or> (\<exists>t. r = Bad (Malformed t))"

named_theorems decodes_intros \<open>the steps of a parser that end in a value or in a malformed-message error\<close>

lemma decodes_Parsed [decodes_intros]: "decodes (Parsed x)"
  and decodes_Malformed [decodes_intros]: "decodes (Bad (Malformed t))"
  by (simp_all add: decodes_def)

lemma decodes_bindP [decodes_intros]: "decodes r \<Longrightarrow> (\<And>x. decodes (f x)) \<Longrightarrow> decodes (bindP r f)"
  by (cases r) (simp_all add: decodes_def)

lemma decodes_lift [decodes_intros]:
  "decodes (lift (parse_int t))" "decodes (lift (parse_int64 t))" "decodes (lift (parse_f64 t))"
  by (simp_all add: decodes_def parse_int_def parse_int64_def parse_f64_def split: option.splits)

lemma decodes_at [decodes_intros]:
  "i < length xs \<Longrightarrow> decodes (idx xs i)"
  "i < length flds \<Longrightarrow> decodes (int_at flds i)"
  "i < length flds \<Longrightarrow> decodes (int64_at flds i)"
  "i < length flds \<Longrightarrow> decodes (f64_at flds i)"
  by (auto simp: int_at_def int64_at_def f64_at_def idx_def intro!: decodes_intros)

lemma decodes_if [decodes_intros]: "(b \<Longrightarrow> decodes x) \<Longrightarrow> (\<not> b \<Longrightarrow> decodes y) \<Longrightarrow> decodes (if b then x else y)"
  by simp

lemma parsers_decode [decodes_intros]:
  "decodes (parse_tick_price flds)" "decodes (parse_tick_size flds)"
  "decodes (parse_tick_option_computation flds)" "decodes (parse_market_depth flds l2)"
  "decodes (parse_order_status flds)" "decodes (parse_error flds)" "decodes (parse_open_order flds)"
  "decodes (parse_account_value flds)" "decodes (parse_contract_details flds)"
  "decodes (parse_execution flds)" "decodes (parse_commission flds)" "decodes (parse_position flds)"
  unfolding parse_tick_price_def parse_tick_size_def parse_tick_option_computation_def
    parse_market_depth_def parse_order_status_def parse_error_def parse_open_order_def
    parse_account_value_def parse_contract_details_def parse_execution_def parse_commission_def
    parse_position_def
  by (intro decodes_intros; simp split: if_splits)+

text \<open>
  The fields of an execution report, an order status and an error as the gateway sends them; \<open>txt\<close> is
  the text the gateway writes for a number.
\<close>

definition contract_fields :: "(f64 \<Rightarrow> string) \<Rightarrow> contract_decoded \<Rightarrow> string list" where
  "contract_fields txt c =
     [int_dec (sint (cd_con_id c)), cd_symbol c, cd_sec_type c, cd_last_trade_date c, txt (cd_strike c),
      cd_right c, cd_multiplier c, cd_exchange c, cd_currency c, cd_local_symbol c, cd_trading_class c]"

definition execution_fields :: "(f64 \<Rightarrow> string) \<Rightarrow> execution_msg \<Rightarrow> string list" where
  "execution_fields txt m =
     [''11'', int_dec (sint (ex_req_id m)), int_dec (sint (ex_order_id m))] @
     contract_fields txt (ex_contract m) @
     [ex_exec_id m, ex_time m, ex_account m, ex_exchange m, ex_side m, txt (ex_shares m), txt (ex_price m),
      int_dec (sint (ex_perm_id m)), int_dec (sint (ex_client_id m)), int_dec (sint (ex_liquidation m)),
      txt (ex_cum_qty m), txt (ex_avg_price m), ex_order_ref m]"

definition order_status_fields :: "(f64 \<Rightarrow> string) \<Rightarrow> order_status_msg \<Rightarrow> string list" where
  "order_status_fields txt m =
     [''3'', int_dec (sint (os_order_id m)), os_status m, txt (os_filled m), txt (os_remaining m),
      txt (os_avg_fill_price m), int_dec (sint (os_perm_id m)), int_dec (sint (os_parent_id m)),
      txt (os_last_fill_price m), int_dec (sint (os_client_id m)), os_why_held m, txt (os_mkt_cap_price m)]"

definition error_fields :: "error_msg \<Rightarrow> string list" where
  "error_fields m =
     [''4'', ''2'', int_dec (sint (er_req_id m)), int_dec (sint (er_error_code m)), er_error_string m,
      er_advanced_order_reject_json m]"

lemma parse_type_ids: "parse_int ''11'' = Inr 11" "parse_int ''3'' = Inr 3" "parse_int ''4'' = Inr 4"
  by code_simp+

lemmas type_ids =
  IN_TICK_PRICE_def IN_TICK_SIZE_def IN_ORDER_STATUS_def IN_ERR_MSG_def IN_OPEN_ORDER_def
  IN_ACCT_VALUE_def IN_PORTFOLIO_VALUE_def IN_ACCT_UPDATE_TIME_def IN_NEXT_VALID_ID_def
  IN_CONTRACT_DATA_def IN_CONTRACT_DATA_END_def IN_EXECUTION_DATA_def IN_MANAGED_ACCTS_def
  IN_MARKET_DEPTH_def IN_MARKET_DEPTH_L2_def IN_TICK_OPTION_COMPUTATION_def IN_COMMISSION_REPORT_def
  IN_POSITION_DATA_def IN_POSITION_END_def IN_OPEN_ORDER_END_def IN_ACCOUNT_DOWNLOAD_END_def
  IN_EXECUTION_DATA_END_def

lemmas at_fields = int_at_def int64_at_def f64_at_def idx_def get_or_def

lemma parse_execution_fields:
  assumes "cd_primary_exchange (ex_contract m) = []"
    "\<forall>x\<in>{cd_strike (ex_contract m), ex_shares m, ex_price m, ex_cum_qty m, ex_avg_price m}.
       parse_f64 (txt x) = Inr x"
  shows "parse_execution (execution_fields txt m) = Parsed (Execution m)"
  using assms by (simp add: parse_execution_def execution_fields_def contract_fields_def at_fields)

lemma parse_order_status_fields:
  "\<forall>x\<in>{os_filled s, os_remaining s, os_avg_fill_price s, os_last_fill_price s, os_mkt_cap_price s}.
     parse_f64 (txt x) = Inr x \<Longrightarrow>
   parse_order_status (order_status_fields txt s) = Parsed (OrderStatusIn s)"
  by (simp add: parse_order_status_def order_status_fields_def at_fields)

lemma first_field:
  "int_at (execution_fields txt m) 0 = Parsed 11" "execution_fields txt m \<noteq> []"
  "int_at (order_status_fields txt s) 0 = Parsed 3" "order_status_fields txt s \<noteq> []"
  "int_at (error_fields e) 0 = Parsed 4" "error_fields e \<noteq> []"
  by (simp_all add: at_fields parse_type_ids execution_fields_def order_status_fields_def error_fields_def)

text \<open>
  Whatever fields a frame has, the decoder neither panics nor reports anything but a malformed
  message.  An execution report, an order status and an error message laid out as the gateway sends
  them are decoded to exactly their values, every number whose text the decoder reads back included.
\<close>

theorem inbound_decoded_or_malformed:
  "decodes (parse_inbound flds) \<and>
   (cd_primary_exchange (ex_contract m) = [] \<and>
     (\<forall>x\<in>{cd_strike (ex_contract m), ex_shares m, ex_price m, ex_cum_qty m, ex_avg_price m}.
        parse_f64 (txt x) = Inr x) \<longrightarrow>
     parse_inbound (execution_fields txt m) = Parsed (Execution m)) \<and>
   ((\<forall>x\<in>{os_filled s, os_remaining s, os_avg_fill_price s, os_last_fill_price s, os_mkt_cap_price s}.
        parse_f64 (txt x) = Inr x) \<longrightarrow>
     parse_inbound (order_status_fields txt s) = Parsed (OrderStatusIn s)) \<and>
   parse_inbound (error_fields e) = Parsed (ErrorIn e)"
proof (intro conjI impI; (elim conjE)?)
  show "decodes (parse_inbound flds)"
    unfolding parse_inbound_def by (intro decodes_intros) auto
qed (simp_all add: parse_inbound_def type_ids first_field parse_execution_fields parse_order_status_fields
    del: insert_iff ball_simps, simp add: error_fields_def parse_error_def at_fields)

definition demo_txt :: "f64 \<Rightarrow> string" where
  "demo_txt x = (if x = F64 0x4018333333333333 then ''6.05'' else if x = F64 0x3FF0000000000000 then ''1'' else ''0'')"

definition demo_execution :: execution_msg where
  "demo_execution = \<lparr>ex_req_id = - 1, ex_order_id = 42, ex_contract = \<lparr>cd_con_id = 712565973,
     cd_symbol = ''HG'', cd_sec_type = ''FOP'', cd_last_trade_date = ''20260526'',
     cd_strike = F64 0x4018333333333333, cd_right = ''C'', cd_multiplier = ''25000'', cd_exchange = ''COMEX'',
     cd_primary_exchange = [], cd_currency = ''USD'', cd_local_symbol = ''HXEK6 C6050'',
     cd_trading_class = ''HXE''\<rparr>, ex_exec_id = ''0001'', ex_time = ''20260504'', ex_account = ''DU1'',
     ex_exchange = ''COMEX'', ex_side = ''BOT'', ex_shares = F64 0x3FF0000000000000,
     ex_price = F64 0x4018333333333333, ex_perm_id = 7, ex_client_id = 0, ex_liquidation = 0,
     ex_cum_qty = F64 0x3FF0000000000000, ex_avg_price = F64 0x4018333333333333, ex_order_ref = ''k1''\<rparr>"

definition demo_status :: order_status_msg where
  "demo_status = \<lparr>os_order_id = 42, os_status = ''Filled'', os_filled = F64 0x3FF0000000000000,
     os_remaining = 0, os_avg_fill_price = F64 0x4018333333333333, os_perm_id = 7, os_parent_id = 0,
     os_last_fill_price = F64 0x4018333333333333, os_client_id = 0, os_why_held = [], os_mkt_cap_price = 0\<rparr>"

lemma demo_txt_parsed:
  "parse_f64 (demo_txt (F64 0x4018333333333333)) = Inr (F64 0x4018333333333333)"
  "parse_f64 (demo_txt (F64 0x3FF0000000000000)) = Inr (F64 0x3FF0000000000000)"
  "parse_f64 (demo_txt 0) = Inr 0"
  by code_simp+

theorem inbound_decoded_or_malformed_witness:
  "parse_inbound (execution_fields demo_txt demo_execution) = Parsed (Execution demo_execution) \<and>
   parse_inbound (order_status_fields demo_txt demo_status) = Parsed (OrderStatusIn demo_status)"
  using inbound_decoded_or_malformed [of "[]" demo_execution demo_txt demo_status undefined] demo_txt_parsed
  by (simp add: demo_execution_def demo_status_def)

end
