(* ===== verification/Ibkr_Requests.thy ===== *)
theory Ibkr_Requests
  imports Ibkr_Codec
begin

section \<open>IBKR requests\<close>

text \<open>
  The request encoders of \<^verbatim>\<open>requests.rs\<close> and the pre-encoded order templates of
  \<^verbatim>\<open>place_template.rs\<close>.  \<open>place_order_frame\<close> is the slow-path encoder \<^verbatim>\<open>requests::place_order\<close> and
  \<open>place_order_fast\<close> the one the broker uses; the two produce the same bytes.
\<close>

subsection \<open>Request data\<close>

record contract_request =
  cr_con_id :: i64
  cr_symbol :: string
  cr_sec_type :: string
  cr_last_trade_date :: string
  cr_strike :: f64
  cr_right :: string
  cr_multiplier :: string
  cr_exchange :: string
  cr_primary_exchange :: string
  cr_currency :: string
  cr_local_symbol :: string
  cr_trading_class :: string

record place_order_params =
  pp_action :: string
  pp_total_quantity :: f64
  pp_order_type :: string
  pp_lmt_price :: f64
  pp_aux_price :: f64
  pp_tif :: string
  pp_good_till_date :: string
  pp_account :: string
  pp_order_ref :: string
  pp_outside_rth :: bool

record execution_filter =
  ef_client_id :: i32
  ef_account :: string
  ef_time :: string
  ef_symbol :: string
  ef_sec_type :: string
  ef_exchange :: string
  ef_side :: string

subsection \<open>Encoders\<close>

definition req_account_updates :: "fmt \<Rightarrow> bool \<Rightarrow> string \<Rightarrow> bytes" where
  "req_account_updates F subscribe account =
     encode_owned [encode_int F OUT_REQ_ACCT_DATA, ''2'', encode_bool subscribe, account]"

definition req_positions :: "fmt \<Rightarrow> bytes" where
  "req_positions F = encode_owned [encode_int F OUT_REQ_POSITIONS, ''1'']"

definition req_open_orders :: "fmt \<Rightarrow> bytes" where
  "req_open_orders F = encode_owned [encode_int F OUT_REQ_OPEN_ORDERS, ''1'']"

definition req_auto_open_orders :: "fmt \<Rightarrow> bool \<Rightarrow> bytes" where
  "req_auto_open_orders F auto_bind =
     encode_owned [encode_int F OUT_REQ_AUTO_OPEN_ORDERS, ''1'', encode_bool auto_bind]"

definition req_contract_details :: "fmt \<Rightarrow> i32 \<Rightarrow> contract_request \<Rightarrow> bytes" where
  "req_contract_details F req_id c = encode_owned
     [encode_int F OUT_REQ_CONTRACT_DATA, ''8'', encode_int F req_id,
      encode_int64 F (cr_con_id c), cr_symbol c, cr_sec_type c, cr_last_trade_date c,
      encode_f64 F (cr_strike c), cr_right c, cr_multiplier c, cr_exchange c, cr_primary_exchange c,
      cr_currency c, cr_local_symbol c, cr_trading_class c,
      encode_bool False, encode_unset, encode_unset, encode_unset]"

definition req_mkt_data :: "fmt \<Rightarrow> i32 \<Rightarrow> contract_request \<Rightarrow> string \<Rightarrow> bool \<Rightarrow> bool \<Rightarrow> bytes" where
  "req_mkt_data F req_id c generic_tick_list snapshot regulatory_snapshot = encode_owned
     [encode_int F OUT_REQ_MKT_DATA, ''11'', encode_int F req_id,
      encode_int64 F (cr_con_id c), cr_symbol c, cr_sec_type c, cr_last_trade_date c,
      encode_f64 F (cr_strike c), cr_right c, cr_multiplier c, cr_exchange c, cr_primary_exchange c,
      cr_currency c, cr_local_symbol c, cr_trading_class c,
      encode_unset, generic_tick_list, encode_bool snapshot, encode_bool regulatory_snapshot,
      encode_unset]"

definition cancel_mkt_data :: "fmt \<Rightarrow> i32 \<Rightarrow> bytes" where
  "cancel_mkt_data F req_id = encode_owned [encode_int F OUT_CANCEL_MKT_DATA, ''2'', encode_int F req_id]"

definition req_mkt_depth :: "fmt \<Rightarrow> i32 \<Rightarrow> contract_request \<Rightarrow> i32 \<Rightarrow> bytes" where
  "req_mkt_depth F req_id c num_rows = encode_owned
     [encode_int F OUT_REQ_MKT_DEPTH, ''5'', encode_int F req_id,
      encode_int64 F (cr_con_id c), cr_symbol c, cr_sec_type c, cr_last_trade_date c,
      encode_f64 F (cr_strike c), cr_right c, cr_multiplier c, cr_exchange c, cr_primary_exchange c,
      cr_currency c, cr_local_symbol c, cr_trading_class c,
      encode_int F num_rows, encode_bool False, encode_unset]"

definition cancel_mkt_depth :: "fmt \<Rightarrow> i32 \<Rightarrow> bytes" where
  "cancel_mkt_depth F req_id =
     encode_owned [encode_int F OUT_CANCEL_MKT_DEPTH, ''1'', encode_int F req_id, encode_bool False]"

definition cancel_order_frame :: "fmt \<Rightarrow> i32 \<Rightarrow> bytes" where
  "cancel_order_frame F order_id =
     encode_owned [encode_int F OUT_CANCEL_ORDER, ''1'', encode_int F order_id, encode_unset]"

definition req_executions :: "fmt \<Rightarrow> i32 \<Rightarrow> execution_filter \<Rightarrow> bytes" where
  "req_executions F req_id f = encode_owned
     [encode_int F OUT_REQ_EXECUTIONS, ''3'', encode_int F req_id, encode_int F (ef_client_id f),
      ef_account f, ef_time f, ef_symbol f, ef_sec_type f, ef_exchange f, ef_side f]"

text \<open>The fields of an order in the order of the wire, indices 0 to 114.\<close>

definition place_order_fields :: "fmt \<Rightarrow> i32 \<Rightarrow> contract_request \<Rightarrow> place_order_params \<Rightarrow> string list" where
  "place_order_fields F order_id c p =
     [encode_int F OUT_PLACE_ORDER, encode_int F order_id, encode_int64 F (cr_con_id c), cr_symbol c,
      cr_sec_type c, cr_last_trade_date c, encode_f64 F (cr_strike c), cr_right c, cr_multiplier c,
      cr_exchange c, cr_primary_exchange c, cr_currency c, cr_local_symbol c, cr_trading_class c,
      encode_unset, encode_unset, pp_action p, encode_qty F (pp_total_quantity p), pp_order_type p,
      encode_f64 F (pp_lmt_price p),
      (if feq (pp_aux_price p) 0 then encode_unset else encode_f64 F (pp_aux_price p)), pp_tif p,
      encode_unset, pp_account p, ''O'', encode_int F 0, pp_order_ref p, encode_bool True,
      encode_int F 0, encode_bool False, encode_bool False, encode_int F 0, encode_int F 0,
      encode_bool (pp_outside_rth p), encode_bool False, encode_unset, encode_f64 F 0, encode_unset,
      pp_good_till_date p, encode_unset, encode_unset, encode_unset, encode_unset, encode_unset, ''0'',
      encode_unset, encode_int F (- 1), encode_int F 0, encode_unset, encode_unset, encode_bool False,
      encode_unset, encode_unset, encode_bool False, encode_bool False, encode_unset, encode_int F 0,
      encode_unset, encode_unset, encode_unset, encode_unset, encode_unset, encode_bool False,
      encode_unset, encode_unset, encode_unset, encode_unset, encode_bool False, encode_unset,
      encode_unset, encode_unset, encode_unset, encode_unset, encode_unset, encode_unset, encode_unset,
      encode_unset, encode_unset, encode_bool False, encode_unset, encode_unset, encode_bool False,
      encode_bool False, encode_unset, encode_unset, encode_bool False, encode_unset,
      encode_bool False, encode_bool False, encode_bool False, encode_int F 0, encode_unset,
      encode_unset, encode_unset, encode_unset, encode_unset, encode_unset, encode_int F 0,
      encode_unset, encode_unset, encode_unset, encode_unset, encode_unset, encode_unset, encode_unset,
      encode_unset, encode_bool False, encode_bool False, encode_bool False, encode_bool False,
      encode_unset, encode_unset, encode_bool False, encode_unset, encode_unset]"

definition place_order_frame :: "fmt \<Rightarrow> i32 \<Rightarrow> contract_request \<Rightarrow> place_order_params \<Rightarrow> bytes" where
  "place_order_frame F order_id c p = encode_owned (place_order_fields F order_id c p)"

subsection \<open>Order templates\<close>

definition encode_int_long :: "i64 \<Rightarrow> string" where
  "encode_int_long v = int_dec (sint v)"

definition from_contract :: "fmt \<Rightarrow> contract_request \<Rightarrow> bytes" where
  "from_contract F c = concat (map (\<lambda>f. str_bytes f @ [0])
     [encode_int_long (cr_con_id c), cr_symbol c, cr_sec_type c, cr_last_trade_date c,
      encode_f64 F (cr_strike c), cr_right c, cr_multiplier c, cr_exchange c, cr_primary_exchange c,
      cr_currency c, cr_local_symbol c, cr_trading_class c, encode_unset, encode_unset])"

definition trailing_bytes :: "fmt \<Rightarrow> bytes" where
  "trailing_bytes F = concat (map (\<lambda>f. str_bytes f @ [0])
     [encode_int F (- 1), encode_int F 0, encode_unset, encode_unset, encode_bool False, encode_unset,
      encode_unset, encode_bool False, encode_bool False, encode_unset, encode_int F 0, encode_unset,
      encode_unset, encode_unset, encode_unset, encode_unset, encode_bool False, encode_unset,
      encode_unset, encode_unset, encode_unset, encode_bool False, encode_unset, encode_unset,
      encode_unset, encode_unset, encode_unset, encode_unset, encode_unset, encode_unset, encode_unset,
      encode_unset, encode_bool False, encode_unset, encode_unset, encode_bool False,
      encode_bool False, encode_unset, encode_unset, encode_bool False, encode_unset,
      encode_bool False, encode_bool False, encode_bool False, encode_int F 0, encode_unset,
      encode_unset, encode_unset, encode_unset, encode_unset, encode_unset, encode_int F 0,
      encode_unset, encode_unset, encode_unset, encode_unset, encode_unset, encode_unset, encode_unset,
      encode_unset, encode_bool False, encode_bool False, encode_bool False, encode_bool False,
      encode_unset, encode_unset, encode_bool False, encode_unset, encode_unset])"

definition push_field :: "bytes \<Rightarrow> bytes \<Rightarrow> bytes" where
  "push_field bs buf = buf @ bs @ [0]"

definition push_nul :: "bytes \<Rightarrow> bytes" where
  "push_nul buf = buf @ [0]"

definition place_order_fast :: "fmt \<Rightarrow> i32 \<Rightarrow> bytes \<Rightarrow> place_order_params \<Rightarrow> bytes" where
  "place_order_fast F order_id template p =
     (let trailing = trailing_bytes F;
          payload = push_nul (write_int F [] OUT_PLACE_ORDER);
          payload = push_nul (write_int F payload order_id);
          payload = payload @ template;
          payload = push_field (str_bytes (pp_action p)) payload;
          payload = push_nul (write_qty F payload (pp_total_quantity p));
          payload = push_field (str_bytes (pp_order_type p)) payload;
          payload = push_nul (write_f64 F payload (pp_lmt_price p));
          payload = (if feq (pp_aux_price p) 0 then push_field [] payload
                     else push_nul (write_f64 F payload (pp_aux_price p)));
          payload = push_field (str_bytes (pp_tif p)) payload;
          payload = push_field [] payload;
          payload = push_field (str_bytes (pp_account p)) payload;
          payload = push_field (str_bytes ''O'') payload;
          payload = push_field (str_bytes ''0'') payload;
          payload = push_field (str_bytes (pp_order_ref p)) payload;
          payload = push_field (str_bytes ''1'') payload;
          payload = push_field (str_bytes ''0'') payload;
          payload = push_field (str_bytes ''0'') payload;
          payload = push_field (str_bytes ''0'') payload;
          payload = push_field (str_bytes ''0'') payload;
          payload = push_field (str_bytes ''0'') payload;
          payload = push_field (if pp_outside_rth p then str_bytes ''1'' else str_bytes ''0'') payload;
          payload = push_field (str_bytes ''0'') payload;
          payload = push_field [] payload;
          payload = push_nul (write_f64 F payload 0);
          payload = push_field [] payload;
          payload = push_field (str_bytes (pp_good_till_date p)) payload;
          payload = push_field [] payload;
          payload = push_field [] payload;
          payload = push_field [] payload;
          payload = push_field [] payload;
          payload = push_field [] payload;
          payload = push_field (str_bytes ''0'') payload;
          payload = push_field [] payload;
          payload = payload @ trailing
      in u32_be (of_nat (length payload)) @ payload)"

subsection \<open>The fast path is the slow path\<close>

text \<open>The writers append what the string encoders return.\<close>

lemma write_encode:
  "write_int F buf v = buf @ str_bytes (encode_int F v)"
  "write_f64 F buf x = buf @ str_bytes (encode_f64 F x)"
  "write_qty F buf x = buf @ str_bytes (encode_qty F x)"
  by (simp_all add: write_int_def encode_int_def write_f64_def encode_f64_def write_qty_def encode_qty_def)

lemma from_contract_payload:
  "(\<And>i. itoa F i = int_dec i) \<Longrightarrow>
     from_contract F c = payload_of (take 14 (drop 2 (place_order_fields F order_id c p)))"
  by (simp add: payload_of_def place_order_fields_def from_contract_def encode_int_long_def encode_int64_def)

lemma order_body_payload:
  assumes "\<And>i. itoa F i = int_dec i"
  shows "place_order_fast F order_id template p =
    (let payload = payload_of (take 2 (place_order_fields F order_id c p)) @ template @
       payload_of (take 30 (drop 16 (place_order_fields F order_id c p))) @ trailing_bytes F
     in u32_be (of_nat (length payload)) @ payload)"
proof -
  have zero: "encode_int F 0 = ''0''"
    by (simp add: encode_int_def assms) code_simp
  show ?thesis
    unfolding place_order_fast_def Let_def push_field_def push_nul_def write_encode payload_of_def
      place_order_fields_def
    by (simp add: zero encode_bool_def encode_unset_def)
qed

lemma place_order_fast_slow:
  assumes "\<And>i. itoa F i = int_dec i"
  shows "place_order_fast F order_id (from_contract F c) p = place_order_frame F order_id c p"
proof -
  let ?fs = "place_order_fields F order_id c p"
  have "payload_of (take 2 ?fs) @ from_contract F c @ payload_of (take 30 (drop 16 ?fs)) @ trailing_bytes F
      = payload_of ?fs"
    by (simp add: from_contract_payload [OF assms, of c order_id p] payload_of_def trailing_bytes_def
        place_order_fields_def)
  then show ?thesis
    by (simp add: order_body_payload [OF assms, of order_id _ p c] place_order_frame_def encode_owned_def
        encode_fields_payload Let_def)
qed

text \<open>
  \<^bold>\<open>C14.\<close> The order frame the broker assembles from a cached contract template, directly written
  fields and the constant tail is, byte for byte, the frame of the slow-path encoder with its 115
  fields, provided \<^verbatim>\<open>itoa\<close> prints decimals.  If the fields are UTF-8 without NUL and the frame is
  below the size limit, a reader of the frame gets exactly these 115 fields back: the order id second,
  then the 14 contract fields and the order body.
\<close>

theorem place_order_fast_eq_slow:
  assumes "\<And>i. itoa F i = int_dec i"
  shows "place_order_fast F order_id (from_contract F c) p = place_order_frame F order_id c p \<and>
    length (place_order_fields F order_id c p) = 115 \<and>
    (msg_ok (place_order_fields F order_id c p) \<longrightarrow>
      try_decode_frame (place_order_fast F order_id (from_contract F c) p @ rest) =
        (Inr (Some (place_order_fields F order_id c p)), rest))"
proof -
  have "length (place_order_fields F order_id c p) = 115" by (simp add: place_order_fields_def)
  then show ?thesis
    by (simp add: place_order_fast_slow [OF assms] place_order_frame_def encode_owned_def try_decode_encoded)
qed

definition demo_fmt :: fmt where
  "demo_fmt = \<lparr>itoa = int_dec, ryu = (\<lambda>x. if is_zero x then ''0.0'' else ''6.05'')\<rparr>"

definition demo_request :: contract_request where
  "demo_request = \<lparr>cr_con_id = 712565973, cr_symbol = ''HG'', cr_sec_type = ''FUT'',
     cr_last_trade_date = ''20260626'', cr_strike = 0, cr_right = [], cr_multiplier = ''25000'',
     cr_exchange = ''COMEX'', cr_primary_exchange = [], cr_currency = ''USD'', cr_local_symbol = ''HGM6'',
     cr_trading_class = ''HG''\<rparr>"

definition demo_order :: place_order_params where
  "demo_order = \<lparr>pp_action = ''BUY'', pp_total_quantity = F64 0x3FF0000000000000, pp_order_type = ''LMT'',
     pp_lmt_price = F64 0x4018333333333333, pp_aux_price = 0, pp_tif = ''GTD'',
     pp_good_till_date = ''20260626 14:30:00 UTC'', pp_account = ''DU1'', pp_order_ref = ''t'',
     pp_outside_rth = False\<rparr>"

lemma demo_itoa: "itoa demo_fmt i = int_dec i"
  by (simp add: demo_fmt_def)

lemma demo_prices:
  "encode_f64 demo_fmt 0 = ''0.0''" "encode_f64 demo_fmt (F64 0x4018333333333333) = ''6.05''"
  by (code_simp, code_simp)

lemma demo_ints:
  "int_dec 0 = ''0''" "int_dec (- 1) = ''-1''" "int_dec 3 = ''3''" "int_dec 123 = ''123''"
  "int_dec 712565973 = ''712565973''" "int_dec 1 = ''1''"
  by (simp_all add: int_dec_def nat_dec.simps digit_chars)

lemmas demo_texts = demo_itoa demo_prices demo_ints

lemma demo_qty: "encode_qty demo_fmt (F64 0x3FF0000000000000) = ''1''" "feq 0 (0 :: f64)"
proof -
  let ?one = "F64 0x3FF0000000000000"
  have "ftrunc ?one = ?one" "feq (?one - ?one) 0" "is_finite ?one" "sint (f64_as_i64 ?one) = 1"
    by code_simp+
  moreover have "lit 1000000000000000000 = F64 0x43ABC16D674EC800" by code_simp
  moreover have "\<bar>?one\<bar> < F64 0x43ABC16D674EC800" by code_simp
  ultimately show "encode_qty demo_fmt ?one = ''1''"
    by (simp add: encode_qty_def ffract_def demo_texts)
  show "feq 0 (0 :: f64)" by code_simp
qed

lemma demo_order_ok: "msg_ok (place_order_fields demo_fmt 123 demo_request demo_order)"
proof -
  let ?fs = "place_order_fields demo_fmt 123 demo_request demo_order"
  have fs: "list_all ascii_field ?fs \<and> length (payload_of ?fs) \<le> 16777216"
    by (simp add: place_order_fields_def demo_request_def demo_order_def demo_texts demo_qty encode_bool_def
        encode_unset_def encode_int_def encode_int64_def OUT_PLACE_ORDER_def ascii_field_def payload_of_def)
  then show ?thesis by (auto simp: msg_ok_def MAX_MESSAGE_BYTES_def list_all_iff intro: ascii_field_ok)
qed

theorem place_order_fast_eq_slow_witness:
  "place_order_fast demo_fmt 123 (from_contract demo_fmt demo_request) demo_order =
     place_order_frame demo_fmt 123 demo_request demo_order \<and>
   try_decode_frame (place_order_fast demo_fmt 123 (from_contract demo_fmt demo_request) demo_order @ []) =
     (Inr (Some (place_order_fields demo_fmt 123 demo_request demo_order)), [])"
  using place_order_fast_eq_slow [OF demo_itoa] demo_order_ok by blast

end
