(* ===== verification/Ibkr_Client.thy ===== *)
theory Ibkr_Client
  imports Ibkr_Decoder Ibkr_Requests
begin

section \<open>The IBKR client\<close>

text \<open>
  \<^verbatim>\<open>client.rs\<close>: the connection with its handshake, the allocation of order ids, and the receive task
  that cuts the byte stream into frames, keeps the order-id counter and the account list, and hands
  the frames to the dispatcher over a bounded channel.

  The socket is what the calls of the I/O library return, given as arguments: whether a connect or a
  write succeeds and what each read delivers.  \<open>wire\<close> collects the bytes written.  A bounded wait is a
  list of the states seen at its polls; the deadline has passed when the list ends.  Logging and
  socket options are left out.
\<close>

subsection \<open>State\<close>

record client =
  client_id :: i32
  writer_open :: bool
  wire :: bytes
  server_version :: i32
  conn_time :: string
  next_order_id :: i32
  managed_accounts :: "string list"
  dispatch :: "(string list \<times> u64) list"
  dispatch_closed :: bool
  msgs_sent :: u64
  msgs_recv :: u64
  msgs_dropped :: u64

definition DISPATCH_CHANNEL_CAP :: nat where "DISPATCH_CHANNEL_CAP = 16384"

definition new_client :: "i32 \<Rightarrow> client" where
  "new_client cid = \<lparr>client_id = cid, writer_open = False, wire = [], server_version = 0, conn_time = [],
     next_order_id = 0, managed_accounts = [], dispatch = [], dispatch_closed = False, msgs_sent = 0,
     msgs_recv = 0, msgs_dropped = 0\<rparr>"

subsection \<open>Order ids\<close>

text \<open>One locked look at the counter, and the bounded poll around it; \<open>env\<close> is what the other tasks
  do to the client during a sleep.\<close>

definition alloc_attempt :: "client \<Rightarrow> i32 option \<times> client" where
  "alloc_attempt C =
     (let oid = next_order_id C in
      if 0 < sint oid then (Some oid, C\<lparr>next_order_id := oid + 1\<rparr>) else (None, C))"

fun poll_alloc :: "(nat \<Rightarrow> client \<Rightarrow> client) \<Rightarrow> nat \<Rightarrow> client \<Rightarrow> i32 \<times> client" where
  "poll_alloc env 0 C = (0, C)"
| "poll_alloc env (Suc k) C =
     (case alloc_attempt (env k C) of
        (Some oid, C') \<Rightarrow> (oid, C')
      | (None, C') \<Rightarrow> poll_alloc env k C')"

definition alloc_order_id :: "(nat \<Rightarrow> client \<Rightarrow> client) \<Rightarrow> client \<Rightarrow> i32 \<times> client" where
  "alloc_order_id env C =
     (case alloc_attempt C of (Some oid, C') \<Rightarrow> (oid, C') | (None, C') \<Rightarrow> poll_alloc env 50 C')"

subsection \<open>Connecting\<close>

datatype hs_read = Got bytes | WouldBlock | Eof | ReadError

fun read_handshake_reply :: "bytes \<Rightarrow> hs_read list \<Rightarrow> native_error + (i32 \<times> string)" where
  "read_handshake_reply buf [] = Inl HandshakeTimeout"
| "read_handshake_reply buf (Eof # reads) = Inl (Protocol ''handshake: connection closed by peer'')"
| "read_handshake_reply buf (WouldBlock # reads) = read_handshake_reply buf reads"
| "read_handshake_reply buf (ReadError # reads) = Inl Io"
| "read_handshake_reply buf (Got bs # reads) =
     (case try_decode_frame (buf @ bs) of
        (Inl e, _) \<Rightarrow> Inl e
      | (Inr None, buf') \<Rightarrow> read_handshake_reply buf' reads
      | (Inr (Some flds), _) \<Rightarrow>
          (if length flds < 2 then Inl (Protocol ''handshake reply fields'')
           else case parse_int (flds ! 0) of
               Inl e \<Rightarrow> Inl e
             | Inr v \<Rightarrow> Inr (v, flds ! 1)))"

definition start_api :: "i32 \<Rightarrow> bytes" where
  "start_api cid = encode_fields [int_dec (sint OUT_START_API), ''2'', int_dec (sint cid), []]"

text \<open>
  \<open>tcp\<close> is the result of the TCP connect (its time-out is \<^verbatim>\<open>HandshakeTimeout\<close>), \<open>nodelay_ok\<close>, \<open>hello_ok\<close>
  and \<open>start_ok\<close> whether \<^verbatim>\<open>set_nodelay\<close> and the two writes succeed.  The result tells whether the
  receive task was started.
\<close>

definition connect ::
  "native_error + unit \<Rightarrow> bool \<Rightarrow> bool \<Rightarrow> hs_read list \<Rightarrow> bool \<Rightarrow> client \<Rightarrow> (native_error + unit) \<times> client" where
  "connect tcp nodelay_ok hello_ok reads start_ok C =
     (case tcp of
        Inl e \<Rightarrow> (Inl e, C)
      | Inr _ \<Rightarrow>
        if \<not> nodelay_ok then (Inl Io, C)
        else if \<not> hello_ok then (Inl Io, C)
        else
          let C = C\<lparr>wire := wire C @ encode_handshake MIN_SERVER_VERSION MAX_CLIENT_VERSION\<rparr> in
          (case read_handshake_reply [] reads of
             Inl e \<Rightarrow> (Inl e, C)
           | Inr (version, time) \<Rightarrow>
               if sint version < sint MIN_SERVER_VERSION
               then (Inl (ServerVersionTooLow version MIN_SERVER_VERSION), C)
               else
                 let C = C\<lparr>server_version := version, conn_time := time\<rparr> in
                 if \<not> start_ok then (Inl Io, C)
                 else (Inr (), C\<lparr>wire := wire C @ start_api (client_id C), msgs_sent := msgs_sent C + 1,
                         writer_open := True\<rparr>)))"

fun wait_for_bootstrap :: "client list \<Rightarrow> native_error + unit" where
  "wait_for_bootstrap [] = Inl HandshakeTimeout"
| "wait_for_bootstrap (C # polls) =
     (if 0 < sint (next_order_id C) \<and> managed_accounts C \<noteq> [] then Inr () else wait_for_bootstrap polls)"

definition send_raw :: "bool \<Rightarrow> bytes \<Rightarrow> client \<Rightarrow> (native_error + unit) \<times> client" where
  "send_raw write_ok frame C =
     (if \<not> writer_open C then (Inl SocketNotConnected, C)
      else if \<not> write_ok then (Inl Io, C)
      else (Inr (), C\<lparr>wire := wire C @ frame, msgs_sent := msgs_sent C + 1\<rparr>))"

definition send_fields :: "bool \<Rightarrow> string list \<Rightarrow> client \<Rightarrow> (native_error + unit) \<times> client" where
  "send_fields write_ok flds C = send_raw write_ok (encode_fields flds) C"

definition disconnect :: "client \<Rightarrow> client" where
  "disconnect C = C\<lparr>writer_open := False\<rparr>"

subsection \<open>The receive task\<close>

text \<open>What the task does with the frames it owns state for.\<close>

definition note_frame :: "string list \<Rightarrow> client \<Rightarrow> client" where
  "note_frame flds C =
     (case flds of
        [] \<Rightarrow> C
      | ty # _ \<Rightarrow>
        (case parse_int ty of
           Inl _ \<Rightarrow> C
         | Inr ty_id \<Rightarrow>
             if ty_id = IN_NEXT_VALID_ID \<and> 3 \<le> length flds then
               (case parse_int (flds ! 2) of
                  Inl _ \<Rightarrow> C
                | Inr oid \<Rightarrow> if sint (next_order_id C) < sint oid then C\<lparr>next_order_id := oid\<rparr> else C)
             else if ty_id = IN_MANAGED_ACCTS \<and> 3 \<le> length flds then
               C\<lparr>managed_accounts := split_accounts (flds ! 2)\<rparr>
             else C))"

text \<open>One frame: counted, noted and offered to the channel; \<open>False\<close> when the channel is closed.\<close>

definition recv_frame :: "u64 \<Rightarrow> string list \<Rightarrow> client \<Rightarrow> bool \<times> client" where
  "recv_frame recv_ns flds C =
     (let C = note_frame flds (C\<lparr>msgs_recv := msgs_recv C + 1\<rparr>) in
      if dispatch_closed C then (False, C)
      else if DISPATCH_CHANNEL_CAP \<le> length (dispatch C) then (True, C\<lparr>msgs_dropped := msgs_dropped C + 1\<rparr>)
      else (True, C\<lparr>dispatch := dispatch C @ [(flds, recv_ns)]\<rparr>))"

fun recv_frames :: "u64 \<Rightarrow> string list list \<Rightarrow> client \<Rightarrow> bool \<times> client" where
  "recv_frames recv_ns [] C = (True, C)"
| "recv_frames recv_ns (flds # rest) C =
     (case recv_frame recv_ns flds C of
        (False, C') \<Rightarrow> (False, C')
      | (True, C') \<Rightarrow> recv_frames recv_ns rest C')"

record recv_task =
  rt_client :: client
  rt_buf :: bytes
  rt_running :: bool

text \<open>One read: \<open>None\<close> is a read error, no bytes the end of the stream.\<close>

definition recv_read :: "u64 \<Rightarrow> bytes option \<Rightarrow> recv_task \<Rightarrow> recv_task" where
  "recv_read recv_ns data T =
     (if \<not> rt_running T then T
      else case data of
          None \<Rightarrow> T\<lparr>rt_running := False\<rparr>
        | Some bs \<Rightarrow>
            if bs = [] then T\<lparr>rt_running := False\<rparr>
            else (case try_decode_all (rt_buf T @ bs) of
                (Inl e, buf) \<Rightarrow> T\<lparr>rt_buf := buf, rt_running := False\<rparr>
              | (Inr frames, buf) \<Rightarrow>
                  (case recv_frames recv_ns frames (rt_client T) of
                     (go, C) \<Rightarrow> T\<lparr>rt_client := C, rt_buf := buf, rt_running := go\<rparr>)))"

subsection \<open>Frames arrive whole however the stream is cut\<close>

lemma note_frame_simps [simp]:
  "dispatch (note_frame flds C) = dispatch C" "dispatch_closed (note_frame flds C) = dispatch_closed C"
  "msgs_recv (note_frame flds C) = msgs_recv C" "msgs_dropped (note_frame flds C) = msgs_dropped C"
  by (simp_all add: note_frame_def split: list.splits sum.splits)

lemma note_frame_msgs_recv [simp]:
  "note_frame flds (C\<lparr>msgs_recv := n\<rparr>) = (note_frame flds C)\<lparr>msgs_recv := n\<rparr>"
  "note_frame flds (C\<lparr>msgs_dropped := n\<rparr>) = (note_frame flds C)\<lparr>msgs_dropped := n\<rparr>"
  "note_frame flds (C\<lparr>dispatch := d\<rparr>) = (note_frame flds C)\<lparr>dispatch := d\<rparr>"
  by (simp_all add: note_frame_def split: list.splits sum.splits)

lemma fold_note_frame [simp]:
  "dispatch (fold note_frame fs C) = dispatch C" "dispatch_closed (fold note_frame fs C) = dispatch_closed C"
  "msgs_dropped (fold note_frame fs C) = msgs_dropped C"
  "fold note_frame fs (C\<lparr>msgs_recv := n\<rparr>) = (fold note_frame fs C)\<lparr>msgs_recv := n\<rparr>"
  "fold note_frame fs (C\<lparr>msgs_dropped := n\<rparr>) = (fold note_frame fs C)\<lparr>msgs_dropped := n\<rparr>"
  "fold note_frame fs (C\<lparr>dispatch := d\<rparr>) = (fold note_frame fs C)\<lparr>dispatch := d\<rparr>"
  by (induction fs arbitrary: C) simp_all

text \<open>The frames the channel still has room for are forwarded, the rest are counted as dropped.\<close>

definition channel_room :: "client \<Rightarrow> nat" where
  "channel_room C = DISPATCH_CHANNEL_CAP - length (dispatch C)"

definition after_frames :: "u64 \<Rightarrow> string list list \<Rightarrow> client \<Rightarrow> client" where
  "after_frames ns frames C = (fold note_frame frames C)
     \<lparr>msgs_recv := msgs_recv C + of_nat (length frames),
      msgs_dropped := msgs_dropped C + of_nat (length frames - channel_room C),
      dispatch := dispatch C @ map (\<lambda>f. (f, ns)) (take (channel_room C) frames)\<rparr>"

lemma after_frames_simps:
  "dispatch_closed (after_frames ns fs C) = dispatch_closed C"
  "map fst (dispatch (after_frames ns fs C)) = map fst (dispatch C) @ take (channel_room C) fs"
  "msgs_dropped (after_frames ns fs C) = msgs_dropped C + of_nat (length fs - channel_room C)"
  "channel_room (after_frames ns fs C) = channel_room C - length fs"
  "next_order_id (fold note_frame gs (after_frames ns fs C)) = next_order_id (fold note_frame gs (fold note_frame fs C))"
  "managed_accounts (fold note_frame gs (after_frames ns fs C)) =
     managed_accounts (fold note_frame gs (fold note_frame fs C))"
  by (simp_all add: after_frames_def channel_room_def comp_def)

lemma recv_frames_bounded:
  "\<not> dispatch_closed C \<Longrightarrow> recv_frames ns frames C = (True, after_frames ns frames C)"
proof (induction frames arbitrary: C)
  case Nil
  then show ?case by (simp add: after_frames_def)
next
  case (Cons f frames)
  show ?case
  proof (cases "DISPATCH_CHANNEL_CAP \<le> length (dispatch C)")
    case True
    with Cons show ?thesis by (simp add: recv_frame_def Let_def after_frames_def channel_room_def add.assoc)
  next
    case False
    then have "DISPATCH_CHANNEL_CAP - length (dispatch C) = Suc (DISPATCH_CHANNEL_CAP - Suc (length (dispatch C)))"
      by simp
    with False Cons show ?thesis by (simp add: recv_frame_def Let_def after_frames_def channel_room_def add.assoc)
  qed
qed

definition recv_reads :: "(u64 \<times> bytes) list \<Rightarrow> recv_task \<Rightarrow> recv_task" where
  "recv_reads reads T = fold (\<lambda>(ns, bs). recv_read ns (Some bs)) reads T"

lemma recv_reads_frames:
  assumes "try_decode_all (rt_buf T @ concat (map snd reads)) = (Inr msgs, tail)"
    and "[] \<notin> set (map snd reads)" "rt_running T" "\<not> dispatch_closed (rt_client T)"
    and "try_decode_frame (rt_buf T) = (Inr None, rt_buf T)"
  shows "rt_running (recv_reads reads T) \<and> rt_buf (recv_reads reads T) = tail \<and>
    map fst (dispatch (rt_client (recv_reads reads T))) =
      map fst (dispatch (rt_client T)) @ take (channel_room (rt_client T)) msgs \<and>
    msgs_dropped (rt_client (recv_reads reads T)) =
      msgs_dropped (rt_client T) + of_nat (length msgs - channel_room (rt_client T)) \<and>
    next_order_id (rt_client (recv_reads reads T)) = next_order_id (fold note_frame msgs (rt_client T)) \<and>
    managed_accounts (rt_client (recv_reads reads T)) = managed_accounts (fold note_frame msgs (rt_client T))"
  using assms
proof (induction reads arbitrary: T msgs)
  case Nil
  then show ?case by (simp add: recv_reads_def try_decode_all.simps [of "rt_buf T"])
next
  case (Cons r reads)
  obtain ns bs where r: "r = (ns, bs)" by (cases r)
  have "try_decode_all ((rt_buf T @ bs) @ concat (map snd reads)) = (Inr msgs, tail)"
    using Cons.prems(1) r by simp
  then obtain out1 out2 rest where out: "try_decode_all (rt_buf T @ bs) = (Inr out1, rest)"
      "msgs = out1 @ out2" "try_decode_all (rest @ concat (map snd reads)) = (Inr out2, tail)"
    by (rule try_decode_all_prefix)
  let ?C = "after_frames ns out1 (rt_client T)"
  let ?T = "T\<lparr>rt_client := ?C, rt_buf := rest, rt_running := True\<rparr>"
  have step: "recv_read ns (Some bs) T = ?T"
    using Cons.prems r out recv_frames_bounded [of "rt_client T" ns out1]
    by (auto simp: recv_read_def)
  have "length out1 - r + (length out2 - (r - length out1)) = length out1 + length out2 - r" for r by arith
  then have "(of_nat (length out1 - r) :: u64) + of_nat (length out2 - (r - length out1)) =
      of_nat (length out1 + length out2 - r)" for r
    by (simp flip: of_nat_add)
  moreover have "try_decode_frame rest = (Inr None, rest)"
    using try_decode_all_rest [OF out(1)] .
  ultimately show ?case
    using Cons.IH [of ?T out2] Cons.prems r out(2,3) step
    by (simp add: recv_reads_def after_frames_simps add.assoc)
qed

text \<open>
  \<^bold>\<open>C16.\<close> However the byte stream of a sequence of messages (and the beginning of another) is cut into
  reads, the receive task of an open dispatch channel stays alive and holds back exactly the incomplete
  message, and its order-id counter and account list are what all the messages make of them.  While
  nothing is taken from the channel it forwards, in order, exactly the messages the channel of 16384
  places still has room for, and counts each of the others as dropped: none is lost when they all fit.
\<close>

theorem stream_cut_anywhere:
  assumes "list_all msg_ok msgs" "try_decode_frame tail = (Inr None, tail)"
    and "concat (map snd reads) = concat (map encode_fields msgs) @ tail" "[] \<notin> set (map snd reads)"
    and "rt_running T" "rt_buf T = []" "\<not> dispatch_closed (rt_client T)"
  shows "rt_running (recv_reads reads T) \<and> rt_buf (recv_reads reads T) = tail \<and>
    map fst (dispatch (rt_client (recv_reads reads T))) =
      map fst (dispatch (rt_client T)) @ take (16384 - length (dispatch (rt_client T))) msgs \<and>
    msgs_dropped (rt_client (recv_reads reads T)) = msgs_dropped (rt_client T) +
      of_nat (length (dispatch (rt_client T)) + length msgs - max 16384 (length (dispatch (rt_client T)))) \<and>
    (length (dispatch (rt_client T)) + length msgs \<le> 16384 \<longrightarrow>
      map fst (dispatch (rt_client (recv_reads reads T))) = map fst (dispatch (rt_client T)) @ msgs \<and>
      msgs_dropped (rt_client (recv_reads reads T)) = msgs_dropped (rt_client T)) \<and>
    next_order_id (rt_client (recv_reads reads T)) = next_order_id (fold note_frame msgs (rt_client T)) \<and>
    managed_accounts (rt_client (recv_reads reads T)) = managed_accounts (fold note_frame msgs (rt_client T))"
proof -
  have "try_decode_all (rt_buf T @ concat (map snd reads)) = (Inr msgs, tail)"
    using assms try_decode_all_encoded by simp
  moreover have "try_decode_frame (rt_buf T) = (Inr None, rt_buf T)"
    using assms by (simp add: try_decode_frame_def)
  moreover have "length msgs - channel_room (rt_client T) =
      length (dispatch (rt_client T)) + length msgs - max 16384 (length (dispatch (rt_client T)))"
    by (auto simp: channel_room_def DISPATCH_CHANNEL_CAP_def)
  ultimately show ?thesis
    using recv_reads_frames [of T reads msgs tail] assms(4,5,7)
    by (auto simp: channel_room_def DISPATCH_CHANNEL_CAP_def)
qed

definition demo_msgs :: "string list list" where
  "demo_msgs = [[''9'', ''1'', ''42''], [''15'', ''1'', ''DU1,DU2'']]"

definition demo_task :: recv_task where
  "demo_task = \<lparr>rt_client = new_client 0, rt_buf = [], rt_running = True\<rparr>"

definition demo_reads :: "(u64 \<times> bytes) list" where
  "demo_reads = (let s = concat (map encode_fields demo_msgs) @ [0, 0] in
     [(1, take 2 s), (2, take 10 (drop 2 s)), (3, drop 12 s)])"

theorem stream_cut_anywhere_witness:
  "map fst (dispatch (rt_client (recv_reads demo_reads demo_task))) = demo_msgs \<and>
   next_order_id (rt_client (recv_reads demo_reads demo_task)) = 42 \<and>
   managed_accounts (rt_client (recv_reads demo_reads demo_task)) = [''DU1'', ''DU2'']"
proof -
  have "list_all msg_ok demo_msgs"
    by (simp add: demo_msgs_def msg_ok_def ascii_field_ok ascii_field_def payload_of_def MAX_MESSAGE_BYTES_def)
  moreover have "try_decode_frame [0, 0] = (Inr None, [0, 0])" by (simp add: try_decode_frame_def)
  moreover have "concat (map snd demo_reads) = concat (map encode_fields demo_msgs) @ [0, 0]"
    "[] \<notin> set (map snd demo_reads)"
    by code_simp+
  moreover have "rt_running demo_task" "rt_buf demo_task = []" "\<not> dispatch_closed (rt_client demo_task)"
    "dispatch (rt_client demo_task) = []" "length demo_msgs = 2"
    by (simp_all add: demo_task_def new_client_def demo_msgs_def)
  moreover have "next_order_id (fold note_frame demo_msgs (rt_client demo_task)) = 42"
    "managed_accounts (fold note_frame demo_msgs (rt_client demo_task)) = [''DU1'', ''DU2'']"
    by code_simp+
  ultimately show ?thesis
    using stream_cut_anywhere [of demo_msgs "[0, 0]" demo_reads demo_task]
    by (simp add: DISPATCH_CHANNEL_CAP_def)
qed

subsection \<open>Order ids are never reused\<close>

text \<open>
  The history of the counter: ids the gateway announces and ids that are handed out, for any
  interleaving of allocations, received frames and sends.
\<close>

datatype id_event = Announced i32 | Allocated i32

definition announces :: "string list \<Rightarrow> i32 option" where
  "announces flds =
     (case flds of
        ty # _ # oid # _ \<Rightarrow> (case (parse_int ty, parse_int oid) of
           (Inr t, Inr n) \<Rightarrow> if t = IN_NEXT_VALID_ID then Some n else None
         | _ \<Rightarrow> None)
      | _ \<Rightarrow> None)"

inductive id_run :: "client \<Rightarrow> id_event list \<Rightarrow> client \<Rightarrow> bool" for C0 where
  start: "id_run C0 [] C0"
| alloc: "id_run C0 tr C \<Longrightarrow> alloc_attempt C = (Some oid, C') \<Longrightarrow> id_run C0 (tr @ [Allocated oid]) C'"
| frame: "id_run C0 tr C \<Longrightarrow> recv_frame ns flds C = (go, C') \<Longrightarrow>
    id_run C0 (tr @ (case announces flds of Some oid \<Rightarrow> [Announced oid] | None \<Rightarrow> [])) C'"
| send: "id_run C0 tr C \<Longrightarrow> send_raw ok fr C = (r, C') \<Longrightarrow> id_run C0 tr C'"

fun id_before :: "id_event \<Rightarrow> id_event \<Rightarrow> bool" where
  "id_before (Allocated a) (Allocated b) \<longleftrightarrow> sint a < sint b"
| "id_before (Announced a) (Allocated b) \<longleftrightarrow> sint a \<le> sint b"
| "id_before _ (Announced _) \<longleftrightarrow> True"

fun id_below :: "id_event \<Rightarrow> i32 \<Rightarrow> bool" where
  "id_below (Allocated a) n \<longleftrightarrow> sint a < sint n"
| "id_below (Announced a) n \<longleftrightarrow> sint a \<le> sint n"

definition id_inv :: "id_event list \<Rightarrow> client \<Rightarrow> bool" where
  "id_inv tr C \<longleftrightarrow> sorted_wrt id_before tr \<and> (\<forall>e\<in>set tr. id_below e (next_order_id C))"

lemma next_order_id_note_frame:
  "next_order_id (note_frame flds C) =
     (case announces flds of
        Some oid \<Rightarrow> if sint (next_order_id C) < sint oid then oid else next_order_id C
      | None \<Rightarrow> next_order_id C)"
  by (auto simp: note_frame_def announces_def type_ids split: list.splits sum.splits)

lemma id_below_mono: "id_below e n \<Longrightarrow> sint n \<le> sint n' \<Longrightarrow> id_below e n'"
  by (cases e) auto

lemma id_before_allocated: "id_below e n \<longleftrightarrow> id_before e (Allocated n)"
  by (cases e) auto

lemma recv_frame_next_order_id:
  "recv_frame ns flds C = (go, C') \<Longrightarrow> next_order_id C' = next_order_id (note_frame flds C)"
  by (auto simp: recv_frame_def Let_def split: if_splits)

lemma id_run_inv:
  "id_run C0 tr C \<Longrightarrow> Allocated (2 ^ 31 - 1) \<notin> set tr \<Longrightarrow> id_inv tr C"
proof (induction rule: id_run.induct)
  case (alloc tr C oid C')
  have inv: "id_inv tr C" and n: "oid = next_order_id C" "next_order_id C' = oid + 1"
    using alloc by (auto simp: alloc_attempt_def Let_def split: if_splits)
  have "oid = 2 ^ 31 - 1" if "sint oid = 2 ^ 31 - 1"
    using arg_cong [where f = "word_of_int :: int \<Rightarrow> i32", OF that] by simp
  then have "sint oid \<noteq> 2 ^ 31 - 1" using alloc.prems by auto
  then have "sint (oid + 1) = sint oid + 1" using i32_range [of oid] sint_add_i32 [of oid 1] by simp
  then show ?case
    using inv n
    by (auto simp: id_inv_def sorted_wrt_append id_before_allocated [symmetric] intro: id_below_mono)
next
  case (frame tr C ns flds go C')
  then have "id_inv tr C" by (auto split: option.splits)
  then show ?case
    using recv_frame_next_order_id [OF frame.hyps(2)]
    by (auto simp: id_inv_def sorted_wrt_append next_order_id_note_frame intro: id_below_mono
        split: option.splits if_splits)
next
  case (send tr C ok fr r C')
  then show ?case by (auto simp: id_inv_def send_raw_def split: if_splits)
qed (simp add: id_inv_def)

lemma id_run_last:
  "id_run C0 tr C \<Longrightarrow> tr = t @ [Allocated oid] \<Longrightarrow> Allocated (2 ^ 31 - 1) \<notin> set t \<Longrightarrow>
     \<forall>e\<in>set t. id_before e (Allocated oid)"
proof (induction arbitrary: t rule: id_run.induct)
  case (alloc tr C oid' C')
  then have "t = tr" "oid' = oid" by auto
  then show ?case
    using id_run_inv [OF alloc.hyps(1)] alloc
    by (auto simp: id_inv_def id_before_allocated alloc_attempt_def Let_def split: if_splits)
next
  case (frame tr C ns flds go C')
  then show ?case by (cases "announces flds") auto
qed auto

lemma poll_alloc_run:
  assumes "\<And>k tr D. id_run C0 tr D \<Longrightarrow> \<exists>tr'. id_run C0 (tr @ tr') (env k D)"
  shows "id_run C0 tr C \<Longrightarrow> poll_alloc env k C = (oid, C') \<Longrightarrow>
    oid = 0 \<or> (\<exists>tr'. id_run C0 (tr @ tr' @ [Allocated oid]) C' \<and> 0 < sint oid)"
proof (induction k arbitrary: tr C)
  case (Suc k)
  obtain tr' where run: "id_run C0 (tr @ tr') (env k C)" using assms Suc.prems(1) by blast
  obtain r D where r: "alloc_attempt (env k C) = (r, D)" by (cases "alloc_attempt (env k C)")
  show ?case
  proof (cases r)
    case None
    then have "D = env k C" using r by (auto simp: alloc_attempt_def Let_def split: if_splits)
    then show ?thesis using Suc.IH [OF run] Suc.prems(2) r None by (auto, metis append_assoc)
  next
    case (Some i)
    then have "i = oid" "D = C'" using Suc.prems(2) r by auto
    then show ?thesis
      using id_run.alloc [OF run] r Some by (auto simp: alloc_attempt_def Let_def split: if_splits)
  qed
qed simp

text \<open>
  \<^bold>\<open>C24.\<close> Order ids are never reused: after any interleaving of allocations, received frames and sends,
  and with the other tasks running on during its waits, \<^verbatim>\<open>alloc_order_id\<close> returns 0 (not seeded) or a
  positive id that is greater than every id handed out before and at least every id the gateway has
  announced, unless the largest \<^verbatim>\<open>i32\<close> was handed out and the counter wrapped.
\<close>

theorem order_ids_fresh:
  assumes "id_run C0 tr C" "\<And>k tr D. id_run C0 tr D \<Longrightarrow> \<exists>tr'. id_run C0 (tr @ tr') (env k D)"
    and "alloc_order_id env C = (oid, C')"
  shows "oid = 0 \<or>
    (\<exists>tr'. id_run C0 (tr @ tr' @ [Allocated oid]) C' \<and> 0 < sint oid \<and>
      (Allocated (2 ^ 31 - 1) \<in> set (tr @ tr') \<or> (\<forall>e\<in>set (tr @ tr'). id_before e (Allocated oid))))"
proof -
  have "oid = 0 \<or> (\<exists>tr'. id_run C0 (tr @ tr' @ [Allocated oid]) C' \<and> 0 < sint oid)"
  proof (cases "0 < sint (next_order_id C)")
    case True
    then have "oid = next_order_id C" "alloc_attempt C = (Some oid, C')"
      using assms(3) by (auto simp: alloc_order_id_def alloc_attempt_def Let_def)
    then show ?thesis using id_run.alloc [OF assms(1)] True by (metis append_Nil)
  next
    case False
    then show ?thesis
      using assms(3) poll_alloc_run [OF assms(2) assms(1)]
      by (simp add: alloc_order_id_def alloc_attempt_def Let_def)
  qed
  moreover have "\<forall>e\<in>set t. id_before e (Allocated oid)"
    if "id_run C0 (t @ [Allocated oid]) C'" "Allocated (2 ^ 31 - 1) \<notin> set t" for t
    using id_run_last [OF that(1) refl that(2)] .
  ultimately show ?thesis by (metis append_assoc)
qed

definition demo_env :: "nat \<Rightarrow> client \<Rightarrow> client" where
  "demo_env k C = snd (recv_frame 0 [''9'', ''1'', ''42''] C)"

theorem order_ids_fresh_witness:
  "alloc_order_id demo_env (new_client 0) = (42, (demo_env 49 (new_client 0))\<lparr>next_order_id := 43\<rparr>) \<and>
   (\<exists>tr'. id_run (new_client 0) (tr' @ [Allocated 42]) ((demo_env 49 (new_client 0))\<lparr>next_order_id := 43\<rparr>))"
proof -
  have alloc: "alloc_order_id demo_env (new_client 0) =
      (42, (demo_env 49 (new_client 0))\<lparr>next_order_id := 43\<rparr>)"
    by code_simp
  have "\<exists>tr'. id_run (new_client 0) (tr @ tr') (demo_env k D)" if "id_run (new_client 0) tr D" for k tr D
    using id_run.frame [OF that] by (metis demo_env_def prod.collapse)
  then show ?thesis
    using order_ids_fresh [OF id_run.start _ alloc] alloc by auto
qed

subsection \<open>The handshake\<close>

definition got_bytes :: "hs_read list \<Rightarrow> bytes" where
  "got_bytes reads = concat (map (\<lambda>r. case r of Got bs \<Rightarrow> bs | _ \<Rightarrow> []) reads)"

definition reply_of :: "hs_read list \<Rightarrow> i32 \<times> string \<Rightarrow> bool" where
  "reply_of reads vt \<longleftrightarrow> (\<exists>flds rest. try_decode_frame (got_bytes reads) = (Inr (Some flds), rest) \<and>
     2 \<le> length flds \<and> parse_int (flds ! 0) = Inr (fst vt) \<and> flds ! 1 = snd vt)"

lemma read_handshake_reply_frame:
  "read_handshake_reply buf reads = Inr vt \<Longrightarrow> \<exists>k. reply_of (Got buf # take k reads) vt"
proof (induction buf reads rule: read_handshake_reply.induct)
  case (3 buf reads)
  then obtain k where "reply_of (Got buf # take k reads) vt" by auto
  then have "reply_of (Got buf # take (Suc k) (WouldBlock # reads)) vt"
    by (simp add: reply_of_def got_bytes_def)
  then show ?case ..
next
  case (5 buf bs reads)
  obtain r rest where d: "try_decode_frame (buf @ bs) = (r, rest)" by (cases "try_decode_frame (buf @ bs)")
  consider (none) "r = Inr None" | (some) flds where "r = Inr (Some flds)"
    using 5 d by (cases r) (auto split: option.splits)
  then show ?case
  proof cases
    case none
    then have "rest = buf @ bs" using d by (auto simp: try_decode_frame_def Let_def split: if_splits)
    then obtain k where "reply_of (Got (buf @ bs) # take k reads) vt"
      using 5(1) [of "Inr None" "buf @ bs" None] 5(2) d none by auto
    then have "reply_of (Got buf # take (Suc k) (Got bs # reads)) vt"
      by (simp add: reply_of_def got_bytes_def)
    then show ?thesis ..
  next
    case some
    then have "reply_of (Got buf # take 1 (Got bs # reads)) vt"
      using 5(2) d by (auto simp: reply_of_def got_bytes_def not_less split: if_splits sum.splits)
    then show ?thesis ..
  qed
qed auto

text \<open>
  A connect that succeeds has sent exactly the version handshake and the start message, has
  decoded a reply frame with version and time from the first reads, and talks to a server of at least
  version 176.  A connect that fails leaves the client disconnected as it was and has sent at most the handshake; the start message is never sent
  to a server that is too old.
\<close>

theorem connect_outcomes:
  assumes "connect tcp nodelay_ok hello_ok reads start_ok C = (r, C')"
  shows "case r of
      Inr _ \<Rightarrow> writer_open C' \<and> sint MIN_SERVER_VERSION \<le> sint (server_version C') \<and>
        (\<exists>k. reply_of (take k reads) (server_version C', conn_time C')) \<and>
        wire C' = wire C @ encode_handshake MIN_SERVER_VERSION MAX_CLIENT_VERSION @ start_api (client_id C)
    | Inl e \<Rightarrow> writer_open C' = writer_open C \<and>
        wire C' \<in> {wire C, wire C @ encode_handshake MIN_SERVER_VERSION MAX_CLIENT_VERSION}"
proof -
  have "\<exists>k. reply_of (take k reads) vt" if "read_handshake_reply [] reads = Inr vt" for vt
    using read_handshake_reply_frame [OF that] by (simp add: reply_of_def got_bytes_def)
  then show ?thesis
    using assms by (fastforce simp: connect_def Let_def not_less split: sum.splits if_splits)
qed

definition demo_reply :: "hs_read list" where
  "demo_reply = [WouldBlock, Got [0, 0, 0, 6, 49, 55], Got [54, 0, 116, 0]]"

lemma demo_handshake: "fst (connect (Inr ()) True True demo_reply True (new_client 0)) = Inr ()"
proof -
  have "encode_fields [''176'', ''t''] @ [] = [0, 0, 0, 6, 49, 55, 54, 0, 116, 0]" by code_simp
  moreover have "msg_ok [''176'', ''t'']"
    by (simp add: msg_ok_def ascii_field_ok ascii_field_def payload_of_def MAX_MESSAGE_BYTES_def)
  ultimately have "try_decode_frame [0, 0, 0, 6, 49, 55, 54, 0, 116, 0] = (Inr (Some [''176'', ''t'']), [])"
    using try_decode_encoded [of "[''176'', ''t'']" "[]"] by simp
  moreover have "try_decode_frame [0, 0, 0, 6, 49, 55] = (Inr None, [0, 0, 0, 6, 49, 55])"
    by (simp add: try_decode_frame_def be_nat_def MAX_MESSAGE_BYTES_def)
  moreover have "parse_int ''176'' = Inr 176" by code_simp
  ultimately show ?thesis by (simp add: connect_def demo_reply_def MIN_SERVER_VERSION_def)
qed

theorem connect_outcomes_witness:
  "writer_open (snd (connect (Inr ()) True True demo_reply True (new_client 0))) \<and>
   sint MIN_SERVER_VERSION \<le> sint (server_version (snd (connect (Inr ()) True True demo_reply True (new_client 0))))"
  using connect_outcomes [of "Inr ()" True True demo_reply True "new_client 0", OF surjective_pairing]
    demo_handshake by simp

end
