(* ===== verification/Ibkr_Convert.thy ===== *)
theory Ibkr_Convert
  imports Risk Ibkr_Client
begin

section \<open>State and conversions of the IBKR broker adapter\<close>

text \<open>
  The types of the broker interface that the adapter produces (\<^verbatim>\<open>corsair_broker_api\<close>), the state of
  \<^verbatim>\<open>broker.rs\<close> and its conversions between wire messages and interface types.

  A one-shot channel is a number; what is sent into it is an element of the output log, in order with
  the broadcasts.  The date functions of the crate \<^verbatim>\<open>chrono\<close> are the parameter \<open>chrono\<close>.
\<close>

record chrono =
  parse_date :: "string \<Rightarrow> string \<Rightarrow> naive_date option"
  format_date :: "naive_date \<Rightarrow> string"
  format_gtd :: "date_time \<Rightarrow> string"
  format_exec_time :: "int \<Rightarrow> string option"

subsection \<open>Types of the broker interface\<close>

datatype tick_kind = BidTick | AskTick | LastTick | BidSize | AskSize | Volume | OptionOpenInterest | OptionVolume

record tick =
  tk_instrument :: u64
  tk_kind :: tick_kind
  tk_price :: "f64 option"
  tk_size :: "u64 option"
  tk_time :: u64

record depth_update =
  du_instrument :: u64
  du_position :: i32
  du_operation :: i32
  du_is_bid :: bool
  du_price :: f64
  du_size :: u64
  du_time :: u64

record broker_position =
  bp_contract :: contract
  bp_quantity :: i32
  bp_avg_cost :: f64
  bp_realized_pnl :: f64
  bp_unrealized_pnl :: f64

record account_snapshot =
  as_net_liquidation :: f64
  as_maintenance_margin :: f64
  as_initial_margin :: f64
  as_buying_power :: f64
  as_realized_pnl_today :: f64
  as_time :: u64

record open_order =
  ord_id :: u64
  ord_contract :: contract
  ord_side :: side
  ord_qty :: u32
  ord_type :: order_type
  ord_price :: "f64 option"
  ord_tif :: time_in_force
  ord_gtd_until :: "date_time option"
  ord_client_ref :: string
  ord_status :: order_status
  ord_filled_qty :: u32
  ord_remaining_qty :: u32

record order_status_update =
  su_order_id :: u64
  su_status :: order_status
  su_filled_qty :: u32
  su_remaining_qty :: u32
  su_avg_fill_price :: f64
  su_last_fill_price :: "f64 option"
  su_time :: u64
  su_reject_reason :: "string option"

record modify_order_req =
  mo_price :: "f64 option"
  mo_qty :: "u32 option"
  mo_gtd_until :: "date_time option"

record tick_subscription =
  sub_instrument :: u64
  sub_contract :: "contract option"

record future_query =
  fq_symbol :: string
  fq_expiry :: naive_date
  fq_exchange :: exchange
  fq_currency :: currency

record option_query =
  oq_symbol :: string
  oq_expiry :: naive_date
  oq_strike :: f64
  oq_right :: right
  oq_exchange :: exchange
  oq_currency :: currency
  oq_multiplier :: f64

record chain_query =
  cq_symbol :: string
  cq_exchange :: exchange
  cq_currency :: currency
  cq_kind :: "contract_kind option"
  cq_min_expiry :: "naive_date option"

subsection \<open>State\<close>

record seeding =
  positions_done :: bool
  open_orders_done :: bool
  account_done :: bool

record pending_contracts =
  pc_accumulated :: "contract_details_msg list"
  pc_waiter :: nat

record pending_fills =
  pf_accumulated :: "fill list"
  pf_waiter :: nat

record broker_state =
  positions :: "(string \<times> i64) \<rightharpoonup> broker_position"
  open_orders :: "i32 \<rightharpoonup> open_order"
  account_values :: "(string \<times> string \<times> string) \<rightharpoonup> account_value_msg"
  pending_contract_details :: "i32 \<rightharpoonup> pending_contracts"
  pending_executions :: "i32 \<rightharpoonup> pending_fills"
  pending_place_acks :: "i32 \<rightharpoonup> nat"
  wire_send_ns :: "i32 \<rightharpoonup> u64"
  wire_ack_ns :: "i32 \<rightharpoonup> u64"
  strict_ack_ns :: "i32 \<rightharpoonup> u64"
  expected_amend_prices :: "i32 \<rightharpoonup> f64"
  place_templates :: "u64 \<rightharpoonup> bytes"
  tick_routes :: "i32 \<rightharpoonup> u64"
  tick_route_right :: "i32 \<rightharpoonup> right"
  depth_routes :: "i32 \<rightharpoonup> u64"
  handle_to_req_id :: "u64 \<rightharpoonup> i32"
  handle_to_depth_req_id :: "u64 \<rightharpoonup> i32"
  bs_seeding :: seeding
  tick_type_hist :: "i32 \<rightharpoonup> u64"

text \<open>What leaves the dispatcher and the operations: broadcasts, published ticks and answers to waiters.\<close>

datatype effect =
    FillOut fill
  | StatusOut order_status_update
  | TickPublished tick
  | TickOut tick
  | DepthOut depth_update
  | ErrorOut broker_error
  | ConnectionOut connection_state "string option"
  | AckPlace nat "broker_error + unit"
  | AckContracts nat "broker_error + contract list"
  | AckFills nat "broker_error + fill list"

record native_broker =
  nb_account :: string
  nb_client :: client
  nb_state :: broker_state
  next_req_id :: i32
  next_handle :: i32
  nb_connected :: bool
  rx_held :: bool
  has_publisher :: bool
  next_waiter :: nat
  out :: "effect list"

definition empty_state :: broker_state where
  "empty_state = \<lparr>positions = Map.empty, open_orders = Map.empty, account_values = Map.empty,
     pending_contract_details = Map.empty, pending_executions = Map.empty, pending_place_acks = Map.empty,
     wire_send_ns = Map.empty, wire_ack_ns = Map.empty, strict_ack_ns = Map.empty,
     expected_amend_prices = Map.empty, place_templates = Map.empty, tick_routes = Map.empty,
     tick_route_right = Map.empty, depth_routes = Map.empty, handle_to_req_id = Map.empty,
     handle_to_depth_req_id = Map.empty,
     bs_seeding = \<lparr>positions_done = False, open_orders_done = False, account_done = False\<rparr>,
     tick_type_hist = Map.empty\<rparr>"

definition new_broker :: "string \<Rightarrow> i32 \<Rightarrow> native_broker" where
  "new_broker account cid = \<lparr>nb_account = account, nb_client = new_client cid, nb_state = empty_state,
     next_req_id = 1000, next_handle = 1, nb_connected = False, rx_held = True, has_publisher = False,
     next_waiter = 0, out = []\<rparr>"

subsection \<open>Conversions\<close>

text \<open>\<^verbatim>\<open>split_whitespace().next()\<close>: the first run between Unicode white space, in UTF-8.\<close>

fun white_len :: "nat list \<Rightarrow> nat" where
  "white_len (a # rest) =
     (if 9 \<le> a \<and> a \<le> 13 \<or> a = 32 then 1
      else case rest of
          [] \<Rightarrow> 0
        | b # rest' \<Rightarrow>
            if a = 0xC2 \<and> (b = 0x85 \<or> b = 0xA0) then 2
            else case rest' of
                [] \<Rightarrow> 0
              | c # _ \<Rightarrow>
                  if a = 0xE1 \<and> b = 0x9A \<and> c = 0x80 \<or>
                     a = 0xE2 \<and> b = 0x80 \<and> (0x80 \<le> c \<and> c \<le> 0x8A \<or> c = 0xA8 \<or> c = 0xA9 \<or> c = 0xAF) \<or>
                     a = 0xE2 \<and> b = 0x81 \<and> c = 0x9F \<or> a = 0xE3 \<and> b = 0x80 \<and> c = 0x80 then 3 else 0)"
| "white_len [] = 0"

fun take_word :: "string \<Rightarrow> string" where
  "take_word [] = []"
| "take_word (c # s) = (if 0 < white_len (map of_char (c # s)) then [] else c # take_word s)"

function first_word :: "string \<Rightarrow> string" where
  "first_word s =
     (let n = white_len (map of_char s) in
      if s \<noteq> [] \<and> 0 < n then first_word (drop n s) else take_word s)"
  by pat_completeness auto
termination first_word
  by (relation "measure length") auto

definition f64_as_u64 :: "f64 \<Rightarrow> u64" where
  "f64_as_u64 x = word_of_int (f64_to_int 0 (2 ^ 64 - 1) x)"

definition map_native_err :: "native_error \<Rightarrow> broker_error" where
  "map_native_err e =
     (case e of
        Lost t \<Rightarrow> ConnectionLost t
      | SocketNotConnected \<Rightarrow> NotConnected ''not connected''
      | ServerVersionTooLow _ _ \<Rightarrow> ProtocolError None ''server version''
      | Protocol t \<Rightarrow> ProtocolError None t
      | Malformed t \<Rightarrow> ProtocolError None t
      | HandshakeTimeout \<Rightarrow> ConnectionLost ''handshake timed out''
      | Io \<Rightarrow> ConnectionLost ''io'')"

definition parse_status :: "string \<Rightarrow> order_status" where
  "parse_status s =
     (if s = ''PendingSubmit'' \<or> s = ''ApiPending'' \<or> s = ''PreSubmitted'' then PendingSubmit
      else if s = ''Submitted'' then Submitted
      else if s = ''Filled'' then Filled
      else if s = ''Cancelled'' \<or> s = ''ApiCancelled'' then Cancelled
      else if s = ''PendingCancel'' then PendingCancel
      else if s = ''Rejected'' \<or> s = ''ApiRejected'' then RejectedStatus
      else Inactive)"

definition is_contract_error :: "i32 \<Rightarrow> bool" where
  "is_contract_error code \<longleftrightarrow> code \<in> {200, 321, 322}"

definition is_order_error :: "i32 \<Rightarrow> bool" where
  "is_order_error code \<longleftrightarrow> code \<in> {201, 203, 434, 436, 10148, 10197}"

definition error_to_broker_error :: "error_msg \<Rightarrow> broker_error" where
  "error_to_broker_error e =
     (if er_error_code e \<in> {1100, 1101, 1102, 1300} then ConnectionLost (er_error_string e)
      else if er_error_code e = 100 then RateLimited (er_error_string e)
      else if er_error_code e \<in> {110, 200, 321, 322} then ContractNotFound (er_error_string e)
      else ProtocolError (Some (er_error_code e)) (er_error_string e))"

definition parse_side :: "string \<Rightarrow> side option" where
  "parse_side s = (if s = ''BUY'' then Some Buy else if s = ''SELL'' then Some Sell else None)"

definition parse_order_type :: "string \<Rightarrow> f64 \<Rightarrow> order_type" where
  "parse_order_type s aux =
     (if s = ''MKT'' then Market else if s = ''LMT'' then Limit
      else if s = ''STP LMT'' then StopLimit aux else Limit)"

definition parse_tif :: "string \<Rightarrow> time_in_force" where
  "parse_tif s =
     (if s = ''GTC'' then Gtc else if s = ''DAY'' then Day else if s = ''GTD'' then Gtd
      else if s = ''IOC'' then Ioc else if s = ''FOK'' then Fok else Day)"

definition parse_right :: "string \<Rightarrow> right option" where
  "parse_right s =
     (if s = ''C'' \<or> s = ''CALL'' then Some Call else if s = ''P'' \<or> s = ''PUT'' then Some Put else None)"

definition parse_kind :: "string \<Rightarrow> contract_kind option" where
  "parse_kind s =
     (if s = ''FUT'' then Some Future else if s = ''OPT'' \<or> s = ''FOP'' then Some Option else None)"

definition parse_exchange :: "string \<Rightarrow> exchange" where
  "parse_exchange s =
     (if s = ''COMEX'' then Comex else if s = ''NYMEX'' then Nymex else if s = ''CBOT'' then Cbot
      else if s = ''CME'' then Cme else OtherExchange 0)"

definition parse_currency :: "string \<Rightarrow> currency" where
  "parse_currency s =
     (if s = ''USD'' then Usd else if s = ''EUR'' then Eur else if s = ''GBP'' then Gbp
      else if s = ''JPY'' then Jpy else Usd)"

definition unwrap_date :: "naive_date option \<Rightarrow> naive_date" where
  "unwrap_date d = (case d of Some x \<Rightarrow> x | None \<Rightarrow> 0)"

definition decoded_expiry :: "chrono \<Rightarrow> string \<Rightarrow> naive_date" where
  "decoded_expiry D text =
     (let date_str = first_word text in
      unwrap_date (case parse_date D date_str ''%Y%m%d'' of
          Some x \<Rightarrow> Some x | None \<Rightarrow> parse_date D date_str ''%Y%m''))"

definition decoded_contract :: "contract_decoded \<Rightarrow> contract_kind \<Rightarrow> naive_date \<Rightarrow> contract" where
  "decoded_contract c k expiry = \<lparr>instrument_id = cd_con_id c, c_kind = k, c_symbol = cd_symbol c,
     c_local_symbol = cd_local_symbol c, c_expiry = expiry,
     c_strike = (if 0 < cd_strike c then Some (cd_strike c) else None), c_right = parse_right (cd_right c),
     c_multiplier = (case parse_float (cd_multiplier c) of Some x \<Rightarrow> x | None \<Rightarrow> 0),
     c_exchange = parse_exchange (cd_exchange c), c_currency = parse_currency (cd_currency c),
     c_trading_class = cd_trading_class c\<rparr>"

definition native_to_contract :: "chrono \<Rightarrow> contract_details_msg \<Rightarrow> contract option" where
  "native_to_contract D cd =
     (case parse_kind (cd_sec_type (cdm_contract cd)) of
        None \<Rightarrow> None
      | Some k \<Rightarrow> Some (decoded_contract (cdm_contract cd) k
          (decoded_expiry D (cd_last_trade_date (cdm_contract cd)))))"

definition native_to_position :: "chrono \<Rightarrow> position_msg \<Rightarrow> broker_position option" where
  "native_to_position D p =
     (case parse_kind (cd_sec_type (pm_contract p)) of
        None \<Rightarrow> None
      | Some k \<Rightarrow> Some \<lparr>bp_contract = decoded_contract (pm_contract p) k
            (decoded_expiry D (cd_last_trade_date (pm_contract p))),
          bp_quantity = f64_as_i32 (pm_position p), bp_avg_cost = pm_avg_cost p, bp_realized_pnl = 0,
          bp_unrealized_pnl = 0\<rparr>)"

definition native_to_open_order :: "chrono \<Rightarrow> open_order_msg \<Rightarrow> open_order option" where
  "native_to_open_order D o' =
     (case parse_kind (cd_sec_type (oo_contract o')) of
        None \<Rightarrow> None
      | Some k \<Rightarrow>
        (case parse_side (oo_action o') of
           None \<Rightarrow> None
         | Some sd \<Rightarrow> Some \<lparr>ord_id = scast (oo_order_id o'),
             ord_contract = decoded_contract (oo_contract o') k
               (unwrap_date (parse_date D (cd_last_trade_date (oo_contract o')) ''%Y%m%d'')),
             ord_side = sd, ord_qty = f64_as_u32 (oo_total_quantity o'),
             ord_type = parse_order_type (oo_order_type o') 0,
             ord_price = (if is_finite (oo_lmt_price o') \<and> 0 < oo_lmt_price o' then Some (oo_lmt_price o') else None),
             ord_tif = parse_tif (oo_tif o'), ord_gtd_until = None, ord_client_ref = oo_order_ref o',
             ord_status = PendingSubmit, ord_filled_qty = 0, ord_remaining_qty = f64_as_u32 (oo_remaining o')\<rparr>))"

definition execution_to_fill :: "u64 \<Rightarrow> execution_msg \<Rightarrow> fill option" where
  "execution_to_fill now e =
     (let mk = (\<lambda>sd. \<lparr>exec_id = ex_exec_id e, fill_order_id = scast (ex_order_id e),
            fill_instrument = cd_con_id (ex_contract e), fill_side = sd, fill_qty = f64_as_u32 (ex_shares e),
            fill_price = ex_price e, fill_time_ns = now, fill_commission = None\<rparr>) in
      if ex_side e = ''BOT'' then Some (mk Buy) else if ex_side e = ''SLD'' then Some (mk Sell) else None)"

fun exchange_to_str :: "exchange \<Rightarrow> string" where
  "exchange_to_str Comex = ''COMEX''"
| "exchange_to_str Nymex = ''NYMEX''"
| "exchange_to_str Cbot = ''CBOT''"
| "exchange_to_str Cme = ''CME''"
| "exchange_to_str (OtherExchange _) = []"

fun currency_to_str :: "currency \<Rightarrow> string" where
  "currency_to_str Usd = ''USD''"
| "currency_to_str Eur = ''EUR''"
| "currency_to_str Gbp = ''GBP''"
| "currency_to_str Jpy = ''JPY''"

definition sec_type_of :: "contract_kind \<Rightarrow> string" where
  "sec_type_of k = (case k of Future \<Rightarrow> ''FUT'' | Option \<Rightarrow> ''FOP'')"

definition right_to_str :: "right option \<Rightarrow> string" where
  "right_to_str r = (case r of Some Call \<Rightarrow> ''C'' | Some Put \<Rightarrow> ''P'' | None \<Rightarrow> [])"

definition place_order_contract_request :: "chrono \<Rightarrow> contract \<Rightarrow> contract_request" where
  "place_order_contract_request D c = \<lparr>cr_con_id = instrument_id c, cr_symbol = c_symbol c,
     cr_sec_type = sec_type_of (c_kind c), cr_last_trade_date = format_date D (c_expiry c),
     cr_strike = (case c_strike c of Some k \<Rightarrow> k | None \<Rightarrow> 0), cr_right = right_to_str (c_right c),
     cr_multiplier = int_dec (sint (f64_as_i64 (c_multiplier c))), cr_exchange = exchange_to_str (c_exchange c),
     cr_primary_exchange = [], cr_currency = currency_to_str (c_currency c), cr_local_symbol = c_local_symbol c,
     cr_trading_class = (if c_trading_class c = [] then c_symbol c else c_trading_class c)\<rparr>"

definition contract_to_request :: "chrono \<Rightarrow> contract \<Rightarrow> contract_request" where
  "contract_to_request D c = \<lparr>cr_con_id = instrument_id c, cr_symbol = c_symbol c,
     cr_sec_type = sec_type_of (c_kind c), cr_last_trade_date = format_date D (c_expiry c),
     cr_strike = (case c_strike c of Some k \<Rightarrow> k | None \<Rightarrow> 0), cr_right = right_to_str (c_right c),
     cr_multiplier = (if 0 < c_multiplier c then int_dec (uint (f64_as_u64 (c_multiplier c))) else []),
     cr_exchange = exchange_to_str (c_exchange c), cr_primary_exchange = [],
     cr_currency = currency_to_str (c_currency c), cr_local_symbol = c_local_symbol c,
     cr_trading_class = c_trading_class c\<rparr>"

definition empty_contract_request :: "string \<Rightarrow> string \<Rightarrow> contract_request" where
  "empty_contract_request symbol sec_type = \<lparr>cr_con_id = 0, cr_symbol = symbol, cr_sec_type = sec_type,
     cr_last_trade_date = [], cr_strike = 0, cr_right = [], cr_multiplier = [], cr_exchange = [],
     cr_primary_exchange = [], cr_currency = [], cr_local_symbol = [], cr_trading_class = []\<rparr>"

fun tif_to_str :: "time_in_force \<Rightarrow> string" where
  "tif_to_str Gtc = ''GTC''"
| "tif_to_str Day = ''DAY''"
| "tif_to_str Gtd = ''GTD''"
| "tif_to_str Ioc = ''IOC''"
| "tif_to_str Fok = ''FOK''"

definition order_prices :: "place_order_req \<Rightarrow> broker_error + string \<times> f64 \<times> f64" where
  "order_prices req =
     (case po_order_type req of
        Limit \<Rightarrow> (case po_price req of
            Some price \<Rightarrow> Inr (''LMT'', price, 0) | None \<Rightarrow> Inl (InvalidRequest ''limit order requires price''))
      | Market \<Rightarrow> Inr (''MKT'', 0, 0)
      | StopLimit stop \<Rightarrow> (case po_price req of
            Some price \<Rightarrow> Inr (''STP LMT'', price, stop)
          | None \<Rightarrow> Inl (InvalidRequest ''stop-limit requires limit price'')))"

definition good_till :: "chrono \<Rightarrow> place_order_req \<Rightarrow> broker_error + string" where
  "good_till D req =
     (if po_tif req = Gtd then
        (case po_gtd_until req of
           Some t \<Rightarrow> Inr (format_gtd D t)
         | None \<Rightarrow> Inl (InvalidRequest ''Gtd TIF requires gtd_until_utc''))
      else Inr [])"

definition build_place_params :: "chrono \<Rightarrow> place_order_req \<Rightarrow> string \<Rightarrow> broker_error + place_order_params" where
  "build_place_params D req fallback_account =
     (case order_prices req of
        Inl e \<Rightarrow> Inl e
      | Inr (otype, lmt, aux) \<Rightarrow>
        (case good_till D req of
           Inl e \<Rightarrow> Inl e
         | Inr gtd \<Rightarrow> Inr \<lparr>pp_action = (case po_side req of Buy \<Rightarrow> ''BUY'' | Sell \<Rightarrow> ''SELL''),
             pp_total_quantity = u32_as_f64 (po_qty req), pp_order_type = otype, pp_lmt_price = lmt,
             pp_aux_price = aux, pp_tif = tif_to_str (po_tif req), pp_good_till_date = gtd,
             pp_account = (case po_account req of Some a \<Rightarrow> a | None \<Rightarrow> fallback_account),
             pp_order_ref = po_client_ref req, pp_outside_rth = False\<rparr>))"

end
