(* ===== verification/Ibkr_Broker.thy ===== *)
theory Ibkr_Broker
  imports Ibkr_Convert
begin

section \<open>The IBKR broker adapter\<close>

text \<open>
  The dispatcher of \<^verbatim>\<open>broker.rs\<close> (\<^verbatim>\<open>route\<close>, one definition for each message type) and the operations of
  the \<^verbatim>\<open>Broker\<close> trait.  An operation that waits is two definitions: what it does up to the wait, and
  what it does with the outcome of the wait; everything else may happen in between.  One reading of
  the clock serves one message.
\<close>

definition upd_state :: "(broker_state \<Rightarrow> broker_state) \<Rightarrow> native_broker \<Rightarrow> native_broker" where
  "upd_state f B = B\<lparr>nb_state := f (nb_state B)\<rparr>"

definition emit :: "effect list \<Rightarrow> native_broker \<Rightarrow> native_broker" where
  "emit es B = B\<lparr>out := out B @ es\<rparr>"

definition drop_key :: "'k \<Rightarrow> ('k \<rightharpoonup> 'v) \<Rightarrow> ('k \<rightharpoonup> 'v)" where
  "drop_key k m = m(k := None)"

text \<open>\<^verbatim>\<open>entry(k).or_insert(v)\<close>.\<close>

definition or_insert :: "'k \<Rightarrow> 'v \<Rightarrow> ('k \<rightharpoonup> 'v) \<Rightarrow> ('k \<rightharpoonup> 'v)" where
  "or_insert k v m = (case m k of Some _ \<Rightarrow> m | None \<Rightarrow> m(k \<mapsto> v))"

subsection \<open>The dispatcher\<close>

definition route_position :: "chrono \<Rightarrow> position_msg \<Rightarrow> native_broker \<Rightarrow> native_broker" where
  "route_position D p B =
     (let key = (pm_account p, cd_con_id (pm_contract p)) in
      if feq (pm_position p) 0 then
        upd_state (\<lambda>s. s\<lparr>positions := drop_key key (positions s)\<rparr>) B
      else case native_to_position D p of
          Some pos \<Rightarrow> upd_state (\<lambda>s. s\<lparr>positions := (positions s)(key \<mapsto> pos)\<rparr>) B
        | None \<Rightarrow> B)"

text \<open>The waiter of a place or modify is resolved at most once: it is taken out of the map.\<close>

definition resolve_place :: "i32 \<Rightarrow> broker_error + unit \<Rightarrow> native_broker \<Rightarrow> native_broker" where
  "resolve_place oid r B =
     (case pending_place_acks (nb_state B) oid of
        None \<Rightarrow> B
      | Some w \<Rightarrow> emit [AckPlace w r]
          (upd_state (\<lambda>s. s\<lparr>pending_place_acks := drop_key oid (pending_place_acks s)\<rparr>) B))"

definition AMEND_PRICE_EPS :: f64 where "AMEND_PRICE_EPS = lit (1 / 1000000)"

definition stamp_strict :: "u64 \<Rightarrow> i32 \<Rightarrow> f64 \<Rightarrow> broker_state \<Rightarrow> broker_state" where
  "stamp_strict now oid price s =
     (case expected_amend_prices s oid of
        Some expected \<Rightarrow>
          if \<bar>price - expected\<bar> < AMEND_PRICE_EPS
          then s\<lparr>strict_ack_ns := or_insert oid now (strict_ack_ns s)\<rparr> else s
      | None \<Rightarrow> s)"

definition route_open_order :: "chrono \<Rightarrow> u64 \<Rightarrow> open_order_msg \<Rightarrow> native_broker \<Rightarrow> native_broker" where
  "route_open_order D now o' B =
     (let oid = oo_order_id o';
          B1 = (case native_to_open_order D o' of
             Some ord \<Rightarrow> upd_state (\<lambda>s. s\<lparr>open_orders := (open_orders s)(oid \<mapsto> ord)\<rparr>) B
           | None \<Rightarrow> B);
          B2 = upd_state (\<lambda>s. stamp_strict now oid (oo_lmt_price o')
             (s\<lparr>wire_ack_ns := or_insert oid now (wire_ack_ns s)\<rparr>)) B1
      in resolve_place oid (Inr ()) B2)"

definition note_status :: "i32 \<Rightarrow> order_status \<Rightarrow> u32 \<Rightarrow> broker_state \<Rightarrow> broker_state" where
  "note_status oid st filled s =
     (case open_orders s oid of
        Some ord \<Rightarrow> s\<lparr>open_orders := (open_orders s)(oid \<mapsto> ord\<lparr>ord_status := st, ord_filled_qty := filled\<rparr>)\<rparr>
      | None \<Rightarrow> s)"

definition acks_place :: "order_status \<Rightarrow> bool" where
  "acks_place st \<longleftrightarrow> st \<in> {Submitted, PendingSubmit, Filled, Cancelled, PendingCancel}"

definition status_update :: "u64 \<Rightarrow> order_status_msg \<Rightarrow> order_status_update" where
  "status_update now o' = \<lparr>su_order_id = scast (os_order_id o'), su_status = parse_status (os_status o'),
     su_filled_qty = f64_as_u32 (os_filled o'), su_remaining_qty = f64_as_u32 (os_remaining o'),
     su_avg_fill_price = os_avg_fill_price o',
     su_last_fill_price = (if 0 < os_last_fill_price o' then Some (os_last_fill_price o') else None),
     su_time = now, su_reject_reason = None\<rparr>"

definition route_order_status :: "u64 \<Rightarrow> order_status_msg \<Rightarrow> native_broker \<Rightarrow> native_broker" where
  "route_order_status now o' B =
     (let oid = os_order_id o'; st = parse_status (os_status o');
          B1 = upd_state (note_status oid st (f64_as_u32 (os_filled o'))) B;
          B2 = (if acks_place st
            then resolve_place oid (Inr ())
              (upd_state (\<lambda>s. s\<lparr>wire_ack_ns := or_insert oid now (wire_ack_ns s)\<rparr>) B1)
            else B1)
      in emit [StatusOut (status_update now o')] B2)"

definition route_execution :: "u64 \<Rightarrow> execution_msg \<Rightarrow> native_broker \<Rightarrow> native_broker" where
  "route_execution now e B =
     (case execution_to_fill now e of
        None \<Rightarrow> B
      | Some f \<Rightarrow>
        (case (if 0 < sint (ex_req_id e) then pending_executions (nb_state B) (ex_req_id e) else None) of
           Some p \<Rightarrow> upd_state (\<lambda>s. s\<lparr>pending_executions := (pending_executions s)
             (ex_req_id e \<mapsto> p\<lparr>pf_accumulated := pf_accumulated p @ [f]\<rparr>)\<rparr>) B
         | None \<Rightarrow> emit [FillOut f] B))"

definition route_execution_end :: "i32 \<Rightarrow> native_broker \<Rightarrow> native_broker" where
  "route_execution_end rid B =
     (case pending_executions (nb_state B) rid of
        None \<Rightarrow> B
      | Some p \<Rightarrow> emit [AckFills (pf_waiter p) (Inr (pf_accumulated p))]
          (upd_state (\<lambda>s. s\<lparr>pending_executions := drop_key rid (pending_executions s)\<rparr>) B))"

definition route_contract_details :: "contract_details_msg \<Rightarrow> native_broker \<Rightarrow> native_broker" where
  "route_contract_details cd B =
     (case pending_contract_details (nb_state B) (cdm_req_id cd) of
        None \<Rightarrow> B
      | Some p \<Rightarrow> upd_state (\<lambda>s. s\<lparr>pending_contract_details := (pending_contract_details s)
          (cdm_req_id cd \<mapsto> p\<lparr>pc_accumulated := pc_accumulated p @ [cd]\<rparr>)\<rparr>) B)"

definition route_contract_details_end :: "chrono \<Rightarrow> i32 \<Rightarrow> native_broker \<Rightarrow> native_broker" where
  "route_contract_details_end D rid B =
     (case pending_contract_details (nb_state B) rid of
        None \<Rightarrow> B
      | Some p \<Rightarrow> emit [AckContracts (pc_waiter p) (Inr (List.map_filter (native_to_contract D) (pc_accumulated p)))]
          (upd_state (\<lambda>s. s\<lparr>pending_contract_details := drop_key rid (pending_contract_details s)\<rparr>) B))"

definition price_kind :: "i32 \<Rightarrow> tick_kind option" where
  "price_kind t =
     (if t = 1 \<or> t = 66 then Some BidTick else if t = 2 \<or> t = 67 then Some AskTick
      else if t = 4 \<or> t = 68 then Some LastTick else None)"

definition size_kind :: "i32 \<Rightarrow> tick_kind option" where
  "size_kind t =
     (if t = 0 \<or> t = 69 then Some BidSize else if t = 3 \<or> t = 70 then Some AskSize
      else if t \<in> {8, 29, 30, 71} then Some OptionVolume
      else if t \<in> {27, 28} then Some OptionOpenInterest else None)"

definition publish_tick :: "tick \<Rightarrow> native_broker \<Rightarrow> native_broker" where
  "publish_tick t B = emit ((if has_publisher B then [TickPublished t] else []) @ [TickOut t]) B"

definition route_tick_price :: "u64 \<Rightarrow> tick_price_msg \<Rightarrow> native_broker \<Rightarrow> native_broker" where
  "route_tick_price recv_ns t B =
     (case price_kind (tp_tick_type t) of
        None \<Rightarrow> B
      | Some k \<Rightarrow>
        (case tick_routes (nb_state B) (tp_req_id t) of
           None \<Rightarrow> B
         | Some iid \<Rightarrow> publish_tick \<lparr>tk_instrument = iid, tk_kind = k, tk_price = Some (tp_price t),
             tk_size = None, tk_time = recv_ns\<rparr> B))"

text \<open>A tick of the other side of the option: open interest or volume of puts on a call leg, or the converse.\<close>

definition wrong_side :: "i32 \<Rightarrow> right option \<Rightarrow> bool" where
  "wrong_side t leg \<longleftrightarrow> t \<in> {27, 28, 29, 30} \<and>
     (case leg of None \<Rightarrow> False | Some r \<Rightarrow> \<not> (t \<in> {27, 29} \<and> r = Call \<or> t \<in> {28, 30} \<and> r = Put))"

definition route_tick_size :: "u64 \<Rightarrow> tick_size_msg \<Rightarrow> native_broker \<Rightarrow> native_broker" where
  "route_tick_size recv_ns t B =
     (let ty = ts_tick_type t;
          B1 = upd_state (\<lambda>s. s\<lparr>tick_type_hist := (tick_type_hist s)
            (ty \<mapsto> (case tick_type_hist s ty of Some n \<Rightarrow> n | None \<Rightarrow> 0) + 1)\<rparr>) B in
      if wrong_side ty (tick_route_right (nb_state B1) (ts_req_id t)) then B1
      else case size_kind ty of
          None \<Rightarrow> B1
        | Some k \<Rightarrow>
          (case tick_routes (nb_state B1) (ts_req_id t) of
             None \<Rightarrow> B1
           | Some iid \<Rightarrow> publish_tick \<lparr>tk_instrument = iid, tk_kind = k, tk_price = None,
               tk_size = Some (f64_as_u64 (ts_size t)), tk_time = recv_ns\<rparr> B1))"

definition route_market_depth :: "u64 \<Rightarrow> market_depth_msg \<Rightarrow> native_broker \<Rightarrow> native_broker" where
  "route_market_depth recv_ns d B =
     (case depth_routes (nb_state B) (md_req_id d) of
        None \<Rightarrow> B
      | Some iid \<Rightarrow> emit [DepthOut \<lparr>du_instrument = iid, du_position = md_position d,
          du_operation = md_operation d, du_is_bid = (md_side d = 1), du_price = md_price d,
          du_size = f64_as_u64 (md_size d), du_time = recv_ns\<rparr>] B)"

definition fail_contracts :: "i32 \<Rightarrow> broker_error \<Rightarrow> native_broker \<Rightarrow> native_broker" where
  "fail_contracts rid e B =
     (case pending_contract_details (nb_state B) rid of
        None \<Rightarrow> B
      | Some p \<Rightarrow> emit [AckContracts (pc_waiter p) (Inl e)]
          (upd_state (\<lambda>s. s\<lparr>pending_contract_details := drop_key rid (pending_contract_details s)\<rparr>) B))"

definition route_error :: "error_msg \<Rightarrow> native_broker \<Rightarrow> native_broker" where
  "route_error e B =
     (let rid = er_req_id e; code = er_error_code e;
          B1 = (if 0 < sint rid \<and> is_contract_error code
            then fail_contracts rid (ContractNotFound (er_error_string e)) B else B);
          B2 = (if 0 < sint rid \<and> is_order_error code
            then resolve_place rid (Inl (OrderRejected (Some (scast rid)) (er_error_string e))) B1 else B1)
      in emit [ErrorOut (error_to_broker_error e)] B2)"

definition route :: "chrono \<Rightarrow> u64 \<Rightarrow> u64 \<Rightarrow> inbound_msg \<Rightarrow> native_broker \<Rightarrow> native_broker" where
  "route D now recv_ns msg B =
     (case msg of
        PositionIn p \<Rightarrow> route_position D p B
      | PositionEnd \<Rightarrow> upd_state (\<lambda>s. s\<lparr>bs_seeding := (bs_seeding s)\<lparr>positions_done := True\<rparr>\<rparr>) B
      | OpenOrderEnd \<Rightarrow> upd_state (\<lambda>s. s\<lparr>bs_seeding := (bs_seeding s)\<lparr>open_orders_done := True\<rparr>\<rparr>) B
      | AccountDownloadEnd _ \<Rightarrow> upd_state (\<lambda>s. s\<lparr>bs_seeding := (bs_seeding s)\<lparr>account_done := True\<rparr>\<rparr>) B
      | AccountValue a \<Rightarrow> upd_state (\<lambda>s. s\<lparr>account_values :=
          (account_values s)((av_key a, av_currency a, av_account a) \<mapsto> a)\<rparr>) B
      | OpenOrderIn o' \<Rightarrow> route_open_order D now o' B
      | OrderStatusIn o' \<Rightarrow> route_order_status now o' B
      | Execution e \<Rightarrow> route_execution now e B
      | ExecutionEnd rid \<Rightarrow> route_execution_end rid B
      | ContractDetails cd \<Rightarrow> route_contract_details cd B
      | ContractDetailsEnd rid \<Rightarrow> route_contract_details_end D rid B
      | TickPrice t \<Rightarrow> route_tick_price recv_ns t B
      | TickSize t \<Rightarrow> route_tick_size recv_ns t B
      | MarketDepth d \<Rightarrow> route_market_depth recv_ns d B
      | ErrorIn e \<Rightarrow> route_error e B
      | _ \<Rightarrow> B)"

text \<open>One round of the dispatcher: a frame from the channel that does not parse is skipped.\<close>

definition dispatch_one :: "chrono \<Rightarrow> u64 \<Rightarrow> native_broker \<Rightarrow> native_broker" where
  "dispatch_one D now B =
     (case dispatch (nb_client B) of
        [] \<Rightarrow> B
      | (flds, recv_ns) # rest \<Rightarrow>
          let B1 = B\<lparr>nb_client := (nb_client B)\<lparr>dispatch := rest\<rparr>\<rparr> in
          (case parse_inbound flds of
             Parsed msg \<Rightarrow> route D now recv_ns msg B1
           | _ \<Rightarrow> B1))"

subsection \<open>Orders\<close>

datatype 'a waited = Delivered 'a | ChannelDropped | Elapsed

definition nb_send :: "bool \<Rightarrow> bytes \<Rightarrow> native_broker \<Rightarrow> (broker_error + unit) \<times> native_broker" where
  "nb_send write_ok frame B =
     (case send_raw write_ok frame (nb_client B) of
        (Inl e, C) \<Rightarrow> (Inl (map_native_err e), B\<lparr>nb_client := C\<rparr>)
      | (Inr _, C) \<Rightarrow> (Inr (), B\<lparr>nb_client := C\<rparr>))"

text \<open>The cached template of an instrument, built at its first use.\<close>

definition template_for :: "fmt \<Rightarrow> chrono \<Rightarrow> contract \<Rightarrow> broker_state \<Rightarrow> bytes" where
  "template_for F D c s =
     (case place_templates s (instrument_id c) of
        Some t \<Rightarrow> t
      | None \<Rightarrow> from_contract F (place_order_contract_request D c))"

definition cache_template :: "fmt \<Rightarrow> chrono \<Rightarrow> contract \<Rightarrow> broker_state \<Rightarrow> broker_state" where
  "cache_template F D c s =
     s\<lparr>place_templates := (place_templates s)(instrument_id c \<mapsto> template_for F D c s)\<rparr>"

definition install_ack :: "i32 \<Rightarrow> native_broker \<Rightarrow> nat \<times> native_broker" where
  "install_ack oid B =
     (next_waiter B, upd_state (\<lambda>s. s\<lparr>pending_place_acks := (pending_place_acks s)(oid \<mapsto> next_waiter B)\<rparr>)
        (B\<lparr>next_waiter := Suc (next_waiter B)\<rparr>))"

text \<open>\<^verbatim>\<open>place_order\<close> up to the wait; \<open>env\<close> is what happens to the client during the waits of the id allocation.\<close>

definition place_order ::
  "fmt \<Rightarrow> chrono \<Rightarrow> (nat \<Rightarrow> client \<Rightarrow> client) \<Rightarrow> bool \<Rightarrow> u64 \<Rightarrow> place_order_req \<Rightarrow> native_broker \<Rightarrow>
     (broker_error + i32 \<times> nat) \<times> native_broker" where
  "place_order F D env write_ok now req B =
     (if po_qty req = 0 then (Inl (InvalidRequest ''qty must be > 0''), B)
      else let (oid, C) = alloc_order_id env (nb_client B); B1 = B\<lparr>nb_client := C\<rparr> in
        if sint oid \<le> 0 then (Inl (InternalError ''next_valid_id not seeded''), B1)
        else case build_place_params D req (nb_account B1) of
            Inl e \<Rightarrow> (Inl e, B1)
          | Inr params \<Rightarrow>
              let (w, B2) = install_ack oid B1;
                  template = template_for F D (po_contract req) (nb_state B2);
                  B3 = upd_state (cache_template F D (po_contract req)) B2;
                  frame = place_order_fast F oid template params;
                  B4 = upd_state (\<lambda>s. s\<lparr>wire_send_ns := (wire_send_ns s)(oid \<mapsto> now)\<rparr>) B3
              in (case nb_send write_ok frame B4 of
                    (Inl e, B5) \<Rightarrow> (Inl e, upd_state (\<lambda>s. s
                      \<lparr>pending_place_acks := drop_key oid (pending_place_acks s),
                       wire_send_ns := drop_key oid (wire_send_ns s)\<rparr>) B5)
                  | (Inr _, B5) \<Rightarrow> (Inr (oid, w), B5)))"

definition forget_order_waits :: "i32 \<Rightarrow> broker_state \<Rightarrow> broker_state" where
  "forget_order_waits oid s = s
     \<lparr>pending_place_acks := drop_key oid (pending_place_acks s), wire_send_ns := drop_key oid (wire_send_ns s),
      wire_ack_ns := drop_key oid (wire_ack_ns s), expected_amend_prices := drop_key oid (expected_amend_prices s),
      strict_ack_ns := drop_key oid (strict_ack_ns s)\<rparr>"

definition place_order_ack ::
  "i32 \<Rightarrow> (broker_error + unit) waited \<Rightarrow> native_broker \<Rightarrow> (broker_error + u64) \<times> native_broker" where
  "place_order_ack oid outcome B =
     (case outcome of
        Delivered (Inr _) \<Rightarrow> (Inr (scast oid), B)
      | Delivered (Inl e) \<Rightarrow> (Inl e, B)
      | ChannelDropped \<Rightarrow> (Inl (InternalError ''place_order ack channel dropped''), B)
      | Elapsed \<Rightarrow> (Inl (ProtocolError None ''place_order ack timeout''), upd_state (forget_order_waits oid) B))"

definition cancel_order :: "fmt \<Rightarrow> bool \<Rightarrow> u64 \<Rightarrow> native_broker \<Rightarrow> (broker_error + unit) \<times> native_broker" where
  "cancel_order F write_ok oid B = nb_send write_ok (cancel_order_frame F (ucast oid)) B"

definition drain_wire_timing :: "u64 \<Rightarrow> native_broker \<Rightarrow> (u64 \<times> u64) option \<times> native_broker" where
  "drain_wire_timing oid B =
     (case wire_send_ns (nb_state B) (ucast oid) of
        None \<Rightarrow> (None, B)
      | Some sent \<Rightarrow>
          let B1 = upd_state (\<lambda>s. s\<lparr>wire_send_ns := drop_key (ucast oid) (wire_send_ns s)\<rparr>) B in
          (case wire_ack_ns (nb_state B1) (ucast oid) of
             None \<Rightarrow> (None, B1)
           | Some ack \<Rightarrow> (Some (sent, ack),
               upd_state (\<lambda>s. s\<lparr>wire_ack_ns := drop_key (ucast oid) (wire_ack_ns s)\<rparr>) B1)))"

definition drain_strict_amend_ack_ns :: "u64 \<Rightarrow> native_broker \<Rightarrow> u64 option \<times> native_broker" where
  "drain_strict_amend_ack_ns oid B =
     (strict_ack_ns (nb_state B) (ucast oid),
      upd_state (\<lambda>s. s\<lparr>expected_amend_prices := drop_key (ucast oid) (expected_amend_prices s),
        strict_ack_ns := drop_key (ucast oid) (strict_ack_ns s)\<rparr>) B)"

definition or_opt :: "'a option \<Rightarrow> 'a option \<Rightarrow> 'a option" where
  "or_opt x y = (case x of Some _ \<Rightarrow> x | None \<Rightarrow> y)"

definition amended_req :: "string \<Rightarrow> open_order \<Rightarrow> modify_order_req \<Rightarrow> place_order_req" where
  "amended_req account ord req = \<lparr>po_contract = ord_contract ord, po_side = ord_side ord,
     po_qty = (case mo_qty req of Some q \<Rightarrow> q | None \<Rightarrow> ord_qty ord), po_order_type = ord_type ord,
     po_price = or_opt (mo_price req) (ord_price ord), po_tif = ord_tif ord,
     po_gtd_until = or_opt (mo_gtd_until req) (ord_gtd_until ord), po_client_ref = ord_client_ref ord,
     po_account = Some account\<rparr>"

definition modify_order ::
  "fmt \<Rightarrow> chrono \<Rightarrow> bool \<Rightarrow> u64 \<Rightarrow> u64 \<Rightarrow> modify_order_req \<Rightarrow> native_broker \<Rightarrow>
     (broker_error + i32 \<times> nat) \<times> native_broker" where
  "modify_order F D write_ok now order_id req B =
     (let oid = ucast order_id in
      case open_orders (nb_state B) oid of
        None \<Rightarrow> (Inl (InternalError ''modify_order: orderId not in open cache''), B)
      | Some ord \<Rightarrow>
        let placeholder = amended_req (nb_account B) ord req in
        (case build_place_params D placeholder (nb_account B) of
           Inl e \<Rightarrow> (Inl e, B)
         | Inr params \<Rightarrow>
             let template = template_for F D (ord_contract ord) (nb_state B);
                 B1 = upd_state (cache_template F D (ord_contract ord)) B;
                 frame = place_order_fast F oid template params;
                 (w, B2) = install_ack oid B1;
                 B3 = upd_state (\<lambda>s. s\<lparr>wire_send_ns := (wire_send_ns s)(oid \<mapsto> now),
                   expected_amend_prices := (expected_amend_prices s)
                     (oid \<mapsto> (case po_price placeholder of Some p \<Rightarrow> p | None \<Rightarrow> 0))\<rparr>) B2
             in (case nb_send write_ok frame B3 of
                   (Inl e, B4) \<Rightarrow> (Inl e, upd_state (\<lambda>s. s
                     \<lparr>pending_place_acks := drop_key oid (pending_place_acks s),
                      wire_send_ns := drop_key oid (wire_send_ns s)\<rparr>) B4)
                 | (Inr _, B4) \<Rightarrow> (Inr (oid, w), B4))))"

definition modify_order_ack ::
  "i32 \<Rightarrow> (broker_error + unit) waited \<Rightarrow> native_broker \<Rightarrow> (broker_error + unit) \<times> native_broker" where
  "modify_order_ack oid outcome B =
     (case outcome of
        Delivered (Inr _) \<Rightarrow> (Inr (), B)
      | Delivered (Inl e) \<Rightarrow> (Inl e, B)
      | ChannelDropped \<Rightarrow> (Inl (InternalError ''modify_order ack channel dropped''), B)
      | Elapsed \<Rightarrow> (Inl (ProtocolError None ''modify_order ack timeout''), upd_state (forget_order_waits oid) B))"

subsection \<open>Accounts, fills and contracts\<close>

text \<open>A hash map is read in an order of its own, which is the list argument here.\<close>

definition account_row :: "string \<Rightarrow> (string \<times> string \<times> string) \<times> account_value_msg \<Rightarrow> account_snapshot \<Rightarrow> account_snapshot" where
  "account_row account row snap =
     (case row of ((key, _, acct), v) \<Rightarrow>
        if acct \<noteq> account then snap
        else let x = (case parse_float (av_value v) of Some y \<Rightarrow> y | None \<Rightarrow> 0) in
          if key = ''NetLiquidation'' then snap\<lparr>as_net_liquidation := x\<rparr>
          else if key = ''MaintMarginReq'' then snap\<lparr>as_maintenance_margin := x\<rparr>
          else if key = ''InitMarginReq'' then snap\<lparr>as_initial_margin := x\<rparr>
          else if key = ''BuyingPower'' then snap\<lparr>as_buying_power := x\<rparr>
          else if key = ''RealizedPnL'' then snap\<lparr>as_realized_pnl_today := x\<rparr>
          else snap)"

definition account_snapshot_of ::
  "u64 \<Rightarrow> ((string \<times> string \<times> string) \<times> account_value_msg) list \<Rightarrow> native_broker \<Rightarrow> account_snapshot" where
  "account_snapshot_of now rows B =
     fold (account_row (nb_account B)) rows
       \<lparr>as_net_liquidation = 0, as_maintenance_margin = 0, as_initial_margin = 0, as_buying_power = 0,
        as_realized_pnl_today = 0, as_time = now\<rparr>"

definition positions_of :: "(string \<times> i64) list \<Rightarrow> native_broker \<Rightarrow> broker_position list" where
  "positions_of keys B = List.map_filter (positions (nb_state B)) keys"

definition open_orders_of :: "i32 list \<Rightarrow> native_broker \<Rightarrow> open_order list" where
  "open_orders_of keys B = List.map_filter (open_orders (nb_state B)) keys"

definition diagnostic_take_tick_type_hist :: "(i32 \<times> u64) list \<Rightarrow> native_broker \<Rightarrow> (i32 \<times> u64) list \<times> native_broker" where
  "diagnostic_take_tick_type_hist rows B =
     (sort_key (\<lambda>(k, _). sint k) rows, upd_state (\<lambda>s. s\<lparr>tick_type_hist := Map.empty\<rparr>) B)"

definition alloc_req_id :: "native_broker \<Rightarrow> i32 \<times> native_broker" where
  "alloc_req_id B = (next_req_id B, B\<lparr>next_req_id := next_req_id B + 1\<rparr>)"

definition alloc_handle :: "native_broker \<Rightarrow> u64 \<times> native_broker" where
  "alloc_handle B = (scast (next_handle B), B\<lparr>next_handle := next_handle B + 1\<rparr>)"

definition recent_fills ::
  "fmt \<Rightarrow> chrono \<Rightarrow> bool \<Rightarrow> u64 \<Rightarrow> native_broker \<Rightarrow> (broker_error + i32 \<times> nat) \<times> native_broker" where
  "recent_fills F D write_ok since_ns B =
     (let (rid, B1) = alloc_req_id B; w = next_waiter B1;
          B2 = upd_state (\<lambda>s. s\<lparr>pending_executions := (pending_executions s)
            (rid \<mapsto> \<lparr>pf_accumulated = [], pf_waiter = w\<rparr>)\<rparr>) (B1\<lparr>next_waiter := Suc w\<rparr>);
          time = (if since_ns = 0 then []
            else case format_exec_time D (uint since_ns div 1000000000) of Some t \<Rightarrow> t | None \<Rightarrow> []);
          f = \<lparr>ef_client_id = 0, ef_account = nb_account B, ef_time = time, ef_symbol = [], ef_sec_type = [],
               ef_exchange = [], ef_side = []\<rparr>
      in (case nb_send write_ok (req_executions F rid f) B2 of
            (Inl e, B3) \<Rightarrow> (Inl e, B3)
          | (Inr _, B3) \<Rightarrow> (Inr (rid, w), B3)))"

definition recent_fills_result ::
  "i32 \<Rightarrow> (broker_error + fill list) waited \<Rightarrow> native_broker \<Rightarrow> (broker_error + fill list) \<times> native_broker" where
  "recent_fills_result rid outcome B =
     (case outcome of
        Delivered r \<Rightarrow> (r, B)
      | ChannelDropped \<Rightarrow> (Inl (InternalError ''recent_fills channel dropped''), B)
      | Elapsed \<Rightarrow> (Inl (InternalError ''recent_fills timeout''),
          upd_state (\<lambda>s. s\<lparr>pending_executions := drop_key rid (pending_executions s)\<rparr>) B))"

definition request_contracts ::
  "fmt \<Rightarrow> bool \<Rightarrow> contract_request \<Rightarrow> native_broker \<Rightarrow> (broker_error + i32 \<times> nat) \<times> native_broker" where
  "request_contracts F write_ok cr B =
     (let (rid, B1) = alloc_req_id B; w = next_waiter B1;
          B2 = upd_state (\<lambda>s. s\<lparr>pending_contract_details := (pending_contract_details s)
            (rid \<mapsto> \<lparr>pc_accumulated = [], pc_waiter = w\<rparr>)\<rparr>) (B1\<lparr>next_waiter := Suc w\<rparr>)
      in (case nb_send write_ok (req_contract_details F rid cr) B2 of
            (Inl e, B3) \<Rightarrow> (Inl e, B3)
          | (Inr _, B3) \<Rightarrow> (Inr (rid, w), B3)))"

definition qualify_future ::
  "fmt \<Rightarrow> chrono \<Rightarrow> bool \<Rightarrow> future_query \<Rightarrow> native_broker \<Rightarrow> (broker_error + i32 \<times> nat) \<times> native_broker" where
  "qualify_future F D write_ok q B =
     request_contracts F write_ok ((empty_contract_request (fq_symbol q) ''FUT'')
       \<lparr>cr_last_trade_date := format_date D (fq_expiry q), cr_exchange := exchange_to_str (fq_exchange q),
        cr_currency := currency_to_str (fq_currency q)\<rparr>) B"

definition qualify_option ::
  "fmt \<Rightarrow> chrono \<Rightarrow> bool \<Rightarrow> option_query \<Rightarrow> native_broker \<Rightarrow> (broker_error + i32 \<times> nat) \<times> native_broker" where
  "qualify_option F D write_ok q B =
     request_contracts F write_ok ((empty_contract_request (oq_symbol q) ''FOP'')
       \<lparr>cr_last_trade_date := format_date D (oq_expiry q),
        cr_strike := fround (oq_strike q * lit 10000) / lit 10000, cr_right := right_to_str (Some (oq_right q)),
        cr_exchange := exchange_to_str (oq_exchange q), cr_currency := currency_to_str (oq_currency q),
        cr_trading_class := oq_symbol q\<rparr>) B"

definition list_chain ::
  "fmt \<Rightarrow> bool \<Rightarrow> chain_query \<Rightarrow> native_broker \<Rightarrow> (broker_error + i32 \<times> nat) \<times> native_broker" where
  "list_chain F write_ok q B =
     request_contracts F write_ok ((empty_contract_request (cq_symbol q)
         (case cq_kind q of Some Future \<Rightarrow> ''FUT'' | Some Option \<Rightarrow> ''FOP'' | None \<Rightarrow> ''FUT''))
       \<lparr>cr_exchange := exchange_to_str (cq_exchange q), cr_currency := currency_to_str (cq_currency q)\<rparr>) B"

text \<open>The answer of \<^verbatim>\<open>qualify_future\<close>, \<^verbatim>\<open>qualify_option\<close> and \<^verbatim>\<open>list_chain\<close>: the first contract or all of them.\<close>

definition contracts_result ::
  "i32 \<Rightarrow> (broker_error + contract list) waited \<Rightarrow> native_broker \<Rightarrow> (broker_error + contract list) \<times> native_broker" where
  "contracts_result rid outcome B =
     (case outcome of
        Delivered r \<Rightarrow> (r, B)
      | ChannelDropped \<Rightarrow> (Inl (InternalError ''channel dropped''), B)
      | Elapsed \<Rightarrow> (Inl (InternalError ''timeout''),
          upd_state (\<lambda>s. s\<lparr>pending_contract_details := drop_key rid (pending_contract_details s)\<rparr>) B))"

definition first_contract :: "broker_error + contract list \<Rightarrow> broker_error + contract" where
  "first_contract r =
     (case r of Inl e \<Rightarrow> Inl e | Inr [] \<Rightarrow> Inl (ContractNotFound ''no match'') | Inr (c # _) \<Rightarrow> Inr c)"

definition qualified_option :: "option_query \<Rightarrow> contract \<Rightarrow> contract" where
  "qualified_option q c = (if c_multiplier c \<le> 0 then c\<lparr>c_multiplier := oq_multiplier q\<rparr> else c)"

definition chain_contracts :: "chain_query \<Rightarrow> contract list \<Rightarrow> contract list" where
  "chain_contracts q cs =
     (case cq_min_expiry q of Some d \<Rightarrow> filter (\<lambda>c. d \<le> c_expiry c) cs | None \<Rightarrow> cs)"

subsection \<open>Subscriptions\<close>

definition subscription_request :: "chrono \<Rightarrow> tick_subscription \<Rightarrow> contract_request" where
  "subscription_request D sub =
     (case sub_contract sub of Some c \<Rightarrow> contract_to_request D c | None \<Rightarrow> empty_contract_request [] [])
       \<lparr>cr_con_id := sub_instrument sub\<rparr>"

definition subscribe_ticks ::
  "fmt \<Rightarrow> chrono \<Rightarrow> bool \<Rightarrow> tick_subscription \<Rightarrow> native_broker \<Rightarrow> (broker_error + u64) \<times> native_broker" where
  "subscribe_ticks F D write_ok sub B =
     (let (rid, B1) = alloc_req_id B; (h, B2) = alloc_handle B1;
          leg = Option.bind (sub_contract sub) c_right;
          B3 = upd_state (\<lambda>s. s\<lparr>tick_routes := (tick_routes s)(rid \<mapsto> sub_instrument sub),
            tick_route_right := (case leg of Some r \<Rightarrow> (tick_route_right s)(rid \<mapsto> r) | None \<Rightarrow> tick_route_right s),
            handle_to_req_id := (handle_to_req_id s)(h \<mapsto> rid)\<rparr>) B2
      in (case nb_send write_ok (req_mkt_data F rid (subscription_request D sub) ''100,101'' False False) B3 of
            (Inl e, B4) \<Rightarrow> (Inl e, upd_state (\<lambda>s. s\<lparr>tick_routes := drop_key rid (tick_routes s),
               tick_route_right := drop_key rid (tick_route_right s),
               handle_to_req_id := drop_key h (handle_to_req_id s)\<rparr>) B4)
          | (Inr _, B4) \<Rightarrow> (Inr h, B4)))"

definition unsubscribe_ticks :: "fmt \<Rightarrow> bool \<Rightarrow> u64 \<Rightarrow> native_broker \<Rightarrow> (broker_error + unit) \<times> native_broker" where
  "unsubscribe_ticks F write_ok h B =
     (case handle_to_req_id (nb_state B) h of
        None \<Rightarrow> (Inr (), B)
      | Some rid \<Rightarrow> nb_send write_ok (cancel_mkt_data F rid)
          (upd_state (\<lambda>s. s\<lparr>handle_to_req_id := drop_key h (handle_to_req_id s),
             tick_routes := drop_key rid (tick_routes s),
             tick_route_right := drop_key rid (tick_route_right s)\<rparr>) B))"

definition subscribe_market_depth ::
  "fmt \<Rightarrow> chrono \<Rightarrow> bool \<Rightarrow> tick_subscription \<Rightarrow> i32 \<Rightarrow> native_broker \<Rightarrow> (broker_error + u64) \<times> native_broker" where
  "subscribe_market_depth F D write_ok sub num_rows B =
     (let (rid, B1) = alloc_req_id B; (h, B2) = alloc_handle B1;
          B3 = upd_state (\<lambda>s. s\<lparr>depth_routes := (depth_routes s)(rid \<mapsto> sub_instrument sub),
            handle_to_depth_req_id := (handle_to_depth_req_id s)(h \<mapsto> rid)\<rparr>) B2
      in (case nb_send write_ok (req_mkt_depth F rid (subscription_request D sub) num_rows) B3 of
            (Inl e, B4) \<Rightarrow> (Inl e, upd_state (\<lambda>s. s\<lparr>depth_routes := drop_key rid (depth_routes s),
               handle_to_depth_req_id := drop_key h (handle_to_depth_req_id s)\<rparr>) B4)
          | (Inr _, B4) \<Rightarrow> (Inr h, B4)))"

definition unsubscribe_market_depth :: "fmt \<Rightarrow> bool \<Rightarrow> u64 \<Rightarrow> native_broker \<Rightarrow> (broker_error + unit) \<times> native_broker" where
  "unsubscribe_market_depth F write_ok h B =
     (case handle_to_depth_req_id (nb_state B) h of
        None \<Rightarrow> (Inr (), B)
      | Some rid \<Rightarrow> nb_send write_ok (cancel_mkt_depth F rid)
          (upd_state (\<lambda>s. s\<lparr>handle_to_depth_req_id := drop_key h (handle_to_depth_req_id s),
             depth_routes := drop_key rid (depth_routes s)\<rparr>) B))"

definition set_tick_publisher :: "native_broker \<Rightarrow> native_broker" where
  "set_tick_publisher B = B\<lparr>has_publisher := True\<rparr>"

subsection \<open>Connection\<close>

definition reset_seeding_flags :: "native_broker \<Rightarrow> native_broker" where
  "reset_seeding_flags B =
     upd_state (\<lambda>s. s\<lparr>bs_seeding := \<lparr>positions_done = False, open_orders_done = False, account_done = False\<rparr>\<rparr>) B"

text \<open>The states of the flags at the polls; the last one is read when the deadline has passed.\<close>

fun wait_for_seeding :: "seeding \<Rightarrow> seeding list \<Rightarrow> seeding" where
  "wait_for_seeding p polls =
     (if positions_done p \<and> open_orders_done p \<and> account_done p then p
      else case polls of [] \<Rightarrow> p | q # rest \<Rightarrow> wait_for_seeding q rest)"

text \<open>\<^verbatim>\<open>wait_for_initial_snapshot\<close> reports the flags in the log only and never fails.\<close>

definition wait_for_initial_snapshot :: "seeding \<Rightarrow> seeding list \<Rightarrow> broker_error + unit" where
  "wait_for_initial_snapshot p polls = (let progress = wait_for_seeding p polls in Inr ())"

fun send_all :: "bool list \<Rightarrow> bytes list \<Rightarrow> native_broker \<Rightarrow> (broker_error + unit) \<times> native_broker" where
  "send_all oks [] B = (Inr (), B)"
| "send_all oks (f # fs) B =
     (case nb_send (oks \<noteq> [] \<and> hd oks) f B of
        (Inl e, B') \<Rightarrow> (Inl e, B')
      | (Inr _, B') \<Rightarrow> send_all (tl oks) fs B')"

definition bootstrap_frames :: "fmt \<Rightarrow> native_broker \<Rightarrow> bytes list" where
  "bootstrap_frames F B =
     [req_account_updates F True (nb_account B), req_positions F, req_open_orders F] @
     (if client_id (nb_client B) = 0 then [req_auto_open_orders F True] else [])"

text \<open>
  \<open>boot\<close> are the client states seen by \<^verbatim>\<open>wait_for_bootstrap\<close>, the last of which is the client the
  operation goes on with; \<open>oks\<close> says which of the bootstrap writes succeed.
\<close>

definition nb_connect ::
  "fmt \<Rightarrow> native_error + unit \<Rightarrow> bool \<Rightarrow> bool \<Rightarrow> hs_read list \<Rightarrow> bool \<Rightarrow> (client \<Rightarrow> client list) \<Rightarrow> bool list \<Rightarrow>
     native_broker \<Rightarrow> (broker_error + unit) \<times> native_broker" where
  "nb_connect F tcp nodelay_ok hello_ok reads start_ok boot oks B =
     (if nb_connected B then (Inr (), B)
      else case connect tcp nodelay_ok hello_ok reads start_ok (nb_client B) of
          (Inl e, C) \<Rightarrow> (Inl (map_native_err e), B\<lparr>nb_client := C\<rparr>)
        | (Inr _, C) \<Rightarrow>
          let B1 = B\<lparr>nb_client := (if boot C = [] then C else List.last (boot C))\<rparr> in
          (case wait_for_bootstrap (boot C) of
             Inl e \<Rightarrow> (Inl (map_native_err e), B1)
           | Inr _ \<Rightarrow>
             if \<not> rx_held B1 then (Inl (InternalError ''rx already taken''), B1)
             else let B2 = B1\<lparr>rx_held := False\<rparr> in
               (case send_all oks (bootstrap_frames F B2) B2 of
                  (Inl e, B3) \<Rightarrow> (Inl e, B3)
                | (Inr _, B3) \<Rightarrow> (Inr (), emit [ConnectionOut Connected None] (B3\<lparr>nb_connected := True\<rparr>)))))"

text \<open>Draining a map resolves its waiters in an order of its own: \<open>ws\<close> lists them.\<close>

definition nb_disconnect ::
  "(nat list \<times> nat list \<times> nat list) \<Rightarrow> native_broker \<Rightarrow> native_broker" where
  "nb_disconnect ws B =
     (case ws of (cs, fs, ps) \<Rightarrow>
        emit [ConnectionOut ClosedConnection (Some ''disconnect requested'')]
         (emit (map (\<lambda>w. AckContracts w (Inl (ConnectionLost ''disconnect during pending qualify''))) cs @
                map (\<lambda>w. AckFills w (Inl (ConnectionLost ''disconnect during pending executions''))) fs @
                map (\<lambda>w. AckPlace w (Inl (ConnectionLost ''disconnect during pending place_order ack''))) ps)
           (upd_state (\<lambda>s. s\<lparr>pending_contract_details := Map.empty, pending_executions := Map.empty,
              pending_place_acks := Map.empty\<rparr>)
             (B\<lparr>nb_connected := False, nb_client := disconnect (nb_client B)\<rparr>))))"

text \<open>
  The dispatcher ends, and reports a lost connection, when the channel is drained and every sender is
  gone: the one of the receive task, which ends with it, and the one the client itself holds.
\<close>

definition dispatcher_end :: "bool \<Rightarrow> bool \<Rightarrow> native_broker \<Rightarrow> native_broker option" where
  "dispatcher_end recv_task_running client_alive B =
     (if dispatch (nb_client B) = [] \<and> \<not> recv_task_running \<and> \<not> client_alive
      then Some (emit [ConnectionOut LostConnection (Some ''recv channel closed'')] (B\<lparr>nb_connected := False\<rparr>))
      else None)"

subsection \<open>A successful send\<close>

text \<open>The state after the writes of a place or modify, and with the frame on the wire.\<close>

lemma upd_state_simps [simp]:
  "nb_state (upd_state f B) = f (nb_state B)" "out (upd_state f B) = out B"
  "next_waiter (upd_state f B) = next_waiter B" "nb_client (upd_state f B) = nb_client B"
  "nb_account (upd_state f B) = nb_account B"
  by (simp_all add: upd_state_def)

lemma cache_template_simps [simp]:
  "pending_place_acks (cache_template F D c s) = pending_place_acks s"
  "open_orders (cache_template F D c s) = open_orders s"
  by (simp_all add: cache_template_def)


definition sent_on :: "bytes \<Rightarrow> native_broker \<Rightarrow> native_broker" where
  "sent_on fr B = B\<lparr>nb_client := (nb_client B)\<lparr>wire := wire (nb_client B) @ fr, msgs_sent := msgs_sent (nb_client B) + 1\<rparr>\<rparr>"

lemma nb_send_ok: "writer_open (nb_client B) \<Longrightarrow> nb_send True fr B = (Inr (), sent_on fr B)"
  by (simp add: nb_send_def send_raw_def sent_on_def)

lemma sent_on_simps [simp]:
  "nb_state (sent_on fr B) = nb_state B" "out (sent_on fr B) = out B" "next_waiter (sent_on fr B) = next_waiter B"
  "wire (nb_client (sent_on fr B)) = wire (nb_client B) @ fr"
  by (simp_all add: sent_on_def)

definition placing :: "fmt \<Rightarrow> chrono \<Rightarrow> u64 \<Rightarrow> i32 \<Rightarrow> contract \<Rightarrow> native_broker \<Rightarrow> native_broker" where
  "placing F D now oid c B = upd_state (\<lambda>s. s\<lparr>wire_send_ns := (wire_send_ns s)(oid \<mapsto> now)\<rparr>)
     (upd_state (cache_template F D c) (snd (install_ack oid B)))"

lemma install_ack_simps:
  "fst (install_ack oid B) = next_waiter B" "nb_account (snd (install_ack oid B)) = nb_account B"
  "nb_client (snd (install_ack oid B)) = nb_client B" "out (snd (install_ack oid B)) = out B"
  "place_templates (nb_state (snd (install_ack oid B))) = place_templates (nb_state B)"
  "pending_place_acks (nb_state (snd (install_ack oid B))) = (pending_place_acks (nb_state B))(oid \<mapsto> next_waiter B)"
  by (simp_all add: install_ack_def)

lemma place_order_sent:
  assumes "po_qty req \<noteq> 0" "alloc_order_id env (nb_client B) = (oid, C)" "0 < sint oid"
    "build_place_params D req (nb_account B) = Inr params" "writer_open C"
  shows "place_order F D env True now req B =
    (Inr (oid, next_waiter B), sent_on (place_order_fast F oid (template_for F D (po_contract req) (nb_state B)) params)
       (placing F D now oid (po_contract req) (B\<lparr>nb_client := C\<rparr>)))"
proof -
  have q: "(po_qty req = 0) = False" "(sint oid \<le> 0) = False" using assms by auto
  have a: "build_place_params D req (nb_account (B\<lparr>nb_client := C\<rparr>)) = Inr params" using assms by simp
  have t: "template_for F D c (nb_state (snd (install_ack oid (B\<lparr>nb_client := C\<rparr>)))) = template_for F D c (nb_state B)" for c
    by (simp add: template_for_def install_ack_simps)
  have i: "install_ack oid (B\<lparr>nb_client := C\<rparr>) = (next_waiter B, snd (install_ack oid (B\<lparr>nb_client := C\<rparr>)))"
    by (simp add: prod_eq_iff install_ack_simps)
  have n: "nb_send True fr (placing F D now oid c (B\<lparr>nb_client := C\<rparr>)) = (Inr (), sent_on fr (placing F D now oid c (B\<lparr>nb_client := C\<rparr>)))" for fr c
    by (rule nb_send_ok) (simp add: placing_def install_ack_simps assms)
  show ?thesis
    unfolding place_order_def q if_False assms(2) Let_def prod.case a sum.case
    by (subst i) (simp only: prod.case t n [unfolded placing_def] sum.case placing_def)
qed
definition amending :: "fmt \<Rightarrow> chrono \<Rightarrow> u64 \<Rightarrow> i32 \<Rightarrow> f64 option \<Rightarrow> contract \<Rightarrow> native_broker \<Rightarrow> native_broker" where
  "amending F D now oid price c B =
     upd_state (\<lambda>s. s\<lparr>wire_send_ns := (wire_send_ns s)(oid \<mapsto> now),
       expected_amend_prices := (expected_amend_prices s)(oid \<mapsto> (case price of Some p \<Rightarrow> p | None \<Rightarrow> 0))\<rparr>)
     (snd (install_ack oid (upd_state (cache_template F D c) B)))"

lemma modify_order_sent:
  assumes "open_orders (nb_state B) (ucast order_id) = Some ord"
    "build_place_params D (amended_req (nb_account B) ord req) (nb_account B) = Inr params"
    "writer_open (nb_client B)"
  shows "modify_order F D True now order_id req B =
    (Inr (ucast order_id, next_waiter B),
     sent_on (place_order_fast F (ucast order_id) (template_for F D (ord_contract ord) (nb_state B)) params)
       (amending F D now (ucast order_id) (po_price (amended_req (nb_account B) ord req)) (ord_contract ord) B))"
proof -
  let ?oid = "ucast order_id :: i32"
  have i: "install_ack ?oid (upd_state f B) = (next_waiter B, snd (install_ack ?oid (upd_state f B)))" for f
    by (simp add: prod_eq_iff install_ack_simps)
  have n: "nb_send True fr (amending F D now ?oid p c B) = (Inr (), sent_on fr (amending F D now ?oid p c B))" for fr p c
    by (rule nb_send_ok) (simp add: amending_def install_ack_simps assms)
  show ?thesis
    unfolding modify_order_def Let_def assms(1,2) option.case sum.case
    by (subst i) (simp only: prod.case n [unfolded amending_def] sum.case amending_def)
qed

end
