(* ===== verification/Ibkr_Waiters.thy ===== *)
theory Ibkr_Waiters
  imports Ibkr_Broker
begin

section \<open>Waiters are answered once\<close>

text \<open>
  The adapter keeps three tables of callers that wait for an answer of the gateway: placed and
  modified orders, contract requests and execution requests.  They share one discipline, stated here
  as the transitions of a table; a locale derives that no caller is answered twice, and it is
  interpreted for the three tables over all steps of the adapter.
\<close>

subsection \<open>Tables of waiters\<close>

text \<open>The waiting callers by key, those answered so far, and the number of channels made.\<close>

type_synonym 'k table = "('k \<rightharpoonup> nat) \<times> nat list \<times> nat"

inductive table_step :: "'k table \<Rightarrow> 'k table \<Rightarrow> bool" where
  grow: "n \<le> n' \<Longrightarrow> table_step (m, a, n) (m, a, n')"
| answer: "m k = Some w \<Longrightarrow> table_step (m, a, n) (m(k := None), a @ [w], n)"
| forget: "table_step (m, a, n) (m(k := None), a, n)"
| install: "table_step (m, a, n) (m(k \<mapsto> n), a, Suc n)"
| answer_all: "distinct ws \<Longrightarrow> set ws = ran m \<Longrightarrow> table_step (m, a, n) (Map.empty, a @ ws, n)"

definition table_ok :: "'k table \<Rightarrow> bool" where
  "table_ok t \<longleftrightarrow> (case t of (m, a, n) \<Rightarrow>
     inj_on m (dom m) \<and> (\<forall>w\<in>ran m. w < n \<and> w \<notin> set a) \<and> distinct a \<and> (\<forall>w\<in>set a. w < n))"

lemma ran_remove: "ran (m(k := None)) \<subseteq> ran m"
  by (auto simp: ran_def)

lemma table_ok_step: "table_step t t' \<Longrightarrow> table_ok t \<Longrightarrow> table_ok t'"
proof (induction rule: table_step.induct)
  case (answer m k w a n)
  then have "w \<notin> ran (m(k := None))" "w \<in> ran m"
    by (auto simp: table_ok_def ran_def inj_on_def dom_def split: if_splits)
  then show ?case
    using answer ran_remove [of m k] by (auto simp: table_ok_def inj_on_def dom_def ranI)
next
  case (forget m a n k)
  then show ?case using ran_remove [of m k] by (auto simp: table_ok_def inj_on_def dom_def)
next
  case (install m a n k)
  have "ran (m(k \<mapsto> n)) \<subseteq> insert n (ran m)" by (auto simp: ran_def)
  moreover have "m x \<noteq> Some n" for x using install by (auto simp: table_ok_def ranI)
  ultimately show ?case
    using install by (auto simp: table_ok_def inj_on_def dom_def less_SucI)
next
  case (answer_all ws m a n)
  then show ?case by (auto simp: table_ok_def)
qed (auto simp: table_ok_def)

lemma table_ok_steps: "table_step\<^sup>*\<^sup>* t t' \<Longrightarrow> table_ok t \<Longrightarrow> table_ok t'"
  by (induction rule: rtranclp_induct) (auto intro: table_ok_step)

locale waiter_table =
  fixes view :: "'s \<Rightarrow> 'k table"
    and step :: "'s \<Rightarrow> 's \<Rightarrow> bool"
  assumes step_table: "step s s' \<Longrightarrow> table_step\<^sup>*\<^sup>* (view s) (view s')"
begin

lemma run_ok: "step\<^sup>*\<^sup>* s s' \<Longrightarrow> table_ok (view s) \<Longrightarrow> table_ok (view s')"
  by (induction rule: rtranclp_induct) (auto intro: table_ok_steps step_table)

lemma answered_once:
  assumes "step\<^sup>*\<^sup>* s s'" "table_ok (view s)" "view s' = (m, a, n)"
  shows "distinct a \<and> (\<forall>k w. m k = Some w \<longrightarrow> w \<notin> set a)"
  using run_ok [OF assms(1,2)] assms(3) by (auto simp: table_ok_def ranI)

end

subsection \<open>Steps of the adapter\<close>

text \<open>
  Every operation of the adapter, the dispatcher with any message, and any change the receive task or
  the user of the client makes to the client.
\<close>

inductive broker_step :: "fmt \<Rightarrow> chrono \<Rightarrow> native_broker \<Rightarrow> native_broker \<Rightarrow> bool" for F D where
  routed: "broker_step F D B (route D now recv_ns msg B)"
| client: "broker_step F D B (B\<lparr>nb_client := C\<rparr>)"
| place: "place_order F D env ok now req B = (r, B') \<Longrightarrow> broker_step F D B B'"
| place_ack: "place_order_ack oid outcome B = (r, B') \<Longrightarrow> broker_step F D B B'"
| cancel: "cancel_order F ok ordid B = (r, B') \<Longrightarrow> broker_step F D B B'"
| modify: "modify_order F D ok now ordid mreq B = (r, B') \<Longrightarrow> broker_step F D B B'"
| modify_ack: "modify_order_ack oid outcome B = (r', B') \<Longrightarrow> broker_step F D B B'"
| drain: "drain_wire_timing ordid B = (t, B') \<Longrightarrow> broker_step F D B B'"
| drain_strict: "drain_strict_amend_ack_ns ordid B = (t', B') \<Longrightarrow> broker_step F D B B'"
| fills: "recent_fills F D ok since B = (r, B') \<Longrightarrow> broker_step F D B B'"
| fills_result: "recent_fills_result rid fo B = (fr, B') \<Longrightarrow> broker_step F D B B'"
| contracts: "request_contracts F ok cr B = (r, B') \<Longrightarrow> broker_step F D B B'"
| contracts_result: "contracts_result rid co B = (cs, B') \<Longrightarrow> broker_step F D B B'"
| subscribe: "subscribe_ticks F D ok sub B = (h, B') \<Longrightarrow> broker_step F D B B'"
| unsubscribe: "unsubscribe_ticks F ok hdl B = (u, B') \<Longrightarrow> broker_step F D B B'"
| subscribe_depth: "subscribe_market_depth F D ok sub rows B = (h, B') \<Longrightarrow> broker_step F D B B'"
| unsubscribe_depth: "unsubscribe_market_depth F ok hdl B = (u, B') \<Longrightarrow> broker_step F D B B'"
| publisher: "broker_step F D B (set_tick_publisher B)"
| reset: "broker_step F D B (reset_seeding_flags B)"
| connected: "nb_connect F tcp nd hello reads start boot oks B = (u, B') \<Longrightarrow> broker_step F D B B'"
| disconnected: "\<lbrakk>distinct cs; set cs = ran (map_option pc_waiter \<circ> pending_contract_details (nb_state B));
    distinct fs; set fs = ran (map_option pf_waiter \<circ> pending_executions (nb_state B));
    distinct ps; set ps = ran (pending_place_acks (nb_state B))\<rbrakk> \<Longrightarrow>
    broker_step F D B (nb_disconnect (cs, fs, ps) B)"

definition place_answers :: "effect list \<Rightarrow> (nat \<times> (broker_error + unit)) list" where
  "place_answers es = List.map_filter (\<lambda>e. case e of AckPlace w r \<Rightarrow> Some (w, r) | _ \<Rightarrow> None) es"

definition contract_answers :: "effect list \<Rightarrow> nat list" where
  "contract_answers es = List.map_filter (\<lambda>e. case e of AckContracts w r \<Rightarrow> Some w | _ \<Rightarrow> None) es"

definition fill_answers :: "effect list \<Rightarrow> nat list" where
  "fill_answers es = List.map_filter (\<lambda>e. case e of AckFills w r \<Rightarrow> Some w | _ \<Rightarrow> None) es"

definition place_table :: "native_broker \<Rightarrow> i32 table" where
  "place_table B = (pending_place_acks (nb_state B), map fst (place_answers (out B)), next_waiter B)"

definition contract_table :: "native_broker \<Rightarrow> i32 table" where
  "contract_table B =
     (map_option pc_waiter \<circ> pending_contract_details (nb_state B), contract_answers (out B), next_waiter B)"

definition fill_table :: "native_broker \<Rightarrow> i32 table" where
  "fill_table B =
     (map_option pf_waiter \<circ> pending_executions (nb_state B), fill_answers (out B), next_waiter B)"

lemma answers_append [simp]:
  "place_answers (xs @ ys) = place_answers xs @ place_answers ys"
  "contract_answers (xs @ ys) = contract_answers xs @ contract_answers ys"
  "fill_answers (xs @ ys) = fill_answers xs @ fill_answers ys"
  by (simp_all add: place_answers_def contract_answers_def fill_answers_def map_filter_def)

lemma answers_simps [simp]:
  "place_answers [] = []" "contract_answers [] = []" "fill_answers [] = []"
  "place_answers (e # es) = (case e of AckPlace w r \<Rightarrow> (w, r) # place_answers es | _ \<Rightarrow> place_answers es)"
  "contract_answers (e # es) = (case e of AckContracts w r \<Rightarrow> w # contract_answers es | _ \<Rightarrow> contract_answers es)"
  "fill_answers (e # es) = (case e of AckFills w r \<Rightarrow> w # fill_answers es | _ \<Rightarrow> fill_answers es)"
  by (simp_all add: place_answers_def contract_answers_def fill_answers_def map_filter_def split: effect.split)

lemma answers_map [simp]:
  "place_answers (map (\<lambda>w. AckPlace w (f w)) ws) = map (\<lambda>w. (w, f w)) ws"
  "place_answers (map (\<lambda>w. AckContracts w (g w)) ws) = []" "place_answers (map (\<lambda>w. AckFills w (h w)) ws) = []"
  "contract_answers (map (\<lambda>w. AckContracts w (g w)) ws) = ws"
  "contract_answers (map (\<lambda>w. AckPlace w (f w)) ws) = []" "contract_answers (map (\<lambda>w. AckFills w (h w)) ws) = []"
  "fill_answers (map (\<lambda>w. AckFills w (h w)) ws) = ws"
  "fill_answers (map (\<lambda>w. AckPlace w (f w)) ws) = []" "fill_answers (map (\<lambda>w. AckContracts w (g w)) ws) = []"
  by (induction ws) simp_all

lemmas tables = place_table_def contract_table_def fill_table_def

subsection \<open>What each operation does to the tables\<close>

lemma nb_send_keeps [simp]:
  "nb_send ok fr B = (r, B') \<Longrightarrow> nb_state B' = nb_state B \<and> out B' = out B \<and> next_waiter B' = next_waiter B"
  by (auto simp: nb_send_def split: prod.splits sum.splits)

lemma send_all_keeps:
  "send_all oks fs B = (r, B') \<Longrightarrow> nb_state B' = nb_state B \<and> out B' = out B \<and> next_waiter B' = next_waiter B"
proof (induction oks fs B rule: send_all.induct)
  case (2 oks f fs B)
  then show ?case by (auto split: prod.splits sum.splits dest: nb_send_keeps)
qed simp

text \<open>A step that only adds broadcasts and changes other parts of the state leaves the three tables alone.\<close>

definition same_tables :: "native_broker \<Rightarrow> native_broker \<Rightarrow> bool" where
  "same_tables B B' \<longleftrightarrow> place_table B' = place_table B \<and> contract_table B' = contract_table B \<and>
     fill_table B' = fill_table B"

lemmas unit_defs = upd_state_def emit_def drop_key_def or_insert_def

lemma routed_same:
  "same_tables B (route_position D p B)" "same_tables B (route_tick_price ns t B)"
  "same_tables B (route_tick_size ns t' B)" "same_tables B (route_market_depth ns d B)"
  by (auto simp: same_tables_def tables unit_defs route_position_def route_tick_price_def route_tick_size_def
      route_market_depth_def publish_tick_def Let_def split: option.splits)

lemma state_ops_same:
  "drain_wire_timing ordid B = (t, B') \<Longrightarrow> same_tables B B'"
  "drain_strict_amend_ack_ns ordid B = (t', B') \<Longrightarrow> same_tables B B'"
  "cancel_order F ok ordid B = (r, B') \<Longrightarrow> same_tables B B'"
  "subscribe_ticks F D ok sub B = (h, B') \<Longrightarrow> same_tables B B'"
  "unsubscribe_ticks F ok hdl B = (u, B') \<Longrightarrow> same_tables B B'"
  "subscribe_market_depth F D ok sub rows B = (h, B') \<Longrightarrow> same_tables B B'"
  "unsubscribe_market_depth F ok hdl B = (u, B') \<Longrightarrow> same_tables B B'"
  "same_tables B (set_tick_publisher B)" "same_tables B (reset_seeding_flags B)"
  "nb_connect F tcp nd hello reads start boot oks B = (u, B') \<Longrightarrow> same_tables B B'"
proof -
  show "drain_wire_timing ordid B = (t, B') \<Longrightarrow> same_tables B B'"
    "drain_strict_amend_ack_ns ordid B = (t', B') \<Longrightarrow> same_tables B B'"
    by (auto simp: same_tables_def tables unit_defs drain_wire_timing_def drain_strict_amend_ack_ns_def Let_def
        split: option.splits)
  show "cancel_order F ok ordid B = (r, B') \<Longrightarrow> same_tables B B'"
    by (auto simp: same_tables_def tables cancel_order_def dest: nb_send_keeps)
  show "subscribe_ticks F D ok sub B = (h, B') \<Longrightarrow> same_tables B B'"
    "subscribe_market_depth F D ok sub rows B = (h, B') \<Longrightarrow> same_tables B B'"
    by (auto simp: same_tables_def tables unit_defs subscribe_ticks_def subscribe_market_depth_def
        alloc_req_id_def alloc_handle_def Let_def dest!: nb_send_keeps split: prod.splits sum.splits)
  show "unsubscribe_ticks F ok hdl B = (u, B') \<Longrightarrow> same_tables B B'"
    "unsubscribe_market_depth F ok hdl B = (u, B') \<Longrightarrow> same_tables B B'"
    by (auto simp: same_tables_def tables unit_defs unsubscribe_ticks_def unsubscribe_market_depth_def
        dest!: nb_send_keeps split: option.splits)
  show "same_tables B (set_tick_publisher B)" "same_tables B (reset_seeding_flags B)"
    by (simp_all add: same_tables_def tables unit_defs set_tick_publisher_def reset_seeding_flags_def)
  show "nb_connect F tcp nd hello reads start boot oks B = (u, B') \<Longrightarrow> same_tables B B'"
    by (auto simp: same_tables_def tables unit_defs nb_connect_def Let_def dest!: send_all_keeps
        split: prod.splits sum.splits if_splits)
qed

text \<open>Operations that touch one of the tables.\<close>

definition table_steps :: "native_broker \<Rightarrow> native_broker \<Rightarrow> bool" where
  "table_steps B B' \<longleftrightarrow> table_step\<^sup>*\<^sup>* (place_table B) (place_table B') \<and>
     table_step\<^sup>*\<^sup>* (contract_table B) (contract_table B') \<and> table_step\<^sup>*\<^sup>* (fill_table B) (fill_table B')"

lemma table_steps_refl: "same_tables B B' \<Longrightarrow> table_steps B B'"
  by (simp add: table_steps_def same_tables_def)

lemma table_steps_trans [trans]: "table_steps B B' \<Longrightarrow> table_steps B' B'' \<Longrightarrow> table_steps B B''"
  unfolding table_steps_def by (meson rtranclp_trans)

lemma table_rtrancl:
  "m k = Some w \<Longrightarrow> table_step\<^sup>*\<^sup>* (m, a, n) (m(k := None), a @ [w], n)"
  "table_step\<^sup>*\<^sup>* (m, a, n) (m(k := None), a, n)"
  "table_step\<^sup>*\<^sup>* (m, a, n) (m(k \<mapsto> n), a, Suc n)"
  "distinct ws \<Longrightarrow> set ws = ran m \<Longrightarrow> table_step\<^sup>*\<^sup>* (m, a, n) (Map.empty, a @ ws, n)"
  "table_step\<^sup>*\<^sup>* (m, a, n) (m, a, Suc n)"
  by (auto intro!: r_into_rtranclp table_step.intros)

lemma resolve_place_steps: "table_steps B (resolve_place oid r B)"
  by (auto simp: table_steps_def tables unit_defs resolve_place_def
      intro!: table_rtrancl split: option.splits)

lemma comp_upd:
  "g \<circ> m(k := v) = (g \<circ> m)(k := g v)"
  by auto

lemma comp_keeps: "m k = Some p \<Longrightarrow> (map_option f \<circ> m)(k \<mapsto> f p) = map_option f \<circ> m"
  by (auto simp: fun_eq_iff)

lemma fail_contracts_steps: "table_steps B (fail_contracts rid e B)"
  by (auto simp: table_steps_def tables unit_defs fail_contracts_def comp_upd
      intro!: table_rtrancl split: option.splits)

lemma routed_details_steps:
  "table_steps B (route_execution now e B)" "table_steps B (route_execution_end rid B)"
  "table_steps B (route_contract_details cd B)" "table_steps B (route_contract_details_end D rid B)"
  by (auto simp: table_steps_def tables unit_defs route_execution_def route_execution_end_def
      route_contract_details_def route_contract_details_end_def comp_upd comp_keeps
      intro!: table_rtrancl split: option.splits if_splits)

lemma routed_order_steps:
  "table_steps B (route_open_order D now o1 B)" "table_steps B (route_order_status now o2 B)"
  "table_steps B (route_error e B)"
proof -
  have same: "same_tables B (upd_state (\<lambda>s. stamp_strict now oid pr (s\<lparr>wire_ack_ns := m s\<rparr>)) B)"
    "same_tables B (upd_state (\<lambda>s. s\<lparr>open_orders := m' s\<rparr>) B)"
    "same_tables B (upd_state (\<lambda>s. s\<lparr>wire_ack_ns := m s\<rparr>) B)"
    "same_tables B (upd_state (note_status oid st n) B)"
    "same_tables B (emit [StatusOut u] B)" "same_tables B (emit [ErrorOut er] B)" "same_tables B B"
    for oid pr m m' st n B u er
    by (simp_all add: same_tables_def tables unit_defs stamp_strict_def note_status_def split: option.split)
  note steps = same [THEN table_steps_refl] resolve_place_steps fail_contracts_steps
  have "table_steps B (case native_to_open_order D o1 of
      Some ord \<Rightarrow> upd_state (\<lambda>s. s\<lparr>open_orders := (open_orders s)(oo_order_id o1 \<mapsto> ord)\<rparr>) B | None \<Rightarrow> B)"
    by (simp add: steps split: option.split)
  then show "table_steps B (route_open_order D now o1 B)"
    unfolding route_open_order_def Let_def by (rule table_steps_trans, intro table_steps_trans [OF steps(1) steps(8)])
  have "table_steps (upd_state (note_status oid st n) B)
      (if acks_place st then resolve_place oid r (upd_state (\<lambda>s. s\<lparr>wire_ack_ns := m s\<rparr>)
        (upd_state (note_status oid st n) B)) else upd_state (note_status oid st n) B)" for oid st n r m
    using table_steps_trans [OF steps(3) steps(8)] steps(7) by simp
  then show "table_steps B (route_order_status now o2 B)"
    unfolding route_order_status_def Let_def
    by (rule table_steps_trans [OF table_steps_trans [OF steps(4)] steps(5)])
  have fail: "table_steps B (if b then fail_contracts rid e1 B else B)" for b rid e1
    by (simp add: steps)
  have "table_steps B1 (if b then resolve_place rid r B1 else B1)" for b rid r B1
    by (simp add: steps)
  then show "table_steps B (route_error e B)"
    unfolding route_error_def Let_def by (rule table_steps_trans [OF table_steps_trans [OF fail] steps(6)])
qed

lemma route_steps: "table_steps B (route D now recv_ns msg B)"
proof -
  have "same_tables B (upd_state (\<lambda>s. s\<lparr>bs_seeding := x s\<rparr>) B)" "same_tables B (upd_state (\<lambda>s. s\<lparr>account_values := y s\<rparr>) B)"
    "same_tables B B" for x y
    by (simp_all add: same_tables_def tables unit_defs)
  note same = this [THEN table_steps_refl] routed_same [THEN table_steps_refl]
  show ?thesis
    by (cases msg) (simp_all add: route_def routed_details_steps routed_order_steps same)
qed

lemma ack_steps:
  "place_order_ack oid outcome B = (r, B') \<Longrightarrow> table_steps B B'"
  "modify_order_ack oid outcome B = (r', B') \<Longrightarrow> table_steps B B'"
  "recent_fills_result rid fo B = (fr, B') \<Longrightarrow> table_steps B B'"
  "contracts_result rid co B = (cs, B') \<Longrightarrow> table_steps B B'"
  by (auto simp: table_steps_def tables unit_defs place_order_ack_def modify_order_ack_def recent_fills_result_def
      contracts_result_def forget_order_waits_def comp_upd intro!: table_rtrancl
      split: waited.splits sum.splits)

text \<open>Placing: the waiter is installed, and withdrawn when the send fails.\<close>

lemma install_withdraw: "table_step\<^sup>*\<^sup>* (m, a, n) (m(k := None), a, Suc n)"
  by (rule rtranclp_trans [OF table_rtrancl(2) table_rtrancl(5)])

lemma order_steps:
  "place_order F D env ok now req B = (r, B') \<Longrightarrow> table_steps B B'"
  "modify_order F D ok now ordid mreq B = (r, B') \<Longrightarrow> table_steps B B'"
proof -
  show "place_order F D env ok now req B = (r, B') \<Longrightarrow> table_steps B B'"
    by (auto simp: table_steps_def tables unit_defs place_order_def install_ack_def cache_template_def Let_def
        intro!: install_withdraw table_rtrancl(3,5) dest!: nb_send_keeps split: prod.splits sum.splits if_splits)
  show "modify_order F D ok now ordid mreq B = (r, B') \<Longrightarrow> table_steps B B'"
    by (auto simp: table_steps_def tables unit_defs modify_order_def install_ack_def cache_template_def Let_def
        intro!: install_withdraw table_rtrancl(3,5) dest!: nb_send_keeps
        split: option.splits prod.splits sum.splits if_splits)
qed

lemma request_steps:
  "recent_fills F D ok since B = (r, B') \<Longrightarrow> table_steps B B'"
  "request_contracts F ok cr B = (r, B') \<Longrightarrow> table_steps B B'"
proof -
  show "recent_fills F D ok since B = (r, B') \<Longrightarrow> table_steps B B'"
    by (auto simp: table_steps_def tables unit_defs recent_fills_def alloc_req_id_def Let_def comp_upd
        intro!: table_rtrancl(3,5) dest!: nb_send_keeps split: prod.splits sum.splits)
  show "request_contracts F ok cr B = (r, B') \<Longrightarrow> table_steps B B'"
    by (auto simp: table_steps_def tables unit_defs request_contracts_def alloc_req_id_def Let_def comp_upd
        intro!: table_rtrancl(3,5) dest!: nb_send_keeps split: prod.splits sum.splits)
qed

lemma disconnect_steps:
  assumes "distinct cs" "set cs = ran (map_option pc_waiter \<circ> pending_contract_details (nb_state B))"
    "distinct fs" "set fs = ran (map_option pf_waiter \<circ> pending_executions (nb_state B))"
    "distinct ps" "set ps = ran (pending_place_acks (nb_state B))"
  shows "table_steps B (nb_disconnect (cs, fs, ps) B)"
proof -
  have "map_option f \<circ> Map.empty = Map.empty" for f by auto
  then show ?thesis
    using assms by (auto simp: table_steps_def tables unit_defs nb_disconnect_def comp_def
        intro!: table_rtrancl(4))
qed

lemma broker_step_tables: "broker_step F D B B' \<Longrightarrow> table_steps B B'"
proof (induction rule: broker_step.induct)
  case (client B C)
  then show ?case by (simp add: table_steps_def tables)
qed (auto intro: route_steps ack_steps order_steps request_steps disconnect_steps state_ops_same [THEN table_steps_refl])

interpretation place_waiters: waiter_table place_table "broker_step F D" for F D
  by unfold_locales (use broker_step_tables in \<open>auto simp: table_steps_def\<close>)

interpretation contract_waiters: waiter_table contract_table "broker_step F D" for F D
  by unfold_locales (use broker_step_tables in \<open>auto simp: table_steps_def\<close>)

interpretation fill_waiters: waiter_table fill_table "broker_step F D" for F D
  by unfold_locales (use broker_step_tables in \<open>auto simp: table_steps_def\<close>)

subsection \<open>Answers of the dispatcher\<close>

text \<open>
  What the dispatcher owes the callers waiting on orders: acceptance on the first order report and on
  a status that says the gateway has the order, rejection on an error that carries the order id.
\<close>

definition answer_to :: "i32 \<Rightarrow> broker_error + unit \<Rightarrow> (i32 \<rightharpoonup> nat) \<Rightarrow> (nat \<times> (broker_error + unit)) list" where
  "answer_to oid r pend = (case pend oid of Some w \<Rightarrow> [(w, r)] | None \<Rightarrow> [])"

definition ack_of :: "inbound_msg \<Rightarrow> (i32 \<rightharpoonup> nat) \<Rightarrow> (nat \<times> (broker_error + unit)) list" where
  "ack_of msg pend =
     (case msg of
        OpenOrderIn o' \<Rightarrow> answer_to (oo_order_id o') (Inr ()) pend
      | OrderStatusIn o' \<Rightarrow>
          (if parse_status (os_status o') \<in> {RejectedStatus, Inactive} then []
           else answer_to (os_order_id o') (Inr ()) pend)
      | ErrorIn e \<Rightarrow>
          (if 0 < sint (er_req_id e) \<and> er_error_code e \<in> {201, 203, 434, 436, 10148, 10197}
           then answer_to (er_req_id e) (Inl (OrderRejected (Some (scast (er_req_id e))) (er_error_string e))) pend
           else [])
      | _ \<Rightarrow> [])"

lemma place_answers_resolve:
  "place_answers (out (resolve_place oid r B)) =
     place_answers (out B) @ answer_to oid r (pending_place_acks (nb_state B))"
  by (simp add: resolve_place_def answer_to_def unit_defs split: option.split)

lemma fail_contracts_place [simp]:
  "place_answers (out (fail_contracts rid e B)) = place_answers (out B)"
  "pending_place_acks (nb_state (fail_contracts rid e B)) = pending_place_acks (nb_state B)"
  by (simp_all add: fail_contracts_def unit_defs split: option.split)

lemma place_pending_keeps [simp]:
  "pending_place_acks (stamp_strict now oid pr s) = pending_place_acks s"
  "pending_place_acks (note_status oid st n s) = pending_place_acks s"
  by (simp_all add: stamp_strict_def note_status_def split: option.split)

lemma route_answers:
  "place_answers (out (route D now recv_ns msg B)) =
     place_answers (out B) @ ack_of msg (pending_place_acks (nb_state B))"
proof (cases msg)
  case (OpenOrderIn o')
  then show ?thesis
    by (simp add: route_def ack_of_def route_open_order_def Let_def place_answers_resolve
        upd_state_def split: option.split)
next
  case (OrderStatusIn o')
  then show ?thesis
    by (cases "parse_status (os_status o')")
      (simp_all add: route_def ack_of_def route_order_status_def Let_def place_answers_resolve acks_place_def
        upd_state_def emit_def)
next
  case (ErrorIn e)
  then show ?thesis
    by (auto simp: route_def ack_of_def route_error_def Let_def place_answers_resolve emit_def is_order_error_def)
qed (auto simp: route_def ack_of_def unit_defs route_position_def route_execution_def route_execution_end_def
    route_contract_details_def route_contract_details_end_def route_tick_price_def route_tick_size_def
    route_market_depth_def publish_tick_def Let_def split: option.splits)

text \<open>
  \<^bold>\<open>C2.\<close> In every state the adapter can reach, by any interleaving of its operations with the dispatcher
  and the receive task, no caller waiting for an order, for contracts or for executions has been
  answered twice, and none that still waits in one of the three tables has been answered.  Of the order callers a
  message answers exactly the one it is for: acceptance on an order report or an accepting status, rejection on an
  order error, and nothing otherwise.
\<close>

theorem waiters_answered_once:
  assumes "(broker_step F D)\<^sup>*\<^sup>* (new_broker acct cid) B"
  shows "distinct (map fst (place_answers (out B))) \<and> distinct (contract_answers (out B)) \<and>
    distinct (fill_answers (out B)) \<and>
    (\<forall>oid w. pending_place_acks (nb_state B) oid = Some w \<longrightarrow> w \<notin> fst ` set (place_answers (out B))) \<and>
    (\<forall>rid p. pending_contract_details (nb_state B) rid = Some p \<longrightarrow> pc_waiter p \<notin> set (contract_answers (out B))) \<and>
    (\<forall>rid p. pending_executions (nb_state B) rid = Some p \<longrightarrow> pf_waiter p \<notin> set (fill_answers (out B))) \<and>
    (\<forall>now recv_ns msg. place_answers (out (route D now recv_ns msg B)) =
       place_answers (out B) @ ack_of msg (pending_place_acks (nb_state B)))"
proof -
  have "table_ok (place_table (new_broker acct cid))" "table_ok (contract_table (new_broker acct cid))"
    "table_ok (fill_table (new_broker acct cid))"
    by (simp_all add: table_ok_def tables new_broker_def empty_state_def comp_def)
  then show ?thesis
    using place_waiters.answered_once [OF assms] contract_waiters.answered_once [OF assms]
      fill_waiters.answered_once [OF assms]
    by (simp add: tables route_answers) blast
qed

definition demo_chrono :: chrono where
  "demo_chrono = \<lparr>parse_date = (\<lambda>_ _. Some 20600), format_date = (\<lambda>_. ''20260526''),
     format_gtd = (\<lambda>_. ''20260526 16:00:00 UTC''), format_exec_time = (\<lambda>_. None)\<rparr>"

definition demo_instrument :: contract where
  "demo_instrument = \<lparr>instrument_id = 712565973, c_kind = Future, c_symbol = ''HG'', c_local_symbol = ''HGM6'',
     c_expiry = 20600, c_strike = None, c_right = None, c_multiplier = lit 25000, c_exchange = Comex,
     c_currency = Usd, c_trading_class = ''HG''\<rparr>"

definition demo_req :: place_order_req where
  "demo_req = \<lparr>po_contract = demo_instrument, po_side = Buy, po_qty = 1, po_order_type = Limit,
     po_price = Some (F64 0x4018333333333333), po_tif = Gtd, po_gtd_until = Some 0, po_client_ref = ''t'',
     po_account = None\<rparr>"

definition seeded_client :: client where
  "seeded_client = (new_client 0)\<lparr>writer_open := True, next_order_id := 42\<rparr>"

definition demo_placed :: native_broker where
  "demo_placed = snd (place_order demo_fmt demo_chrono (\<lambda>_ C. C) True 5 demo_req
     ((new_broker ''DU1'' 0)\<lparr>nb_client := seeded_client\<rparr>))"

lemma demo_placed_run: "(broker_step demo_fmt demo_chrono)\<^sup>*\<^sup>* (new_broker ''DU1'' 0) demo_placed"
proof -
  have "broker_step demo_fmt demo_chrono (new_broker ''DU1'' 0) ((new_broker ''DU1'' 0)\<lparr>nb_client := seeded_client\<rparr>)"
    by (rule broker_step.client)
  moreover have "broker_step demo_fmt demo_chrono ((new_broker ''DU1'' 0)\<lparr>nb_client := seeded_client\<rparr>) demo_placed"
    unfolding demo_placed_def by (rule broker_step.place [OF surjective_pairing])
  ultimately show ?thesis by auto
qed

lemma demo_placed_pending:
  "pending_place_acks (nb_state demo_placed) 42 = Some 0" "place_answers (out demo_placed) = []"
proof -
  let ?B = "(new_broker ''DU1'' 0)\<lparr>nb_client := seeded_client\<rparr>"
  have B: "next_waiter ?B = 0" "out ?B = []" "nb_client ?B = seeded_client" "nb_account ?B = ''DU1''"
    by (simp_all add: new_broker_def)
  have "alloc_order_id (\<lambda>_ C. C) (nb_client ?B) = (42, seeded_client\<lparr>next_order_id := 43\<rparr>)"
    unfolding B by (simp add: alloc_order_id_def alloc_attempt_def seeded_client_def)
  moreover have "\<exists>params. build_place_params demo_chrono demo_req (nb_account ?B) = Inr params"
    by (simp add: build_place_params_def order_prices_def good_till_def demo_req_def)
  moreover have "writer_open (seeded_client\<lparr>next_order_id := 43\<rparr>)" "po_qty demo_req \<noteq> 0"
    by (simp_all add: seeded_client_def demo_req_def)
  ultimately have "pending_place_acks (nb_state demo_placed) 42 = Some (next_waiter ?B) \<and> out demo_placed = out ?B"
    unfolding demo_placed_def by (auto simp: place_order_sent placing_def install_ack_simps)
  then show "pending_place_acks (nb_state demo_placed) 42 = Some 0" "place_answers (out demo_placed) = []"
    unfolding B by simp_all
qed

theorem waiters_answered_once_witness:
  "place_answers (out (route demo_chrono 7 7 (OrderStatusIn demo_status) demo_placed)) = [(0, Inr ())]"
  using waiters_answered_once [OF demo_placed_run] demo_placed_pending
  by (simp add: ack_of_def answer_to_def demo_status_def parse_status_def)

end
