(* ===== verification/Ibkr_Orders.thy ===== *)
theory Ibkr_Orders
  imports Ibkr_Waiters
begin

section \<open>Orders on the wire, and what the reports leave out\<close>

text \<open>
  What an order operation of the adapter puts on the wire, through the template cache and the fast
  encoder, against the slow-path encoder; and the gateway reports the dispatcher does not turn into
  what the comments and the interface promise.
\<close>

subsection \<open>The template cache\<close>

text \<open>
  The cache is keyed by the instrument id alone, and an entry is never replaced.  Two contracts with one
  id need not be equal: a contract that came back in an order report is parsed from the report, the one
  of a new order comes from the caller.  So the invariant of the cache names no contract: every template
  was made from some contract with the id it is filed under.
\<close>

definition templates_ok :: "fmt \<Rightarrow> chrono \<Rightarrow> native_broker \<Rightarrow> bool" where
  "templates_ok F D B \<longleftrightarrow>
     (\<forall>iid t. place_templates (nb_state B) iid = Some t \<longrightarrow>
        (\<exists>c. instrument_id c = iid \<and> t = from_contract F (place_order_contract_request D c)))"

text \<open>
  The contract an order for \<open>own\<close> goes out with: its own when its instrument has no template yet or has
  the template of this very contract, and otherwise the one the cached template was made from.
\<close>

definition sent_contract :: "fmt \<Rightarrow> chrono \<Rightarrow> native_broker \<Rightarrow> contract \<Rightarrow> contract \<Rightarrow> bool" where
  "sent_contract F D B own c \<longleftrightarrow> instrument_id c = instrument_id own \<and>
     (case place_templates (nb_state B) (instrument_id own) of
        None \<Rightarrow> c = own
      | Some t \<Rightarrow> t = from_contract F (place_order_contract_request D c) \<and>
          (t = from_contract F (place_order_contract_request D own) \<longrightarrow> c = own))"

lemma sent_contract_ex:
  assumes "templates_ok F D B"
  obtains c where "sent_contract F D B own c"
proof (cases "place_templates (nb_state B) (instrument_id own)")
  case (Some t)
  with assms obtain c where "instrument_id c = instrument_id own" "t = from_contract F (place_order_contract_request D c)"
    unfolding templates_ok_def by blast
  with Some have "sent_contract F D B own (if t = from_contract F (place_order_contract_request D own) then own else c)"
    by (simp add: sent_contract_def)
  then show thesis by (rule that)
qed (use that [of own] in \<open>simp add: sent_contract_def\<close>)

lemma sent_contract_template:
  assumes "sent_contract F D B own c"
  shows "template_for F D own (nb_state B) = from_contract F (place_order_contract_request D c)"
    and "place_templates (cache_template F D own (nb_state B)) (instrument_id own) =
      Some (from_contract F (place_order_contract_request D c))"
  using assms by (auto simp: sent_contract_def template_for_def cache_template_def split: option.splits)

lemma order_frame:
  assumes "\<And>i. itoa F i = int_dec i" "sent_contract F D B own c"
  shows "place_order_fast F oid (template_for F D own (nb_state B)) params =
    place_order_frame F oid (place_order_contract_request D c) params"
  by (simp add: sent_contract_template [OF assms(2)] place_order_fast_slow [OF assms(1)])

text \<open>What a step of the adapter does to the cache: nothing, or the insertion of one missing template.\<close>

definition template_step :: "fmt \<Rightarrow> chrono \<Rightarrow> native_broker \<Rightarrow> native_broker \<Rightarrow> bool" where
  "template_step F D B B' \<longleftrightarrow> place_templates (nb_state B') = place_templates (nb_state B) \<or>
     (\<exists>c. place_templates (nb_state B') = place_templates (cache_template F D c (nb_state B)))"

lemma template_step_keeps:
  assumes "template_step F D B B'" "place_templates (nb_state B) iid = Some t"
  shows "place_templates (nb_state B') iid = Some t"
  using assms by (auto simp: template_step_def cache_template_def template_for_def)

lemma template_step_ok:
  assumes "template_step F D B B'" "templates_ok F D B"
  shows "templates_ok F D B'"
  unfolding templates_ok_def
proof (intro allI impI)
  fix iid t
  assume t: "place_templates (nb_state B') iid = Some t"
  have "\<exists>c. instrument_id c = iid \<and> t = from_contract F (place_order_contract_request D c)"
    if "place_templates (nb_state B) iid = None"
    using assms(1) t that
    by (auto simp: template_step_def cache_template_def template_for_def split: if_splits)
  with assms t template_step_keeps [OF assms(1), of iid]
  show "\<exists>c. instrument_id c = iid \<and> t = from_contract F (place_order_contract_request D c)"
    unfolding templates_ok_def by (cases "place_templates (nb_state B) iid") auto
qed

definition same_templates :: "native_broker \<Rightarrow> native_broker \<Rightarrow> bool" where
  "same_templates B B' \<longleftrightarrow> place_templates (nb_state B') = place_templates (nb_state B)"

lemma resolve_templates [simp]:
  "place_templates (nb_state (resolve_place oid r B)) = place_templates (nb_state B)"
  "place_templates (nb_state (fail_contracts rid e B)) = place_templates (nb_state B)"
  "place_templates (stamp_strict now oid pr s) = place_templates s"
  "place_templates (note_status oid st n s) = place_templates s"
  by (simp_all add: resolve_place_def fail_contracts_def stamp_strict_def note_status_def unit_defs split: option.split)

lemma route_templates: "same_templates B (route D now recv_ns msg B)"
  unfolding same_templates_def
  by (cases msg)
    (simp_all add: route_def route_open_order_def route_order_status_def route_error_def route_position_def
      route_execution_def route_execution_end_def route_contract_details_def route_contract_details_end_def
      route_tick_price_def route_tick_size_def route_market_depth_def publish_tick_def unit_defs Let_def
      split: option.split if_split)

lemma state_ops_templates:
  "drain_wire_timing ordid B = (t, B') \<Longrightarrow> same_templates B B'"
  "drain_strict_amend_ack_ns ordid B = (t', B') \<Longrightarrow> same_templates B B'"
  "cancel_order F ok ordid B = (r, B') \<Longrightarrow> same_templates B B'"
  "unsubscribe_ticks F ok hdl B = (u, B') \<Longrightarrow> same_templates B B'"
  "unsubscribe_market_depth F ok hdl B = (u, B') \<Longrightarrow> same_templates B B'"
  "same_templates B (set_tick_publisher B)" "same_templates B (reset_seeding_flags B)"
  "place_order_ack oid outcome B = (ra, B') \<Longrightarrow> same_templates B B'"
  "modify_order_ack oid outcome B = (r', B') \<Longrightarrow> same_templates B B'"
  "recent_fills_result rid fo B = (fr, B') \<Longrightarrow> same_templates B B'"
  "contracts_result rid co B = (cs, B') \<Longrightarrow> same_templates B B'"
  "same_templates B (nb_disconnect (cw, fw, pw) B)"
  by (auto simp: same_templates_def unit_defs drain_wire_timing_def drain_strict_amend_ack_ns_def cancel_order_def
      unsubscribe_ticks_def unsubscribe_market_depth_def set_tick_publisher_def reset_seeding_flags_def
      place_order_ack_def modify_order_ack_def recent_fills_result_def contracts_result_def
      forget_order_waits_def nb_disconnect_def Let_def
      dest!: nb_send_keeps split: option.splits waited.splits sum.splits)

lemma send_ops_templates:
  "subscribe_ticks F D ok sub B = (h, B') \<Longrightarrow> same_templates B B'"
  "subscribe_market_depth F D ok sub rows B = (h, B') \<Longrightarrow> same_templates B B'"
  "recent_fills F D ok since B = (r, B') \<Longrightarrow> same_templates B B'"
  "request_contracts F ok cr B = (r, B') \<Longrightarrow> same_templates B B'"
  "nb_connect F tcp nd hello reads start boot oks B = (u, B') \<Longrightarrow> same_templates B B'"
  by (auto simp: same_templates_def unit_defs subscribe_ticks_def subscribe_market_depth_def recent_fills_def
      request_contracts_def nb_connect_def alloc_req_id_def alloc_handle_def Let_def
      dest!: nb_send_keeps send_all_keeps split: prod.splits sum.splits if_splits)

lemma order_templates:
  "place_order F D env ok now req B = (r, B') \<Longrightarrow> template_step F D B B'"
  "modify_order F D ok now ordid mreq B = (r, B') \<Longrightarrow> template_step F D B B'"
proof -
  show "place_order F D env ok now req B = (r, B') \<Longrightarrow> template_step F D B B'"
    by (auto simp: template_step_def unit_defs place_order_def install_ack_def cache_template_def template_for_def
        Let_def dest!: nb_send_keeps split: prod.splits sum.splits if_splits)
  show "modify_order F D ok now ordid mreq B = (r, B') \<Longrightarrow> template_step F D B B'"
    by (auto simp: template_step_def unit_defs modify_order_def install_ack_def cache_template_def template_for_def
        Let_def dest!: nb_send_keeps split: option.splits prod.splits sum.splits if_splits)
qed

lemma same_template_step: "same_templates B B' \<Longrightarrow> template_step F D B B'"
  by (simp add: same_templates_def template_step_def)

lemma broker_step_templates: "broker_step F D B B' \<Longrightarrow> template_step F D B B'"
proof (induction rule: broker_step.induct)
  case (client B C)
  then show ?case by (simp add: template_step_def)
qed (auto intro: order_templates same_template_step route_templates state_ops_templates send_ops_templates)

lemma reachable_templates_ok:
  "(broker_step F D)\<^sup>*\<^sup>* (new_broker acct cid) B \<Longrightarrow> templates_ok F D B"
proof (induction rule: rtranclp_induct)
  case base
  then show ?case by (simp add: templates_ok_def new_broker_def empty_state_def)
qed (blast intro: template_step_ok broker_step_templates)

text \<open>
  \<^bold>\<open>C7.\<close> In every state the adapter can reach, a place order that passes its checks on an open connection
  puts exactly one frame on the wire: the slow-path order frame of its parameters under a fresh order id,
  with its caller waiting under that id.  The contract in the frame is the order's own, unless the
  instrument already has a template made from a different contract with the same instrument id; then it is
  that one.  A modification likewise puts on the wire the order frame of the cached order with the changed
  price, quantity and expiry, under the same order id.  Either order leaves the template of the contract it
  was sent with, and no step of the adapter ever replaces a template.
\<close>

theorem orders_on_the_wire:
  assumes "\<And>i. itoa F i = int_dec i" "(broker_step F D)\<^sup>*\<^sup>* (new_broker acct cid) B"
  shows "(po_qty req \<noteq> 0 \<and> alloc_order_id env (nb_client B) = (oid, C) \<and> 0 < sint oid \<and> writer_open C \<and>
      build_place_params D req (nb_account B) = Inr params \<longrightarrow>
      (\<exists>B' c. sent_contract F D B (po_contract req) c \<and>
        place_order F D env True now req B = (Inr (oid, next_waiter B), B') \<and>
        wire (nb_client B') = wire C @ place_order_frame F oid (place_order_contract_request D c) params \<and>
        pending_place_acks (nb_state B') oid = Some (next_waiter B) \<and>
        place_templates (nb_state B') (instrument_id (po_contract req)) =
          Some (from_contract F (place_order_contract_request D c)))) \<and>
    (open_orders (nb_state B) (ucast order_id) = Some ord \<and> writer_open (nb_client B) \<and>
      build_place_params D (amended_req (nb_account B) ord mreq) (nb_account B) = Inr mparams \<longrightarrow>
      (\<exists>B' c. sent_contract F D B (ord_contract ord) c \<and>
        modify_order F D True now order_id mreq B = (Inr (ucast order_id, next_waiter B), B') \<and>
        wire (nb_client B') = wire (nb_client B) @
          place_order_frame F (ucast order_id) (place_order_contract_request D c) mparams \<and>
        pending_place_acks (nb_state B') (ucast order_id) = Some (next_waiter B) \<and>
        place_templates (nb_state B') (instrument_id (ord_contract ord)) =
          Some (from_contract F (place_order_contract_request D c)))) \<and>
    (\<forall>B' iid t. broker_step F D B B' \<longrightarrow> place_templates (nb_state B) iid = Some t \<longrightarrow>
      place_templates (nb_state B') iid = Some t)"
proof (intro conjI impI; (elim conjE)?)
  note ok = reachable_templates_ok [OF assms(2)]
  { assume a: "po_qty req \<noteq> 0" "alloc_order_id env (nb_client B) = (oid, C)" "0 < sint oid" "writer_open C"
      "build_place_params D req (nb_account B) = Inr params"
    obtain c where c: "sent_contract F D B (po_contract req) c" by (rule sent_contract_ex [OF ok])
    have "place_templates (nb_state (placing F D now oid k (B\<lparr>nb_client := C\<rparr>))) =
        place_templates (cache_template F D k (nb_state B))" for k
      by (simp add: placing_def install_ack_simps cache_template_def template_for_def)
    then show "\<exists>B' c. sent_contract F D B (po_contract req) c \<and>
        place_order F D env True now req B = (Inr (oid, next_waiter B), B') \<and>
        wire (nb_client B') = wire C @ place_order_frame F oid (place_order_contract_request D c) params \<and>
        pending_place_acks (nb_state B') oid = Some (next_waiter B) \<and>
        place_templates (nb_state B') (instrument_id (po_contract req)) =
          Some (from_contract F (place_order_contract_request D c))"
      using a c place_order_sent [of req env B oid C D params F now] order_frame [OF assms(1) c]
        sent_contract_template(2) [OF c]
      by (intro exI [of _ c] exI) (auto simp: placing_def install_ack_simps) }
  { assume a: "open_orders (nb_state B) (ucast order_id) = Some ord" "writer_open (nb_client B)"
      "build_place_params D (amended_req (nb_account B) ord mreq) (nb_account B) = Inr mparams"
    obtain c where c: "sent_contract F D B (ord_contract ord) c" by (rule sent_contract_ex [OF ok])
    have "place_templates (nb_state (amending F D now k p e B)) = place_templates (cache_template F D e (nb_state B))"
      for k p e
      by (simp add: amending_def install_ack_simps)
    then show "\<exists>B' c. sent_contract F D B (ord_contract ord) c \<and>
        modify_order F D True now order_id mreq B = (Inr (ucast order_id, next_waiter B), B') \<and>
        wire (nb_client B') = wire (nb_client B) @
          place_order_frame F (ucast order_id) (place_order_contract_request D c) mparams \<and>
        pending_place_acks (nb_state B') (ucast order_id) = Some (next_waiter B) \<and>
        place_templates (nb_state B') (instrument_id (ord_contract ord)) =
          Some (from_contract F (place_order_contract_request D c))"
      using a c modify_order_sent [of B order_id ord D mreq mparams F now] order_frame [OF assms(1) c]
        sent_contract_template(2) [OF c]
      by (intro exI [of _ c] exI) (auto simp: amending_def install_ack_simps) }
qed (blast intro: template_step_keeps broker_step_templates)

theorem orders_on_the_wire_witness:
  "\<exists>B' params. place_order demo_fmt demo_chrono (\<lambda>_ C. C) True 5 demo_req
       ((new_broker ''DU1'' 0)\<lparr>nb_client := seeded_client\<rparr>) = (Inr (42, 0), B') \<and>
     wire (nb_client B') =
       place_order_frame demo_fmt 42 (place_order_contract_request demo_chrono demo_instrument) params"
proof -
  let ?B = "(new_broker ''DU1'' 0)\<lparr>nb_client := seeded_client\<rparr>"
  have B: "next_waiter ?B = 0" "nb_client ?B = seeded_client" "nb_account ?B = ''DU1''"
    "place_templates (nb_state ?B) = Map.empty"
    by (simp_all add: new_broker_def empty_state_def)
  have run: "(broker_step demo_fmt demo_chrono)\<^sup>*\<^sup>* (new_broker ''DU1'' 0) ?B" by (auto intro: broker_step.client)
  have "alloc_order_id (\<lambda>_ C. C) (nb_client ?B) = (42, seeded_client\<lparr>next_order_id := 43\<rparr>)"
    unfolding B by (simp add: alloc_order_id_def alloc_attempt_def seeded_client_def)
  moreover obtain params where "build_place_params demo_chrono demo_req (nb_account ?B) = Inr params"
    by (cases "build_place_params demo_chrono demo_req (nb_account ?B)")
      (simp_all add: build_place_params_def order_prices_def good_till_def demo_req_def)
  moreover have "writer_open (seeded_client\<lparr>next_order_id := 43\<rparr>)" "po_qty demo_req \<noteq> 0" "wire (seeded_client\<lparr>next_order_id := 43\<rparr>) = []"
    "po_contract demo_req = demo_instrument"
    by (simp_all add: seeded_client_def demo_req_def new_client_def)
  ultimately show ?thesis
    using orders_on_the_wire [OF demo_itoa run, of demo_req "\<lambda>_ C. C" 42 "seeded_client\<lparr>next_order_id := 43\<rparr>" params 5, THEN conjunct1]
      B(1,4) by (auto simp: sent_contract_def)
qed

subsection \<open>Reports that get lost\<close>

text \<open>
  Five reports of the gateway are not passed on as the comments promise.  A rejection that
  arrives as an order status answers nobody: the caller runs into its time-out, which is a retriable
  error.  An order report after the order was filled turns the cached order back into an unfilled
  pending one.  The same execution delivered twice is broadcast twice.  An execution that answers an
  execution request which has timed out is broadcast as a new fill.  And as long as the client exists
  the dispatcher does not end, so the end of the stream never becomes a lost connection.
\<close>

theorem gateway_reports_lost:
  "(parse_status (os_status o1) = RejectedStatus \<longrightarrow>
      pending_place_acks (nb_state (route D now ns (OrderStatusIn o1) B)) = pending_place_acks (nb_state B) \<and>
      place_answers (out (route D now ns (OrderStatusIn o1) B)) = place_answers (out B) \<and>
      (\<exists>e. fst (place_order_ack (os_order_id o1) Elapsed (route D now ns (OrderStatusIn o1) B)) = Inl e \<and> is_retriable e)) \<and>
   (os_order_id o1 = oo_order_id o2 \<and> parse_status (os_status o1) = Filled \<and> native_to_open_order D o2 = Some ord \<longrightarrow>
      (\<exists>ord'. open_orders (nb_state (route D now ns (OpenOrderIn o2) (route D now ns (OrderStatusIn o1) B)))
         (oo_order_id o2) = Some ord' \<and> ord_status ord' = PendingSubmit \<and> ord_filled_qty ord' = 0)) \<and>
   (sint (ex_req_id x) \<le> 0 \<and> execution_to_fill now x = Some f \<longrightarrow>
      out (route D now ns (Execution x) (route D now ns (Execution x) B)) = out B @ [FillOut f, FillOut f]) \<and>
   (execution_to_fill now x = Some f \<longrightarrow>
      out (route D now ns (Execution x) (snd (recent_fills_result (ex_req_id x) Elapsed B))) = out B @ [FillOut f]) \<and>
   dispatcher_end running True B = None"
proof (intro conjI impI; (elim conjE)?)
  assume r: "parse_status (os_status o1) = RejectedStatus"
  then show "pending_place_acks (nb_state (route D now ns (OrderStatusIn o1) B)) = pending_place_acks (nb_state B)"
    by (simp add: route_def route_order_status_def Let_def acks_place_def emit_def)
  show "place_answers (out (route D now ns (OrderStatusIn o1) B)) = place_answers (out B)"
    using r by (simp add: route_answers ack_of_def)
  show "\<exists>e. fst (place_order_ack (os_order_id o1) Elapsed (route D now ns (OrderStatusIn o1) B)) = Inl e \<and> is_retriable e"
    by (simp add: place_order_ack_def)
next
  assume "os_order_id o1 = oo_order_id o2" "native_to_open_order D o2 = Some ord"
  moreover have "ord_status ord = PendingSubmit \<and> ord_filled_qty ord = 0"
    using calculation(2) by (auto simp: native_to_open_order_def split: option.splits)
  moreover have "open_orders (nb_state (resolve_place k r B1)) = open_orders (nb_state B1)" for k r B1
    by (simp add: resolve_place_def emit_def split: option.split)
  moreover have "open_orders (stamp_strict t k p s) = open_orders s" for t k p s
    by (simp add: stamp_strict_def split: option.split)
  ultimately show "\<exists>ord'. open_orders (nb_state (route D now ns (OpenOrderIn o2) (route D now ns (OrderStatusIn o1) B)))
      (oo_order_id o2) = Some ord' \<and> ord_status ord' = PendingSubmit \<and> ord_filled_qty ord' = 0"
    by (simp add: route_def route_open_order_def Let_def)
next
  assume "sint (ex_req_id x) \<le> 0" "execution_to_fill now x = Some f"
  then show "out (route D now ns (Execution x) (route D now ns (Execution x) B)) = out B @ [FillOut f, FillOut f]"
    by (simp add: route_def route_execution_def emit_def)
next
  assume "execution_to_fill now x = Some f"
  then show "out (route D now ns (Execution x) (snd (recent_fills_result (ex_req_id x) Elapsed B))) = out B @ [FillOut f]"
    by (simp add: route_def route_execution_def emit_def recent_fills_result_def drop_key_def)
qed (simp add: dispatcher_end_def)

lemma demo_execution_fill: "\<exists>f. execution_to_fill 7 demo_execution = Some f"
  by (simp add: execution_to_fill_def demo_execution_def)

definition demo_rejected :: order_status_msg where
  "demo_rejected = demo_status\<lparr>os_status := ''Rejected''\<rparr>"

theorem gateway_reports_lost_witness:
  "place_answers (out (route demo_chrono 7 7 (OrderStatusIn demo_rejected) demo_placed)) = [] \<and>
   (\<exists>f. out (route demo_chrono 7 7 (Execution demo_execution) (route demo_chrono 7 7 (Execution demo_execution) demo_placed)) =
      out demo_placed @ [FillOut f, FillOut f])"
proof -
  obtain f where f: "execution_to_fill 7 demo_execution = Some f" using demo_execution_fill ..
  have "sint (ex_req_id demo_execution) \<le> 0" by (simp add: demo_execution_def)
  moreover have "parse_status (os_status demo_rejected) = RejectedStatus"
    by (simp add: demo_rejected_def parse_status_def)
  ultimately show ?thesis
    using gateway_reports_lost [of demo_rejected demo_chrono 7 7 demo_placed undefined undefined demo_execution f True]
      f demo_placed_pending(2) by auto
qed

end
