(* ===== verification/Broker_Locks.thy ===== *)
theory Broker_Locks
  imports Corsair_Prelude
begin

section \<open>The mutexes of the daemon\<close>

text \<open>
  The parts of \<^verbatim>\<open>Runtime\<close> (\<^verbatim>\<open>runtime.rs\<close>) are behind one \<^verbatim>\<open>std::sync::Mutex\<close> each, and the tasks take several of
  them in nested scopes.  A critical section is the sequence of its acquisitions and of the drops of the
  guards.  The documented order of the locks is not the one the code has, and two sections take three of
  them in opposite orders; what keeps the daemon from deadlock is that every section which holds two of
  these three holds the portfolio as well.  Waits of the async runtime happen outside of all sections.

  Only the mutexes of \<^verbatim>\<open>Runtime\<close> are covered.  Left out are the lock of the tick cache, which the fast path holds
  while it publishes (\<^verbatim>\<open>ipc.rs\<close>), the cache of open orders of the snapshot task (\<^verbatim>\<open>OO_CACHE\<close> in \<^verbatim>\<open>tasks.rs\<close>) and the
  state of the adapter (\<^verbatim>\<open>NativeBroker\<close>).
\<close>

datatype mutex =
  AccountLock | PortfolioLock | HedgeLock | MarketLock | RiskLock | ConstraintLock | VolSurfaceLock
  | SnapshotLock | QualifiedLock | ContractsLock | LatencyLock | SeenLock | TerminatedLock | ServerLock

datatype 'l instr = Acquire 'l | Release 'l

type_synonym 'l program = "'l instr list"

subsection \<open>The critical sections\<close>

text \<open>A section with one guard, and the common shape with nested guards that are dropped in reverse order.\<close>

definition nested :: "'l list \<Rightarrow> 'l program" where
  "nested ms = map Acquire ms @ map Release (rev ms)"

definition halt_check_locks :: "mutex program" where
  "halt_check_locks = nested [PortfolioLock, MarketLock, RiskLock, HedgeLock]"

definition fill_rebalance_locks :: "mutex program" where
  "fill_rebalance_locks = nested [PortfolioLock, HedgeLock]"

definition greek_refresh_locks :: "mutex program" where
  "greek_refresh_locks = nested [PortfolioLock, MarketLock]"

definition risk_check_locks :: "mutex program" where
  "risk_check_locks =
     [Acquire PortfolioLock, Acquire MarketLock, Acquire RiskLock, Acquire HedgeLock,
      Release HedgeLock, Release RiskLock, Release MarketLock, Release PortfolioLock]"

definition hedge_forwards_locks :: "mutex program" where
  "hedge_forwards_locks = nested [PortfolioLock, MarketLock]"

definition hedge_actions_locks :: "mutex program" where
  "hedge_actions_locks = nested [PortfolioLock, HedgeLock]"

definition account_payload_locks :: "mutex program" where
  "account_payload_locks = nested [AccountLock, ConstraintLock]"

definition snapshot_build_locks :: "mutex program" where
  "snapshot_build_locks =
     [Acquire PortfolioLock, Acquire RiskLock, Acquire HedgeLock, Acquire MarketLock,
      Acquire VolSurfaceLock, Release VolSurfaceLock, Acquire SnapshotLock, Release SnapshotLock,
      Release MarketLock, Release HedgeLock, Release RiskLock, Release PortfolioLock]"

definition raw_margin_locks :: "mutex program" where
  "raw_margin_locks = nested [PortfolioLock, MarketLock]"

definition depth_target_locks :: "mutex program" where
  "depth_target_locks = nested [MarketLock, QualifiedLock]"

text \<open>Every critical section of the daemon; those that are not listed hold a single guard.\<close>

datatype lock_section =
    HaltCheck | FillRebalance | GreekRefresh | RiskCheck | HedgeForwards | HedgeActions | AccountPayload
  | SnapshotBuild | RawMargin | DepthTarget | Single mutex

fun locks_of :: "lock_section \<Rightarrow> mutex program" where
  "locks_of HaltCheck = halt_check_locks"
| "locks_of FillRebalance = fill_rebalance_locks"
| "locks_of GreekRefresh = greek_refresh_locks"
| "locks_of RiskCheck = risk_check_locks"
| "locks_of HedgeForwards = hedge_forwards_locks"
| "locks_of HedgeActions = hedge_actions_locks"
| "locks_of AccountPayload = account_payload_locks"
| "locks_of SnapshotBuild = snapshot_build_locks"
| "locks_of RawMargin = raw_margin_locks"
| "locks_of DepthTarget = depth_target_locks"
| "locks_of (Single m) = nested [m]"

text \<open>A task runs one section after the other; what it does between two of them needs no lock.\<close>

definition task_of :: "lock_section list \<Rightarrow> mutex program" where
  "task_of ss = concat (map locks_of ss)"

subsection \<open>Threads\<close>

text \<open>A thread holds a set of locks and has a rest of its program; an acquisition waits for all others.\<close>

type_synonym 'l thread = "'l set \<times> 'l program"

inductive lock_step :: "'l thread list \<Rightarrow> 'l thread list \<Rightarrow> bool" where
  acquire: "i < length c \<Longrightarrow> c ! i = (H, Acquire m # p) \<Longrightarrow> \<forall>t\<in>set c. m \<notin> fst t \<Longrightarrow>
    lock_step c (c[i := (insert m H, p)])"
| release: "i < length c \<Longrightarrow> c ! i = (H, Release m # p) \<Longrightarrow> lock_step c (c[i := (H - {m}, p)])"

definition finished :: "'l thread list \<Rightarrow> bool" where
  "finished c \<longleftrightarrow> (\<forall>t\<in>set c. t = ({}, []))"

definition instructions_left :: "'l thread list \<Rightarrow> nat" where
  "instructions_left c = sum_list (map (length \<circ> snd) c)"

lemma instructions_left_update:
  assumes "i < length c" "c ! i = (H, x # p)"
  shows "Suc (instructions_left (c[i := (H', p)])) = instructions_left c"
proof -
  have "map (length \<circ> snd) c ! i \<le> instructions_left c"
    unfolding instructions_left_def by (rule elem_le_sum_list) (simp add: assms)
  with assms show ?thesis by (simp add: instructions_left_def map_update sum_list_update)
qed

lemma lock_step_left: "lock_step c c' \<Longrightarrow> Suc (instructions_left c') = instructions_left c"
  by (induction rule: lock_step.induct) (simp_all add: instructions_left_update)

lemma lock_run_left: "(lock_step ^^ n) c c' \<Longrightarrow> n + instructions_left c' = instructions_left c"
  by (induction n arbitrary: c') (fastforce dest: lock_step_left)+

subsection \<open>The discipline\<close>

text \<open>
  Locks are taken in the order of their ranks.  Locks of the same rank may be held together only by the
  holder of the gate, in any order.
\<close>

fun disciplined :: "('l \<Rightarrow> nat) \<Rightarrow> 'l \<Rightarrow> 'l set \<Rightarrow> 'l program \<Rightarrow> bool" where
  "disciplined rank gate H [] \<longleftrightarrow> H = {}"
| "disciplined rank gate H (Acquire m # p) \<longleftrightarrow>
     m \<notin> H \<and> (\<forall>h\<in>H. rank h < rank m \<or> gate \<in> H \<and> rank h = rank m) \<and> disciplined rank gate (insert m H) p"
| "disciplined rank gate H (Release m # p) \<longleftrightarrow> m \<in> H \<and> disciplined rank gate (H - {m}) p"

lemma disciplined_append:
  "disciplined rank gate H p \<Longrightarrow> disciplined rank gate {} q \<Longrightarrow> disciplined rank gate H (p @ q)"
  by (induction rank gate H p rule: disciplined.induct) simp_all

lemma disciplined_concat: "(\<And>p. p \<in> set ps \<Longrightarrow> disciplined rank gate {} p) \<Longrightarrow> disciplined rank gate {} (concat ps)"
  by (induction ps) (simp_all add: disciplined_append)

text \<open>The invariant: every thread keeps the discipline and no lock is held twice.\<close>

definition lock_inv :: "('l \<Rightarrow> nat) \<Rightarrow> 'l \<Rightarrow> 'l thread list \<Rightarrow> bool" where
  "lock_inv rank gate c \<longleftrightarrow>
     (\<forall>t\<in>set c. disciplined rank gate (fst t) (snd t)) \<and>
     (\<forall>i<length c. \<forall>j<length c. i \<noteq> j \<longrightarrow> fst (c ! i) \<inter> fst (c ! j) = {})"

lemma lock_inv_thread:
  assumes "lock_inv rank gate c" "i < length c" "c ! i = (H, p)"
  shows "disciplined rank gate H p"
proof -
  have "(H, p) \<in> set c" using assms(2,3) by (metis nth_mem)
  with assms(1) have "disciplined rank gate (fst (H, p)) (snd (H, p))" unfolding lock_inv_def by blast
  then show ?thesis by simp
qed

lemma lock_inv_disjoint:
  assumes "lock_inv rank gate c" "i < length c" "c ! i = (H, p)" "j < length c" "j \<noteq> i"
  shows "H \<inter> fst (c ! j) = {}" "fst (c ! j) \<inter> H = {}"
  using assms unfolding lock_inv_def by (metis fst_conv)+

lemma lock_inv_update:
  assumes inv: "lock_inv rank gate c" and "i < length c" "disciplined rank gate H' p"
    and "\<And>j. j < length c \<Longrightarrow> j \<noteq> i \<Longrightarrow> H' \<inter> fst (c ! j) = {}"
  shows "lock_inv rank gate (c[i := (H', p)])"
  using assms unfolding lock_inv_def
  by (auto simp: nth_list_update dest: set_update_subset_insert [THEN subsetD])

lemma lock_inv_step:
  assumes "lock_step c c'" "lock_inv rank gate c"
  shows "lock_inv rank gate c'"
  using assms
proof (induction rule: lock_step.induct)
  case (acquire i c H m p)
  have "m \<notin> fst (c ! j)" if "j < length c" for j using acquire(3) that by simp
  then show ?case
    using lock_inv_thread [OF acquire(4,1,2)] lock_inv_disjoint(1) [OF acquire(4,1,2)]
    by (intro lock_inv_update acquire(1,4)) auto
next
  case (release i c H m p)
  then show ?case
    using lock_inv_thread [OF release(3,1,2)] lock_inv_disjoint(1) [OF release(3,1,2)]
    by (intro lock_inv_update release(1,3)) auto
qed

lemma lock_inv_run: "lock_step\<^sup>*\<^sup>* c c' \<Longrightarrow> lock_inv rank gate c \<Longrightarrow> lock_inv rank gate c'"
  by (induction rule: rtranclp_induct) (simp_all add: lock_inv_step)

subsection \<open>No deadlock\<close>

text \<open>The interface: sections that keep the discipline for some ranks and a gate.\<close>

locale gated_sections =
  fixes rank :: "'l \<Rightarrow> nat" and gate :: 'l and prog :: "'s \<Rightarrow> 'l program"
  assumes section_disciplined: "disciplined rank gate {} (prog s)"
begin

lemma start_inv: "lock_inv rank gate (map (\<lambda>ss. ({}, concat (map prog ss))) works)"
  by (auto simp: lock_inv_def section_disciplined intro!: disciplined_concat)

text \<open>In a state without a step, the thread that waits for a lock of highest rank waits for a thread which cannot exist.\<close>

lemma not_stuck:
  assumes inv: "lock_inv rank gate c" and stuck: "\<And>c'. \<not> lock_step c c'"
  shows "finished c"
proof -
  define waits where "waits = {(i, m) | i m H p. i < length c \<and> c ! i = (H, Acquire m # p)}"
  have cases: "c ! i = ({}, []) \<or> (\<exists>m. (i, m) \<in> waits)" if "i < length c" for i
  proof (cases "c ! i")
    case (Pair H p)
    note d = lock_inv_thread [OF inv that this]
    show ?thesis
    proof (cases p)
      case Nil
      with d Pair show ?thesis by simp
    next
      case (Cons x q)
      with Pair that stuck lock_step.release [OF that] show ?thesis by (cases x) (auto simp: waits_def)
    qed
  qed
  have held: "\<exists>j m'. (j, m') \<in> waits \<and> m \<in> fst (c ! j)" if "(i, m) \<in> waits" for i m
  proof -
    from that obtain H p where i: "i < length c" "c ! i = (H, Acquire m # p)" by (auto simp: waits_def)
    with stuck lock_step.acquire [OF i] obtain t where "t \<in> set c" "m \<in> fst t" by blast
    then obtain j where "j < length c" "m \<in> fst (c ! j)" by (metis in_set_conv_nth)
    with cases [of j] show ?thesis by (metis empty_iff fst_conv)
  qed
  have order: "h \<noteq> m \<and> (rank h < rank m \<or> gate \<in> fst (c ! j) \<and> rank h = rank m)" if "(j, m) \<in> waits" "h \<in> fst (c ! j)" for j m h
  proof -
    from that(1) obtain H p where j: "j < length c" "c ! j = (H, Acquire m # p)" by (auto simp: waits_def)
    from lock_inv_thread [OF inv this] j that(2) show ?thesis by auto
  qed
  show ?thesis
  proof (cases "waits = {}")
    case True
    with cases have "c ! i = ({}, [])" if "i < length c" for i using that by blast
    then show ?thesis by (auto simp: finished_def in_set_conv_nth)
  next
    case False
    have "waits \<subseteq> (\<lambda>i. (i, case hd (snd (c ! i)) of Acquire m \<Rightarrow> m)) ` {..<length c}"
      by (force simp: waits_def)
    then have "finite waits" by (rule finite_subset) simp
    with False obtain i m where top: "(i, m) \<in> waits" "\<And>j m'. (j, m') \<in> waits \<Longrightarrow> rank m' \<le> rank m"
      using Max_in [of "(\<lambda>(i, m). rank m) ` waits"] Max_ge [of "(\<lambda>(i, m). rank m) ` waits"] by fastforce
    from held [OF top(1)] obtain j mj where j: "(j, mj) \<in> waits" "m \<in> fst (c ! j)" by blast
    from order [OF this] top(2) [OF j(1)] have gj: "gate \<in> fst (c ! j)" "rank mj = rank m" by auto
    from held [OF j(1)] obtain k mk where k: "(k, mk) \<in> waits" "mj \<in> fst (c ! k)" by blast
    from order [OF this] top(2) [OF k(1)] gj have gk: "gate \<in> fst (c ! k)" by auto
    have "j < length c" "k < length c" using j k by (auto simp: waits_def)
    with inv gj(1) gk have "j = k" unfolding lock_inv_def by blast
    with order [OF j(1)] k(2) show ?thesis by blast
  qed
qed

lemma can_finish:
  assumes "lock_inv rank gate c"
  shows "\<exists>c'. lock_step\<^sup>*\<^sup>* c c' \<and> finished c'"
  using assms
proof (induction "instructions_left c" arbitrary: c rule: less_induct)
  case less
  show ?case
  proof (cases "\<exists>c'. lock_step c c'")
    case True
    then obtain c' where c': "lock_step c c'" by blast
    with less(1) [of c'] lock_step_left [OF c'] lock_inv_step [OF c' less(2)]
    obtain c'' where "lock_step\<^sup>*\<^sup>* c' c''" "finished c''" by auto
    with c' show ?thesis by (meson converse_rtranclp_into_rtranclp)
  next
    case False
    with not_stuck [OF less(2)] show ?thesis by blast
  qed
qed

end

subsection \<open>The order of the daemon\<close>

text \<open>The account comes first, the portfolio is the gate of market data, risk and hedge, and the rest comes last.\<close>

fun daemon_rank :: "mutex \<Rightarrow> nat" where
  "daemon_rank AccountLock = 0"
| "daemon_rank PortfolioLock = 1"
| "daemon_rank HedgeLock = 2"
| "daemon_rank MarketLock = 2"
| "daemon_rank RiskLock = 2"
| "daemon_rank _ = 3"

lemmas section_defs = halt_check_locks_def fill_rebalance_locks_def greek_refresh_locks_def risk_check_locks_def
  hedge_forwards_locks_def hedge_actions_locks_def account_payload_locks_def snapshot_build_locks_def
  raw_margin_locks_def depth_target_locks_def nested_def

interpretation daemon: gated_sections daemon_rank PortfolioLock locks_of
proof
  fix s
  show "disciplined daemon_rank PortfolioLock {} (locks_of s)" by (cases s) (simp_all add: section_defs)
qed

text \<open>
  \<^bold>\<open>C8.\<close> However many tasks of the daemon run, whatever critical sections of the mutexes of \<^verbatim>\<open>Runtime\<close> each of
  them goes through and however they are scheduled: as long as a task is not done some task can proceed, all tasks can be brought
  to their ends, and every schedule that is not cut short ends, after exactly as many steps as there are
  acquisitions and releases, with all tasks done and all locks free.
\<close>

theorem daemon_never_deadlocks:
  assumes "(lock_step ^^ n) (map (\<lambda>ss. ({}, task_of ss)) works) c"
  shows "(finished c \<or> (\<exists>c'. lock_step c c')) \<and>
    (\<exists>c'. lock_step\<^sup>*\<^sup>* c c' \<and> finished c') \<and>
    n \<le> sum_list (map (length \<circ> task_of) works) \<and>
    (finished c \<longleftrightarrow> n = sum_list (map (length \<circ> task_of) works))"
proof -
  let ?c0 = "map (\<lambda>ss. ({}, task_of ss)) works"
  have start: "lock_inv daemon_rank PortfolioLock ?c0"
    using daemon.start_inv [of works] by (simp add: task_of_def)
  have inv: "lock_inv daemon_rank PortfolioLock c"
    using lock_inv_run [OF _ start] relpowp_imp_rtranclp [OF assms] by blast
  have left: "n + instructions_left c = sum_list (map (length \<circ> task_of) works)"
    using lock_run_left [OF assms] by (simp add: instructions_left_def comp_def)
  have none: "instructions_left c = 0 \<longleftrightarrow> finished c"
  proof
    assume "instructions_left c = 0"
    then have "snd t = []" if "t \<in> set c" for t using that by (auto simp: instructions_left_def)
    moreover have "disciplined daemon_rank PortfolioLock (fst t) (snd t)" if "t \<in> set c" for t
      using inv that by (simp add: lock_inv_def)
    ultimately show "finished c" unfolding finished_def by (metis disciplined.simps(1) prod.collapse)
  qed (auto simp: instructions_left_def finished_def)
  show ?thesis
    using daemon.not_stuck [OF inv] daemon.can_finish [OF inv] left none by auto
qed

theorem daemon_never_deadlocks_witness:
  "\<exists>c'. lock_step [({PortfolioLock, MarketLock}, drop 2 halt_check_locks), ({}, snapshot_build_locks)] c'"
proof -
  let ?c0 = "map (\<lambda>ss. ({}, task_of ss)) [[HaltCheck], [SnapshotBuild]]"
  let ?c1 = "[({PortfolioLock}, drop 1 halt_check_locks), ({}, snapshot_build_locks)]"
  let ?c2 = "[({PortfolioLock, MarketLock}, drop 2 halt_check_locks), ({}, snapshot_build_locks)]"
  have "lock_step ?c0 ?c1"
    using lock_step.acquire [of 0 ?c0] by (simp add: task_of_def section_defs)
  moreover have "lock_step ?c1 ?c2"
    using lock_step.acquire [of 0 ?c1] by (simp add: section_defs insert_commute)
  ultimately have "(lock_step ^^ 2) ?c0 ?c2" by (auto simp: numeral_2_eq_2)
  from daemon_never_deadlocks [OF this] show ?thesis by (simp add: finished_def)
qed

end
