(* ===== verification/Broker_Wire.thy ===== *)
theory Broker_Wire
  imports Trader_Kills Risk
begin

section \<open>Messages between the broker and the trader\<close>

text \<open>
  Both processes declare their messages as structs for \<^verbatim>\<open>serde\<close>: the broker in
  \<^verbatim>\<open>corsair_broker/src/ipc.rs\<close>, the trader in \<^verbatim>\<open>corsair_trader/src/messages.rs\<close>.  On the wire a struct is
  a MessagePack map from field names to values.  A struct that is written is modelled by the list of its
  named values, a struct that is read by a function from such a list that follows the declaration:
  a field is looked up under its name, its \<^verbatim>\<open>rename\<close> or its \<^verbatim>\<open>alias\<close>, a repeated field is an error, a missing
  one is an error unless the field has a \<^verbatim>\<open>default\<close> or is an option with one, other fields are ignored.
\<close>

type_synonym named = "(string \<times> mp_val) list"

subsection \<open>Reading fields\<close>

datatype 'a field = Missing | Invalid | Value 'a

definition field :: "string list \<Rightarrow> (mp_val \<Rightarrow> 'a option) \<Rightarrow> named \<Rightarrow> 'a field" where
  "field names conv ps =
     (case filter (\<lambda>(k, _). k \<in> set names) ps of
        [] \<Rightarrow> Missing
      | [(_, v)] \<Rightarrow> (case conv v of Some x \<Rightarrow> Value x | None \<Rightarrow> Invalid)
      | _ \<Rightarrow> Invalid)"

definition required :: "'a field \<Rightarrow> 'a option" where
  "required f = (case f of Value x \<Rightarrow> Some x | _ \<Rightarrow> None)"

definition defaulted :: "'a \<Rightarrow> 'a field \<Rightarrow> 'a option" where
  "defaulted d f = (case f of Value x \<Rightarrow> Some x | Missing \<Rightarrow> Some d | Invalid \<Rightarrow> None)"

text \<open>The conversions of \<^verbatim>\<open>serde\<close>: integers are accepted when they fit, a float also from an integer.\<close>

fun int_of_val :: "mp_val \<Rightarrow> int option" where
  "int_of_val (MU32 v) = Some (uint v)"
| "int_of_val (MU64 v) = Some (uint v)"
| "int_of_val (MI32 v) = Some (sint v)"
| "int_of_val (MI64 v) = Some (sint v)"
| "int_of_val _ = None"

definition in_range :: "int \<Rightarrow> int \<Rightarrow> mp_val \<Rightarrow> int option" where
  "in_range lo hi v = (case int_of_val v of Some k \<Rightarrow> if lo \<le> k \<and> k < hi then Some k else None | None \<Rightarrow> None)"

definition de_u32 :: "mp_val \<Rightarrow> u32 option" where "de_u32 v = map_option word_of_int (in_range 0 (2 ^ 32) v)"
definition de_u64 :: "mp_val \<Rightarrow> u64 option" where "de_u64 v = map_option word_of_int (in_range 0 (2 ^ 64) v)"
definition de_i32 :: "mp_val \<Rightarrow> i32 option" where "de_i32 v = map_option word_of_int (in_range (- (2 ^ 31)) (2 ^ 31) v)"
definition de_i64 :: "mp_val \<Rightarrow> i64 option" where "de_i64 v = map_option word_of_int (in_range (- (2 ^ 63)) (2 ^ 63) v)"

fun de_str :: "mp_val \<Rightarrow> string option" where
  "de_str (MStr s) = Some s"
| "de_str _ = None"

fun de_f64 :: "mp_val \<Rightarrow> f64 option" where
  "de_f64 (MF64 x) = Some x"
| "de_f64 v = map_option f64_of_int (int_of_val v)"

definition de_opt :: "(mp_val \<Rightarrow> 'a option) \<Rightarrow> mp_val \<Rightarrow> 'a option option" where
  "de_opt conv v = (if v = MNil then Some None else map_option Some (conv v))"

subsection \<open>Commands\<close>

record place_cmd =
  pc_strike :: f64
  pc_expiry :: string
  pc_right :: string
  pc_side :: string
  pc_qty :: i32
  pc_price :: f64
  pc_client_ref :: "string option"
  pc_order_type :: string
  pc_tif :: string
  pc_gtd_seconds :: "u32 option"
  pc_ts_ns :: "u64 option"
  pc_trigger :: "u64 option"

record modify_cmd =
  mc_order_id :: u64
  mc_price :: "f64 option"
  mc_qty :: "u32 option"
  mc_gtd_seconds :: "u32 option"
  mc_ts_ns :: "u64 option"
  mc_trigger :: "u64 option"

definition place_cmd_of :: "named \<Rightarrow> place_cmd option" where
  "place_cmd_of ps =
     do { _ \<leftarrow> required (field [''type''] de_str ps);
          strike \<leftarrow> required (field [''strike''] de_f64 ps);
          expiry \<leftarrow> required (field [''expiry''] de_str ps);
          rt \<leftarrow> required (field [''right''] de_str ps);
          sd \<leftarrow> required (field [''side''] de_str ps);
          qty \<leftarrow> required (field [''qty''] de_i32 ps);
          price \<leftarrow> required (field [''price''] de_f64 ps);
          cref \<leftarrow> defaulted None (field [''client_order_ref'', ''orderRef''] (de_opt de_str) ps);
          otype \<leftarrow> defaulted ''limit'' (field [''order_type''] de_str ps);
          tif \<leftarrow> defaulted ''GTD'' (field [''tif''] de_str ps);
          gtd \<leftarrow> defaulted None (field [''gtd_seconds''] (de_opt de_u32) ps);
          ts \<leftarrow> defaulted None (field [''ts_ns''] (de_opt de_u64) ps);
          trig \<leftarrow> defaulted None (field [''triggering_tick_broker_recv_ns''] (de_opt de_u64) ps);
          Some \<lparr>pc_strike = strike, pc_expiry = expiry, pc_right = rt, pc_side = sd, pc_qty = qty,
            pc_price = price, pc_client_ref = cref, pc_order_type = otype, pc_tif = tif,
            pc_gtd_seconds = gtd, pc_ts_ns = ts, pc_trigger = trig\<rparr> }"

definition cancel_cmd_of :: "named \<Rightarrow> u64 option" where
  "cancel_cmd_of ps =
     do { _ \<leftarrow> required (field [''type''] de_str ps); required (field [''order_id''] de_u64 ps) }"

definition modify_cmd_of :: "named \<Rightarrow> modify_cmd option" where
  "modify_cmd_of ps =
     do { _ \<leftarrow> required (field [''type''] de_str ps);
          oid \<leftarrow> required (field [''order_id''] de_u64 ps);
          price \<leftarrow> defaulted None (field [''price''] (de_opt de_f64) ps);
          qty \<leftarrow> defaulted None (field [''qty''] (de_opt de_u32) ps);
          gtd \<leftarrow> defaulted None (field [''gtd_seconds''] (de_opt de_u32) ps);
          ts \<leftarrow> defaulted None (field [''ts_ns''] (de_opt de_u64) ps);
          trig \<leftarrow> defaulted None (field [''triggering_tick_broker_recv_ns''] (de_opt de_u64) ps);
          Some \<lparr>mc_order_id = oid, mc_price = price, mc_qty = qty, mc_gtd_seconds = gtd, mc_ts_ns = ts,
            mc_trigger = trig\<rparr> }"

subsection \<open>Events\<close>

definition place_ack_event :: "u64 \<Rightarrow> place_cmd \<Rightarrow> u64 \<Rightarrow> named" where
  "place_ack_event oid cmd now =
     [(''type'', MStr ''place_ack''), (''orderId'', MU64 oid), (''strike'', MF64 (pc_strike cmd)),
      (''expiry'', MStr (pc_expiry cmd)), (''right'', MStr (pc_right cmd)), (''side'', MStr (pc_side cmd)),
      (''price'', MF64 (pc_price cmd)), (''ts_ns'', MU64 now)]"

text \<open>\<^verbatim>\<open>format!("{:?}")\<close> of an order status.\<close>

fun status_name :: "order_status \<Rightarrow> string" where
  "status_name PendingSubmit = ''PendingSubmit''"
| "status_name Submitted = ''Submitted''"
| "status_name Filled = ''Filled''"
| "status_name Cancelled = ''Cancelled''"
| "status_name RejectedStatus = ''Rejected''"
| "status_name PendingCancel = ''PendingCancel''"
| "status_name Inactive = ''Inactive''"

definition order_status_event ::
  "u64 \<Rightarrow> order_status \<Rightarrow> u32 \<Rightarrow> u32 \<Rightarrow> f64 \<Rightarrow> f64 option \<Rightarrow> u64 \<Rightarrow> string option \<Rightarrow> named" where
  "order_status_event oid st filled remaining avg last_px ts reject =
     [(''type'', MStr ''order_status''), (''order_id'', MU64 oid), (''status'', MStr (status_name st)),
      (''filled_qty'', MU32 filled), (''remaining_qty'', MU32 remaining), (''avg_fill_price'', MF64 avg),
      (''last_fill_price'', nil_or MF64 last_px), (''timestamp_ns'', MU64 ts), (''reject_reason'', nil_or MStr reject)]"

text \<open>\<^verbatim>\<open>format!("{:?}", source).to_lowercase()\<close>: the names of the variants run together.\<close>

fun source_name :: "kill_source \<Rightarrow> string" where
  "source_name RiskSource = ''risk''"
| "source_name Disconnect = ''disconnect''"
| "source_name DailyHalt = ''dailyhalt''"
| "source_name Operational = ''operational''"
| "source_name TraderSilent = ''tradersilent''"
| "source_name (Induced inner) = ''induced('' @ source_name inner @ '')''"

fun kill_type_name :: "kill_type \<Rightarrow> string" where
  "kill_type_name Halt = ''halt''"
| "kill_type_name Flatten = ''flatten''"
| "kill_type_name HedgeFlat = ''hedgeflat''"

definition kill_event_msg :: "(kill_reason \<Rightarrow> string) \<Rightarrow> kill_event \<Rightarrow> named" where
  "kill_event_msg text_of ev =
     [(''type'', MStr ''kill''), (''timestamp_ns'', MU64 (timestamp_ns ev)), (''source'', MStr (source_name (source ev))),
      (''reason'', MStr (text_of (reason ev))), (''kill_type'', MStr (kill_type_name (kill_kind ev)))]"

definition underlying_tick_event :: "f64 \<Rightarrow> u64 \<Rightarrow> named" where
  "underlying_tick_event price ts =
     [(''type'', MStr ''underlying_tick''), (''price'', MF64 price), (''ts_ns'', MU64 ts)]"

record risk_state_event =
  re_ts_ns :: u64
  re_margin_usd :: f64
  re_margin_pct :: f64
  re_options_delta :: f64
  re_hedge_delta :: i64
  re_effective_delta :: f64
  re_theta :: f64
  re_vega :: f64
  re_gamma :: f64
  re_total_contracts :: i64
  re_n_positions :: u32

definition risk_state_named :: "risk_state_event \<Rightarrow> named" where
  "risk_state_named r =
     [(''type'', MStr ''risk_state''), (''ts_ns'', MU64 (re_ts_ns r)), (''margin_usd'', MF64 (re_margin_usd r)),
      (''margin_pct'', MF64 (re_margin_pct r)), (''options_delta'', MF64 (re_options_delta r)),
      (''hedge_delta'', MI64 (re_hedge_delta r)), (''effective_delta'', MF64 (re_effective_delta r)),
      (''theta'', MF64 (re_theta r)), (''vega'', MF64 (re_vega r)), (''gamma'', MF64 (re_gamma r)),
      (''total_contracts'', MI64 (re_total_contracts r)), (''n_positions'', MU32 (re_n_positions r))]"

subsection \<open>What the trader reads\<close>

definition place_ack_of :: "named \<Rightarrow> place_ack_msg option" where
  "place_ack_of ps =
     do { oid \<leftarrow> required (field [''orderId''] de_i64 ps);
          strike \<leftarrow> required (field [''strike''] de_f64 ps);
          expiry \<leftarrow> required (field [''expiry''] de_str ps);
          rt \<leftarrow> required (field [''right''] de_str ps);
          sd \<leftarrow> required (field [''side''] de_str ps);
          price \<leftarrow> required (field [''price''] de_f64 ps);
          Some \<lparr>pa_order_id = oid, pa_strike = strike, pa_expiry = expiry, pa_right = rt, pa_side = sd,
            pa_price = price\<rparr> }"

definition order_ack_of :: "named \<Rightarrow> order_ack_msg option" where
  "order_ack_of ps =
     do { oid \<leftarrow> defaulted None (field [''order_id'', ''orderId''] (de_opt de_i64) ps);
          st \<leftarrow> defaulted None (field [''status''] (de_opt de_str) ps);
          Some \<lparr>oa_order_id = oid, oa_status = st\<rparr> }"

definition kill_msg_of :: "named \<Rightarrow> kill_msg option" where
  "kill_msg_of ps =
     do { src \<leftarrow> defaulted None (field [''source''] (de_opt de_str) ps);
          why \<leftarrow> defaulted None (field [''reason''] (de_opt de_str) ps);
          Some \<lparr>km_source = src, km_reason = why\<rparr> }"

definition underlying_of :: "named \<Rightarrow> f64 option" where
  "underlying_of ps = required (field [''price''] de_f64 ps)"

definition risk_state_of :: "named \<Rightarrow> risk_state_msg option" where
  "risk_state_of ps =
     do { margin \<leftarrow> required (field [''margin_pct''] de_f64 ps);
          hdelta \<leftarrow> required (field [''hedge_delta''] de_i64 ps);
          ed \<leftarrow> required (field [''effective_delta''] de_f64 ps);
          th \<leftarrow> required (field [''theta''] de_f64 ps);
          vg \<leftarrow> required (field [''vega''] de_f64 ps);
          Some \<lparr>rm_margin_pct = margin, rm_hedge_delta = hdelta, rm_effective_delta = ed, rm_theta = th,
            rm_vega = vg\<rparr> }"

subsection \<open>Commands arrive\<close>

lemma sint_nonneg_iff: "0 \<le> sint (w :: u64) \<longleftrightarrow> uint w < 2 ^ 63"
proof -
  have s: "sint w = (uint w + 2 ^ 63) mod 2 ^ 64 - 2 ^ 63"
    by (simp add: sint_uint signed_take_bit_eq_take_bit_shift take_bit_eq_mod)
  show ?thesis
  proof (cases "uint w < 2 ^ 63")
    case True
    then have "(uint w + 2 ^ 63) mod 2 ^ 64 = uint w + 2 ^ 63" by (intro mod_pos_pos_trivial) auto
    with s True show ?thesis by simp
  next
    case False
    have "(uint w + 2 ^ 63) mod 2 ^ 64 = (uint w + 2 ^ 63 - 2 ^ 64) mod 2 ^ 64" by (simp only: minus_mod_self2)
    also have "\<dots> = uint w + 2 ^ 63 - 2 ^ 64"
      using False uint_lt2p [of w] by (intro mod_pos_pos_trivial) auto
    finally show ?thesis using s False uint_lt2p [of w] by simp
  qed
qed

lemma de_words [simp]:
  "de_u32 (MU32 a) = Some a" "de_u64 (MU64 b) = Some b" "de_i32 (MI32 c) = Some c" "de_i64 (MI64 d) = Some d"
  "de_u64 (MI64 d) = (if 0 \<le> sint d then Some d else None)"
  "de_i64 (MU64 b) = (if 0 \<le> sint b then Some b else None)"
proof -
  show "de_u32 (MU32 a) = Some a" using uint_lt2p [of a] by (simp add: de_u32_def in_range_def)
  show "de_u64 (MU64 b) = Some b" using uint_lt2p [of b] by (simp add: de_u64_def in_range_def)
  show "de_i32 (MI32 c) = Some c" using i32_range [of c] by (simp add: de_i32_def in_range_def)
  have d: "- (2 ^ 63) \<le> sint d" "sint d < 2 ^ 63" using sint_ge [of d] sint_lt [of d] by simp_all
  then show "de_i64 (MI64 d) = Some d" by (simp add: de_i64_def in_range_def)
  show "de_u64 (MI64 d) = (if 0 \<le> sint d then Some d else None)"
    using d by (simp add: de_u64_def in_range_def)
  show "de_i64 (MU64 b) = (if 0 \<le> sint b then Some b else None)"
    using order_trans [OF _ uint_ge_0, of "- (2 ^ 63)" b] by (simp add: de_i64_def in_range_def sint_nonneg_iff)
qed

lemma de_opt_simps [simp]:
  "de_opt conv MNil = Some None" "v \<noteq> MNil \<Longrightarrow> de_opt conv v = map_option Some (conv v)"
  by (simp_all add: de_opt_def)

text \<open>What the parameter \<open>unpack\<close> is assumed to do: to give back the fields of a well-formed map.\<close>

definition unpacks :: "(bytes \<Rightarrow> named option) \<Rightarrow> named \<Rightarrow> bool" where
  "unpacks unpack ps \<longleftrightarrow> (well_formed_map ps \<longrightarrow> unpack (enc_map ps) = Some ps)"

lemmas field_defs = field_def required_def defaulted_def

lemma commands_read:
  "place_cmd_of (place_pairs p) = Some \<lparr>pc_strike = pm_strike p, pc_expiry = pm_expiry p, pc_right = pm_right p,
     pc_side = pm_side p, pc_qty = pm_qty p, pc_price = pm_price p, pc_client_ref = Some (pm_order_ref p),
     pc_order_type = ''limit'', pc_tif = ''GTD'', pc_gtd_seconds = Some (pm_gtd_seconds p),
     pc_ts_ns = Some (pm_ts_ns p), pc_trigger = pm_trigger p\<rparr>"
  "modify_cmd_of (modify_pairs m) = (if 0 \<le> sint (mm_order_id m) then
     Some \<lparr>mc_order_id = mm_order_id m, mc_price = Some (mm_price m), mc_qty = None,
       mc_gtd_seconds = Some (mm_gtd_seconds m), mc_ts_ns = Some (mm_ts_ns m), mc_trigger = mm_trigger m\<rparr> else None)"
  "cancel_cmd_of (cancel_pairs c) = None"
proof -
  show "place_cmd_of (place_pairs p) = Some \<lparr>pc_strike = pm_strike p, pc_expiry = pm_expiry p, pc_right = pm_right p,
     pc_side = pm_side p, pc_qty = pm_qty p, pc_price = pm_price p, pc_client_ref = Some (pm_order_ref p),
     pc_order_type = ''limit'', pc_tif = ''GTD'', pc_gtd_seconds = Some (pm_gtd_seconds p),
     pc_ts_ns = Some (pm_ts_ns p), pc_trigger = pm_trigger p\<rparr>"
    by (cases "pm_trigger p") (simp_all add: place_cmd_of_def place_pairs_def some_pair_def field_defs)
  show "modify_cmd_of (modify_pairs m) = (if 0 \<le> sint (mm_order_id m) then
     Some \<lparr>mc_order_id = mm_order_id m, mc_price = Some (mm_price m), mc_qty = None,
       mc_gtd_seconds = Some (mm_gtd_seconds m), mc_ts_ns = Some (mm_ts_ns m), mc_trigger = mm_trigger m\<rparr> else None)"
    by (cases "mm_trigger m") (simp_all add: modify_cmd_of_def modify_pairs_def some_pair_def field_defs)
  show "cancel_cmd_of (cancel_pairs c) = None"
    by (simp add: cancel_cmd_of_def cancel_pairs_def field_defs)
qed

lemma events_read:
  "place_ack_of (place_ack_event oid cmd now) = (if 0 \<le> sint oid then Some \<lparr>pa_order_id = oid, pa_strike = pc_strike cmd,
     pa_expiry = pc_expiry cmd, pa_right = pc_right cmd, pa_side = pc_side cmd, pa_price = pc_price cmd\<rparr> else None)"
  "order_ack_of (order_status_event oid st fq rq avg lp ts why) = (if 0 \<le> sint oid then
     Some \<lparr>oa_order_id = Some oid, oa_status = Some (status_name st)\<rparr> else None)"
  "kill_msg_of (kill_event_msg text_of ev) = Some \<lparr>km_source = Some (source_name (source ev)),
     km_reason = Some (text_of (reason ev))\<rparr>"
  "underlying_of (underlying_tick_event px t) = Some px"
  "risk_state_of (risk_state_named r) = Some \<lparr>rm_margin_pct = re_margin_pct r, rm_hedge_delta = re_hedge_delta r,
     rm_effective_delta = re_effective_delta r, rm_theta = re_theta r, rm_vega = re_vega r\<rparr>"
  by (simp_all add: place_ack_of_def place_ack_event_def order_ack_of_def order_status_event_def kill_msg_of_def
      kill_event_msg_def underlying_of_def underlying_tick_event_def risk_state_of_def risk_state_named_def field_defs)


text \<open>
  \<^bold>\<open>C33.\<close> Every place command of the trader is read by the broker with exactly its fields, as a limit order
  good till a date, and every modify command of a non-negative order id likewise.  No cancel command is:
  the trader sends the order id under the name \<^verbatim>\<open>orderId\<close>, the broker asks for \<^verbatim>\<open>order_id\<close> and has no alias
  for it, so every cancel of the trader is dropped as malformed.
\<close>

theorem trader_commands_understood:
  assumes "unpacks unpack (place_pairs p)" "unpacks unpack (modify_pairs m)" "unpacks unpack (cancel_pairs c)"
    and "list_all (\<lambda>s. length s < 2 ^ 32) [pm_type p, pm_expiry p, pm_right p, pm_side p, pm_order_ref p, mm_type m, cm_type c]"
  shows "Option.bind (unpack (encode_place_into [] p)) place_cmd_of =
      Some \<lparr>pc_strike = pm_strike p, pc_expiry = pm_expiry p, pc_right = pm_right p, pc_side = pm_side p,
        pc_qty = pm_qty p, pc_price = pm_price p, pc_client_ref = Some (pm_order_ref p), pc_order_type = ''limit'',
        pc_tif = ''GTD'', pc_gtd_seconds = Some (pm_gtd_seconds p), pc_ts_ns = Some (pm_ts_ns p),
        pc_trigger = pm_trigger p\<rparr> \<and>
    Option.bind (unpack (encode_modify_into [] m)) modify_cmd_of =
      (if 0 \<le> sint (mm_order_id m)
       then Some \<lparr>mc_order_id = mm_order_id m, mc_price = Some (mm_price m), mc_qty = None,
         mc_gtd_seconds = Some (mm_gtd_seconds m), mc_ts_ns = Some (mm_ts_ns m), mc_trigger = mm_trigger m\<rparr>
       else None) \<and>
    Option.bind (unpack (encode_cancel_into [] c)) cancel_cmd_of = None"
proof -
  have "well_formed_map (place_pairs p)" "well_formed_map (modify_pairs m)" "well_formed_map (cancel_pairs c)"
    using assms(4) by (simp_all add: command_maps_well_formed)
  with assms(1-3) have "unpack (encode_place_into [] p) = Some (place_pairs p)"
    "unpack (encode_modify_into [] m) = Some (modify_pairs m)" "unpack (encode_cancel_into [] c) = Some (cancel_pairs c)"
    by (simp_all add: encode_enc_map unpacks_def)
  then show ?thesis by (simp add: commands_read)
qed

definition demo_modify :: modify_order_msg where
  "demo_modify = \<lparr>mm_type = ''modify_order'', mm_ts_ns = 1, mm_order_id = 17, mm_price = F64 3, mm_gtd_seconds = 30,
     mm_trigger = None\<rparr>"

definition demo_cancel :: cancel_order_msg where
  "demo_cancel = \<lparr>cm_type = ''cancel_order'', cm_ts_ns = 1, cm_order_id = 17\<rparr>"

text \<open>A reader of these three maps.\<close>

definition demo_unpack :: "bytes \<Rightarrow> named option" where
  "demo_unpack body =
     find (\<lambda>ps. enc_map ps = body) [place_pairs demo_place, modify_pairs demo_modify, cancel_pairs demo_cancel]"

lemma demo_unpack_reads:
  "unpacks demo_unpack (place_pairs demo_place)" "unpacks demo_unpack (modify_pairs demo_modify)"
  "unpacks demo_unpack (cancel_pairs demo_cancel)"
  by (simp_all add: unpacks_def demo_unpack_def enc_map_def place_pairs_def modify_pairs_def cancel_pairs_def
      some_pair_def demo_place_def demo_modify_def demo_cancel_def)

theorem trader_commands_understood_witness:
  "Option.bind (demo_unpack (encode_modify_into [] demo_modify)) modify_cmd_of =
     Some \<lparr>mc_order_id = 17, mc_price = Some (F64 3), mc_qty = None, mc_gtd_seconds = Some 30, mc_ts_ns = Some 1,
       mc_trigger = None\<rparr> \<and>
   Option.bind (demo_unpack (encode_cancel_into [] demo_cancel)) cancel_cmd_of = None"
  using trader_commands_understood [OF demo_unpack_reads]
  by (simp add: demo_place_def demo_modify_def demo_cancel_def)

subsection \<open>The way back\<close>

lemma map_of_update_simps:
  "map_of (AList.update k v al) k = Some v" "k' \<noteq> k \<Longrightarrow> map_of (AList.update k v al) k' = map_of al k'"
  by (simp_all add: update_conv')

text \<open>
  The loop of a placed order closes.  The broker reads the command of the trader, and from the
  acknowledgement it publishes for it the trader records the order id at exactly the key it used when it
  sent the order, and leaves every other order alone; the order status the broker later publishes for that
  id makes the trader forget the order if and only if the status is one the broker treats as terminal.
\<close>

theorem place_ack_closes_loop:
  assumes "tk_right (sc_tick x) = c # cs" "sc_right x = to_ascii_uppercase c" "sc_expiry x = tk_expiry (sc_tick x)"
    and "0 \<le> sint oid"
  shows "\<exists>cmd ack st'. place_cmd_of (place_pairs (place_msg x s px)) = Some cmd \<and>
    place_ack_of (place_ack_event oid cmd now) = Some ack \<and>
    order_ack_of (order_status_event oid st fq rq avg lp ts why) = Some st' \<and>
    (let w1 = on_place_ack mns ack w; w2 = on_order_status st' w1 in
       (\<exists>r. map_of (our_orders (tr_shared w1)) (send_key x s) = Some r \<and> order_id r = Some oid) \<and>
       orderid_to_key w1 oid = Some (send_key x s) \<and>
       (\<forall>k. k \<noteq> send_key x s \<longrightarrow> map_of (our_orders (tr_shared w1)) k = map_of (our_orders (tr_shared w)) k) \<and>
       (if st \<in> {Filled, Cancelled, RejectedStatus, Inactive}
        then map_of (our_orders (tr_shared w2)) (send_key x s) = None \<and> orderid_to_key w2 oid = None
        else w2 = w1))"
proof -
  obtain cmd where cmd: "place_cmd_of (place_pairs (place_msg x s px)) = Some cmd" "pc_strike cmd = tk_strike (sc_tick x)"
    "pc_expiry cmd = tk_expiry (sc_tick x)" "pc_right cmd = c # cs" "pc_side cmd = side_as_str s" "pc_price cmd = px"
    using assms(1) by (simp add: commands_read place_msg_def)
  define ack where "ack = \<lparr>pa_order_id = oid, pa_strike = pc_strike cmd, pa_expiry = pc_expiry cmd,
    pa_right = pc_right cmd, pa_side = pc_side cmd, pa_price = pc_price cmd\<rparr>"
  define w1 where "w1 = on_place_ack mns ack w"
  define st' where "st' = \<lparr>oa_order_id = Some oid, oa_status = Some (status_name st)\<rparr>"
  have key: "send_key x s = (trader_strike_key (pc_strike cmd), pc_expiry cmd, to_ascii_uppercase c, side_as_char s)"
    by (simp add: send_key_def cmd assms)
  define r where "r = (case map_of (our_orders (tr_shared w)) (send_key x s) of
      Some ord \<Rightarrow> ord\<lparr>order_id := Some oid\<rparr>
    | None \<Rightarrow> \<lparr>oo_price = pa_price ack, place_monotonic_ns = mns, order_id = Some oid\<rparr>)"
  have r: "order_id r = Some oid" "w1 = (map_orders (AList.update (send_key x s) r) w)
      \<lparr>orderid_to_key := (orderid_to_key w)(oid \<mapsto> send_key x s)\<rparr>"
  proof -
    show "order_id r = Some oid" by (simp add: r_def split: option.split)
    have "pa_side ack = side_as_str s" "pa_right ack = c # cs" "pa_order_id ack = oid"
      "(trader_strike_key (pa_strike ack), pa_expiry ack, to_ascii_uppercase c, side_as_char s) = send_key x s"
      by (simp_all add: ack_def cmd key)
    then show "w1 = (map_orders (AList.update (send_key x s) r) w)
        \<lparr>orderid_to_key := (orderid_to_key w)(oid \<mapsto> send_key x s)\<rparr>"
      unfolding w1_def on_place_ack_def r_def by (cases s; cases "map_of (our_orders (tr_shared w)) (send_key x s)") (simp_all add: Let_def)
  qed
  have a: "map_of (our_orders (tr_shared w1)) (send_key x s) = Some r" "orderid_to_key w1 oid = Some (send_key x s)"
    "\<forall>k. k \<noteq> send_key x s \<longrightarrow> map_of (our_orders (tr_shared w1)) k = map_of (our_orders (tr_shared w)) k"
    by (simp_all add: r(2) map_orders_def map_of_update_simps)
  have "terminal_status (status_name st) \<longleftrightarrow> st \<in> {Filled, Cancelled, RejectedStatus, Inactive}"
    by (cases st) (simp_all add: terminal_status_def)
  then have b: "if st \<in> {Filled, Cancelled, RejectedStatus, Inactive}
        then map_of (our_orders (tr_shared (on_order_status st' w1))) (send_key x s) = None \<and>
          orderid_to_key (on_order_status st' w1) oid = None
        else on_order_status st' w1 = w1"
    using a(2) by (simp add: on_order_status_def st'_def forget_order_def map_orders_def delete_conv')
  have e: "place_ack_of (place_ack_event oid cmd now) = Some ack"
    "order_ack_of (order_status_event oid st fq rq avg lp ts why) = Some st'"
    using assms(4) by (simp_all add: events_read ack_def st'_def)
  show ?thesis
    unfolding Let_def
    by (rule exI [of _ cmd], rule exI [of _ ack], rule exI [of _ st'])
      (use cmd(1) e a b r(1) in \<open>unfold w1_def [symmetric], intro conjI, auto\<close>)
qed

definition demo_sending :: send_ctx where
  "demo_sending = \<lparr>sc_wall = 1, sc_mono = 1, sc_tick = default_tick\<lparr>tk_right := ''c'', tk_expiry := ''20260526''\<rparr>,
     sc_expiry = ''20260526'', sc_right = CHR ''C'', sc_gtd = 0\<rparr>"

theorem place_ack_closes_loop_witness:
  "\<exists>cmd ack. place_cmd_of (place_pairs (place_msg demo_sending Buy (F64 3))) = Some cmd \<and>
     place_ack_of (place_ack_event 42 cmd 7) = Some ack \<and>
     orderid_to_key (on_place_ack 9 ack demo_world) 42 = Some (send_key demo_sending Buy)"
proof -
  have "tk_right (sc_tick demo_sending) = [CHR ''c'']" "sc_right demo_sending = to_ascii_uppercase CHR ''c''"
    "sc_expiry demo_sending = tk_expiry (sc_tick demo_sending)" "0 \<le> sint (42 :: u64)"
    by (simp_all add: demo_sending_def) code_simp
  from place_ack_closes_loop [OF this, of Buy "F64 3" 7 Filled 1 0 0 None 8 None 9 demo_world]
  show ?thesis unfolding Let_def by blast
qed

text \<open>
  The broker names a kill in two ways: in the kill event by the lower-cased name of the variant, in the
  hello message by its label.  For the daily halt, for a silent trader and for every induced kill the two
  differ, so a trader that gets both counts one kill as two, and a resume under one name leaves it killed.
\<close>

theorem kill_counted_twice:
  assumes "kill_msg_of (kill_event_msg text_of ev) = Some k"
    and "tr_kills w (source_name (source ev)) = None" "tr_kills w (label (source ev)) = None"
    and "h = \<lparr>hm_config = None, hm_active_kills = [label (source ev)]\<rparr>"
  shows "(source_name (source ev) = label (source ev) \<longleftrightarrow> source ev \<in> {RiskSource, Disconnect, Operational}) \<and>
    kills_count (tr_shared (on_hello h (on_kill k w))) =
      kills_count (tr_shared w) + (if source ev \<in> {RiskSource, Disconnect, Operational} then 1 else 2) \<and>
    (source ev \<notin> {RiskSource, Disconnect, Operational} \<longrightarrow>
       tr_kills (on_resume k (on_hello h (on_kill k w))) (label (source ev)) \<noteq> None)"
proof -
  have k: "k = \<lparr>km_source = Some (source_name (source ev)), km_reason = Some (text_of (reason ev))\<rparr>"
    using assms(1) by (simp add: events_read)
  have ne: "source_name src \<noteq> []" for src by (cases src) simp_all
  have eq: "source_name src = label src \<longleftrightarrow> src \<in> {RiskSource, Disconnect, Operational}" for src
    by (cases src) simp_all
  show ?thesis
    using assms(2,3) ne [of "source ev"] eq [of "source ev"]
    by (cases "source ev \<in> {RiskSource, Disconnect, Operational}")
      (simp_all add: k assms(4) on_kill_def on_hello_def on_resume_def usable_source_def add_kill_def Let_def)
qed


theorem kill_counted_twice_witness:
  "kills_count (tr_shared (on_hello \<lparr>hm_config = None, hm_active_kills = [''trader_silent'']\<rparr>
     (on_kill \<lparr>km_source = Some ''tradersilent'', km_reason = Some ''text''\<rparr> (demo_world\<lparr>tr_kills := Map.empty\<rparr>)))) =
   kills_count (tr_shared demo_world) + 2"
  using kill_counted_twice [of "\<lambda>_. ''text''"
      "\<lparr>reason = TraderSilentFor 6, source = TraderSilent, kill_kind = Halt, timestamp_ns = 1\<rparr>"
      "\<lparr>km_source = Some ''tradersilent'', km_reason = Some ''text''\<rparr>" "demo_world\<lparr>tr_kills := Map.empty\<rparr>"]
  by (simp add: events_read)

end
