(* ===== verification/Market_Data.thy ===== *)
theory Market_Data
  imports Portfolio Ibkr_Convert
begin

section \<open>Market data\<close>

text \<open>
  The crate \<^verbatim>\<open>corsair_market_data\<close>: \<^verbatim>\<open>option_state.rs\<close> (quotes and the five-level depth book of one
  option), \<^verbatim>\<open>state.rs\<close> (options, underlyings and hedge contracts by instrument), \<^verbatim>\<open>atm.rs\<close> (the strike
  window), \<^verbatim>\<open>view.rs\<close> (the interface the position book reads), and the two pumps of
  \<^verbatim>\<open>corsair_broker/src/tasks.rs\<close> that feed it.  The lookup of \<^verbatim>\<open>option\<close> through a hash of the borrowed key
  is the lookup in the map.
\<close>

subsection \<open>The depth book\<close>

record depth_level =
  dl_price :: f64
  dl_size :: u64

record depth_book =
  db_bids :: "depth_level list"
  db_asks :: "depth_level list"

definition apply_levels :: "nat \<Rightarrow> i32 \<Rightarrow> depth_level \<Rightarrow> depth_level list \<Rightarrow> depth_level list" where
  "apply_levels pos op l book =
     (if op = 0 then
        (if 5 < pos then book
         else let b = (if length book = 5 then butlast book else book); target = min pos (length b)
           in take target b @ [l] @ drop target b)
      else if op = 1 then
        (if pos < length book then book[pos := l]
         else if pos = length book \<and> length book < 5 then book @ [l] else book)
      else if op = 2 then (if pos < length book then take pos book @ drop (Suc pos) book else book)
      else book)"

text \<open>\<^verbatim>\<open>position as usize\<close> sign-extends, so a negative position is out of range.\<close>

definition depth_apply :: "bool \<Rightarrow> i32 \<Rightarrow> i32 \<Rightarrow> f64 \<Rightarrow> u64 \<Rightarrow> depth_book \<Rightarrow> depth_book" where
  "depth_apply is_bid position op price sz b =
     (let pos = unat (scast position :: u64); l = \<lparr>dl_price = price, dl_size = sz\<rparr> in
      if is_bid then b\<lparr>db_bids := apply_levels pos op l (db_bids b)\<rparr>
      else b\<lparr>db_asks := apply_levels pos op l (db_asks b)\<rparr>)"

fun external_best :: "depth_level list \<Rightarrow> f64 option \<Rightarrow> u64 \<Rightarrow> f64" where
  "external_best [] our_price our_size = 0"
| "external_best (l # ls) our_price our_size =
     (case our_price of
        Some p \<Rightarrow>
          if \<bar>dl_price l - p\<bar> < lit (1 / 1000000000) \<and> dl_size l \<le> our_size
          then external_best ls our_price our_size else dl_price l
      | None \<Rightarrow> dl_price l)"

definition external_best_bid :: "depth_book \<Rightarrow> f64 option \<Rightarrow> u64 \<Rightarrow> f64" where
  "external_best_bid b = external_best (db_bids b)"

definition external_best_ask :: "depth_book \<Rightarrow> f64 option \<Rightarrow> u64 \<Rightarrow> f64" where
  "external_best_ask b = external_best (db_asks b)"

subsection \<open>One option\<close>

record option_tick =
  ot_instrument :: "u64 option"
  ot_strike :: f64
  ot_expiry :: naive_date
  ot_right :: right
  ot_bid :: f64
  ot_ask :: f64
  ot_bid_size :: u64
  ot_ask_size :: u64
  ot_last :: f64
  ot_iv :: f64
  ot_open_interest :: u64
  ot_volume :: u64
  ot_depth :: depth_book
  ot_updated_ns :: u64

definition new_option_tick :: "f64 \<Rightarrow> naive_date \<Rightarrow> right \<Rightarrow> option_tick" where
  "new_option_tick k ex r = \<lparr>ot_instrument = None, ot_strike = k, ot_expiry = ex, ot_right = r, ot_bid = 0,
     ot_ask = 0, ot_bid_size = 0, ot_ask_size = 0, ot_last = 0, ot_iv = 0, ot_open_interest = 0, ot_volume = 0,
     ot_depth = \<lparr>db_bids = [], db_asks = []\<rparr>, ot_updated_ns = 0\<rparr>"

definition mid :: "option_tick \<Rightarrow> f64 option" where
  "mid t = (if 0 < ot_bid t \<and> 0 < ot_ask t \<and> ot_bid t < ot_ask t
     then Some ((ot_bid t + ot_ask t) / lit 2) else None)"

definition tick_current_price :: "option_tick \<Rightarrow> f64" where
  "tick_current_price t = (case mid t of Some m \<Rightarrow> m | None \<Rightarrow> if 0 < ot_last t then ot_last t else 0)"

subsection \<open>All instruments\<close>

record option_key =
  ok_product :: string
  ok_strike :: i64
  ok_expiry :: naive_date
  ok_right :: right

record market_state =
  ms_underlying :: "string \<rightharpoonup> f64"
  ms_options :: "option_key \<rightharpoonup> option_tick"
  by_instrument :: "u64 \<rightharpoonup> option_key"
  underlying_instruments :: "u64 \<rightharpoonup> string"
  ms_hedge :: "string \<rightharpoonup> f64"
  hedge_instruments :: "u64 \<rightharpoonup> string"

definition option_strike_key :: "f64 \<Rightarrow> i64" where
  "option_strike_key k = f64_as_i64 (fround (k * lit 10000))"

definition new_market :: market_state where
  "new_market = \<lparr>ms_underlying = Map.empty, ms_options = Map.empty, by_instrument = Map.empty,
     underlying_instruments = Map.empty, ms_hedge = Map.empty, hedge_instruments = Map.empty\<rparr>"

definition register_option :: "string \<Rightarrow> f64 \<Rightarrow> naive_date \<Rightarrow> right \<Rightarrow> u64 \<Rightarrow> market_state \<Rightarrow> market_state" where
  "register_option product k ex r iid s =
     (let key = \<lparr>ok_product = product, ok_strike = option_strike_key k, ok_expiry = ex, ok_right = r\<rparr> in
      s\<lparr>ms_options := (case ms_options s key of
           Some _ \<Rightarrow> ms_options s
         | None \<Rightarrow> (ms_options s)(key \<mapsto> (new_option_tick k ex r)\<lparr>ot_instrument := Some iid\<rparr>)),
        by_instrument := (by_instrument s)(iid \<mapsto> key)\<rparr>)"

definition register_underlying :: "string \<Rightarrow> u64 \<Rightarrow> market_state \<Rightarrow> market_state" where
  "register_underlying product iid s =
     s\<lparr>underlying_instruments := (underlying_instruments s)(iid \<mapsto> product)\<rparr>"

definition register_hedge_underlying :: "string \<Rightarrow> u64 \<Rightarrow> market_state \<Rightarrow> market_state" where
  "register_hedge_underlying product iid s = s\<lparr>hedge_instruments := (hedge_instruments s)(iid \<mapsto> product)\<rparr>"

definition product_for_underlying :: "market_state \<Rightarrow> u64 \<Rightarrow> string option" where
  "product_for_underlying s iid = underlying_instruments s iid"

definition product_for_hedge_underlying :: "market_state \<Rightarrow> u64 \<Rightarrow> string option" where
  "product_for_hedge_underlying s iid = hedge_instruments s iid"

definition positive :: "f64 option \<Rightarrow> f64 option" where
  "positive x = (case x of Some p \<Rightarrow> if 0 < p then Some p else None | None \<Rightarrow> None)"

definition state_underlying_price :: "market_state \<Rightarrow> string \<Rightarrow> f64 option" where
  "state_underlying_price s product = positive (ms_underlying s product)"

definition state_hedge_underlying_price :: "market_state \<Rightarrow> string \<Rightarrow> f64 option" where
  "state_hedge_underlying_price s product = positive (ms_hedge s product)"

definition set_underlying :: "string \<Rightarrow> f64 \<Rightarrow> market_state \<Rightarrow> market_state" where
  "set_underlying product price s =
     (if 0 < price then s\<lparr>ms_underlying := (ms_underlying s)(product \<mapsto> price)\<rparr> else s)"

text \<open>The part the three price updates share: a change of the option of the instrument, if it has one.\<close>

definition at_option :: "u64 \<Rightarrow> (option_tick \<Rightarrow> option_tick) \<Rightarrow> market_state \<Rightarrow> market_state" where
  "at_option iid f s =
     (case by_instrument s iid of
        None \<Rightarrow> s
      | Some k \<Rightarrow>
          (case ms_options s k of None \<Rightarrow> s | Some t \<Rightarrow> s\<lparr>ms_options := (ms_options s)(k \<mapsto> f t)\<rparr>))"

definition update_futures :: "u64 \<Rightarrow> f64 \<Rightarrow> market_state \<Rightarrow> market_state" where
  "update_futures iid price s =
     (let s1 = (case underlying_instruments s iid of
            Some product \<Rightarrow> if 0 < price then s\<lparr>ms_underlying := (ms_underlying s)(product \<mapsto> price)\<rparr> else s
          | None \<Rightarrow> s)
      in (case hedge_instruments s1 iid of
            Some product \<Rightarrow> if 0 < price then s1\<lparr>ms_hedge := (ms_hedge s1)(product \<mapsto> price)\<rparr> else s1
          | None \<Rightarrow> s1))"

definition update_bid :: "u64 \<Rightarrow> f64 \<Rightarrow> u64 \<Rightarrow> u64 \<Rightarrow> market_state \<Rightarrow> market_state" where
  "update_bid iid price sz ts s =
     (if by_instrument s iid \<noteq> None then
        at_option iid (\<lambda>t. t\<lparr>ot_bid := (if 0 < price then price else ot_bid t), ot_bid_size := sz,
          ot_updated_ns := ts\<rparr>) s
      else update_futures iid price s)"

definition update_ask :: "u64 \<Rightarrow> f64 \<Rightarrow> u64 \<Rightarrow> u64 \<Rightarrow> market_state \<Rightarrow> market_state" where
  "update_ask iid price sz ts s =
     (if by_instrument s iid \<noteq> None then
        at_option iid (\<lambda>t. t\<lparr>ot_ask := (if 0 < price then price else ot_ask t), ot_ask_size := sz,
          ot_updated_ns := ts\<rparr>) s
      else update_futures iid price s)"

definition update_last :: "u64 \<Rightarrow> f64 \<Rightarrow> u64 \<Rightarrow> market_state \<Rightarrow> market_state" where
  "update_last iid price ts s =
     (if by_instrument s iid \<noteq> None then
        at_option iid (\<lambda>t. t\<lparr>ot_last := (if 0 < price then price else ot_last t), ot_updated_ns := ts\<rparr>) s
      else update_futures iid price s)"

definition update_bid_size :: "u64 \<Rightarrow> u64 \<Rightarrow> u64 \<Rightarrow> market_state \<Rightarrow> market_state" where
  "update_bid_size iid sz ts = at_option iid (\<lambda>t. t\<lparr>ot_bid_size := sz, ot_updated_ns := ts\<rparr>)"

definition update_ask_size :: "u64 \<Rightarrow> u64 \<Rightarrow> u64 \<Rightarrow> market_state \<Rightarrow> market_state" where
  "update_ask_size iid sz ts = at_option iid (\<lambda>t. t\<lparr>ot_ask_size := sz, ot_updated_ns := ts\<rparr>)"

definition option_by_iid :: "market_state \<Rightarrow> u64 \<Rightarrow> option_tick option" where
  "option_by_iid s iid = Option.bind (by_instrument s iid) (ms_options s)"

definition apply_depth :: "u64 \<Rightarrow> bool \<Rightarrow> i32 \<Rightarrow> i32 \<Rightarrow> f64 \<Rightarrow> u64 \<Rightarrow> u64 \<Rightarrow> market_state \<Rightarrow> market_state" where
  "apply_depth iid is_bid position op price sz ts =
     at_option iid (\<lambda>t. t\<lparr>ot_depth := depth_apply is_bid position op price sz (ot_depth t), ot_updated_ns := ts\<rparr>)"

definition update_open_interest :: "u64 \<Rightarrow> u64 \<Rightarrow> u64 \<Rightarrow> market_state \<Rightarrow> market_state" where
  "update_open_interest iid oi ts = at_option iid (\<lambda>t. t\<lparr>ot_open_interest := oi, ot_updated_ns := ts\<rparr>)"

definition update_option_volume :: "u64 \<Rightarrow> u64 \<Rightarrow> u64 \<Rightarrow> market_state \<Rightarrow> market_state" where
  "update_option_volume iid vol ts = at_option iid (\<lambda>t. t\<lparr>ot_volume := vol, ot_updated_ns := ts\<rparr>)"

definition option_at :: "market_state \<Rightarrow> string \<Rightarrow> f64 \<Rightarrow> naive_date \<Rightarrow> right \<Rightarrow> option_tick option" where
  "option_at s product k ex r =
     ms_options s \<lparr>ok_product = product, ok_strike = option_strike_key k, ok_expiry = ex, ok_right = r\<rparr>"

text \<open>The iteration order of the map is the argument \<open>keys\<close>.\<close>

definition options_for_product :: "option_key list \<Rightarrow> market_state \<Rightarrow> string \<Rightarrow> option_tick list" where
  "options_for_product keys s product =
     List.map_filter (ms_options s) (filter (\<lambda>k. ok_product k = product) keys)"

record option_meta =
  om_product :: string
  om_strike :: f64
  om_expiry :: naive_date
  om_right :: right

definition option_meta_of :: "market_state \<Rightarrow> u64 \<Rightarrow> option_meta option" where
  "option_meta_of s iid =
     (case by_instrument s iid of
        None \<Rightarrow> None
      | Some k \<Rightarrow>
          (case ms_options s k of
             None \<Rightarrow> None
           | Some t \<Rightarrow> Some \<lparr>om_product = ok_product k, om_strike = ot_strike t, om_expiry = ot_expiry t,
               om_right = ot_right t\<rparr>))"

subsection \<open>The view of the position book\<close>

definition state_iv_for :: "market_state \<Rightarrow> string \<Rightarrow> f64 \<Rightarrow> naive_date \<Rightarrow> right \<Rightarrow> f64 option" where
  "state_iv_for s product k ex r = positive (map_option ot_iv (option_at s product k ex r))"

definition state_current_price :: "market_state \<Rightarrow> string \<Rightarrow> f64 \<Rightarrow> naive_date \<Rightarrow> right \<Rightarrow> f64 option" where
  "state_current_price s product k ex r = positive (map_option tick_current_price (option_at s product k ex r))"

definition view_of :: "market_state \<Rightarrow> market_view" where
  "view_of s = \<lparr>underlying_price = state_underlying_price s, iv_for = state_iv_for s,
     current_price = state_current_price s, hedge_underlying_price = state_hedge_underlying_price s\<rparr>"

subsection \<open>The pumps\<close>

definition pump_tick :: "tick \<Rightarrow> market_state \<Rightarrow> market_state" where
  "pump_tick t s =
     (let iid = tk_instrument t; ts = tk_time t; size0 = (case tk_size t of Some n \<Rightarrow> n | None \<Rightarrow> 0);
          priced = (\<lambda>f. case tk_price t of Some p \<Rightarrow> f p s | None \<Rightarrow> s);
          sized = (\<lambda>f. case tk_size t of Some n \<Rightarrow> f n s | None \<Rightarrow> s)
      in case tk_kind t of
           BidTick \<Rightarrow> priced (\<lambda>p. update_bid iid p size0 ts)
         | AskTick \<Rightarrow> priced (\<lambda>p. update_ask iid p size0 ts)
         | LastTick \<Rightarrow> priced (\<lambda>p. update_last iid p ts)
         | BidSize \<Rightarrow> sized (\<lambda>n. update_bid_size iid n ts)
         | AskSize \<Rightarrow> sized (\<lambda>n. update_ask_size iid n ts)
         | OptionOpenInterest \<Rightarrow> sized (\<lambda>n. update_open_interest iid n ts)
         | OptionVolume \<Rightarrow> sized (\<lambda>n. update_option_volume iid n ts)
         | Volume \<Rightarrow> s)"

definition pump_depth :: "depth_update \<Rightarrow> market_state \<Rightarrow> market_state" where
  "pump_depth d = apply_depth (du_instrument d) (du_is_bid d) (du_position d) (du_operation d) (du_price d)
     (du_size d) (du_time d)"

subsection \<open>The strike window\<close>

record strike_window =
  win_low :: f64
  win_high :: f64

record atm_tracker =
  atm_strike :: f64
  atm_window :: strike_window

definition new_tracker :: atm_tracker where
  "new_tracker = \<lparr>atm_strike = 0, atm_window = \<lparr>win_low = 0, win_high = 0\<rparr>\<rparr>"

definition recentred :: "f64 \<Rightarrow> f64 \<Rightarrow> i32 \<Rightarrow> atm_tracker \<Rightarrow> atm_tracker" where
  "recentred new_atm increment width a =
     (let half = i32_as_f64 width * increment in
      a\<lparr>atm_strike := new_atm, atm_window := \<lparr>win_low = new_atm - half, win_high = new_atm + half\<rparr>\<rparr>)"

definition maybe_recenter :: "f64 \<Rightarrow> f64 \<Rightarrow> i32 \<Rightarrow> i32 \<Rightarrow> atm_tracker \<Rightarrow> strike_window option \<times> atm_tracker" where
  "maybe_recenter underlying increment width threshold a =
     (if underlying \<le> 0 \<or> increment \<le> 0 then (None, a)
      else let new_atm = fround (underlying / increment) * increment in
        if feq (atm_strike a) 0 then
          (let a' = recentred new_atm increment width a in (Some (atm_window a'), a'))
        else if sint (f64_as_i32 \<bar>(new_atm - atm_strike a) / increment\<bar>) < sint threshold then (None, a)
        else (let a' = recentred new_atm increment width a in (Some (atm_window a'), a')))"

definition window_contains :: "atm_tracker \<Rightarrow> f64 \<Rightarrow> bool" where
  "window_contains a k \<longleftrightarrow> win_low (atm_window a) \<le> k \<and> k \<le> win_high (atm_window a)"


subsection \<open>The depth book\<close>

lemma length_insert_at: "length (take n xs @ x # drop n xs) = Suc (length xs)"
  by (cases "n \<le> length xs") auto

lemma apply_levels_length: "length book \<le> 5 \<Longrightarrow> length (apply_levels pos op l book) \<le> 5"
proof -
  assume a: "length book \<le> 5"
  consider "op = 0" | "op = 1" | "op = 2" | "op \<noteq> 0" "op \<noteq> 1" "op \<noteq> 2" by blast
  then show ?thesis
  proof cases
    case 1
    have "length (take n b @ [l] @ drop n b) = Suc (length b)" for n b
      using length_insert_at [of n b l] by simp
    with 1 a show ?thesis by (cases "5 < pos"; cases "length book = 5") (simp_all add: apply_levels_def Let_def del: length_append)
  next
    case 2
    with a show ?thesis by (cases "pos < length book") (simp_all add: apply_levels_def)
  next
    case 3
    with a show ?thesis by (cases "pos < length book") (simp_all add: apply_levels_def)
  qed (use a in \<open>simp add: apply_levels_def\<close>)
qed

lemma apply_levels_rows:
  assumes "length book \<le> 5"
  shows "pos < 5 \<Longrightarrow> pos \<le> length book \<Longrightarrow> apply_levels pos 0 l book = take 5 (take pos book @ l # drop pos book)"
    and "pos < length book \<Longrightarrow> apply_levels pos 1 l book = book[pos := l]"
    and "pos < length book \<Longrightarrow> apply_levels pos 2 l book = take pos book @ drop (Suc pos) book"
proof -
  assume "pos < 5" "pos \<le> length book"
  then show "apply_levels pos 0 l book = take 5 (take pos book @ l # drop pos book)"
  proof (cases "length book = 5")
    case True
    then have "butlast book = take 4 book" by (simp add: butlast_conv_take)
    then show ?thesis using True \<open>pos < 5\<close> by (simp add: apply_levels_def min_def take_Cons' drop_take)
  next
    case False
    then have "take 5 (take pos book @ l # drop pos book) = take pos book @ l # drop pos book"
      using assms by (intro take_all) (simp add: length_insert_at del: length_append)
    then show ?thesis using False \<open>pos < 5\<close> \<open>pos \<le> length book\<close> by (simp add: apply_levels_def min_def)
  qed
qed (simp_all add: apply_levels_def)

text \<open>A side of the book is sorted when the best price comes first.\<close>

definition best_first :: "(f64 \<Rightarrow> f64 \<Rightarrow> bool) \<Rightarrow> depth_level list \<Rightarrow> bool" where
  "best_first better = sorted_wrt (\<lambda>x y. better (dl_price x) (dl_price y))"

definition all_ours :: "f64 option \<Rightarrow> u64 \<Rightarrow> depth_level \<Rightarrow> bool" where
  "all_ours our_price our_size l \<longleftrightarrow>
     (case our_price of Some p \<Rightarrow> \<bar>dl_price l - p\<bar> < lit (1 / 1000000000) \<and> dl_size l \<le> our_size | None \<Rightarrow> False)"

lemma external_best_cases:
  "(\<forall>l\<in>set book. all_ours p n l) \<and> external_best book p n = 0 \<or>
   (\<exists>xs l ys. book = xs @ l # ys \<and> (\<forall>x\<in>set xs. all_ours p n x) \<and> \<not> all_ours p n l \<and> external_best book p n = dl_price l)"
proof (induction book)
  case (Cons l ls)
  show ?case
  proof (cases "all_ours p n l")
    case True
    then have e: "external_best (l # ls) p n = external_best ls p n"
      by (auto simp: all_ours_def split: option.splits)
    from Cons.IH show ?thesis
    proof
      assume "\<exists>xs l' ys. ls = xs @ l' # ys \<and> (\<forall>x\<in>set xs. all_ours p n x) \<and> \<not> all_ours p n l' \<and> external_best ls p n = dl_price l'"
      then obtain xs l' ys where "ls = xs @ l' # ys" "\<forall>x\<in>set xs. all_ours p n x" "\<not> all_ours p n l'"
        "external_best ls p n = dl_price l'" by blast
      then have "l # ls = (l # xs) @ l' # ys \<and> (\<forall>x\<in>set (l # xs). all_ours p n x) \<and> \<not> all_ours p n l' \<and>
          external_best (l # ls) p n = dl_price l'" using True e by simp
      then show ?thesis by blast
    qed (use True e in simp)
  next
    case False
    then have "external_best (l # ls) p n = dl_price l" by (auto simp: all_ours_def split: option.splits)
    with False have "l # ls = [] @ l # ls \<and> (\<forall>x\<in>set []. all_ours p n x) \<and> \<not> all_ours p n l \<and>
        external_best (l # ls) p n = dl_price l" by simp
    then show ?thesis by blast
  qed
qed simp

lemma unat_scast: "unat (scast (p :: i32) :: u64) = nat (sint p mod 2 ^ 64)"
  unfolding unat_eq_nat_uint scast_eq uint_word_of_int by simp

lemma unat_scast_nonneg: "0 \<le> sint (p :: i32) \<Longrightarrow> unat (scast p :: u64) = nat (sint p)"
  using sint_lt [of p] by (simp add: unat_scast)

lemma unat_scast_neg: "sint (p :: i32) < 0 \<Longrightarrow> 5 < unat (scast p :: u64)"
proof -
  assume "sint p < 0"
  moreover have "- (2 ^ 31) \<le> sint p" using sint_ge [of p] by simp
  ultimately have "(sint p + 2 ^ 64) mod 2 ^ 64 = sint p + 2 ^ 64" by (intro mod_pos_pos_trivial) simp_all
  then have "sint p mod 2 ^ 64 = sint p + 2 ^ 64" by simp
  with \<open>- (2 ^ 31) \<le> sint p\<close> show ?thesis by (simp add: unat_scast)
qed

definition levels :: "bool \<Rightarrow> depth_book \<Rightarrow> depth_level list" where
  "levels is_bid b = (if is_bid then db_bids b else db_asks b)"

definition external_best_of :: "bool \<Rightarrow> depth_book \<Rightarrow> f64 option \<Rightarrow> u64 \<Rightarrow> f64" where
  "external_best_of is_bid = (if is_bid then external_best_bid else external_best_ask)"

lemma external_best_of_levels: "external_best_of is_bid b = external_best (levels is_bid b)"
  by (simp add: external_best_of_def external_best_bid_def external_best_ask_def levels_def)

lemma levels_depth_apply:
  "levels is_bid (depth_apply is_bid pos op x n b) =
     apply_levels (unat (scast pos :: u64)) op \<lparr>dl_price = x, dl_size = n\<rparr> (levels is_bid b)"
  "levels (\<not> is_bid) (depth_apply is_bid pos op x n b) = levels (\<not> is_bid) b"
  by (simp_all add: levels_def depth_apply_def Let_def)

lemma external_best_best:
  assumes "best_first better book"
  shows "(\<forall>l\<in>set book. all_ours p n l) \<and> external_best book p n = 0 \<or>
    (\<exists>l\<in>set book. \<not> all_ours p n l \<and> external_best book p n = dl_price l \<and>
       (\<forall>l'\<in>set book. \<not> all_ours p n l' \<longrightarrow> l' = l \<or> better (dl_price l) (dl_price l')))"
  using external_best_cases [of book p n]
proof
  assume "\<exists>xs l ys. book = xs @ l # ys \<and> (\<forall>x\<in>set xs. all_ours p n x) \<and> \<not> all_ours p n l \<and> external_best book p n = dl_price l"
  then obtain xs l ys where x: "book = xs @ l # ys" "\<forall>x\<in>set xs. all_ours p n x" "\<not> all_ours p n l"
    "external_best book p n = dl_price l" by blast
  with assms have "\<forall>l'\<in>set ys. better (dl_price l) (dl_price l')" by (simp add: best_first_def sorted_wrt_append)
  with x show ?thesis by auto
qed blast

text \<open>
  Each side of the depth book is a table of at most five rows.  An insertion at a row in range
  shifts the rows below it down and drops the sixth; an update and a deletion affect exactly their row;
  a negative row is ignored; the other side is never touched.  When the price of an inserted row fits at
  its place the side stays sorted, best price first, and on a sorted side the external best is the best
  level that is not all our own size, zero if there is none.
\<close>

theorem depth_book_rows:
  assumes "length (levels is_bid b) \<le> 5"
  shows "length (levels is_bid (depth_apply is_bid pos op x n b)) \<le> 5 \<and>
    levels (\<not> is_bid) (depth_apply is_bid pos op x n b) = levels (\<not> is_bid) b \<and>
    (sint pos < 0 \<longrightarrow> depth_apply is_bid pos op x n b = b) \<and>
    (0 \<le> sint pos \<and> sint pos < 5 \<and> nat (sint pos) \<le> length (levels is_bid b) \<longrightarrow>
       (let rows = take (nat (sint pos)) (levels is_bid b) @ \<lparr>dl_price = x, dl_size = n\<rparr> # drop (nat (sint pos)) (levels is_bid b)
        in levels is_bid (depth_apply is_bid pos 0 x n b) = take 5 rows \<and>
           (best_first better rows \<longrightarrow> best_first better (levels is_bid (depth_apply is_bid pos 0 x n b))))) \<and>
    (0 \<le> sint pos \<and> nat (sint pos) < length (levels is_bid b) \<longrightarrow>
       levels is_bid (depth_apply is_bid pos 1 x n b) = (levels is_bid b)[nat (sint pos) := \<lparr>dl_price = x, dl_size = n\<rparr>] \<and>
       levels is_bid (depth_apply is_bid pos 2 x n b) =
         take (nat (sint pos)) (levels is_bid b) @ drop (Suc (nat (sint pos))) (levels is_bid b)) \<and>
    (best_first better (levels is_bid b) \<longrightarrow>
       (\<forall>l\<in>set (levels is_bid b). all_ours our_price our_size l) \<and> external_best_of is_bid b our_price our_size = 0 \<or>
       (\<exists>l\<in>set (levels is_bid b). \<not> all_ours our_price our_size l \<and> external_best_of is_bid b our_price our_size = dl_price l \<and>
          (\<forall>l'\<in>set (levels is_bid b). \<not> all_ours our_price our_size l' \<longrightarrow> l' = l \<or> better (dl_price l) (dl_price l'))))"
proof -
  let ?l = "\<lparr>dl_price = x, dl_size = n\<rparr>" and ?k = "unat (scast pos :: u64)"
  note lv = levels_depth_apply
  have neg: "depth_apply is_bid pos op x n b = b" if "sint pos < 0"
    using unat_scast_neg [OF that] assms
    by (cases is_bid) (auto simp: depth_apply_def apply_levels_def levels_def Let_def)
  have ins: "levels is_bid (depth_apply is_bid pos 0 x n b) =
      take 5 (take (nat (sint pos)) (levels is_bid b) @ ?l # drop (nat (sint pos)) (levels is_bid b))"
    if "0 \<le> sint pos" "sint pos < 5" "nat (sint pos) \<le> length (levels is_bid b)"
    using that by (simp add: lv unat_scast_nonneg apply_levels_rows(1) [OF assms])
  have ud: "levels is_bid (depth_apply is_bid pos 1 x n b) = (levels is_bid b)[nat (sint pos) := ?l]"
    "levels is_bid (depth_apply is_bid pos 2 x n b) =
       take (nat (sint pos)) (levels is_bid b) @ drop (Suc (nat (sint pos))) (levels is_bid b)"
    if "0 \<le> sint pos" "nat (sint pos) < length (levels is_bid b)"
    using that by (simp_all add: lv unat_scast_nonneg apply_levels_rows(2,3) [OF assms])
  have srt: "best_first better (take 5 rows)" if "best_first better rows" for rows
    using that unfolding best_first_def by (rule sorted_wrt_take)
  have len: "length (levels is_bid (depth_apply is_bid pos op x n b)) \<le> 5"
    by (simp add: lv(1) apply_levels_length [OF assms])
  show ?thesis
    unfolding Let_def external_best_of_levels
    by (intro conjI impI len lv(2); (elim conjE)?; (rule neg ud external_best_best; assumption)?; (subst ins; assumption?)?)
      (simp_all add: srt del: take_append)
qed

theorem depth_book_rows_witness:
  "levels True (depth_apply True 0 0 (lit 2) 7 \<lparr>db_bids = [\<lparr>dl_price = lit 1, dl_size = 3\<rparr>], db_asks = []\<rparr>)
     = [\<lparr>dl_price = lit 2, dl_size = 7\<rparr>, \<lparr>dl_price = lit 1, dl_size = 3\<rparr>]"
  using depth_book_rows [of True "\<lparr>db_bids = [\<lparr>dl_price = lit 1, dl_size = 3\<rparr>], db_asks = []\<rparr>" 0 0 "lit 2" 7]
  by (simp add: levels_def Let_def)


subsection \<open>The state of all instruments\<close>

datatype market_op =
    RegisterOption string f64 naive_date right u64
  | RegisterUnderlying string u64
  | RegisterHedge string u64
  | SetUnderlying string f64
  | TickIn tick
  | DepthIn depth_update

fun market_step :: "market_op \<Rightarrow> market_state \<Rightarrow> market_state" where
  "market_step (RegisterOption p k ex r iid) = register_option p k ex r iid"
| "market_step (RegisterUnderlying p iid) = register_underlying p iid"
| "market_step (RegisterHedge p iid) = register_hedge_underlying p iid"
| "market_step (SetUnderlying p x) = set_underlying p x"
| "market_step (TickIn t) = pump_tick t"
| "market_step (DepthIn d) = pump_depth d"

text \<open>Prices are never NaN and never negative, and no side of a depth book is longer than five.\<close>

definition tick_sound :: "option_key \<Rightarrow> option_tick \<Rightarrow> bool" where
  "tick_sound k t \<longleftrightarrow>
     ok_strike k = option_strike_key (ot_strike t) \<and> ok_expiry k = ot_expiry t \<and> ok_right k = ot_right t \<and>
     0 \<le> ot_bid t \<and> 0 \<le> ot_ask t \<and> 0 \<le> ot_last t \<and> (\<forall>is_bid. length (levels is_bid (ot_depth t)) \<le> 5)"

definition market_inv :: "market_state \<Rightarrow> bool" where
  "market_inv s \<longleftrightarrow>
     (\<forall>iid k. by_instrument s iid = Some k \<longrightarrow> ms_options s k \<noteq> None) \<and>
     (\<forall>k t. ms_options s k = Some t \<longrightarrow> tick_sound k t) \<and>
     (\<forall>p x. ms_underlying s p = Some x \<longrightarrow> 0 < x) \<and> (\<forall>p x. ms_hedge s p = Some x \<longrightarrow> 0 < x)"

lemma market_inv_at_option:
  assumes "market_inv s" "\<And>k t. tick_sound k t \<Longrightarrow> tick_sound k (f t)"
  shows "market_inv (at_option iid f s)"
  using assms by (auto simp: market_inv_def at_option_def split: option.splits)

lemma market_inv_update_futures: "market_inv s \<Longrightarrow> market_inv (update_futures iid x s)"
  by (auto simp: market_inv_def update_futures_def Let_def split: option.splits if_splits)

lemma tick_sound_new:
  "tick_sound \<lparr>ok_product = p, ok_strike = option_strike_key k, ok_expiry = ex, ok_right = r\<rparr>
     ((new_option_tick k ex r)\<lparr>ot_instrument := Some iid\<rparr>)"
  by (simp add: tick_sound_def new_option_tick_def levels_def f64_ord)

lemma market_inv_register_option: "market_inv s \<Longrightarrow> market_inv (register_option p k ex r iid s)"
  by (auto simp: market_inv_def register_option_def Let_def tick_sound_new split: option.splits if_splits)

lemma f64_zero_le: "0 < (x :: f64) \<Longrightarrow> 0 \<le> x"
  by (rule f64_less_imp_le)

lemma market_inv_pump_tick: "market_inv s \<Longrightarrow> market_inv (pump_tick t s)"
  unfolding pump_tick_def Let_def
  by (auto simp: update_bid_def update_ask_def update_last_def update_bid_size_def update_ask_size_def
      update_open_interest_def update_option_volume_def tick_sound_def f64_zero_le
      intro!: market_inv_at_option market_inv_update_futures split: tick_kind.split option.split)

lemma market_inv_pump_depth: "market_inv s \<Longrightarrow> market_inv (pump_depth d s)"
  unfolding pump_depth_def apply_depth_def
proof (erule market_inv_at_option)
  fix k t
  assume t: "tick_sound k t"
  have "length (levels ib (depth_apply ib' p op x n b)) \<le> 5" if "\<forall>ib. length (levels ib b) \<le> 5" for ib ib' p op x n b
    using that by (cases "ib = ib'") (auto simp: levels_depth_apply apply_levels_length dest: spec)
  with t show "tick_sound k (t\<lparr>ot_depth := depth_apply (du_is_bid d) (du_position d) (du_operation d) (du_price d)
      (du_size d) (ot_depth t), ot_updated_ns := du_time d\<rparr>)"
    by (simp add: tick_sound_def)
qed

lemma market_inv_step: "market_inv s \<Longrightarrow> market_inv (market_step x s)"
  by (cases x) (auto simp: market_inv_pump_tick market_inv_pump_depth market_inv_register_option,
      auto simp: market_inv_def register_underlying_def register_hedge_underlying_def set_underlying_def)

lemma market_inv_run: "market_inv s \<Longrightarrow> market_inv (fold market_step xs s)"
  by (induction xs arbitrary: s) (simp_all add: market_inv_step)

lemma market_inv_new: "market_inv new_market"
  by (simp add: market_inv_def new_market_def)


text \<open>What an operation registers an instrument as, and the last registration of a run.\<close>

fun option_registration :: "u64 \<Rightarrow> market_op \<Rightarrow> option_key option" where
  "option_registration iid (RegisterOption p k ex r i) =
     (if i = iid then Some \<lparr>ok_product = p, ok_strike = option_strike_key k, ok_expiry = ex, ok_right = r\<rparr> else None)"
| "option_registration iid _ = None"

fun underlying_registration :: "u64 \<Rightarrow> market_op \<Rightarrow> string option" where
  "underlying_registration iid (RegisterUnderlying p i) = (if i = iid then Some p else None)"
| "underlying_registration iid _ = None"

fun hedge_registration :: "u64 \<Rightarrow> market_op \<Rightarrow> string option" where
  "hedge_registration iid (RegisterHedge p i) = (if i = iid then Some p else None)"
| "hedge_registration iid _ = None"

definition last_registered :: "('a \<Rightarrow> 'b option) \<Rightarrow> 'a list \<Rightarrow> 'b option" where
  "last_registered f xs = (case rev (List.map_filter f xs) of [] \<Rightarrow> None | y # _ \<Rightarrow> Some y)"

lemma last_registered_Nil: "last_registered f [] = None"
  by (simp add: last_registered_def map_filter_simps)

lemma last_registered_snoc: "last_registered f (xs @ [x]) = (case f x of Some y \<Rightarrow> Some y | None \<Rightarrow> last_registered f xs)"
  by (simp add: last_registered_def map_filter_def split: option.split)

lemma at_option_registries [simp]:
  "by_instrument (at_option iid f s) = by_instrument s"
  "underlying_instruments (at_option iid f s) = underlying_instruments s"
  "hedge_instruments (at_option iid f s) = hedge_instruments s"
  by (simp_all add: at_option_def split: option.split)

lemma update_futures_registries [simp]:
  "by_instrument (update_futures iid x s) = by_instrument s"
  "underlying_instruments (update_futures iid x s) = underlying_instruments s"
  "hedge_instruments (update_futures iid x s) = hedge_instruments s"
  by (simp_all add: update_futures_def Let_def split: option.split)

lemma pump_registries [simp]:
  "by_instrument (pump_tick t s) = by_instrument s" "by_instrument (pump_depth d s) = by_instrument s"
  "underlying_instruments (pump_tick t s) = underlying_instruments s"
  "underlying_instruments (pump_depth d s) = underlying_instruments s"
  "hedge_instruments (pump_tick t s) = hedge_instruments s" "hedge_instruments (pump_depth d s) = hedge_instruments s"
  by (simp_all add: pump_tick_def pump_depth_def apply_depth_def update_bid_def update_ask_def update_last_def
      update_bid_size_def update_ask_size_def update_open_interest_def update_option_volume_def Let_def
      split: tick_kind.split option.split)

lemma registries_run:
  "by_instrument (fold market_step ops new_market) iid = last_registered (option_registration iid) ops"
  "underlying_instruments (fold market_step ops new_market) iid = last_registered (underlying_registration iid) ops"
  "hedge_instruments (fold market_step ops new_market) iid = last_registered (hedge_registration iid) ops"
proof (induction ops rule: rev_induct)
  case (snoc x xs)
  { case 1
    then show ?case using snoc by (cases x) (simp_all add: last_registered_snoc register_option_def register_underlying_def
        register_hedge_underlying_def set_underlying_def Let_def) }
  { case 2
    then show ?case using snoc by (cases x) (simp_all add: last_registered_snoc register_option_def register_underlying_def
        register_hedge_underlying_def set_underlying_def Let_def) }
  { case 3
    then show ?case using snoc by (cases x) (simp_all add: last_registered_snoc register_option_def register_underlying_def
        register_hedge_underlying_def set_underlying_def Let_def) }
qed (simp_all add: last_registered_Nil new_market_def)

text \<open>
  \<^bold>\<open>C32.\<close> Whatever is registered and whatever ticks and depth updates arrive, in any order, every instrument
  id points to the key of the option it was last registered for, and to the products it was last registered
  for as underlying and as hedge contract, and to nothing it was never registered for.  The option of an
  instrument has the strike, expiry and right of its key, prices that are neither negative nor NaN, and at
  most five levels of depth on a side; the stored prices of futures are positive.  A tick changes the price
  of an underlying or of a hedge contract of a product only if its instrument is registered for exactly that
  role and not as an option, to exactly the price it carries.
\<close>

theorem market_state_sound:
  assumes "s = fold market_step ops new_market"
  shows "by_instrument s iid = last_registered (option_registration iid) ops \<and>
    underlying_instruments s iid = last_registered (underlying_registration iid) ops \<and>
    hedge_instruments s iid = last_registered (hedge_registration iid) ops \<and>
    (by_instrument s iid = Some k \<longrightarrow> (\<exists>t. option_by_iid s iid = Some t \<and> tick_sound k t)) \<and>
    (ms_underlying s p = Some x \<longrightarrow> 0 < x) \<and> (ms_hedge s p = Some y \<longrightarrow> 0 < y) \<and>
    (ms_underlying (pump_tick t s) p \<noteq> ms_underlying s p \<longrightarrow>
       underlying_instruments s (tk_instrument t) = Some p \<and> by_instrument s (tk_instrument t) = None \<and>
       tk_price t \<noteq> None \<and> ms_underlying (pump_tick t s) p = tk_price t) \<and>
    (ms_hedge (pump_tick t s) p \<noteq> ms_hedge s p \<longrightarrow>
       hedge_instruments s (tk_instrument t) = Some p \<and> by_instrument s (tk_instrument t) = None \<and>
       tk_price t \<noteq> None \<and> ms_hedge (pump_tick t s) p = tk_price t)"
proof -
  have inv: "market_inv s" unfolding assms by (rule market_inv_run [OF market_inv_new])
  have opt: "ms_underlying (at_option iid f s) = ms_underlying s" "ms_hedge (at_option iid f s) = ms_hedge s" for iid f
    by (simp_all add: at_option_def split: option.split)
  have fut: "ms_underlying (update_futures iid v s) p \<noteq> ms_underlying s p \<Longrightarrow>
      underlying_instruments s iid = Some p \<and> ms_underlying (update_futures iid v s) p = Some v"
    "ms_hedge (update_futures iid v s) p \<noteq> ms_hedge s p \<Longrightarrow>
      hedge_instruments s iid = Some p \<and> ms_hedge (update_futures iid v s) p = Some v" for iid v
    by (auto simp: update_futures_def Let_def split: option.splits if_splits)
  note d = pump_tick_def Let_def update_bid_def update_ask_def update_last_def update_bid_size_def
    update_ask_size_def update_open_interest_def update_option_volume_def opt
  have "ms_underlying (pump_tick t s) p \<noteq> ms_underlying s p \<longrightarrow>
       underlying_instruments s (tk_instrument t) = Some p \<and> by_instrument s (tk_instrument t) = None \<and>
       tk_price t \<noteq> None \<and> ms_underlying (pump_tick t s) p = tk_price t"
    by (auto simp: d dest: fut split: tick_kind.splits option.splits if_splits)
  moreover have "ms_hedge (pump_tick t s) p \<noteq> ms_hedge s p \<longrightarrow>
       hedge_instruments s (tk_instrument t) = Some p \<and> by_instrument s (tk_instrument t) = None \<and>
       tk_price t \<noteq> None \<and> ms_hedge (pump_tick t s) p = tk_price t"
    by (auto simp: d dest: fut split: tick_kind.splits option.splits if_splits)
  moreover have "by_instrument s iid = Some k \<longrightarrow> (\<exists>t. option_by_iid s iid = Some t \<and> tick_sound k t)"
  proof
    assume k: "by_instrument s iid = Some k"
    with inv have "ms_options s k \<noteq> None" by (simp add: market_inv_def)
    then obtain o' where "ms_options s k = Some o'" by blast
    with inv k show "\<exists>t. option_by_iid s iid = Some t \<and> tick_sound k t"
      unfolding market_inv_def by (simp add: option_by_iid_def)
  qed
  moreover have "ms_underlying s p = Some x \<longrightarrow> 0 < x" "ms_hedge s p = Some y \<longrightarrow> 0 < y"
    using inv unfolding market_inv_def by blast+
  moreover note registries_run [of ops iid, folded assms]
  ultimately show ?thesis by blast
qed

theorem market_state_sound_witness:
  "\<exists>t. option_by_iid (fold market_step [RegisterOption ''HG'' (lit 5) 20000 Put 100, RegisterOption ''HG'' (lit 6) 20000 Call 100,
     TickIn \<lparr>tk_instrument = 100, tk_kind = BidTick, tk_price = Some (lit 2), tk_size = None, tk_time = 5\<rparr>] new_market) 100
   = Some t \<and> tick_sound \<lparr>ok_product = ''HG'', ok_strike = option_strike_key (lit 6), ok_expiry = 20000, ok_right = Call\<rparr> t"
proof -
  let ?ops = "[RegisterOption ''HG'' (lit 5) 20000 Put 100, RegisterOption ''HG'' (lit 6) 20000 Call 100,
     TickIn \<lparr>tk_instrument = 100, tk_kind = BidTick, tk_price = Some (lit 2), tk_size = None, tk_time = 5\<rparr>]"
  have "last_registered (option_registration 100) ?ops =
      Some \<lparr>ok_product = ''HG'', ok_strike = option_strike_key (lit 6), ok_expiry = 20000, ok_right = Call\<rparr>"
    by (simp add: last_registered_def map_filter_simps)
  with market_state_sound [OF refl, of ?ops 100, THEN conjunct1]
    market_state_sound [OF refl, of ?ops 100, THEN conjunct2, THEN conjunct2, THEN conjunct2, THEN conjunct1]
  show ?thesis by metis
qed

end
