(* ===== verification/Broker_Runtime.thy ===== *)
theory Broker_Runtime
  imports Broker_Wire Constraint Ibkr_Broker Market_Data
begin

section \<open>The broker daemon\<close>

text \<open>
  The daemon \<^verbatim>\<open>corsair_broker\<close>: the runtime state (\<^verbatim>\<open>runtime.rs\<close>, \<^verbatim>\<open>latency.rs\<close>), the handlers of the commands of the
  trader and the publishers of events (\<^verbatim>\<open>ipc.rs\<close>), and the tasks that consume fills, order statuses and
  account values, check the risk and place hedges (\<^verbatim>\<open>tasks.rs\<close>).  The components themselves are those of the
  other theories.  A handler that waits for the gateway is two definitions.  Hash maps that are iterated
  come with the order of iteration as an argument; \<open>published\<close> is the sequence of events handed to the
  events ring.  Log lines and the rows of \<^verbatim>\<open>wire_timing\<close> are left out.
\<close>

subsection \<open>State\<close>

record latency_samples =
  ttt_us :: "u64 list"
  place_rtt_us :: "u64 list"
  modify_rtt_us :: "u64 list"

definition RING_CAPACITY :: nat where "RING_CAPACITY = 1024"

definition push_bounded :: "u64 \<Rightarrow> u64 list \<Rightarrow> u64 list" where
  "push_bounded v q = (if RING_CAPACITY \<le> length q then tl q else q) @ [v]"

text \<open>\<^verbatim>\<open>f64::ceil\<close>.\<close>

definition fceil :: "f64 \<Rightarrow> f64" where
  "fceil x = (if is_finite x then round_f64 (sign_neg x) (of_int \<lceil>val x\<rceil>) else x)"

definition latency_stats :: "u64 list \<Rightarrow> u64 \<times> u64 option \<times> u64 option" where
  "latency_stats q =
     (if q = [] then (0, None, None)
      else let v = sort q; n = length v;
               p99 = min (unat (f64_as_u64 (fceil (u64_as_f64 (of_nat n) * lit (99 / 100)))) - 1) (n - 1)
           in (of_nat n, Some (v ! (n div 2)), Some (v ! p99)))"

datatype runtime_mode = Shadow | Live

record runtime =
  rt_mode :: runtime_mode
  rt_ibkr_account :: "string option"
  rt_capital :: f64
  rt_native :: native_broker
  rt_portfolio :: portfolio
  rt_risk :: risk_monitor
  rt_constraint :: constraint_checker
  rt_hedge :: hedge_fanout
  seen_orders :: "u64 set"
  recently_terminated :: "u64 \<rightharpoonup> u64"
  stale_modify_dropped :: u64
  stale_cancel_dropped :: u64
  rt_market :: market_state
  contract_by_key :: "i64 \<times> string \<times> char \<rightharpoonup> contract"
  rt_account :: account_snapshot
  rt_latency :: latency_samples
  published :: "named list"
  last_trader_msg_ns :: u64

text \<open>Code outside the repository: number and date formatting, the text of a kill, and MessagePack maps.\<close>

record deps =
  dp_fmt :: fmt
  dp_chrono :: chrono
  dp_text :: "kill_reason \<Rightarrow> string"
  dp_unpack :: "bytes \<Rightarrow> named option"

definition publish_event :: "named \<Rightarrow> runtime \<Rightarrow> runtime" where
  "publish_event ev R = R\<lparr>published := published R @ [ev]\<rparr>"

subsection \<open>Commands of the trader\<close>

definition cmd_right :: "place_cmd \<Rightarrow> char option" where
  "cmd_right c =
     (case pc_right c of
        [] \<Rightarrow> None
      | ch # _ \<Rightarrow> let up = to_ascii_uppercase ch in if up = CHR ''C'' \<or> up = CHR ''P'' then Some up else None)"

definition cmd_side :: "place_cmd \<Rightarrow> side option" where
  "cmd_side c = (if pc_side c = ''BUY'' then Some Buy else if pc_side c = ''SELL'' then Some Sell else None)"

definition cmd_order_type :: "place_cmd \<Rightarrow> order_type" where
  "cmd_order_type c = (if pc_order_type c = ''market'' then Market else Limit)"

definition cmd_tif :: "place_cmd \<Rightarrow> time_in_force" where
  "cmd_tif c = (if pc_tif c = ''IOC'' then Ioc else if pc_tif c = ''DAY'' then Day
     else if pc_tif c = ''GTC'' then Gtc else Gtd)"

definition gtd_after :: "date_time \<Rightarrow> u32 \<Rightarrow> date_time" where
  "gtd_after utc secs = utc + uint secs * 1000000000"

definition place_req_of :: "string option \<Rightarrow> date_time \<Rightarrow> contract \<Rightarrow> side \<Rightarrow> place_cmd \<Rightarrow> place_order_req" where
  "place_req_of account utc c s cmd =
     \<lparr>po_contract = c, po_side = s, po_qty = (if sint (pc_qty cmd) < 0 then 0 else pc_qty cmd),
      po_order_type = cmd_order_type cmd, po_price = Some (pc_price cmd), po_tif = cmd_tif cmd,
      po_gtd_until = (if cmd_tif cmd = Gtd
        then Some (gtd_after utc (case pc_gtd_seconds cmd of Some n \<Rightarrow> n | None \<Rightarrow> 30)) else None),
      po_client_ref = (case pc_client_ref cmd of Some r \<Rightarrow> r | None \<Rightarrow> []),
      po_account = Some (case account of Some a \<Rightarrow> a | None \<Rightarrow> [])\<rparr>"

definition resolve_cmd :: "runtime \<Rightarrow> place_cmd \<Rightarrow> (contract \<times> side) option" where
  "resolve_cmd R cmd =
     do { r \<leftarrow> cmd_right cmd;
          c \<leftarrow> contract_by_key R (trader_strike_key (pc_strike cmd), pc_expiry cmd, r);
          s \<leftarrow> cmd_side cmd;
          Some (c, s) }"

text \<open>\<^verbatim>\<open>handle_place\<close> up to the wait for the acknowledgement, and what it does with the outcome.\<close>

record place_wait =
  pw_cmd :: place_cmd
  pw_order_id :: i32
  pw_waiter :: nat

definition handle_place ::
  "deps \<Rightarrow> (nat \<Rightarrow> client \<Rightarrow> client) \<Rightarrow> bool \<Rightarrow> u64 \<Rightarrow> date_time \<Rightarrow> bytes \<Rightarrow> runtime \<Rightarrow> place_wait option \<times> runtime" where
  "handle_place dp env write_ok now utc body R =
     (case Option.bind (dp_unpack dp body) place_cmd_of of
        None \<Rightarrow> (None, R)
      | Some cmd \<Rightarrow>
          if rt_mode R = Shadow then (None, R)
          else case resolve_cmd R cmd of
              None \<Rightarrow> (None, R)
            | Some (c, s) \<Rightarrow>
                (case place_order (dp_fmt dp) (dp_chrono dp) env write_ok now
                    (place_req_of (rt_ibkr_account R) utc c s cmd) (rt_native R) of
                   (Inl e, B) \<Rightarrow> (None, R\<lparr>rt_native := B\<rparr>)
                 | (Inr (oid, w), B) \<Rightarrow>
                     (Some \<lparr>pw_cmd = cmd, pw_order_id = oid, pw_waiter = w\<rparr>, R\<lparr>rt_native := B\<rparr>)))"

definition push_place_latency :: "u64 \<Rightarrow> u64 \<Rightarrow> u64 \<Rightarrow> place_cmd \<Rightarrow> latency_samples \<Rightarrow> latency_samples" where
  "push_place_latency recv_ns send_ns ack_ns cmd l =
     (let trigger = (case pc_trigger cmd of Some t \<Rightarrow> t | None \<Rightarrow> recv_ns) in
      l\<lparr>ttt_us := push_bounded (saturating_sub send_ns trigger div 1000) (ttt_us l),
        place_rtt_us := push_bounded (saturating_sub ack_ns send_ns div 1000) (place_rtt_us l)\<rparr>)"

definition handle_place_done ::
  "u64 \<Rightarrow> u64 \<Rightarrow> u64 \<Rightarrow> u64 \<Rightarrow> place_wait \<Rightarrow> (broker_error + unit) waited \<Rightarrow> runtime \<Rightarrow> runtime" where
  "handle_place_done recv_ns send_ns ack_ns now pw outcome R =
     (case place_order_ack (pw_order_id pw) outcome (rt_native R) of
        (Inl e, B) \<Rightarrow> R\<lparr>rt_native := B\<rparr>
      | (Inr oid, B) \<Rightarrow>
          publish_event (place_ack_event oid (pw_cmd pw) now)
            (R\<lparr>rt_native := snd (drain_wire_timing oid B),
               rt_latency := push_place_latency recv_ns send_ns ack_ns (pw_cmd pw) (rt_latency R)\<rparr>))"

definition handle_cancel :: "deps \<Rightarrow> bool \<Rightarrow> bytes \<Rightarrow> runtime \<Rightarrow> runtime" where
  "handle_cancel dp write_ok body R =
     (case Option.bind (dp_unpack dp body) cancel_cmd_of of
        None \<Rightarrow> R
      | Some oid \<Rightarrow>
          if rt_mode R = Shadow then R
          else if recently_terminated R oid \<noteq> None
            then R\<lparr>stale_cancel_dropped := stale_cancel_dropped R + 1\<rparr>
          else R\<lparr>rt_native := snd (cancel_order (dp_fmt dp) write_ok oid (rt_native R))\<rparr>)"

record modify_wait =
  mw_cmd :: modify_cmd
  mw_order_id :: i32
  mw_waiter :: nat

definition handle_modify ::
  "deps \<Rightarrow> bool \<Rightarrow> u64 \<Rightarrow> date_time \<Rightarrow> bytes \<Rightarrow> runtime \<Rightarrow> modify_wait option \<times> runtime" where
  "handle_modify dp write_ok now utc body R =
     (case Option.bind (dp_unpack dp body) modify_cmd_of of
        None \<Rightarrow> (None, R)
      | Some cmd \<Rightarrow>
          if rt_mode R = Shadow then (None, R)
          else if recently_terminated R (mc_order_id cmd) \<noteq> None
            then (None, R\<lparr>stale_modify_dropped := stale_modify_dropped R + 1\<rparr>)
          else case modify_order (dp_fmt dp) (dp_chrono dp) write_ok now (mc_order_id cmd)
                 \<lparr>mo_price = mc_price cmd, mo_qty = mc_qty cmd,
                  mo_gtd_until = map_option (gtd_after utc) (mc_gtd_seconds cmd)\<rparr> (rt_native R) of
              (Inl e, B) \<Rightarrow> (None, R\<lparr>rt_native := B\<rparr>)
            | (Inr (oid, w), B) \<Rightarrow>
                (Some \<lparr>mw_cmd = cmd, mw_order_id = oid, mw_waiter = w\<rparr>, R\<lparr>rt_native := B\<rparr>))"

definition push_modify_rtt :: "u64 \<Rightarrow> u64 \<Rightarrow> latency_samples \<Rightarrow> latency_samples" where
  "push_modify_rtt send_ns ack_ns l =
     l\<lparr>modify_rtt_us := push_bounded (saturating_sub ack_ns send_ns div 1000) (modify_rtt_us l)\<rparr>"

text \<open>When no strict acknowledgement is there yet, a task polls for it: \<open>late_strict_ack\<close> is one poll.\<close>

definition late_strict_ack :: "u64 \<Rightarrow> u64 \<Rightarrow> runtime \<Rightarrow> bool \<times> runtime" where
  "late_strict_ack send_ns oid R =
     (case drain_strict_amend_ack_ns oid (rt_native R) of
        (None, B) \<Rightarrow> (False, R\<lparr>rt_native := B\<rparr>)
      | (Some ack, B) \<Rightarrow> (True, R\<lparr>rt_native := B, rt_latency := push_modify_rtt send_ns ack (rt_latency R)\<rparr>))"

definition handle_modify_done ::
  "u64 \<Rightarrow> u64 \<Rightarrow> modify_wait \<Rightarrow> (broker_error + unit) waited \<Rightarrow> runtime \<Rightarrow> runtime" where
  "handle_modify_done recv_ns send_ns mw outcome R =
     (case modify_order_ack (mw_order_id mw) outcome (rt_native R) of
        (Inl e, B) \<Rightarrow> R\<lparr>rt_native := B\<rparr>
      | (Inr _, B) \<Rightarrow>
          let cmd = mw_cmd mw; oid = mc_order_id cmd;
              trigger = (case mc_trigger cmd of Some t \<Rightarrow> t | None \<Rightarrow> recv_ns);
              R1 = R\<lparr>rt_native := snd (drain_wire_timing oid B),
                rt_latency := (rt_latency R)\<lparr>ttt_us := push_bounded (saturating_sub send_ns trigger div 1000) (ttt_us (rt_latency R))\<rparr>\<rparr>
          in snd (late_strict_ack send_ns oid R1))"


text \<open>Every frame of the trader counts as a sign of life; orders are handled in tasks of their own.\<close>

datatype command = PlaceCommand | CancelCommand | ModifyCommand | WelcomeCommand | OtherCommand

definition dispatch_command :: "u64 \<Rightarrow> server_command \<Rightarrow> runtime \<Rightarrow> command \<times> runtime" where
  "dispatch_command now cmd R =
     (if kind cmd = ''place_order'' then PlaceCommand
      else if kind cmd = ''cancel_order'' then CancelCommand
      else if kind cmd = ''modify_order'' then ModifyCommand
      else if kind cmd = ''welcome'' then WelcomeCommand
      else OtherCommand, R\<lparr>last_trader_msg_ns := now\<rparr>)"

text \<open>The sources of the active kills as \<^verbatim>\<open>publish_hello\<close> sends them.\<close>

definition hello_kills :: "runtime \<Rightarrow> string list" where
  "hello_kills R = (case killed (rt_risk R) of Some ev \<Rightarrow> [label (source ev)] | None \<Rightarrow> [])"

definition publish_kill :: "deps \<Rightarrow> kill_event \<Rightarrow> runtime \<Rightarrow> runtime" where
  "publish_kill dp ev = publish_event (kill_event_msg (dp_text dp) ev)"

definition forward_status :: "order_status_update \<Rightarrow> runtime \<Rightarrow> runtime" where
  "forward_status u = publish_event (order_status_event (su_order_id u) (su_status u) (su_filled_qty u)
     (su_remaining_qty u) (su_avg_fill_price u) (su_last_fill_price u) (su_time u) (su_reject_reason u))"

subsection \<open>The risk state\<close>

definition HEDGE_STATE_MAX_AGE_NS :: u64 where "HEDGE_STATE_MAX_AGE_NS = 300000000000"
definition MARGIN_CACHE_MAX_AGE_NS :: u64 where "MARGIN_CACHE_MAX_AGE_NS = 60000000000"

text \<open>A stale hedge counts as none.  The sum of the \<^verbatim>\<open>i64\<close> values wraps in release builds.\<close>

definition trusted_hedge_delta :: "u64 \<Rightarrow> hedge_fanout \<Rightarrow> i64" where
  "trusted_hedge_delta now ms =
     sum_list (map (\<lambda>m. if is_fresh (hm_state m) now HEDGE_STATE_MAX_AGE_NS then scast (hedge_qty (hm_state m)) else 0) ms)"

definition margin_pct_of :: "u64 \<Rightarrow> runtime \<Rightarrow> f64" where
  "margin_pct_of now R =
     (let a = rt_account R;
          fresh = (0 < as_time a \<and> saturating_sub now (as_time a) \<le> MARGIN_CACHE_MAX_AGE_NS)
      in if \<not> fresh then lit 1
         else if 0 < rt_capital R then as_maintenance_margin a / rt_capital R else 0)"

definition risk_state_of_runtime :: "u64 \<Rightarrow> runtime \<Rightarrow> risk_state_event" where
  "risk_state_of_runtime now R =
     (let tot = fst (aggregate (rt_portfolio R)); h = trusted_hedge_delta now (rt_hedge R) in
      \<lparr>re_ts_ns = now, re_margin_usd = as_maintenance_margin (rt_account R), re_margin_pct = margin_pct_of now R,
       re_options_delta = net_delta tot, re_hedge_delta = h, re_effective_delta = net_delta tot + i64_as_f64 h,
       re_theta = net_theta tot, re_vega = net_vega tot, re_gamma = net_gamma tot,
       re_total_contracts = sum_list (map (\<lambda>p. scast (abs_i32 (p_quantity p))) (portfolio.positions (rt_portfolio R))),
       re_n_positions = gross_positions tot\<rparr>)"

definition periodic_risk_state :: "u64 \<Rightarrow> runtime \<Rightarrow> runtime" where
  "periodic_risk_state now R = publish_event (risk_state_named (risk_state_of_runtime now R)) R"

subsection \<open>Order statuses\<close>

definition RECENTLY_TERMINATED_TTL_NS :: u64 where "RECENTLY_TERMINATED_TTL_NS = 60000000000"

definition status_terminal :: "order_status \<Rightarrow> bool" where
  "status_terminal st \<longleftrightarrow> st \<in> {Filled, Cancelled, RejectedStatus, Inactive}"

definition pump_status :: "u64 \<Rightarrow> order_status_update \<Rightarrow> runtime \<Rightarrow> runtime" where
  "pump_status now u R =
     (if status_terminal (su_status u)
      then R\<lparr>seen_orders := seen_orders R - {su_order_id u},
             recently_terminated := (recently_terminated R)(su_order_id u \<mapsto> now)\<rparr>
      else R\<lparr>seen_orders := insert (su_order_id u) (seen_orders R)\<rparr>)"

definition terminated_evict :: "u64 \<Rightarrow> runtime \<Rightarrow> runtime" where
  "terminated_evict now R =
     R\<lparr>recently_terminated := (\<lambda>oid. case recently_terminated R oid of
         Some ts \<Rightarrow> if saturating_sub now ts < RECENTLY_TERMINATED_TTL_NS then Some ts else None
       | None \<Rightarrow> None)\<rparr>"

subsection \<open>Kills\<close>

text \<open>The cancels run concurrently; \<open>cancels\<close> gives their order and which writes succeed.\<close>

definition resting_ids_of :: "i32 list \<Rightarrow> runtime \<Rightarrow> u64 list" where
  "resting_ids_of keys R = map ord_id (filter (\<lambda>o'. 0 < ord_remaining_qty o') (open_orders_of keys (rt_native R)))"

definition cancel_all_resting :: "deps \<Rightarrow> i32 list \<Rightarrow> bool list \<Rightarrow> runtime \<Rightarrow> runtime" where
  "cancel_all_resting dp keys oks R =
     fold (\<lambda>(oid, ok) R. R\<lparr>rt_native := snd (cancel_order (dp_fmt dp) ok oid (rt_native R))\<rparr>)
       (zip (resting_ids_of keys R) (oks @ replicate (length keys) False)) R"

text \<open>What every kill does once it has fired.\<close>

definition act_on_kill :: "deps \<Rightarrow> i32 list \<Rightarrow> bool list \<Rightarrow> risk_outcome \<Rightarrow> runtime \<Rightarrow> runtime" where
  "act_on_kill dp keys oks outcome R =
     (case outcome of
        Killed ev \<Rightarrow> cancel_all_resting dp keys oks (publish_kill dp ev R)
      | _ \<Rightarrow> R)"

definition periodic_risk_check :: "deps \<Rightarrow> u64 \<Rightarrow> sentinel_dir \<Rightarrow> i32 list \<Rightarrow> bool list \<Rightarrow> runtime \<Rightarrow> runtime \<times> sentinel_dir" where
  "periodic_risk_check dp now dir keys oks R =
     (case check now dir (rt_portfolio R) (as_maintenance_margin (rt_account R)) (view_of (rt_market R))
        (rt_hedge R) (rt_risk R) of
        (outcome, m, dir') \<Rightarrow> (act_on_kill dp keys oks outcome (R\<lparr>rt_risk := m\<rparr>), dir'))"

text \<open>The worst greeks over the products, with \<open>per\<close> in the iteration order of the map.\<close>

definition worst_step :: "(string \<Rightarrow> i32 option) \<Rightarrow> string \<times> portfolio_greeks \<Rightarrow> f64 \<times> f64 \<times> f64 \<times> f64 \<Rightarrow> f64 \<times> f64 \<times> f64 \<times> f64" where
  "worst_step hedge_qty_by_product = (\<lambda>(prd, g) (wd, wt, wv, hq).
     let hedge_qty = (case hedge_qty_by_product prd of Some q \<Rightarrow> q | None \<Rightarrow> 0);
         d = net_delta g + i32_as_f64 hedge_qty;
         (wd', hq') = (if \<bar>wd\<bar> < \<bar>d\<bar> then (d, i32_as_f64 hedge_qty) else (wd, hq));
         wt' = (if net_theta g < wt then net_theta g else wt);
         wv' = (if \<bar>wv\<bar> < \<bar>net_vega g\<bar> then net_vega g else wv)
     in (wd', wt', wv', hq'))"

definition worst_per_product :: "(string \<Rightarrow> i32 option) \<Rightarrow> (string \<times> portfolio_greeks) list \<Rightarrow> f64 \<times> f64 \<times> f64 \<times> f64" where
  "worst_per_product hedge_qty_by_product per = fold (worst_step hedge_qty_by_product) per (0, 0, 0, 0)"

subsection \<open>Fills\<close>

text \<open>\<^verbatim>\<open>for_product_mut\<close>: the first manager of the product.\<close>

fun at_product :: "string \<Rightarrow> (hedge_manager \<Rightarrow> 'a \<times> hedge_manager) \<Rightarrow> hedge_fanout \<Rightarrow> 'a option \<times> hedge_fanout" where
  "at_product prd f [] = (None, [])"
| "at_product prd f (m # ms) =
     (if hc_product (hm_cfg m) = prd then (Some (fst (f m)), snd (f m) # ms)
      else (fst (at_product prd f ms), m # snd (at_product prd f ms)))"

fun offer_hedge :: "u64 \<Rightarrow> fill \<Rightarrow> string list \<Rightarrow> hedge_fanout \<Rightarrow> bool \<times> hedge_fanout" where
  "offer_hedge now f [] ms = (False, ms)"
| "offer_hedge now f (prd # ps) ms =
     (case at_product prd (apply_broker_fill now f) ms of
        (Some True, ms') \<Rightarrow> (True, ms')
      | (_, ms') \<Rightarrow> offer_hedge now f ps ms')"

text \<open>The option a fill belongs to; \<open>prods\<close> and \<open>keys\<close> are the iteration orders of the registry and of the options.\<close>

fun find_leg :: "option_key list \<Rightarrow> market_state \<Rightarrow> u64 \<Rightarrow> string list \<Rightarrow> (string \<times> option_tick) option" where
  "find_leg keys s iid [] = None"
| "find_leg keys s iid (prd # ps) =
     (case find (\<lambda>t. ot_instrument t = Some iid) (options_for_product keys s prd) of
        Some t \<Rightarrow> Some (prd, t)
      | None \<Rightarrow> find_leg keys s iid ps)"

definition signed_qty :: "fill \<Rightarrow> i32" where
  "signed_qty f = (case fill_side f of Buy \<Rightarrow> fill_qty f | Sell \<Rightarrow> - fill_qty f)"

definition leg_fill :: "string \<Rightarrow> option_tick \<Rightarrow> fill \<Rightarrow> fill_args" where
  "leg_fill prd t f = \<lparr>fl_product = prd, fl_strike = ot_strike t, fl_expiry = ot_expiry t, fl_right = ot_right t,
     fl_quantity = signed_qty f, fl_price = fill_price f, fl_spread = 0, fl_spread_mid = 0\<rparr>"

definition hedge_mark :: "runtime \<Rightarrow> string \<Rightarrow> f64" where
  "hedge_mark R prd =
     (case state_hedge_underlying_price (rt_market R) prd of
        Some p \<Rightarrow> p
      | None \<Rightarrow> (case state_underlying_price (rt_market R) prd of Some p \<Rightarrow> p | None \<Rightarrow> 0))"

definition hedge_req :: "string option \<Rightarrow> contract \<Rightarrow> bool \<Rightarrow> u32 \<Rightarrow> string \<Rightarrow> place_order_req" where
  "hedge_req account c is_buy qty why =
     \<lparr>po_contract = c, po_side = (if is_buy then Buy else Sell), po_qty = qty, po_order_type = Market,
      po_price = None, po_tif = Ioc, po_gtd_until = None, po_client_ref = ''corsair_hedge_'' @ why,
      po_account = account\<rparr>"

text \<open>Up to the wait for the acknowledgement, whose outcome is only logged.\<close>

definition place_hedge_order ::
  "deps \<Rightarrow> (nat \<Rightarrow> client \<Rightarrow> client) \<Rightarrow> bool \<Rightarrow> u64 \<Rightarrow> string \<Rightarrow> bool \<Rightarrow> u32 \<Rightarrow> string \<Rightarrow> runtime \<Rightarrow> runtime" where
  "place_hedge_order dp env write_ok now prd is_buy qty why R =
     (case Option.bind (for_product (rt_hedge R) prd) hedge_contract of
        None \<Rightarrow> R
      | Some c \<Rightarrow>
          if hedge_mark R prd \<le> 0 then R
          else R\<lparr>rt_native := snd (place_order (dp_fmt dp) (dp_chrono dp) env write_ok now
                 (hedge_req (rt_ibkr_account R) c is_buy qty why) (rt_native R))\<rparr>)"

definition act_on_hedge ::
  "deps \<Rightarrow> (nat \<Rightarrow> client \<Rightarrow> client) \<Rightarrow> bool \<Rightarrow> u64 \<Rightarrow> string \<Rightarrow> hedge_action \<Rightarrow> runtime \<Rightarrow> runtime" where
  "act_on_hedge dp env write_ok now prd act R =
     (case act of
        Place is_buy qty why pre target \<Rightarrow>
          if rt_mode R = Live then place_hedge_order dp env write_ok now prd is_buy qty why R else R
      | _ \<Rightarrow> R)"

record fill_env =
  fe_now :: u64
  fe_utc :: date_time
  fe_products :: "string list"
  fe_options :: "option_key list"
  fe_open_keys :: "i32 list"
  fe_cancel_oks :: "bool list"
  fe_alloc :: "nat \<Rightarrow> client \<Rightarrow> client"
  fe_write_ok :: bool

definition handle_option_fill :: "deps \<Rightarrow> fill_env \<Rightarrow> string \<Rightarrow> option_tick \<Rightarrow> fill \<Rightarrow> runtime \<Rightarrow> runtime option" where
  "handle_option_fill dp x prd t f R =
     do { (_, pf) \<leftarrow> add_fill (fe_utc x) (rt_portfolio R) (leg_fill prd t f);
          let R1 = R\<lparr>rt_portfolio := pf\<rparr>;
          let (outcome, m) = check_daily_pnl_only (fe_now x) pf (view_of (rt_market R1)) (rt_hedge R1) (rt_risk R1);
          let R2 = act_on_kill dp (fe_open_keys x) (fe_cancel_oks x) outcome (R1\<lparr>rt_risk := m\<rparr>);
          let (act, ms) = at_product prd (rebalance_on_fill (fe_now x) (rt_portfolio R2)) (rt_hedge R2);
          let R3 = R2\<lparr>rt_hedge := ms\<rparr>;
          Some (case act of
                  Some a \<Rightarrow> act_on_hedge dp (fe_alloc x) (fe_write_ok x) (fe_now x) prd a R3
                | None \<Rightarrow> R3) }"

definition handle_fill :: "deps \<Rightarrow> fill_env \<Rightarrow> fill \<Rightarrow> runtime \<Rightarrow> runtime option" where
  "handle_fill dp x f R =
     (let (taken, ms) = offer_hedge (fe_now x) f (map (hc_product \<circ> hm_cfg) (rt_hedge R)) (rt_hedge R);
          R1 = R\<lparr>rt_hedge := ms\<rparr> in
      if taken then Some R1
      else case find_leg (fe_options x) (rt_market R1) (fill_instrument f) (fe_products x) of
          None \<Rightarrow> Some R1
        | Some (prd, t) \<Rightarrow> handle_option_fill dp x prd t f R1)"

end
