(* ===== verification/Broker_Commands.thy ===== *)
theory Broker_Commands
  imports Broker_Runtime Ibkr_Waiters
begin

section \<open>Commands and order statuses in the broker daemon\<close>

text \<open>
  The steps of the daemon around orders as an inductive relation: a handler of a command of the trader, an order
  status, a fill, the periodic risk check and risk state, a message of the gateway, a tick.  The other tasks
  (hedging, watchdog, errors, connection, account, subscriptions) are added in \<open>Broker_Shadow\<close>; none of them
  touches the table of terminated orders.
\<close>

inductive rt_step :: "deps \<Rightarrow> u64 \<Rightarrow> runtime \<Rightarrow> runtime \<Rightarrow> bool" for dp now where
  status: "rt_step dp now R (pump_status now u R)"
| evict: "rt_step dp now R (terminated_evict now R)"
| place: "rt_step dp now R (snd (handle_place dp env ok now utc body R))"
| placed: "rt_step dp now R (handle_place_done r s a now pw outcome R)"
| cancel: "rt_step dp now R (handle_cancel dp ok body R)"
| modify: "rt_step dp now R (snd (handle_modify dp ok now utc body R))"
| modified: "rt_step dp now R (handle_modify_done r s mw outcome R)"
| late: "rt_step dp now R (snd (late_strict_ack s oid R))"
| command: "rt_step dp now R (snd (dispatch_command now cmd R))"
| fill: "handle_fill dp x f R = Some R' \<Longrightarrow> rt_step dp now R R'"
| risk_check: "rt_step dp now R (fst (periodic_risk_check dp now dir keys oks R))"
| risk_state: "rt_step dp now R (periodic_risk_state now R)"
| forward: "rt_step dp now R (forward_status u R)"
| gateway: "rt_step dp now R (R\<lparr>rt_native := dispatch_one (dp_chrono dp) now (rt_native R)\<rparr>)"
| tick: "rt_step dp now R (R\<lparr>rt_market := pump_tick t (rt_market R)\<rparr>)"
| depth: "rt_step dp now R (R\<lparr>rt_market := pump_depth d (rt_market R)\<rparr>)"

text \<open>A run whose steps all happen at times that satisfy \<open>ok\<close>.\<close>

inductive rt_run :: "deps \<Rightarrow> (u64 \<Rightarrow> bool) \<Rightarrow> runtime \<Rightarrow> runtime \<Rightarrow> bool" for dp ok R0 where
  start: "rt_run dp ok R0 R0"
| step: "rt_run dp ok R0 R \<Longrightarrow> ok now \<Longrightarrow> rt_step dp now R R' \<Longrightarrow> rt_run dp ok R0 R'"

subsection \<open>What the handlers leave alone\<close>

lemma publish_event_simps [simp]:
  "recently_terminated (publish_event ev R) = recently_terminated R" "rt_native (publish_event ev R) = rt_native R"
  "rt_mode (publish_event ev R) = rt_mode R" "rt_portfolio (publish_event ev R) = rt_portfolio R"
  "rt_hedge (publish_event ev R) = rt_hedge R"
  by (simp_all add: publish_event_def)

lemma cancel_all_resting_simps [simp]:
  "recently_terminated (cancel_all_resting dp keys oks R) = recently_terminated R"
  "rt_mode (cancel_all_resting dp keys oks R) = rt_mode R"
  "rt_portfolio (cancel_all_resting dp keys oks R) = rt_portfolio R"
  "rt_hedge (cancel_all_resting dp keys oks R) = rt_hedge R"
proof -
  have "recently_terminated (fold (\<lambda>(oid, ok) R. R\<lparr>rt_native := g oid ok R\<rparr>) xs R) = recently_terminated R \<and>
    rt_mode (fold (\<lambda>(oid, ok) R. R\<lparr>rt_native := g oid ok R\<rparr>) xs R) = rt_mode R \<and>
    rt_portfolio (fold (\<lambda>(oid, ok) R. R\<lparr>rt_native := g oid ok R\<rparr>) xs R) = rt_portfolio R \<and>
    rt_hedge (fold (\<lambda>(oid, ok) R. R\<lparr>rt_native := g oid ok R\<rparr>) xs R) = rt_hedge R"
    for g :: "u64 \<Rightarrow> bool \<Rightarrow> runtime \<Rightarrow> native_broker" and xs R
    by (induction xs arbitrary: R) auto
  from this [of "\<lambda>oid ok R. snd (cancel_order (dp_fmt dp) ok oid (rt_native R))"]
  show "recently_terminated (cancel_all_resting dp keys oks R) = recently_terminated R"
    "rt_mode (cancel_all_resting dp keys oks R) = rt_mode R"
    "rt_portfolio (cancel_all_resting dp keys oks R) = rt_portfolio R"
    "rt_hedge (cancel_all_resting dp keys oks R) = rt_hedge R"
    by (simp_all add: cancel_all_resting_def)
qed

lemma act_on_kill_simps [simp]:
  "recently_terminated (act_on_kill dp keys oks ev R) = recently_terminated R"
  "rt_mode (act_on_kill dp keys oks ev R) = rt_mode R"
  "rt_portfolio (act_on_kill dp keys oks ev R) = rt_portfolio R"
  "rt_hedge (act_on_kill dp keys oks ev R) = rt_hedge R"
  by (simp_all add: act_on_kill_def publish_kill_def split: risk_outcome.split)

lemma act_on_hedge_simps [simp]:
  "recently_terminated (act_on_hedge dp env ok now prd a R) = recently_terminated R"
  "rt_mode (act_on_hedge dp env ok now prd a R) = rt_mode R"
  "rt_portfolio (act_on_hedge dp env ok now prd a R) = rt_portfolio R"
  "rt_hedge (act_on_hedge dp env ok now prd a R) = rt_hedge R"
  by (simp_all add: act_on_hedge_def place_hedge_order_def split: hedge_action.split option.split)

lemma handle_fill_keeps:
  assumes "handle_fill dp x f R = Some R'"
  shows "recently_terminated R' = recently_terminated R" "rt_mode R' = rt_mode R"
  using assms
  by (auto simp: handle_fill_def handle_option_fill_def Let_def split: prod.splits if_splits option.splits bind_splits)

lemma late_strict_ack_keeps:
  "recently_terminated (snd (late_strict_ack s oid R)) = recently_terminated R"
  "rt_mode (snd (late_strict_ack s oid R)) = rt_mode R"
  by (simp_all add: late_strict_ack_def split: prod.split option.split)

lemma step_terminated:
  assumes "rt_step dp now R R'"
  shows "recently_terminated R' = recently_terminated R \<or> R' = terminated_evict now R \<or>
    (\<exists>oid. recently_terminated R' = (recently_terminated R)(oid \<mapsto> now))"
  using assms
proof cases
  case (modified r s mw outcome)
  then show ?thesis
    by (auto simp: handle_modify_done_def Let_def late_strict_ack_keeps split: prod.split sum.split)
qed (auto simp: pump_status_def handle_place_def handle_place_done_def handle_cancel_def handle_modify_def
    late_strict_ack_keeps dispatch_command_def handle_fill_keeps periodic_risk_check_def periodic_risk_state_def
    forward_status_def split: option.splits prod.splits sum.splits if_splits)

subsection \<open>Terminated orders\<close>

lemma saturating_sub_antimono:
  fixes a b c :: u64
  assumes "b \<le> c"
  shows "saturating_sub a c \<le> saturating_sub a b"
  using assms by (auto simp: saturating_sub_def word_le_nat_alt word_less_nat_alt unat_sub_if')

lemma terminated_kept:
  assumes "rt_step dp now R R'" "t0 \<le> now" "saturating_sub now t0 < RECENTLY_TERMINATED_TTL_NS"
    and "recently_terminated R oid = Some ts" "t0 \<le> ts"
  shows "\<exists>ts'. recently_terminated R' oid = Some ts' \<and> t0 \<le> ts'"
proof -
  from step_terminated [OF assms(1)] consider "recently_terminated R' = recently_terminated R" | "R' = terminated_evict now R"
    | oid' where "recently_terminated R' = (recently_terminated R)(oid' \<mapsto> now)" by blast
  then show ?thesis
  proof cases
    case 2
    have "saturating_sub now ts < RECENTLY_TERMINATED_TTL_NS"
      using saturating_sub_antimono [OF assms(5)] assms(3) by (rule order_le_less_trans)
    with 2 assms(4,5) show ?thesis by (simp add: terminated_evict_def)
  qed (use assms in \<open>auto split: if_splits\<close>)
qed

lemma terminated_kept_run:
  assumes "rt_run dp (\<lambda>now. t0 \<le> now \<and> saturating_sub now t0 < RECENTLY_TERMINATED_TTL_NS) R0 R"
    and "recently_terminated R0 oid = Some ts" "t0 \<le> ts"
  shows "\<exists>ts'. recently_terminated R oid = Some ts' \<and> t0 \<le> ts'"
  using assms
proof (induction rule: rt_run.induct)
  case (step R now R')
  then obtain ts' where "recently_terminated R oid = Some ts'" "t0 \<le> ts'" by blast
  with step show ?case using terminated_kept [of dp now R R' t0 oid ts'] by blast
qed blast

text \<open>
  \<^bold>\<open>C19.\<close> Once the daemon has seen a terminal status of an order, then for the next sixty seconds, whatever
  else it does in between, a modify or cancel command of the trader for that order changes nothing but the
  counter of dropped commands: nothing is sent to the gateway and nobody waits for an answer.
\<close>

theorem terminated_orders_left_alone:
  assumes "status_terminal (su_status u)"
    and "rt_run dp (\<lambda>now. t0 \<le> now \<and> saturating_sub now t0 < RECENTLY_TERMINATED_TTL_NS) (pump_status t0 u R0) R"
    and "Option.bind (dp_unpack dp body) modify_cmd_of = Some cmd" "mc_order_id cmd = su_order_id u"
    and "Option.bind (dp_unpack dp body') cancel_cmd_of = Some (su_order_id u)"
    and "rt_mode R = Live"
  shows "handle_modify dp ok now utc body R = (None, R\<lparr>stale_modify_dropped := stale_modify_dropped R + 1\<rparr>) \<and>
    handle_cancel dp ok' body' R = R\<lparr>stale_cancel_dropped := stale_cancel_dropped R + 1\<rparr>"
proof -
  have "recently_terminated (pump_status t0 u R0) (su_order_id u) = Some t0"
    using assms(1) by (simp add: pump_status_def)
  from terminated_kept_run [OF assms(2) this order_refl]
  have "recently_terminated R (su_order_id u) \<noteq> None" by blast
  with assms(3-6) show ?thesis by (simp add: handle_modify_def handle_cancel_def)
qed

subsection \<open>Shadow mode\<close>

definition wire_of :: "runtime \<Rightarrow> bytes" where
  "wire_of R = wire (nb_client (rt_native R))"

lemma route_client [simp]: "nb_client (route D now ns msg B) = nb_client B"
  by (auto simp: route_def route_position_def route_open_order_def route_order_status_def route_execution_def
      route_execution_end_def route_contract_details_def route_contract_details_end_def route_tick_price_def
      route_tick_size_def route_market_depth_def route_error_def resolve_place_def fail_contracts_def publish_tick_def
      emit_def Let_def split: inbound_msg.split option.split)

lemma dispatch_one_wire: "wire (nb_client (dispatch_one D now B)) = wire (nb_client B)"
  by (auto simp: dispatch_one_def Let_def split: list.split prod.split parsed.split)

lemma cancel_order_wire:
  "wire (nb_client (snd (cancel_order F ok oid B))) = wire (nb_client B) \<or>
   wire (nb_client (snd (cancel_order F ok oid B))) = wire (nb_client B) @ cancel_order_frame F (ucast oid)"
  by (auto simp: cancel_order_def nb_send_def send_raw_def split: prod.split sum.split)

text \<open>Bytes added to the wire that are cancellations only.\<close>

definition only_cancels :: "fmt \<Rightarrow> bytes \<Rightarrow> bytes \<Rightarrow> bool" where
  "only_cancels F before after \<longleftrightarrow> (\<exists>ids. after = before @ concat (map (cancel_order_frame F) ids))"

lemma only_cancels_refl [simp]: "only_cancels F b b"
  by (auto simp: only_cancels_def intro: exI [of _ "[]"])

lemma only_cancels_trans: "only_cancels F a b \<Longrightarrow> only_cancels F b c \<Longrightarrow> only_cancels F a c"
  unfolding only_cancels_def by (metis append.assoc concat_append map_append)

lemma cancel_order_only: "only_cancels F (wire (nb_client B)) (wire (nb_client (snd (cancel_order F ok oid B))))"
  using cancel_order_wire [of F ok oid B]
proof
  assume "wire (nb_client (snd (cancel_order F ok oid B))) = wire (nb_client B) @ cancel_order_frame F (ucast oid)"
  then show ?thesis by (auto simp: only_cancels_def intro!: exI [of _ "[ucast oid]"])
qed simp

lemma cancel_all_only: "only_cancels (dp_fmt dp) (wire_of R) (wire_of (cancel_all_resting dp keys oks R))"
proof -
  have "only_cancels (dp_fmt dp) (wire_of R)
      (wire_of (fold (\<lambda>(oid, ok) R. R\<lparr>rt_native := snd (cancel_order (dp_fmt dp) ok oid (rt_native R))\<rparr>) xs R))" for xs R
  proof (induction xs arbitrary: R)
    case (Cons x xs)
    obtain oid ok where x: "x = (oid, ok)" by fastforce
    let ?R = "R\<lparr>rt_native := snd (cancel_order (dp_fmt dp) ok oid (rt_native R))\<rparr>"
    have "only_cancels (dp_fmt dp) (wire_of R) (wire_of ?R)" by (simp add: wire_of_def cancel_order_only)
    from only_cancels_trans [OF this Cons.IH] show ?case by (simp add: x)
  qed simp
  then show ?thesis by (simp add: cancel_all_resting_def)
qed

lemma act_on_kill_only: "only_cancels (dp_fmt dp) (wire_of R) (wire_of (act_on_kill dp keys oks out' R))"
  using cancel_all_only [of dp "publish_kill dp _ R" keys oks]
  by (auto simp: act_on_kill_def publish_kill_def wire_of_def split: risk_outcome.split)

lemma upd_client_wire:
  "wire (nb_client (snd (place_order_ack i o' B))) = wire (nb_client B)"
  "wire (nb_client (snd (modify_order_ack i o' B))) = wire (nb_client B)"
  "wire (nb_client (snd (drain_wire_timing j B))) = wire (nb_client B)"
  "wire (nb_client (snd (drain_strict_amend_ack_ns j B))) = wire (nb_client B)"
  by (auto simp: place_order_ack_def modify_order_ack_def drain_wire_timing_def drain_strict_amend_ack_ns_def Let_def
      split: waited.split sum.split option.split)

lemma late_strict_ack_wire: "wire_of (snd (late_strict_ack s oid R)) = wire_of R"
  using upd_client_wire(4) [of oid "rt_native R"]
  by (auto simp: late_strict_ack_def wire_of_def split: prod.split option.split)

lemma placed_wire: "wire_of (handle_place_done r s a now pw outcome R) = wire_of R"
  using upd_client_wire(1) [of "pw_order_id pw" outcome "rt_native R"]
  by (auto simp: handle_place_done_def wire_of_def upd_client_wire(3) split: prod.split sum.split)

lemma modified_wire: "wire_of (handle_modify_done r s mw outcome R) = wire_of R"
  using upd_client_wire(2) [of "mw_order_id mw" outcome "rt_native R"]
  by (auto simp: handle_modify_done_def Let_def late_strict_ack_wire upd_client_wire(3) split: prod.split sum.split)
    (simp_all add: wire_of_def upd_client_wire(3))

lemma shadow_fill:
  assumes "handle_fill dp x f R = Some R'" "rt_mode R = Shadow"
  shows "only_cancels (dp_fmt dp) (wire_of R) (wire_of R')"
proof -
  obtain taken ms where o: "offer_hedge (fe_now x) f (map (hc_product \<circ> hm_cfg) (rt_hedge R)) (rt_hedge R) = (taken, ms)"
    by fastforce
  define R1 where "R1 = R\<lparr>rt_hedge := ms\<rparr>"
  have w: "wire_of R1 = wire_of R" "rt_mode R1 = Shadow" by (simp_all add: R1_def wire_of_def assms)
  show ?thesis
  proof (cases "taken \<or> find_leg (fe_options x) (rt_market R1) (fill_instrument f) (fe_products x) = None")
    case True
    then have "R' = R1" using assms(1) by (auto simp: handle_fill_def o R1_def Let_def split: if_splits)
    then show ?thesis by (simp add: w)
  next
    case False
    then obtain prd t where l: "find_leg (fe_options x) (rt_market R1) (fill_instrument f) (fe_products x) = Some (prd, t)"
      by auto
    with False assms(1) have "handle_option_fill dp x prd t f R1 = Some R'" by (simp add: handle_fill_def o R1_def)
    then obtain pf outcome m act ms' where a:
      "R' = (case act of Some a \<Rightarrow> act_on_hedge dp (fe_alloc x) (fe_write_ok x) (fe_now x) prd a
           (act_on_kill dp (fe_open_keys x) (fe_cancel_oks x) outcome (R1\<lparr>rt_portfolio := pf, rt_risk := m\<rparr>)\<lparr>rt_hedge := ms'\<rparr>)
         | None \<Rightarrow> act_on_kill dp (fe_open_keys x) (fe_cancel_oks x) outcome (R1\<lparr>rt_portfolio := pf, rt_risk := m\<rparr>)\<lparr>rt_hedge := ms'\<rparr>)"
      by (auto simp: handle_option_fill_def Let_def split: bind_splits prod.splits)
    let ?R2 = "act_on_kill dp (fe_open_keys x) (fe_cancel_oks x) outcome (R1\<lparr>rt_portfolio := pf, rt_risk := m\<rparr>)"
    have "wire_of R' = wire_of ?R2"
      by (cases act) (simp_all add: a wire_of_def act_on_hedge_def w(2) split: hedge_action.split)
    moreover have "wire_of (R1\<lparr>rt_portfolio := pf, rt_risk := m\<rparr>) = wire_of R" using w(1) by (simp add: wire_of_def)
    ultimately show ?thesis using act_on_kill_only [of dp "R1\<lparr>rt_portfolio := pf, rt_risk := m\<rparr>"] by metis
  qed
qed

text \<open>
  In shadow mode a step around orders adds cancellations only to the stream to the gateway.  A kill does send
  them: the cancellation of all resting orders does not look at the mode.
\<close>

lemma rt_step_shadow:
  assumes "rt_step dp now R R'" "rt_mode R = Shadow"
  shows "only_cancels (dp_fmt dp) (wire_of R) (wire_of R') \<and> rt_mode R' = Shadow"
  using assms
proof cases
  case (fill x f)
  with assms(2) show ?thesis using shadow_fill handle_fill_keeps by simp
next
  case (risk_check dir keys oks)
  with assms(2) show ?thesis
    using act_on_kill_only [of dp "R\<lparr>rt_risk := _\<rparr>" keys oks]
    by (auto simp: periodic_risk_check_def wire_of_def split: prod.split)
qed (use assms(2) in \<open>auto simp: wire_of_def [symmetric] placed_wire modified_wire late_strict_ack_wire late_strict_ack_keeps,
    auto simp: wire_of_def dispatch_one_wire handle_place_def handle_place_done_def handle_cancel_def handle_modify_def
      handle_modify_done_def pump_status_def terminated_evict_def dispatch_command_def periodic_risk_state_def
      forward_status_def Let_def late_strict_ack_keeps split: option.splits prod.splits sum.splits\<close>)

subsection \<open>Witnesses\<close>

definition demo_runtime :: runtime where
  "demo_runtime = \<lparr>rt_mode = Live, rt_ibkr_account = Some ''DU1'', rt_capital = lit 500000,
     rt_native = new_broker ''DU1'' 0, rt_portfolio = new_portfolio Map.empty, rt_risk = demo_risk,
     rt_constraint = new_checker demo_ccfg, rt_hedge = [], seen_orders = {}, recently_terminated = Map.empty,
     stale_modify_dropped = 0, stale_cancel_dropped = 0, rt_market = new_market, contract_by_key = Map.empty,
     rt_account = \<lparr>as_net_liquidation = 0, as_maintenance_margin = 0, as_initial_margin = 0, as_buying_power = 0,
       as_realized_pnl_today = 0, as_time = 0\<rparr>,
     rt_latency = \<lparr>ttt_us = [], place_rtt_us = [], modify_rtt_us = []\<rparr>, published = [], last_trader_msg_ns = 0\<rparr>"

definition demo_deps :: deps where
  "demo_deps = \<lparr>dp_fmt = demo_fmt, dp_chrono = demo_chrono, dp_text = (\<lambda>_. ''text''),
     dp_unpack = (\<lambda>body. if body = [1] then Some [(''type'', MStr ''cancel_order''), (''order_id'', MU64 17)]
       else demo_unpack body)\<rparr>"

definition demo_update :: order_status_update where
  "demo_update = \<lparr>su_order_id = 17, su_status = Filled, su_filled_qty = 1, su_remaining_qty = 0,
     su_avg_fill_price = lit 1, su_last_fill_price = None, su_time = 5, su_reject_reason = None\<rparr>"

lemma demo_modify_read:
  "Option.bind (demo_unpack (encode_modify_into [] demo_modify)) modify_cmd_of =
     Some \<lparr>mc_order_id = 17, mc_price = Some (F64 3), mc_qty = None, mc_gtd_seconds = Some 30, mc_ts_ns = Some 1,
       mc_trigger = None\<rparr>"
proof -
  have "well_formed_map (modify_pairs demo_modify)"
    by (rule command_maps_well_formed(2)) (simp add: demo_modify_def)
  then have "demo_unpack (encode_modify_into [] demo_modify) = Some (modify_pairs demo_modify)"
    using demo_unpack_reads(2) by (simp add: encode_enc_map unpacks_def)
  then show ?thesis by (simp add: commands_read) (simp add: demo_modify_def)
qed

theorem terminated_orders_left_alone_witness:
  "handle_cancel demo_deps True [1] (terminated_evict 60000000004 (pump_status 5 demo_update demo_runtime)) =
     (terminated_evict 60000000004 (pump_status 5 demo_update demo_runtime))\<lparr>stale_cancel_dropped := 1\<rparr>"
proof -
  let ?R = "terminated_evict 60000000004 (pump_status 5 demo_update demo_runtime)"
  have "status_terminal (su_status demo_update)" by (simp add: demo_update_def status_terminal_def)
  moreover have "rt_run demo_deps (\<lambda>now. 5 \<le> now \<and> saturating_sub now 5 < RECENTLY_TERMINATED_TTL_NS)
      (pump_status 5 demo_update demo_runtime) ?R"
    by (rule rt_run.step [OF rt_run.start _ rt_step.evict])
      (simp add: saturating_sub_def RECENTLY_TERMINATED_TTL_NS_def)
  moreover have "encode_modify_into [] demo_modify \<noteq> [1]" by (simp add: encode_enc_map enc_map_def modify_pairs_def demo_modify_def some_pair_def)
  then have "Option.bind (dp_unpack demo_deps (encode_modify_into [] demo_modify)) modify_cmd_of =
      Some \<lparr>mc_order_id = 17, mc_price = Some (F64 3), mc_qty = None, mc_gtd_seconds = Some 30, mc_ts_ns = Some 1,
        mc_trigger = None\<rparr>"
    using demo_modify_read by (simp add: demo_deps_def)
  moreover have "Option.bind (dp_unpack demo_deps [1]) cancel_cmd_of = Some (su_order_id demo_update)"
    by (simp add: demo_deps_def cancel_cmd_of_def field_defs demo_update_def)
  moreover have "rt_mode ?R = Live" "stale_cancel_dropped ?R = 0"
    by (simp_all add: terminated_evict_def pump_status_def demo_runtime_def)
  ultimately show ?thesis
    using terminated_orders_left_alone [of demo_update demo_deps 5 demo_runtime ?R
        "encode_modify_into [] demo_modify" _ "[1]" True 0 0 True]
    by (simp add: demo_update_def)
qed

end
