(* ===== verification/Broker_Kills.thy ===== *)
theory Broker_Kills
  imports Broker_Commands Decision_Orders
begin

section \<open>Kills and risk state of the daemon\<close>

text \<open>
  The tasks of \<^verbatim>\<open>tasks.rs\<close> that fire kills, with everything they do once the monitor has fired, and the path
  of the risk state from the daemon to the gates of the trader.  The three tasks share a contract, the
  locale \<open>kill_task\<close>: a task leaves the kill alone or sets it, publishes it and cancels what rests.
\<close>

definition watchdog_tick :: "deps \<Rightarrow> u64 \<Rightarrow> u64 \<Rightarrow> i32 list \<Rightarrow> bool list \<Rightarrow> runtime \<Rightarrow> runtime" where
  "watchdog_tick dp timeout_ns now keys oks R =
     (case trader_watchdog timeout_ns (last_trader_msg_ns R) now (rt_risk R) of
        (fired, m) \<Rightarrow>
          (case (fired, killed m) of
             (True, Some ev) \<Rightarrow> act_on_kill dp keys oks (Killed ev) (R\<lparr>rt_risk := m\<rparr>)
           | _ \<Rightarrow> R\<lparr>rt_risk := m\<rparr>))"

definition error_event :: "deps \<Rightarrow> u64 \<Rightarrow> broker_error \<Rightarrow> i32 list \<Rightarrow> bool list \<Rightarrow> runtime \<Rightarrow> runtime" where
  "error_event dp now err keys oks R =
     (case pump_error now err (rt_risk R) of
        (fired, m) \<Rightarrow>
          (case (fired, killed m) of
             (True, Some ev) \<Rightarrow> act_on_kill dp keys oks (Killed ev) (R\<lparr>rt_risk := m\<rparr>)
           | _ \<Rightarrow> R\<lparr>rt_risk := m\<rparr>))"

definition connection_event :: "connection_state \<Rightarrow> runtime \<Rightarrow> runtime" where
  "connection_event cs R = R\<lparr>rt_risk := snd (pump_connection cs (rt_risk R))\<rparr>"

subsection \<open>What a kill puts on the wire\<close>

lemma cancel_order_sent:
  assumes "writer_open (nb_client B)"
  shows "nb_client (snd (cancel_order F True oid B)) =
      (nb_client B)\<lparr>wire := wire (nb_client B) @ cancel_order_frame F (ucast oid), msgs_sent := msgs_sent (nb_client B) + 1\<rparr>"
    and "nb_state (snd (cancel_order F ok oid B)) = nb_state B"
  unfolding cancel_order_def nb_send_def send_raw_def using assms by (simp_all split: if_split)

lemma cancel_each_sent:
  assumes "writer_open (nb_client (rt_native R))" "\<forall>x\<in>set xs. snd x"
  shows "wire_of (fold (\<lambda>(oid, ok) R. R\<lparr>rt_native := snd (cancel_order F ok oid (rt_native R))\<rparr>) xs R) =
      wire_of R @ concat (map (cancel_order_frame F \<circ> ucast \<circ> fst) xs)"
  using assms
proof (induction xs arbitrary: R)
  case (Cons x xs)
  obtain oid where x: "x = (oid, True)" using Cons.prems(2) by (cases x) auto
  let ?R = "R\<lparr>rt_native := snd (cancel_order F True oid (rt_native R))\<rparr>"
  have "writer_open (nb_client (rt_native ?R))" "wire_of ?R = wire_of R @ cancel_order_frame F (ucast oid)"
    using cancel_order_sent(1) [OF Cons.prems(1)] Cons.prems(1) by (simp_all add: wire_of_def)
  with Cons show ?case by (simp add: x)
qed simp

lemma resting_ids_length: "length (resting_ids_of keys R) \<le> length keys"
  unfolding resting_ids_of_def open_orders_of_def length_map
  by (rule order_trans [OF length_filter_le]) (induction keys, auto simp: map_filter_simps split: option.split)

lemma cancel_all_sent:
  assumes "writer_open (nb_client (rt_native R))" "length keys \<le> length oks" "\<forall>ok\<in>set oks. ok"
  shows "wire_of (cancel_all_resting dp keys oks R) =
      wire_of R @ concat (map (cancel_order_frame (dp_fmt dp) \<circ> ucast) (resting_ids_of keys R))"
proof -
  let ?ids = "resting_ids_of keys R" and ?oks = "oks @ replicate (length keys) False"
  have len: "length ?ids \<le> length oks" using resting_ids_length [of keys R] assms(2) by simp
  then have z: "zip ?ids ?oks = zip ?ids oks" by (simp add: zip_append2)
  have "\<forall>x\<in>set (zip ?ids oks). snd x" using assms(3) set_zip_rightD by (metis prod.collapse)
  note sent = cancel_each_sent [OF assms(1) this, of "dp_fmt dp"]
  have "map (f \<circ> fst) (zip ?ids oks) = map f ?ids" for f :: "u64 \<Rightarrow> bytes"
    using len by (metis map_fst_zip_take map_map min.absorb1 take_all_iff order_refl)
  from sent this [of "cancel_order_frame (dp_fmt dp) \<circ> ucast"] show ?thesis
    by (simp add: cancel_all_resting_def z comp_assoc)
qed

lemma cancel_all_published [simp]: "published (cancel_all_resting dp keys oks R) = published R"
  "rt_risk (cancel_all_resting dp keys oks R) = rt_risk R"
proof -
  have "published (fold (\<lambda>(oid, ok) R. R\<lparr>rt_native := g oid ok R\<rparr>) xs R) = published R \<and>
      rt_risk (fold (\<lambda>(oid, ok) R. R\<lparr>rt_native := g oid ok R\<rparr>) xs R) = rt_risk R"
    for g :: "u64 \<Rightarrow> bool \<Rightarrow> runtime \<Rightarrow> native_broker" and xs R
    by (induction xs arbitrary: R) auto
  then show "published (cancel_all_resting dp keys oks R) = published R"
    "rt_risk (cancel_all_resting dp keys oks R) = rt_risk R"
    by (simp_all add: cancel_all_resting_def)
qed

lemma resting_ids_complete:
  assumes "open_orders (nb_state (rt_native R)) k = Some ord" "0 < ord_remaining_qty ord" "k \<in> set keys"
  shows "ord_id ord \<in> set (resting_ids_of keys R)"
proof -
  have "ord \<in> set (open_orders_of keys (rt_native R))"
    using assms(1,3) by (auto simp: open_orders_of_def List.map_filter_def intro!: image_eqI [of _ _ k])
  with assms(2) show ?thesis by (auto simp: resting_ids_of_def)
qed

lemma resting_ids_update [simp]:
  "resting_ids_of keys (R\<lparr>rt_risk := m\<rparr>) = resting_ids_of keys R"
  "resting_ids_of keys (publish_event ev R) = resting_ids_of keys R"
  by (simp_all add: resting_ids_of_def)

subsection \<open>The contract of the kill tasks\<close>

locale kill_task =
  fixes dp :: deps and keys :: "i32 list" and oks :: "bool list" and task :: "runtime \<Rightarrow> runtime"
  assumes fires_or_not: "(\<exists>m. killed m = killed (rt_risk R) \<and> task R = R\<lparr>rt_risk := m\<rparr>) \<or>
    (\<exists>m ev. killed m = Some ev \<and> task R = act_on_kill dp keys oks (Killed ev) (R\<lparr>rt_risk := m\<rparr>))"
begin

lemma kill_acts:
  assumes "writer_open (nb_client (rt_native R))" "length keys \<le> length oks" "\<forall>ok\<in>set oks. ok"
    and "killed (rt_risk (task R)) \<noteq> killed (rt_risk R)"
  obtains ev where "killed (rt_risk (task R)) = Some ev"
    "published (task R) = published R @ [kill_event_msg (dp_text dp) ev]"
    "wire_of (task R) = wire_of R @ concat (map (cancel_order_frame (dp_fmt dp) \<circ> ucast) (resting_ids_of keys R))"
proof -
  from fires_or_not [of R] assms(4) obtain m ev where m: "killed m = Some ev"
    "task R = act_on_kill dp keys oks (Killed ev) (R\<lparr>rt_risk := m\<rparr>)" by auto
  have "wire_of (task R) = wire_of R @ concat (map (cancel_order_frame (dp_fmt dp) \<circ> ucast) (resting_ids_of keys R))"
    using cancel_all_sent [of "publish_kill dp ev (R\<lparr>rt_risk := m\<rparr>)" keys oks dp] assms(1-3)
    by (simp add: m(2) act_on_kill_def publish_kill_def wire_of_def)
  with m that show thesis by (simp add: act_on_kill_def publish_kill_def publish_event_def)
qed

end

lemma check_cases:
  "check now dir pf mu mv ms m = (oc, m', dir') \<Longrightarrow>
     (\<exists>ev. oc = Killed ev \<and> killed m' = Some ev) \<or> (\<forall>ev. oc \<noteq> Killed ev) \<and> m' = m"
  by (auto simp: check_def fire_def Let_def split: option.splits prod.splits if_splits)

interpretation risk_check: kill_task dp keys oks "\<lambda>R. fst (periodic_risk_check dp now dir keys oks R)" for dp keys oks now dir
proof
  fix R :: runtime
  obtain oc m dir' where c: "check now dir (rt_portfolio R) (as_maintenance_margin (rt_account R)) (view_of (rt_market R))
      (rt_hedge R) (rt_risk R) = (oc, m, dir')" by (cases "check now dir (rt_portfolio R)
      (as_maintenance_margin (rt_account R)) (view_of (rt_market R)) (rt_hedge R) (rt_risk R)") auto
  from check_cases [OF c]
  show "(\<exists>m. killed m = killed (rt_risk R) \<and> fst (periodic_risk_check dp now dir keys oks R) = R\<lparr>rt_risk := m\<rparr>) \<or>
    (\<exists>m ev. killed m = Some ev \<and>
       fst (periodic_risk_check dp now dir keys oks R) = act_on_kill dp keys oks (Killed ev) (R\<lparr>rt_risk := m\<rparr>))"
    by (auto simp: periodic_risk_check_def c act_on_kill_def split: risk_outcome.split)
qed

lemma kill_task_of_fire:
  assumes "\<And>R. fst (f R) \<Longrightarrow> killed (snd (f R)) \<noteq> None" "\<And>R. \<not> fst (f R) \<Longrightarrow> killed (snd (f R)) = killed (rt_risk R)"
  shows "kill_task dp keys oks (\<lambda>R. case f R of (fired, m) \<Rightarrow> (case (fired, killed m) of
      (True, Some ev) \<Rightarrow> act_on_kill dp keys oks (Killed ev) (R\<lparr>rt_risk := m\<rparr>) | _ \<Rightarrow> R\<lparr>rt_risk := m\<rparr>))"
proof
  fix R :: runtime
  obtain fired m where f: "f R = (fired, m)" by fastforce
  show "(\<exists>m. killed m = killed (rt_risk R) \<and> (case f R of (fired, m) \<Rightarrow> (case (fired, killed m) of
      (True, Some ev) \<Rightarrow> act_on_kill dp keys oks (Killed ev) (R\<lparr>rt_risk := m\<rparr>) | _ \<Rightarrow> R\<lparr>rt_risk := m\<rparr>)) = R\<lparr>rt_risk := m\<rparr>) \<or>
    (\<exists>m ev. killed m = Some ev \<and> (case f R of (fired, m) \<Rightarrow> (case (fired, killed m) of
      (True, Some ev) \<Rightarrow> act_on_kill dp keys oks (Killed ev) (R\<lparr>rt_risk := m\<rparr>) | _ \<Rightarrow> R\<lparr>rt_risk := m\<rparr>)) =
        act_on_kill dp keys oks (Killed ev) (R\<lparr>rt_risk := m\<rparr>))"
  proof (cases fired)
    case True
    with assms(1) [of R] f obtain ev where "killed m = Some ev" by auto
    with True f show ?thesis by (intro disjI2 exI [of _ m] exI [of _ ev]) simp
  next
    case False
    with assms(2) [of R] f show ?thesis by (intro disjI1 exI [of _ m]) simp
  qed
qed

interpretation watchdog: kill_task dp keys oks "watchdog_tick dp timeout_ns now keys oks" for dp keys oks timeout_ns now
  unfolding watchdog_tick_def [abs_def]
  by (rule kill_task_of_fire) (auto simp: trader_watchdog_def fire_def Let_def split: if_splits)

interpretation gateway_error: kill_task dp keys oks "error_event dp now err keys oks" for dp keys oks now err
  unfolding error_event_def [abs_def]
  by (rule kill_task_of_fire) (auto simp: pump_error_def fire_def Let_def split: if_splits option.splits)

definition kill_tasks :: "deps \<Rightarrow> i32 list \<Rightarrow> bool list \<Rightarrow> u64 \<Rightarrow> sentinel_dir \<Rightarrow> u64 \<Rightarrow> broker_error \<Rightarrow> (runtime \<Rightarrow> runtime) list" where
  "kill_tasks dp keys oks now dir timeout_ns err =
     [\<lambda>R. fst (periodic_risk_check dp now dir keys oks R), watchdog_tick dp timeout_ns now keys oks,
      error_event dp now err keys oks]"

text \<open>
  \<^bold>\<open>C9.\<close> When the periodic risk check, the watchdog of the trader or an error of the gateway changes the
  active kill, and the writes to the gateway succeed, then exactly one kill event is published, naming the
  kill that is active afterwards, and one cancellation is sent for every order of the cache that has a
  remaining quantity, and nothing else.
\<close>

theorem kills_cancel_resting_orders:
  assumes "task \<in> set (kill_tasks dp keys oks now dir timeout_ns err)"
    and "killed (rt_risk (task R)) \<noteq> killed (rt_risk R)"
    and "writer_open (nb_client (rt_native R))" "length keys \<le> length oks" "\<forall>ok\<in>set oks. ok"
    and "set keys = dom (open_orders (nb_state (rt_native R)))"
  shows "\<exists>ev. killed (rt_risk (task R)) = Some ev \<and>
    published (task R) = published R @ [kill_event_msg (dp_text dp) ev] \<and>
    wire_of (task R) = wire_of R @ concat (map (cancel_order_frame (dp_fmt dp) \<circ> ucast) (resting_ids_of keys R)) \<and>
    (\<forall>k ord. open_orders (nb_state (rt_native R)) k = Some ord \<and> 0 < ord_remaining_qty ord \<longrightarrow>
       ord_id ord \<in> set (resting_ids_of keys R))"
proof -
  have "kill_task dp keys oks task"
    using assms(1) risk_check.kill_task_axioms watchdog.kill_task_axioms gateway_error.kill_task_axioms
    by (auto simp: kill_tasks_def)
  from kill_task.kill_acts [OF this assms(3-5,2)]
  obtain ev where "killed (rt_risk (task R)) = Some ev" "published (task R) = published R @ [kill_event_msg (dp_text dp) ev]"
    "wire_of (task R) = wire_of R @ concat (map (cancel_order_frame (dp_fmt dp) \<circ> ucast) (resting_ids_of keys R))" .
  moreover have "ord_id ord \<in> set (resting_ids_of keys R)"
    if "open_orders (nb_state (rt_native R)) k = Some ord" "0 < ord_remaining_qty ord" for k ord
    using resting_ids_complete [OF that] that(1) assms(6) by (simp add: domI)
  ultimately show ?thesis by blast
qed

definition demo_resting :: open_order where
  "demo_resting = \<lparr>ord_id = 17, ord_contract = demo_instrument, ord_side = Buy, ord_qty = 1, ord_type = Limit,
     ord_price = Some (lit 2), ord_tif = Gtd, ord_gtd_until = None, ord_client_ref = [], ord_status = Submitted,
     ord_filled_qty = 0, ord_remaining_qty = 1\<rparr>"

definition demo_silent :: runtime where
  "demo_silent = demo_runtime\<lparr>last_trader_msg_ns := 1, rt_native := (new_broker ''DU1'' 0)
     \<lparr>nb_client := (new_client 0)\<lparr>writer_open := True\<rparr>,
      nb_state := (nb_state (new_broker ''DU1'' 0))\<lparr>open_orders := [17 \<mapsto> demo_resting]\<rparr>\<rparr>\<rparr>"

theorem kills_cancel_resting_orders_witness:
  "wire_of (watchdog_tick demo_deps 5000000000 6000000000 [17] [True] demo_silent) = cancel_order_frame demo_fmt 17"
proof -
  let ?task = "watchdog_tick demo_deps 5000000000 6000000000 [17] [True]"
  have k: "killed (rt_risk demo_silent) = None" by (simp add: demo_silent_def demo_runtime_def demo_risk_def new_risk_monitor_def)
  have "trader_watchdog 5000000000 (last_trader_msg_ns demo_silent) 6000000000 (rt_risk demo_silent) =
      (True, (rt_risk demo_silent)\<lparr>killed := Some \<lparr>reason = TraderSilentFor 5999, source = TraderSilent,
        kill_kind = Halt, timestamp_ns = 6000000000\<rparr>\<rparr>)"
    using k by (simp add: trader_watchdog_def fire_def saturating_sub_def demo_silent_def Let_def)
  then have "killed (rt_risk (?task demo_silent)) \<noteq> killed (rt_risk demo_silent)"
    using k by (simp add: watchdog_tick_def act_on_kill_def publish_kill_def publish_event_def)
  moreover have "writer_open (nb_client (rt_native demo_silent))"
    "set [17] = dom (open_orders (nb_state (rt_native demo_silent)))" by (simp_all add: demo_silent_def)
  moreover have "?task \<in> set (kill_tasks demo_deps [17] [True] 6000000000 Map.empty 5000000000 (ConnectionLost []))"
    by (simp add: kill_tasks_def)
  ultimately have "wire_of (?task demo_silent) = wire_of demo_silent @
      concat (map (cancel_order_frame (dp_fmt demo_deps) \<circ> ucast) (resting_ids_of [17] demo_silent))"
    using kills_cancel_resting_orders [of ?task demo_deps "[17]" "[True]" 6000000000 Map.empty 5000000000
        "ConnectionLost []" demo_silent] by auto
  then show ?thesis
    by (simp add: wire_of_def demo_silent_def resting_ids_of_def open_orders_of_def List.map_filter_def demo_resting_def
        demo_deps_def new_client_def)
qed

subsection \<open>The risk state reaches the gates\<close>

lemma blocked_decides_nothing:
  assumes "block_all (fst (compute_risk_gates sn now cs))"
  shows "set (fst (decide_on_tick lm tte_of st cs tick ex rt now wall sn)) \<subseteq> {CancelAll (resting_ids st)}"
  using assms by (auto simp: decide_on_tick_def Let_def split: option.split prod.split)

text \<open>
  \<^bold>\<open>C18.\<close> The margin gate fails closed across the two processes.  When the account values of the daemon are
  missing or older than a minute, or the maintenance margin has reached the ceiling of the trader, then the
  next risk state the daemon publishes is understood by the trader, and until another one arrives no tick
  makes the trader place or modify an order: the only decision it can take is to cancel what rests.
\<close>

theorem stale_margin_stops_quoting:
  assumes "as_time (rt_account R) = 0 \<or> MARGIN_CACHE_MAX_AGE_NS < saturating_sub now (as_time (rt_account R)) \<or>
      0 < rt_capital R \<and> sn_margin_ceiling_pct (tr_scalars w) \<le> as_maintenance_margin (rt_account R) / rt_capital R"
    and "sn_margin_ceiling_pct (tr_scalars w) \<le> lit 1"
  shows "\<exists>r. risk_state_of (List.last (published (periodic_risk_state now R))) = Some r \<and>
    set (fst (decide_on_tick lm tte_of st cs tick ex rt t wall (tr_scalars (on_risk_state mns r w)))) \<subseteq> {CancelAll (resting_ids st)}"
proof -
  let ?ev = "risk_state_of_runtime now R"
  have "sn_margin_ceiling_pct (tr_scalars w) \<le> margin_pct_of now R"
    using assms by (auto simp: margin_pct_of_def Let_def not_le)
  then have "sn_margin_ceiling_pct (tr_scalars w) \<le> re_margin_pct ?ev" by (simp add: risk_state_of_runtime_def Let_def)
  then have "block_all (fst (compute_risk_gates (tr_scalars (on_risk_state mns
      \<lparr>rm_margin_pct = re_margin_pct ?ev, rm_hedge_delta = re_hedge_delta ?ev, rm_effective_delta = re_effective_delta ?ev,
       rm_theta = re_theta ?ev, rm_vega = re_vega ?ev\<rparr> w)) t cs))"
    by (simp add: on_risk_state_def compute_risk_gates_def)
  then show ?thesis
    by (auto simp: periodic_risk_state_def publish_event_def events_read
        dest!: blocked_decides_nothing [THEN subsetD])
qed

theorem stale_margin_stops_quoting_witness:
  "\<exists>r. risk_state_of (List.last (published (periodic_risk_state 1 demo_runtime))) = Some r \<and>
     set (fst (decide_on_tick demo_libm (\<lambda>_. Some (lit 1)) demo_state (\<lambda>_. 0) demo_tick ''20260526'' CHR ''C''
       1000000000 9 (tr_scalars (on_risk_state 1000 r (demo_world\<lparr>tr_scalars := demo_quoting\<rparr>))))) \<subseteq> {CancelAll []}"
proof -
  let ?w = "demo_world\<lparr>tr_scalars := demo_quoting\<rparr>"
  have "resting_ids demo_state = []" by (simp add: resting_ids_def demo_state_def List.map_filter_def)
  moreover have "lit (1 / 2) \<le> lit 1" by code_simp
  then have "sn_margin_ceiling_pct (tr_scalars ?w) \<le> lit 1" by (simp add: demo_quoting_def default_scalars_def)
  moreover have "as_time (rt_account demo_runtime) = 0" by (simp add: demo_runtime_def)
  ultimately show ?thesis using stale_margin_stops_quoting [of demo_runtime 1 ?w] by metis
qed

end
