(* ===== verification/Broker_Positions.thy ===== *)
theory Broker_Positions
  imports Broker_Kills
begin

section \<open>Positions of the account\<close>

text \<open>
  How the daemon takes over the positions the gateway reports: at the start (\<^verbatim>\<open>seed_positions_from_broker\<close> and
  \<^verbatim>\<open>resolve_hedge_contracts\<close> of \<^verbatim>\<open>runtime.rs\<close>) and in the periodic hedge task (\<^verbatim>\<open>periodic_hedge\<close> of \<^verbatim>\<open>tasks.rs\<close>,
  with \<^verbatim>\<open>reconcile_options_with_broker_positions\<close>).  The answer of the gateway and the clocks are arguments.
\<close>

subsection \<open>Option rows\<close>

text \<open>The position a row of the gateway stands for, none if it is skipped.\<close>

definition option_row :: "string list \<Rightarrow> date_time \<Rightarrow> broker_position \<Rightarrow> position option" where
  "option_row products utc pos =
     (let c = bp_contract pos in
      if c_symbol c \<notin> set products \<or> c_kind c \<noteq> Option then None
      else case (c_right c, c_strike c) of
          (Some r, Some k) \<Rightarrow>
            if 0 < c_multiplier c
            then Some \<lparr>p_product = c_symbol c, p_strike = k, p_expiry = c_expiry c, p_right = r,
                       p_quantity = bp_quantity pos, p_avg_fill_price = bp_avg_cost pos / c_multiplier c,
                       p_fill_time = utc, p_multiplier = c_multiplier c, p_delta = 0, p_gamma = 0, p_theta = 0,
                       p_vega = 0, p_current_price = 0\<rparr>
            else None
        | _ \<Rightarrow> None)"

definition option_rows :: "string list \<Rightarrow> date_time \<Rightarrow> broker_position list \<Rightarrow> position list" where
  "option_rows products utc = List.map_filter (option_row products utc)"

text \<open>The text \<^verbatim>\<open>{:.4}\<close> of a float: its exact value rounded to four places, ties to even.\<close>

fun digits :: "nat \<Rightarrow> string" where
  "digits n = (if n < 10 then [char_of (48 + n)] else digits (n div 10) @ [char_of (48 + n mod 10)])"

declare digits.simps [simp del]

definition fixed4 :: "f64 \<Rightarrow> string" where
  "fixed4 x =
     (if is_nan x then ''NaN''
      else (if sign_neg x then ''-'' else []) @
        (if is_infinite x then ''inf''
         else let n = nat (round_even (\<bar>val x\<bar> * 10000)); frac = digits (n mod 10000)
              in digits (n div 10000) @ ''.'' @ replicate (4 - length frac) (CHR ''0'') @ frac))"

definition right_name :: "right \<Rightarrow> string" where
  "right_name r = (case r of Call \<Rightarrow> ''Call'' | Put \<Rightarrow> ''Put'')"

text \<open>The key of a leg, with the \<^verbatim>\<open>chrono\<close> text of a date as a parameter.\<close>

definition leg_key :: "(naive_date \<Rightarrow> string) \<Rightarrow> position \<Rightarrow> string" where
  "leg_key date_text q = p_product q @ ''|'' @ fixed4 (p_strike q) @ ''|'' @ date_text (p_expiry q) @ ''|'' @ right_name (p_right q)"

text \<open>Collecting into a \<^verbatim>\<open>HashMap\<close>: a later row of the same key wins.\<close>

definition fingerprint :: "(position \<Rightarrow> string) \<Rightarrow> position list \<Rightarrow> string \<rightharpoonup> i32" where
  "fingerprint key ps = map_of (rev (map (\<lambda>q. (key q, p_quantity q)) ps))"

definition leg_keys :: "(position \<Rightarrow> string) \<Rightarrow> position list \<Rightarrow> string list" where
  "leg_keys key ps = remdups (map key ps)"

definition same_legs :: "(position \<Rightarrow> string) \<Rightarrow> position list \<Rightarrow> position list \<Rightarrow> bool" where
  "same_legs key before after \<longleftrightarrow>
     length (leg_keys key before) = length (leg_keys key after) \<and>
     list_all (\<lambda>k. fingerprint key after k = fingerprint key before k) (leg_keys key before)"

definition leg_changes :: "(position \<Rightarrow> string) \<Rightarrow> position list \<Rightarrow> position list \<Rightarrow> nat" where
  "leg_changes key before after =
     length (filter (\<lambda>k. (case fingerprint key before k of Some q \<Rightarrow> q | None \<Rightarrow> 0) \<noteq> the (fingerprint key after k))
       (leg_keys key after)) +
     length (filter (\<lambda>k. fingerprint key after k = None) (leg_keys key before))"

definition reconcile_options ::
  "(naive_date \<Rightarrow> string) \<Rightarrow> string list \<Rightarrow> date_time \<Rightarrow> broker_position list \<Rightarrow> portfolio \<Rightarrow> nat \<times> portfolio" where
  "reconcile_options date_text products utc rows pf =
     (let after = option_rows products utc rows; before = portfolio.positions pf; key = leg_key date_text in
      if same_legs key before after then (0, pf)
      else (leg_changes key before after, replace_positions pf after))"

subsection \<open>Futures rows\<close>

definition hedge_avg :: "broker_position \<Rightarrow> f64" where
  "hedge_avg pos = bp_avg_cost pos / (if 0 < c_multiplier (bp_contract pos) then c_multiplier (bp_contract pos) else lit 25000)"

definition hedge_seeds :: "string list \<Rightarrow> broker_position list \<Rightarrow> (string \<times> i32 \<times> f64) list" where
  "hedge_seeds products rows =
     map (\<lambda>pos. (c_symbol (bp_contract pos), bp_quantity pos, hedge_avg pos))
       (filter (\<lambda>pos. c_symbol (bp_contract pos) \<in> set products \<and> c_kind (bp_contract pos) = Future \<and> bp_quantity pos \<noteq> 0) rows)"

definition seed_hedge :: "u64 \<Rightarrow> string \<times> i32 \<times> f64 \<Rightarrow> hedge_fanout \<Rightarrow> hedge_fanout" where
  "seed_hedge now = (\<lambda>(prd, qty, avg) ms. snd (at_product prd (reconcile_with_position now qty avg) ms))"

definition seed_positions :: "u64 \<Rightarrow> date_time \<Rightarrow> string list \<Rightarrow> broker_position list \<Rightarrow> runtime \<Rightarrow> runtime" where
  "seed_positions now utc products rows R =
     R\<lparr>rt_portfolio := replace_positions (rt_portfolio R) (option_rows products utc rows),
       rt_hedge := fold (seed_hedge now) (hedge_seeds products rows) (rt_hedge R)\<rparr>"

text \<open>The first contract of the chain that expires after the lockout; \<open>chain\<close> is what \<^verbatim>\<open>list_chain\<close> returned.\<close>

definition pick_hedge_contract :: "naive_date \<Rightarrow> contract list \<Rightarrow> contract option" where
  "pick_hedge_contract min_expiry chain = find (\<lambda>c. min_expiry \<le> c_expiry c) (sort_key c_expiry chain)"

definition resolve_hedge_contract :: "naive_date \<Rightarrow> string \<Rightarrow> broker_error + contract list \<Rightarrow> hedge_fanout \<Rightarrow> hedge_fanout" where
  "resolve_hedge_contract min_expiry symbol chain ms =
     (case chain of
        Inl e \<Rightarrow> ms
      | Inr cs \<Rightarrow> (case pick_hedge_contract min_expiry cs of
          None \<Rightarrow> ms
        | Some c \<Rightarrow> snd (at_product symbol (\<lambda>m. ((), set_hedge_contract c m)) ms)))"

subsection \<open>The periodic hedge task\<close>

definition hedge_row :: "u64 \<Rightarrow> broker_position \<Rightarrow> hedge_fanout \<Rightarrow> hedge_fanout" where
  "hedge_row now pos ms =
     (if c_kind (bp_contract pos) \<noteq> Future then ms
      else snd (at_product (c_symbol (bp_contract pos)) (reconcile_with_position now (bp_quantity pos) (hedge_avg pos)) ms))"

definition periodic_reconcile ::
  "(naive_date \<Rightarrow> string) \<Rightarrow> u64 \<Rightarrow> date_time \<Rightarrow> string list \<Rightarrow> broker_position list \<Rightarrow> runtime \<Rightarrow> runtime" where
  "periodic_reconcile date_text now utc products rows R =
     R\<lparr>rt_portfolio := snd (reconcile_options date_text products utc rows (rt_portfolio R)),
       rt_hedge := fold (hedge_row now) rows (map (hm_touch_freshness now) (rt_hedge R))\<rparr>"

text \<open>The actions are decided for all products before the first order is placed.\<close>

fun hedge_decisions ::
  "u64 \<Rightarrow> portfolio \<Rightarrow> (string \<times> f64) list \<Rightarrow> u64 \<Rightarrow> hedge_fanout \<Rightarrow> (string \<times> hedge_action) list \<times> hedge_fanout" where
  "hedge_decisions now pf [] now_ns ms = ([], ms)"
| "hedge_decisions now pf ((prd, fwd) # ps) now_ns ms =
     (case at_product prd (rebalance_periodic now pf fwd now_ns) ms of
        (act, ms1) \<Rightarrow> (case hedge_decisions now pf ps now_ns ms1 of
          (acts, ms2) \<Rightarrow> ((case act of Some a \<Rightarrow> [(prd, a)] | None \<Rightarrow> []) @ acts, ms2)))"

definition periodic_hedge ::
  "deps \<Rightarrow> (naive_date \<Rightarrow> string) \<Rightarrow> (nat \<Rightarrow> client \<Rightarrow> client) \<Rightarrow> bool \<Rightarrow> u64 \<Rightarrow> date_time \<Rightarrow> string list \<Rightarrow> u64 \<Rightarrow>
     (broker_error + broker_position list) \<Rightarrow> runtime \<Rightarrow> runtime" where
  "periodic_hedge dp date_text env write_ok now utc products tick_count rows R =
     (let R1 = (if tick_count mod 4 = 0 then (case rows of Inr ps \<Rightarrow> periodic_reconcile date_text now utc products ps R | Inl e \<Rightarrow> R)
                else R);
          (acts, ms) = hedge_decisions now (rt_portfolio R1) (map (\<lambda>prd. (prd, hedge_mark R1 prd)) products) now (rt_hedge R1)
      in fold (\<lambda>(prd, a) R. act_on_hedge dp env write_ok now prd a R) acts (R1\<lparr>rt_hedge := ms\<rparr>))"

subsection \<open>The realised profit\<close>

definition resync_realized_pnl :: "runtime \<Rightarrow> runtime" where
  "resync_realized_pnl R =
     R\<lparr>rt_portfolio := (rt_portfolio R)\<lparr>realized_pnl_persisted :=
         as_realized_pnl_today (rt_account R) - fsum (map (realized_pnl_usd \<circ> hm_state) (rt_hedge R))\<rparr>\<rparr>"

subsection \<open>Options after a reconciliation\<close>

lemma fingerprint_None: "fingerprint key ps k = None \<longleftrightarrow> k \<notin> set (leg_keys key ps)"
  by (force simp: fingerprint_def leg_keys_def map_of_eq_None_iff)

lemma same_legs_iff: "same_legs key before after \<longleftrightarrow> fingerprint key before = fingerprint key after"
proof
  assume same: "same_legs key before after"
  have sub: "set (leg_keys key before) \<subseteq> set (leg_keys key after)"
  proof
    fix k
    assume k: "k \<in> set (leg_keys key before)"
    then have "fingerprint key after k = fingerprint key before k" using same by (simp add: same_legs_def list_all_iff)
    with k show "k \<in> set (leg_keys key after)" using fingerprint_None by metis
  qed
  have "card (set (leg_keys key before)) = card (set (leg_keys key after))"
    using same by (simp add: same_legs_def leg_keys_def length_remdups_card_conv)
  with sub have eq: "set (leg_keys key before) = set (leg_keys key after)" by (intro card_subset_eq) simp_all
  show "fingerprint key before = fingerprint key after"
  proof
    fix k
    show "fingerprint key before k = fingerprint key after k"
      using same eq fingerprint_None [of key before k] fingerprint_None [of key after k]
      by (cases "k \<in> set (leg_keys key before)") (simp_all add: same_legs_def list_all_iff)
  qed
next
  assume eq: "fingerprint key before = fingerprint key after"
  then have "set (leg_keys key before) = set (leg_keys key after)" using fingerprint_None [of key] by (metis subsetI subset_antisym)
  then have "length (leg_keys key before) = length (leg_keys key after)"
    by (simp add: leg_keys_def length_remdups_card_conv)
  with eq show "same_legs key before after" by (simp add: same_legs_def list_all_iff)
qed

lemma positions_replace [simp]: "portfolio.positions (replace_positions pf ps) = ps"
  by (simp add: replace_positions_def rebuild_index_def)

lemma book_inv_replace:
  "distinct (map pos_key ps) \<Longrightarrow> \<forall>p\<in>set ps. p_quantity p \<noteq> 0 \<Longrightarrow> book_inv (replace_positions pf ps)"
  by (simp add: book_inv_def replace_positions_def rebuild_index_def index_ok_build_index)

text \<open>
  \<^bold>\<open>C30.\<close> After a reconciliation the option legs of the book, by the text of product, strike, expiry and
  right, and their quantities are exactly those the gateway reports for registered products.  A book that
  agreed is not touched, and repeating the reconciliation changes nothing and reports no change.  A book
  that disagreed is replaced: it is well formed if the reported legs are distinct and not empty, and all
  its greeks are zero until the next refresh.
\<close>

theorem reconcile_matches_broker:
  assumes "reconcile_options date_text products utc rows pf = (n, pf')"
  shows "fingerprint (leg_key date_text) (portfolio.positions pf') = fingerprint (leg_key date_text) (option_rows products utc rows) \<and>
    reconcile_options date_text products utc rows pf' = (0, pf') \<and>
    (fingerprint (leg_key date_text) (portfolio.positions pf) = fingerprint (leg_key date_text) (option_rows products utc rows) \<longrightarrow>
       n = 0 \<and> pf' = pf) \<and>
    (book_inv pf \<and> distinct (map pos_key (option_rows products utc rows)) \<and>
       (\<forall>p\<in>set (option_rows products utc rows). p_quantity p \<noteq> 0) \<longrightarrow> book_inv pf') \<and>
    (pf' = pf \<or> (\<forall>p\<in>set (portfolio.positions pf'). p_delta p = 0 \<and> p_gamma p = 0 \<and> p_theta p = 0 \<and> p_vega p = 0))"
proof -
  let ?after = "option_rows products utc rows" and ?key = "leg_key date_text"
  have zero: "p_delta p = 0 \<and> p_gamma p = 0 \<and> p_theta p = 0 \<and> p_vega p = 0" if "p \<in> set ?after" for p
    using that by (auto simp: option_rows_def option_row_def List.map_filter_def Let_def split: option.splits if_splits)
  show ?thesis
  proof (cases "same_legs ?key (portfolio.positions pf) ?after")
    case True
    with assms have "pf' = pf" "n = 0" by (auto simp: reconcile_options_def Let_def)
    with True show ?thesis by (simp add: reconcile_options_def Let_def same_legs_iff)
  next
    case False
    with assms have pf': "pf' = replace_positions pf ?after" by (auto simp: reconcile_options_def Let_def)
    with False zero show ?thesis
      using book_inv_replace [of ?after pf] by (simp add: reconcile_options_def Let_def same_legs_iff)
  qed
qed

definition demo_row :: broker_position where
  "demo_row = \<lparr>bp_contract = \<lparr>instrument_id = 100, c_kind = Option, c_symbol = ''HG'', c_local_symbol = ''HXE'',
       c_expiry = 20000, c_strike = Some (lit 6), c_right = Some Call, c_multiplier = lit 25000, c_exchange = Comex,
       c_currency = Usd, c_trading_class = ''HXE''\<rparr>,
     bp_quantity = 2, bp_avg_cost = lit 1000, bp_realized_pnl = 0, bp_unrealized_pnl = 0\<rparr>"

theorem reconcile_matches_broker_witness:
  "reconcile_options (\<lambda>_. ''d'') [''HG''] 0 [demo_row]
     (snd (reconcile_options (\<lambda>_. ''d'') [''HG''] 0 [demo_row] (new_portfolio Map.empty))) =
   (0, snd (reconcile_options (\<lambda>_. ''d'') [''HG''] 0 [demo_row] (new_portfolio Map.empty)))"
  by (rule reconcile_matches_broker [OF prod.collapse [symmetric], THEN conjunct2, THEN conjunct1])

subsection \<open>Hedges after a reconciliation\<close>

lemma for_product_at_product:
  assumes "\<And>m. hm_cfg (snd (f m)) = hm_cfg m"
  shows "for_product (snd (at_product prd f ms)) q =
      (if prd = q then map_option (snd \<circ> f) (for_product ms q) else for_product ms q)"
  using assms by (induction prd f ms rule: at_product.induct) (auto simp: for_product_def)

lemma for_product_map:
  assumes "\<And>m. hm_cfg (f m) = hm_cfg m"
  shows "for_product (map f ms) q = map_option f (for_product ms q)"
  using assms by (induction ms) (auto simp: for_product_def)

lemma reconcile_cfg [simp]: "hm_cfg (snd (reconcile_with_position now q avg m)) = hm_cfg m"
  "hm_cfg (hm_touch_freshness now m) = hm_cfg m"
  by (simp_all add: reconcile_with_position_def hm_touch_freshness_def Let_def)

text \<open>The futures rows of a product, in the order they are reported.\<close>

definition future_rows :: "string \<Rightarrow> broker_position list \<Rightarrow> broker_position list" where
  "future_rows prd = filter (\<lambda>pos. c_kind (bp_contract pos) = Future \<and> c_symbol (bp_contract pos) = prd)"

lemma hedge_row_product:
  "for_product (hedge_row now pos ms) prd =
     (if c_kind (bp_contract pos) = Future \<and> c_symbol (bp_contract pos) = prd
      then map_option (snd \<circ> reconcile_with_position now (bp_quantity pos) (hedge_avg pos)) (for_product ms prd)
      else for_product ms prd)"
  by (simp add: hedge_row_def for_product_at_product)

lemma hedge_rows_product:
  assumes "for_product ms prd = Some m" "last_update_ns (hm_state m) = now"
  shows "\<exists>m'. for_product (fold (hedge_row now) rows ms) prd = Some m' \<and> last_update_ns (hm_state m') = now \<and>
    hedge_qty (hm_state m') = (if future_rows prd rows = [] then hedge_qty (hm_state m)
      else bp_quantity (List.last (future_rows prd rows)))"
  using assms
proof (induction rows arbitrary: ms m)
  case (Cons pos rows)
  show ?case
  proof (cases "c_kind (bp_contract pos) = Future \<and> c_symbol (bp_contract pos) = prd")
    case True
    let ?m = "snd (reconcile_with_position now (bp_quantity pos) (hedge_avg pos) m)"
    have "for_product (hedge_row now pos ms) prd = Some ?m" using True Cons.prems(1) by (simp add: hedge_row_product)
    moreover have "last_update_ns (hm_state ?m) = now" "hedge_qty (hm_state ?m) = bp_quantity pos"
      by (simp_all add: reconcile_with_position_def Let_def hs_replace_def hs_touch_freshness_def)
    ultimately show ?thesis using Cons.IH [of "hedge_row now pos ms" ?m] True by (auto simp: future_rows_def)
  next
    case False
    then have "for_product (hedge_row now pos ms) prd = Some m" using Cons.prems(1) by (auto simp: hedge_row_product)
    with Cons.IH [of "hedge_row now pos ms" m] Cons.prems(2) False show ?thesis by (auto simp: future_rows_def)
  qed
qed (simp add: future_rows_def)

text \<open>
  A reconciliation sets the hedge quantity of a product to that of the last futures row the gateway
  reports for its symbol, whatever the contract of the row.  When there is no such row, as for a flat
  account, the quantity is kept as it was; in both cases it counts as fresh afterwards.
\<close>

theorem hedge_follows_last_future_row:
  assumes "for_product (rt_hedge R) prd = Some m" "now \<noteq> 0"
  shows "\<exists>m'. for_product (rt_hedge (periodic_reconcile date_text now utc products rows R)) prd = Some m' \<and>
    is_fresh (hm_state m') now max_age \<and>
    hedge_qty (hm_state m') = (if future_rows prd rows = [] then hedge_qty (hm_state m)
      else bp_quantity (List.last (future_rows prd rows)))"
proof -
  let ?ms = "map (hm_touch_freshness now) (rt_hedge R)"
  have m: "for_product ?ms prd = Some (hm_touch_freshness now m)" using assms(1) by (simp add: for_product_map)
  have "last_update_ns (hm_state (hm_touch_freshness now m)) = now"
    "hedge_qty (hm_state (hm_touch_freshness now m)) = hedge_qty (hm_state m)"
    by (simp_all add: hm_touch_freshness_def hs_touch_freshness_def)
  with hedge_rows_product [OF m, of now rows] obtain m' where m': "for_product (fold (hedge_row now) rows ?ms) prd = Some m'"
    "last_update_ns (hm_state m') = now" "hedge_qty (hm_state m') = (if future_rows prd rows = [] then hedge_qty (hm_state m)
      else bp_quantity (List.last (future_rows prd rows)))" by metis
  moreover have "is_fresh (hm_state m') now max_age" using m'(2) assms(2) by (simp add: is_fresh_def saturating_sub_def)
  ultimately show ?thesis unfolding periodic_reconcile_def by simp
qed

theorem hedge_follows_last_future_row_witness:
  "\<exists>m'. for_product (rt_hedge (periodic_reconcile (\<lambda>_. ''d'') 5 0 [''HG''] []
       (demo_runtime\<lparr>rt_hedge := [demo_manager\<lparr>hm_state := (hm_state demo_manager)\<lparr>hedge_qty := 3\<rparr>\<rparr>]\<rparr>))) ''HG'' = Some m' \<and>
     is_fresh (hm_state m') 5 HEDGE_STATE_MAX_AGE_NS \<and> hedge_qty (hm_state m') = 3"
proof -
  let ?m = "demo_manager\<lparr>hm_state := (hm_state demo_manager)\<lparr>hedge_qty := 3\<rparr>\<rparr>"
  have "for_product (rt_hedge (demo_runtime\<lparr>rt_hedge := [?m]\<rparr>)) ''HG'' = Some ?m"
    by (simp add: for_product_def demo_manager_def set_hedge_contract_def new_hedge_manager_def)
  from hedge_follows_last_future_row [OF this, of 5 "\<lambda>_. ''d''" 0 "[''HG'']" "[]" HEDGE_STATE_MAX_AGE_NS]
  obtain m' where "for_product (rt_hedge (periodic_reconcile (\<lambda>_. ''d'') 5 0 [''HG''] [] (demo_runtime\<lparr>rt_hedge := [?m]\<rparr>))) ''HG'' = Some m'"
    "is_fresh (hm_state m') 5 HEDGE_STATE_MAX_AGE_NS" "hedge_qty (hm_state m') = hedge_qty (hm_state ?m)"
    by (auto simp: future_rows_def)
  then show ?thesis by auto
qed

end
