(* ===== verification/Broker_Fills.thy ===== *)
theory Broker_Fills
  imports Broker_Positions
begin

section \<open>Fills, amendments and quotes in the daemon\<close>

text \<open>
  What the handlers of \<^verbatim>\<open>tasks.rs\<close> and \<^verbatim>\<open>ipc.rs\<close> do with what the gateway reports: an execution is booked as a
  hedge, as an option, or not at all; the acknowledgement of an amendment and the size of a quote get lost.
\<close>

subsection \<open>Executions\<close>

text \<open>The key of the option position a fill is booked under.\<close>

definition fill_leg :: "fill_env \<Rightarrow> fill \<Rightarrow> runtime \<Rightarrow> position_key option" where
  "fill_leg x f R =
     (if fst (offer_hedge (fe_now x) f (map (hc_product \<circ> hm_cfg) (rt_hedge R)) (rt_hedge R)) then None
      else map_option (\<lambda>(prd, t). fill_key (leg_fill prd t f))
        (find_leg (fe_options x) (rt_market R) (fill_instrument f) (fe_products x)))"

lemma apply_broker_fill_refused: "\<not> fst (apply_broker_fill now f m) \<Longrightarrow> snd (apply_broker_fill now f m) = m"
  by (auto simp: apply_broker_fill_def Let_def split: option.splits if_splits)

lemma at_product_refused:
  "fst (at_product prd (apply_broker_fill now f) ms) \<noteq> Some True \<Longrightarrow> snd (at_product prd (apply_broker_fill now f) ms) = ms"
  by (induction prd "apply_broker_fill now f" ms rule: at_product.induct)
    (auto simp: apply_broker_fill_refused split: if_splits)

lemma offer_hedge_refused: "\<not> fst (offer_hedge now f ps ms) \<Longrightarrow> snd (offer_hedge now f ps ms) = ms"
proof (induction ps)
  case (Cons prd ps)
  obtain r ms' where a: "at_product prd (apply_broker_fill now f) ms = (r, ms')" by fastforce
  with Cons.prems have "r \<noteq> Some True" by auto
  with a at_product_refused [of prd now f ms] have "ms' = ms" by simp
  with Cons a \<open>r \<noteq> Some True\<close> show ?case by (cases r) (auto split: bool.splits)
qed simp

lemma find_leg_instrument: "find_leg keys s iid ps = Some (prd, t) \<Longrightarrow> ot_instrument t = Some iid \<and> prd \<in> set ps"
  by (induction ps) (auto simp: find_Some_iff split: option.splits)

lemma handle_option_fill_books:
  assumes "book_inv (rt_portfolio R)"
  shows "\<exists>R'. handle_option_fill dp x prd t f R = Some R' \<and> book_inv (rt_portfolio R') \<and>
    (\<forall>k. net_qty (rt_portfolio R') k = net_qty (rt_portfolio R) k +
      (if fill_key (leg_fill prd t f) = k then signed_qty f else 0))"
proof -
  from book_fill_law [OF assms, of "fe_utc x" "leg_fill prd t f"] obtain oc pf where
    pf: "add_fill (fe_utc x) (rt_portfolio R) (leg_fill prd t f) = Some (oc, pf)" "book_inv pf"
      "\<forall>k. net_qty pf k = net_qty (rt_portfolio R) k + (if fill_key (leg_fill prd t f) = k then signed_qty f else 0)"
    by (auto simp: book_fill_def) (simp add: leg_fill_def)
  obtain outcome m where c: "check_daily_pnl_only (fe_now x) pf (view_of (rt_market R)) (rt_hedge R) (rt_risk R) = (outcome, m)"
    by fastforce
  obtain act ms where a: "at_product prd (rebalance_on_fill (fe_now x) pf) (rt_hedge R) = (act, ms)" by fastforce
  have "\<exists>R'. handle_option_fill dp x prd t f R = Some R' \<and> rt_portfolio R' = pf"
    by (cases act) (simp_all add: handle_option_fill_def pf(1) c a Let_def)
  with pf show ?thesis by blast
qed

text \<open>
  Handling an execution never panics on a well-formed book and keeps it well formed.  If a hedge
  manager takes it, nothing but the hedges changes; if it belongs to no registered option, nothing at all
  changes; otherwise the quantity of exactly that option changes by exactly the signed quantity.  The
  execution id plays no part in this: an execution that is reported again is booked again.
\<close>

theorem fill_reaches_one_book:
  assumes "book_inv (rt_portfolio R)"
  shows "\<exists>R'. handle_fill dp x f R = Some R' \<and> book_inv (rt_portfolio R') \<and>
    (\<forall>k. net_qty (rt_portfolio R') k = net_qty (rt_portfolio R) k + (if fill_leg x f R = Some k then signed_qty f else 0)) \<and>
    (fill_leg x f R = None \<longrightarrow> R' = R\<lparr>rt_hedge := rt_hedge R'\<rparr>) \<and>
    (fill_leg x f R = None \<and> \<not> fst (offer_hedge (fe_now x) f (map (hc_product \<circ> hm_cfg) (rt_hedge R)) (rt_hedge R)) \<longrightarrow> R' = R)"
proof -
  obtain taken ms where o: "offer_hedge (fe_now x) f (map (hc_product \<circ> hm_cfg) (rt_hedge R)) (rt_hedge R) = (taken, ms)"
    by fastforce
  have ms: "ms = rt_hedge R" if "\<not> taken" using offer_hedge_refused [of "fe_now x" f] o that by (metis fst_conv snd_conv)
  show ?thesis
  proof (cases "taken \<or> find_leg (fe_options x) (rt_market R) (fill_instrument f) (fe_products x) = None")
    case True
    then have leg: "fill_leg x f R = None" by (auto simp: fill_leg_def o)
    from True have "handle_fill dp x f R = Some (R\<lparr>rt_hedge := ms\<rparr>)" by (auto simp: handle_fill_def o Let_def)
    with leg ms assms show ?thesis by (auto simp: o)
  next
    case False
    then obtain prd t where l: "find_leg (fe_options x) (rt_market R) (fill_instrument f) (fe_products x) = Some (prd, t)" by auto
    with False have leg: "fill_leg x f R = Some (fill_key (leg_fill prd t f))" by (simp add: fill_leg_def o)
    have "handle_fill dp x f R = handle_option_fill dp x prd t f R" using False l ms by (simp add: handle_fill_def o)
    with handle_option_fill_books [OF assms, of dp x prd t f] leg show ?thesis by simp
  qed
qed

definition demo_fill_env :: fill_env where
  "demo_fill_env = \<lparr>fe_now = 1, fe_utc = 0, fe_products = [''HG''], fe_options =
     [\<lparr>ok_product = ''HG'', ok_strike = option_strike_key (lit 6), ok_expiry = 20000, ok_right = Call\<rparr>],
     fe_open_keys = [], fe_cancel_oks = [], fe_alloc = (\<lambda>_ C. C), fe_write_ok = True\<rparr>"

definition demo_option_fill :: fill where
  "demo_option_fill = \<lparr>exec_id = ''e1'', fill_order_id = 1, fill_instrument = 100, fill_side = Sell, fill_qty = 2,
     fill_price = lit 1, fill_time_ns = 1, fill_commission = None\<rparr>"

theorem fill_reaches_one_book_witness:
  "\<exists>R' R''. handle_fill demo_deps demo_fill_env demo_option_fill
       (demo_runtime\<lparr>rt_market := register_option ''HG'' (lit 6) 20000 Call 100 new_market\<rparr>) = Some R' \<and>
     handle_fill demo_deps demo_fill_env demo_option_fill R' = Some R'' \<and>
     net_qty (rt_portfolio R') (make_key ''HG'' (lit 6) 20000 Call) = - 2"
proof -
  let ?R = "demo_runtime\<lparr>rt_market := register_option ''HG'' (lit 6) 20000 Call 100 new_market\<rparr>"
  have inv: "book_inv (rt_portfolio ?R)" "net_qty (rt_portfolio ?R) k = 0" for k
    by (simp_all add: demo_runtime_def book_inv_new)
  have leg: "fill_leg demo_fill_env demo_option_fill ?R = Some (make_key ''HG'' (lit 6) 20000 Call)"
    by (simp add: fill_leg_def demo_runtime_def demo_fill_env_def demo_option_fill_def options_for_product_def
        register_option_def new_market_def List.map_filter_def leg_fill_def fill_key_def Let_def)
      (simp add: new_option_tick_def)
  have s: "signed_qty demo_option_fill = - 2" by (simp add: signed_qty_def demo_option_fill_def)
  obtain R' where R': "handle_fill demo_deps demo_fill_env demo_option_fill ?R = Some R'" "book_inv (rt_portfolio R')"
    "net_qty (rt_portfolio R') (make_key ''HG'' (lit 6) 20000 Call) = - 2"
    using fill_reaches_one_book [OF inv(1), of demo_deps demo_fill_env demo_option_fill] leg inv(2) s by auto
  with fill_reaches_one_book [OF R'(2), of demo_deps demo_fill_env demo_option_fill] show ?thesis by blast
qed

subsection \<open>Acknowledgements of amendments\<close>

lemma route_strict_fields:
  assumes "\<not> (\<exists>o'. msg = OpenOrderIn o')"
  shows "expected_amend_prices (nb_state (route D now ns msg B)) = expected_amend_prices (nb_state B) \<and>
    strict_ack_ns (nb_state (route D now ns msg B)) = strict_ack_ns (nb_state B)"
  using assms
  by (cases msg) (simp_all add: route_def route_position_def route_order_status_def route_execution_def
      route_execution_end_def route_contract_details_def route_contract_details_end_def route_tick_price_def
      route_tick_size_def route_market_depth_def route_error_def resolve_place_def fail_contracts_def publish_tick_def
      note_status_def upd_state_def emit_def Let_def split: option.split)

lemma route_open_order_strict:
  assumes "expected_amend_prices (nb_state B) k = None" "strict_ack_ns (nb_state B) k = None"
  shows "expected_amend_prices (nb_state (route_open_order D now o' B)) k = None \<and>
    strict_ack_ns (nb_state (route_open_order D now o' B)) k = None"
  using assms
  by (cases "oo_order_id o' = k")
    (simp_all add: route_open_order_def resolve_place_def stamp_strict_def or_insert_def upd_state_def emit_def Let_def
      split: option.split)

lemma route_strict:
  assumes "expected_amend_prices (nb_state B) k = None" "strict_ack_ns (nb_state B) k = None"
  shows "expected_amend_prices (nb_state (route D now ns msg B)) k = None \<and>
    strict_ack_ns (nb_state (route D now ns msg B)) k = None"
proof (cases "\<exists>o'. msg = OpenOrderIn o'")
  case True
  with route_open_order_strict [OF assms] show ?thesis by (auto simp: route_def)
next
  case False
  with route_strict_fields [of msg D now ns B] assms show ?thesis by auto
qed

lemma routes_strict:
  assumes "expected_amend_prices (nb_state B) k = None" "strict_ack_ns (nb_state B) k = None"
  shows "strict_ack_ns (nb_state (fold (\<lambda>(now, ns, msg) B. route D now ns msg B) msgs B)) k = None"
  using assms route_strict by (induction msgs arbitrary: B) (auto split: prod.splits)

text \<open>
  The round trip of an amendment is recorded only if the matching order report came before the first
  acknowledgement was handled.  Handling that acknowledgement forgets the price the report is to be matched
  with, so that none of the later polls finds a strict acknowledgement, whatever the gateway sends.
\<close>

theorem late_strict_ack_never_recorded:
  assumes "strict_ack_ns (nb_state (rt_native R)) (ucast (mc_order_id (mw_cmd mw))) = None"
    and "R1 = handle_modify_done recv_ns send_ns mw (Delivered (Inr ())) R"
    and "R2 = R1\<lparr>rt_native := fold (\<lambda>(now, ns, msg) B. route D now ns msg B) msgs (rt_native R1)\<rparr>"
  shows "modify_rtt_us (rt_latency R1) = modify_rtt_us (rt_latency R) \<and>
    late_strict_ack send_ns (mc_order_id (mw_cmd mw)) R2 =
      (False, R2\<lparr>rt_native := snd (drain_strict_amend_ack_ns (mc_order_id (mw_cmd mw)) (rt_native R2))\<rparr>)"
proof -
  let ?oid = "mc_order_id (mw_cmd mw)"
  have w: "strict_ack_ns (nb_state (snd (drain_wire_timing ?oid B))) = strict_ack_ns (nb_state B)" for B
    by (simp add: drain_wire_timing_def upd_state_def Let_def split: option.split)
  have R1: "modify_rtt_us (rt_latency R1) = modify_rtt_us (rt_latency R)"
    "expected_amend_prices (nb_state (rt_native R1)) (ucast ?oid) = None" "strict_ack_ns (nb_state (rt_native R1)) (ucast ?oid) = None"
    using assms(1)
    by (simp_all add: assms(2) handle_modify_done_def modify_order_ack_def late_strict_ack_def drain_strict_amend_ack_ns_def
        w Let_def upd_state_def drop_key_def)
  have "strict_ack_ns (nb_state (rt_native R2)) (ucast ?oid) = None"
    using routes_strict [OF R1(2,3)] by (simp add: assms(3))
  with R1(1) show ?thesis by (simp add: late_strict_ack_def drain_strict_amend_ack_ns_def)
qed

definition demo_amending :: runtime where
  "demo_amending = demo_silent\<lparr>rt_native := (rt_native demo_silent)\<lparr>nb_state := (nb_state (rt_native demo_silent))
     \<lparr>expected_amend_prices := [17 \<mapsto> lit 2], strict_ack_ns := Map.empty\<rparr>\<rparr>\<rparr>"

definition demo_modify_wait :: modify_wait where
  "demo_modify_wait = \<lparr>mw_cmd = \<lparr>mc_order_id = 17, mc_price = Some (lit 2), mc_qty = None, mc_gtd_seconds = None,
     mc_ts_ns = None, mc_trigger = None\<rparr>, mw_order_id = 17, mw_waiter = 0\<rparr>"

theorem late_strict_ack_never_recorded_witness:
  "\<forall>msgs. \<not> fst (late_strict_ack 1 17 ((handle_modify_done 1 1 demo_modify_wait (Delivered (Inr ())) demo_amending)
     \<lparr>rt_native := fold (\<lambda>(now, ns, msg) B. route demo_chrono now ns msg B) msgs
       (rt_native (handle_modify_done 1 1 demo_modify_wait (Delivered (Inr ())) demo_amending))\<rparr>))"
proof
  fix msgs
  have oid: "mc_order_id (mw_cmd demo_modify_wait) = 17" by (simp add: demo_modify_wait_def)
  have "strict_ack_ns (nb_state (rt_native demo_amending)) (ucast (mc_order_id (mw_cmd demo_modify_wait))) = None"
    by (simp add: demo_amending_def)
  from late_strict_ack_never_recorded [OF this refl refl, where recv_ns = 1 and send_ns = 1 and D = demo_chrono and msgs = msgs, unfolded oid]
  show "\<not> fst (late_strict_ack 1 17 ((handle_modify_done 1 1 demo_modify_wait (Delivered (Inr ())) demo_amending)
     \<lparr>rt_native := fold (\<lambda>(now, ns, msg) B. route demo_chrono now ns msg B) msgs
       (rt_native (handle_modify_done 1 1 demo_modify_wait (Delivered (Inr ())) demo_amending))\<rparr>))" by simp
qed

subsection \<open>Sizes of quotes\<close>

text \<open>
  Every price tick of the gateway for a side of an option sets the size of that side to zero in the
  market data, until the next size tick; and a price tick that withdraws the quote, with a price that is not
  positive, leaves the old price in place.
\<close>

theorem price_tick_clears_size:
  assumes "tick_routes (nb_state B) (tp_req_id t) = Some iid" "price_kind (tp_tick_type t) = Some BidTick"
    and "by_instrument s iid = Some k" "ms_options s k = Some opt"
  shows "\<exists>tick opt'. TickOut tick \<in> set (out (route_tick_price recv_ns t B)) \<and>
    option_by_iid (pump_tick tick s) iid = Some opt' \<and> ot_bid_size opt' = 0 \<and>
    ot_bid opt' = (if 0 < tp_price t then tp_price t else ot_bid opt)"
proof -
  let ?t = "\<lparr>tk_instrument = iid, tk_kind = BidTick, tk_price = Some (tp_price t), tk_size = None, tk_time = recv_ns\<rparr>"
  have "TickOut ?t \<in> set (out (route_tick_price recv_ns t B))"
    using assms(1,2) by (simp add: route_tick_price_def publish_tick_def emit_def)
  moreover have "option_by_iid (pump_tick ?t s) iid = Some (opt\<lparr>ot_bid := (if 0 < tp_price t then tp_price t else ot_bid opt),
      ot_bid_size := 0, ot_updated_ns := recv_ns\<rparr>)"
    using assms(3,4) by (simp add: pump_tick_def update_bid_def at_option_def option_by_iid_def)
  ultimately show ?thesis by fastforce
qed

theorem price_tick_clears_size_witness:
  "\<exists>tick opt'. TickOut tick \<in> set (out (route_tick_price 9 \<lparr>tp_req_id = 3, tp_tick_type = 1, tp_price = - lit 1, tp_attribs = 0\<rparr>
       ((new_broker ''DU1'' 0)\<lparr>nb_state := (nb_state (new_broker ''DU1'' 0))\<lparr>tick_routes := [3 \<mapsto> 100]\<rparr>\<rparr>))) \<and>
     option_by_iid (pump_tick tick (register_option ''HG'' (lit 6) 20000 Call 100 new_market)) 100 = Some opt' \<and> ot_bid_size opt' = 0"
proof -
  let ?s = "register_option ''HG'' (lit 6) 20000 Call 100 new_market"
  let ?m = "\<lparr>tp_req_id = 3, tp_tick_type = 1, tp_price = - lit 1, tp_attribs = 0\<rparr>"
  let ?B = "(new_broker ''DU1'' 0)\<lparr>nb_state := (nb_state (new_broker ''DU1'' 0))\<lparr>tick_routes := [3 \<mapsto> 100]\<rparr>\<rparr>"
  let ?k = "\<lparr>ok_product = ''HG'', ok_strike = option_strike_key (lit 6), ok_expiry = 20000, ok_right = Call\<rparr>"
  have "by_instrument ?s 100 = Some ?k"
    "ms_options ?s ?k = Some ((new_option_tick (lit 6) 20000 Call)\<lparr>ot_instrument := Some 100\<rparr>)"
    by (simp_all add: register_option_def Let_def new_market_def)
  moreover have "tick_routes (nb_state ?B) (tp_req_id ?m) = Some 100" "price_kind (tp_tick_type ?m) = Some BidTick"
    by (simp_all add: price_kind_def)
  ultimately obtain tick opt' where "TickOut tick \<in> set (out (route_tick_price 9 ?m ?B))"
    "option_by_iid (pump_tick tick ?s) 100 = Some opt'" "ot_bid_size opt' = 0"
    using price_tick_clears_size [of ?B ?m 100 ?s ?k _ 9] by blast
  then show ?thesis by blast
qed

end
