(* ===== verification/Broker_Ticks.thy ===== *)
theory Broker_Ticks
  imports Broker_Wire Market_Data
begin

section \<open>Ticks on their way to the trader\<close>

text \<open>
  The two publishers of ticks in \<^verbatim>\<open>ipc.rs\<close>: the fast path, a closure the dispatcher of the gateway calls for
  every tick (\<^verbatim>\<open>install_tick_fastpath\<close>), and the pump behind the broadcast channel that replaces it when the
  adapter has no fast path (\<^verbatim>\<open>forward_ticks\<close>).  Ticks of the gateway carry one field each; a cache per
  instrument consolidates them.  Each call sees the market data of its moment, which is an argument.
\<close>

record consolidated =
  cs_expiry :: string
  cs_right :: string
  cs_strike :: f64
  cs_bid :: "f64 option"
  cs_ask :: "f64 option"
  cs_bid_size :: "i32 option"
  cs_ask_size :: "i32 option"

type_synonym tick_cache = "u64 \<rightharpoonup> consolidated"

text \<open>What is handed to the events ring: a MessagePack map of an underlying tick, or an encoded tick.\<close>

datatype feed = UnderlyingFrame named | TickFrame bytes

definition quote_kind :: "tick_kind \<Rightarrow> bool" where
  "quote_kind k \<longleftrightarrow> k \<in> {BidTick, AskTick, BidSize, AskSize}"

definition right_text :: "right \<Rightarrow> string" where
  "right_text r = (case r of Call \<Rightarrow> ''C'' | Put \<Rightarrow> ''P'')"

definition pos_or_none :: "f64 \<Rightarrow> f64 option" where
  "pos_or_none x = (if 0 < x then Some x else None)"

definition pos_or_none_size :: "u64 \<Rightarrow> i32 option" where
  "pos_or_none_size n = (if 0 < n then Some (ucast n) else None)"

definition underlying_feed :: "tick \<Rightarrow> feed list" where
  "underlying_feed t =
     (if tk_kind t \<in> {BidTick, AskTick, LastTick}
      then case tk_price t of
          Some p \<Rightarrow> if 0 < p then [UnderlyingFrame (underlying_tick_event p (tk_time t))] else []
        | None \<Rightarrow> []
      else [])"

text \<open>The field a tick carries.\<close>

definition merge_tick :: "tick \<Rightarrow> consolidated \<Rightarrow> consolidated" where
  "merge_tick t e =
     (case tk_kind t of
        BidTick \<Rightarrow> e\<lparr>cs_bid := tk_price t\<rparr>
      | AskTick \<Rightarrow> e\<lparr>cs_ask := tk_price t\<rparr>
      | BidSize \<Rightarrow> e\<lparr>cs_bid_size := map_option ucast (tk_size t)\<rparr>
      | AskSize \<Rightarrow> e\<lparr>cs_ask_size := map_option ucast (tk_size t)\<rparr>
      | _ \<Rightarrow> e)"

definition level_price :: "nat \<Rightarrow> depth_level list \<Rightarrow> f64 option" where
  "level_price i ls = (if i < length ls then Some (dl_price (ls ! i)) else None)"

definition tick_event_of :: "consolidated \<Rightarrow> depth_book \<Rightarrow> u64 \<Rightarrow> tick_event" where
  "tick_event_of e d ts =
     \<lparr>te_ty = ''tick'', te_strike = cs_strike e, te_expiry = cs_expiry e, te_right = cs_right e, te_bid = cs_bid e,
      te_ask = cs_ask e, te_bid_size = cs_bid_size e, te_ask_size = cs_ask_size e, te_ts_ns = ts, te_broker_recv_ns = ts,
      te_depth_bid_0 = level_price 0 (db_bids d), te_depth_bid_1 = level_price 1 (db_bids d),
      te_depth_ask_0 = level_price 0 (db_asks d), te_depth_ask_1 = level_price 1 (db_asks d)\<rparr>"

definition seed_entry :: "chrono \<Rightarrow> option_tick \<Rightarrow> consolidated" where
  "seed_entry D opt =
     \<lparr>cs_expiry = format_date D (ot_expiry opt), cs_right = right_text (ot_right opt), cs_strike = ot_strike opt,
      cs_bid = pos_or_none (ot_bid opt), cs_ask = pos_or_none (ot_ask opt),
      cs_bid_size = pos_or_none_size (ot_bid_size opt), cs_ask_size = pos_or_none_size (ot_ask_size opt)\<rparr>"

text \<open>The identity of an entry follows the registration of its instrument.\<close>

definition refresh_identity :: "chrono \<Rightarrow> option_tick \<Rightarrow> consolidated \<Rightarrow> consolidated" where
  "refresh_identity D opt e =
     (if \<not> feq (cs_strike e) (ot_strike opt) \<or> cs_expiry e \<noteq> format_date D (ot_expiry opt) \<or> cs_right e \<noteq> right_text (ot_right opt)
      then e\<lparr>cs_expiry := format_date D (ot_expiry opt), cs_right := right_text (ot_right opt), cs_strike := ot_strike opt\<rparr>
      else e)"

definition fastpath_tick :: "chrono \<Rightarrow> market_state \<Rightarrow> tick \<Rightarrow> tick_cache \<Rightarrow> feed list \<times> tick_cache" where
  "fastpath_tick D s t c =
     (if \<not> (quote_kind (tk_kind t) \<or> tk_kind t = LastTick) then ([], c)
      else if product_for_underlying s (tk_instrument t) \<noteq> None then (underlying_feed t, c)
      else if \<not> quote_kind (tk_kind t) then ([], c)
      else case option_by_iid s (tk_instrument t) of
          None \<Rightarrow> ([], c)
        | Some opt \<Rightarrow>
            let e0 = (case c (tk_instrument t) of Some e \<Rightarrow> e | None \<Rightarrow> seed_entry D opt);
                e = merge_tick t (refresh_identity D opt e0)
            in ([TickFrame (encode_tick_into (tick_event_of e (ot_depth opt) (tk_time t)) [])],
                c(tk_instrument t \<mapsto> e)))"

definition forward_tick :: "chrono \<Rightarrow> market_state \<Rightarrow> tick \<Rightarrow> tick_cache \<Rightarrow> feed list \<times> tick_cache" where
  "forward_tick D s t c =
     (if product_for_underlying s (tk_instrument t) \<noteq> None then (underlying_feed t, c)
      else if \<not> quote_kind (tk_kind t) then ([], c)
      else case option_meta_of s (tk_instrument t) of
          None \<Rightarrow> ([], c)
        | Some meta \<Rightarrow>
            let e0 = (case c (tk_instrument t) of
                  Some e \<Rightarrow> e
                | None \<Rightarrow> \<lparr>cs_expiry = format_date D (om_expiry meta), cs_right = right_text (om_right meta),
                    cs_strike = om_strike meta, cs_bid = None, cs_ask = None, cs_bid_size = None, cs_ask_size = None\<rparr>);
                e = merge_tick t e0;
                d = (case option_by_iid s (tk_instrument t) of Some opt \<Rightarrow> ot_depth opt | None \<Rightarrow> \<lparr>db_bids = [], db_asks = []\<rparr>)
            in ([TickFrame (encode_tick_into (tick_event_of e d (tk_time t)) [])], c(tk_instrument t \<mapsto> e)))"

text \<open>A stream of ticks, each with the market data at its time.\<close>

fun feed_run ::
  "(market_state \<Rightarrow> tick \<Rightarrow> tick_cache \<Rightarrow> feed list \<times> tick_cache) \<Rightarrow> (market_state \<times> tick) list \<Rightarrow> tick_cache \<Rightarrow>
     feed list \<times> tick_cache" where
  "feed_run step [] c = ([], c)"
| "feed_run step ((s, t) # h) c =
     (case step s t c of (os, c1) \<Rightarrow> (case feed_run step h c1 of (rest, c2) \<Rightarrow> (os @ rest, c2)))"

subsection \<open>What the trader sees\<close>

text \<open>The last value the stream has for a kind of tick.\<close>

definition latest :: "tick_kind \<Rightarrow> (tick \<Rightarrow> 'a) \<Rightarrow> 'a \<Rightarrow> tick list \<Rightarrow> 'a" where
  "latest k f x ts = (let us = filter (\<lambda>t. tk_kind t = k) ts in if us = [] then x else f (List.last us))"

lemma latest_simps [simp]:
  "latest k f x [] = x"
  "latest k f x (ts @ [t]) = (if tk_kind t = k then f t else latest k f x ts)"
  by (simp_all add: latest_def)

definition quote_ticks :: "u64 \<Rightarrow> (market_state \<times> tick) list \<Rightarrow> (market_state \<times> tick) list" where
  "quote_ticks iid = filter (\<lambda>(s, t). tk_instrument t = iid \<and> quote_kind (tk_kind t))"

text \<open>The instrument is an option with the same identity throughout, and no underlying.\<close>

definition stays_option :: "u64 \<Rightarrow> f64 \<Rightarrow> naive_date \<Rightarrow> right \<Rightarrow> (market_state \<times> tick) list \<Rightarrow> bool" where
  "stays_option iid k ex r = list_all (\<lambda>(s, t). product_for_underlying s iid = None \<and>
     (\<exists>opt. option_by_iid s iid = Some opt \<and> ot_strike opt = k \<and> ot_expiry opt = ex \<and> ot_right opt = r))"

definition first_seed :: "u64 \<Rightarrow> (market_state \<times> tick) list \<Rightarrow> option_tick" where
  "first_seed iid h = the (option_by_iid (fst (hd (quote_ticks iid h))) iid)"

definition latest_entry :: "chrono \<Rightarrow> u64 \<Rightarrow> option_tick \<Rightarrow> tick list \<Rightarrow> consolidated" where
  "latest_entry D iid opt ts =
     \<lparr>cs_expiry = format_date D (ot_expiry opt), cs_right = right_text (ot_right opt), cs_strike = ot_strike opt,
      cs_bid = latest BidTick tk_price (pos_or_none (ot_bid opt)) ts,
      cs_ask = latest AskTick tk_price (pos_or_none (ot_ask opt)) ts,
      cs_bid_size = latest BidSize (map_option ucast \<circ> tk_size) (pos_or_none_size (ot_bid_size opt)) ts,
      cs_ask_size = latest AskSize (map_option ucast \<circ> tk_size) (pos_or_none_size (ot_ask_size opt)) ts\<rparr>"

lemma feed_run_snoc:
  "feed_run step (h @ [(s, t)]) c =
     (case feed_run step h c of (fs, c1) \<Rightarrow> (case step s t c1 of (os, c2) \<Rightarrow> (fs @ os, c2)))"
  by (induction step h c rule: feed_run.induct) (auto split: prod.split)

lemma merge_latest:
  "quote_kind (tk_kind t) \<Longrightarrow> merge_tick t (latest_entry D iid opt ts) = latest_entry D iid opt (ts @ [t])"
  by (auto simp: merge_tick_def latest_entry_def quote_kind_def split: tick_kind.split)

lemma refresh_same:
  "ot_expiry opt' = ot_expiry opt \<Longrightarrow> ot_right opt' = ot_right opt \<Longrightarrow> ot_strike opt' = ot_strike opt \<Longrightarrow>
     refresh_identity D opt' (latest_entry D iid opt ts) = latest_entry D iid opt ts"
  by (simp add: refresh_identity_def latest_entry_def)

lemma seed_latest: "refresh_identity D opt (seed_entry D opt) = latest_entry D iid opt []"
  by (simp add: seed_entry_def latest_entry_def refresh_identity_def)

lemma fastpath_other:
  "tk_instrument t \<noteq> iid \<or> \<not> quote_kind (tk_kind t) \<Longrightarrow> snd (fastpath_tick D s t c) iid = c iid"
  by (auto simp: fastpath_tick_def Let_def split: option.split)

lemma stays_option_nth:
  assumes "stays_option iid k ex r h" "(s, t) \<in> set h"
  obtains opt where "product_for_underlying s iid = None" "option_by_iid s iid = Some opt" "ot_strike opt = k"
    "ot_expiry opt = ex" "ot_right opt = r"
  using assms by (auto simp: stays_option_def list_all_iff)

lemma first_seed_identity:
  assumes "stays_option iid k ex r h" "quote_ticks iid h \<noteq> []"
  shows "ot_strike (first_seed iid h) = k \<and> ot_expiry (first_seed iid h) = ex \<and> ot_right (first_seed iid h) = r"
proof -
  obtain s t where st: "hd (quote_ticks iid h) = (s, t)" by fastforce
  with assms(2) have "(s, t) \<in> set h" using hd_in_set [OF assms(2)] by (simp add: quote_ticks_def)
  from stays_option_nth [OF assms(1) this] show ?thesis by (metis first_seed_def fst_conv option.sel st)
qed

lemma quote_ticks_snoc:
  "quote_ticks iid (h @ [(s, t)]) = quote_ticks iid h @ (if tk_instrument t = iid \<and> quote_kind (tk_kind t) then [(s, t)] else [])"
  by (simp add: quote_ticks_def)

lemma first_seed_snoc:
  "quote_ticks iid h \<noteq> [] \<Longrightarrow> first_seed iid (h @ [(s, t)]) = first_seed iid h"
  by (simp add: first_seed_def quote_ticks_snoc)

text \<open>A quote tick of the option: the frame it publishes and the entry it leaves.\<close>

lemma fastpath_quote:
  assumes "product_for_underlying s iid = None" "option_by_iid s iid = Some opt" "tk_instrument t = iid" "quote_kind (tk_kind t)"
    and "c iid = (if ts = [] then None else Some (latest_entry D iid seed ts))"
    and "ot_strike seed = ot_strike opt" "ot_expiry seed = ot_expiry opt" "ot_right seed = ot_right opt" "ts = [] \<Longrightarrow> seed = opt"
  shows "fastpath_tick D s t c =
    ([TickFrame (encode_tick_into (tick_event_of (latest_entry D iid seed (ts @ [t])) (ot_depth opt) (tk_time t)) [])],
     c(iid \<mapsto> latest_entry D iid seed (ts @ [t])))"
proof -
  have "refresh_identity D opt (case c iid of Some e \<Rightarrow> e | None \<Rightarrow> seed_entry D opt) = latest_entry D iid seed ts"
    using assms(5-9) by (cases "ts = []") (simp_all add: seed_latest refresh_same)
  with assms(1-4) show ?thesis by (simp add: fastpath_tick_def Let_def merge_latest)
qed

lemma cache_latest:
  assumes "stays_option iid k ex r h"
  shows "snd (feed_run (fastpath_tick D) h Map.empty) iid =
    (if quote_ticks iid h = [] then None
     else Some (latest_entry D iid (first_seed iid h) (map snd (quote_ticks iid h))))"
  using assms
proof (induction h rule: rev_induct)
  case (snoc x h)
  obtain s t where x: "x = (s, t)" by fastforce
  obtain fs c where run: "feed_run (fastpath_tick D) h Map.empty = (fs, c)" by fastforce
  have st: "stays_option iid k ex r h" using snoc.prems by (simp add: stays_option_def)
  note IH = snoc.IH [OF st, unfolded run snd_conv]
  show ?case
  proof (cases "tk_instrument t = iid \<and> quote_kind (tk_kind t)")
    case False
    with fastpath_other [of t iid D s c] IH show ?thesis
      by (auto simp: x feed_run_snoc run quote_ticks_snoc first_seed_def split: prod.split)
  next
    case True
    obtain opt where opt: "product_for_underlying s iid = None" "option_by_iid s iid = Some opt" "ot_strike opt = k"
      "ot_expiry opt = ex" "ot_right opt = r"
      using stays_option_nth [OF snoc.prems, of s t] x by auto
    let ?seed = "first_seed iid (h @ [(s, t)])"
    have seed: "ot_strike ?seed = ot_strike opt" "ot_expiry ?seed = ot_expiry opt" "ot_right ?seed = ot_right opt"
      "map snd (quote_ticks iid h) = [] \<Longrightarrow> ?seed = opt"
      using first_seed_identity [OF snoc.prems] opt True x
      by (auto simp: quote_ticks_snoc) (simp add: first_seed_def quote_ticks_snoc)
    have "c iid = (if map snd (quote_ticks iid h) = [] then None else Some (latest_entry D iid ?seed (map snd (quote_ticks iid h))))"
      using IH first_seed_snoc [of iid h s t] by auto
    from fastpath_quote [where c = c, OF opt(1,2) _ _ this seed, where t = t] True show ?thesis
      by (simp add: x feed_run_snoc run quote_ticks_snoc)
  qed
qed (simp add: quote_ticks_def)

text \<open>
  \<^bold>\<open>C12.\<close> Whatever ticks of whatever instruments come from the gateway, and however the market data change
  meanwhile: the frame published for a quote tick of an option decodes in the trader, into any message left
  over from before, to the identity of that option, its latest bid, ask and sizes, each from the last tick
  of its kind or, before the first one, from the market data, the top two levels of the depth book at that
  moment and the time of the tick.
\<close>

theorem trader_sees_latest_quote:
  assumes "stays_option iid k ex r (h @ [(s, t)])" "tk_instrument t = iid" "quote_kind (tk_kind t)"
    and "length (format_date D ex) < 2 ^ 32" "option_by_iid s iid = Some opt"
    and "seed = first_seed iid (h @ [(s, t)])" "ts = map snd (quote_ticks iid (h @ [(s, t)]))"
  shows "\<exists>fs body. fst (feed_run (fastpath_tick D) (h @ [(s, t)]) Map.empty) = fs @ [TickFrame body] \<and>
    decode_tick body msg0 = (True,
      \<lparr>tk_strike = k, tk_expiry = format_date D ex, tk_right = right_text r,
       tk_bid = latest BidTick tk_price (pos_or_none (ot_bid seed)) ts,
       tk_ask = latest AskTick tk_price (pos_or_none (ot_ask seed)) ts,
       tk_bid_size = latest BidSize (map_option ucast \<circ> tk_size) (pos_or_none_size (ot_bid_size seed)) ts,
       tk_ask_size = latest AskSize (map_option ucast \<circ> tk_size) (pos_or_none_size (ot_ask_size seed)) ts,
       tk_ts_ns = Some (tk_time t), tk_broker_recv_ns = Some (tk_time t),
       depth_bid_0 = level_price 0 (db_bids (ot_depth opt)), depth_bid_1 = level_price 1 (db_bids (ot_depth opt)),
       depth_ask_0 = level_price 0 (db_asks (ot_depth opt)), depth_ask_1 = level_price 1 (db_asks (ot_depth opt))\<rparr>)"
proof -
  let ?ts = "map snd (quote_ticks iid h)"
  obtain fs c where run: "feed_run (fastpath_tick D) h Map.empty = (fs, c)" by fastforce
  have st: "stays_option iid k ex r h" using assms(1) by (simp add: stays_option_def)
  have opt: "product_for_underlying s iid = None" "ot_strike opt = k" "ot_expiry opt = ex" "ot_right opt = r"
    using stays_option_nth [OF assms(1), of s t] assms(5) by auto
  have ts: "ts = ?ts @ [t]" using assms(2,3,7) by (simp add: quote_ticks_snoc)
  have seed: "ot_strike seed = ot_strike opt" "ot_expiry seed = ot_expiry opt" "ot_right seed = ot_right opt" "?ts = [] \<Longrightarrow> seed = opt"
    using first_seed_identity [OF assms(1)] opt assms(2,3,5,6)
    by (auto simp: quote_ticks_snoc) (simp add: first_seed_def quote_ticks_snoc)
  have "c iid = (if ?ts = [] then None else Some (latest_entry D iid seed ?ts))"
    using cache_latest [OF st, of D, unfolded run] first_seed_snoc [of iid h s t] assms(6) by auto
  note frame = fastpath_quote [where c = c, OF opt(1) assms(5,2,3) this seed]
  let ?ev = "tick_event_of (latest_entry D iid seed ts) (ot_depth opt) (tk_time t)"
  have "event_ok ?ev" using assms(4) opt seed by (simp add: event_ok_def tick_event_of_def latest_entry_def right_text_def split: right.split)
  from decode_tick_encoded [OF this, of msg0] frame opt seed show ?thesis
    by (simp add: feed_run_snoc run ts event_tick_def tick_event_of_def latest_entry_def)
qed

definition demo_market :: market_state where
  "demo_market = register_option ''HG'' (lit 6) 20000 Call 100 new_market"

definition demo_bid :: tick where
  "demo_bid = \<lparr>tk_instrument = 100, tk_kind = BidTick, tk_price = Some (lit 2), tk_size = None, tk_time = 5\<rparr>"

definition demo_ask_size :: tick where
  "demo_ask_size = \<lparr>tk_instrument = 100, tk_kind = AskSize, tk_price = None, tk_size = Some 7, tk_time = 6\<rparr>"

definition demo_dates :: chrono where
  "demo_dates = \<lparr>parse_date = (\<lambda>_ _. None), format_date = (\<lambda>_. ''20260526''), format_gtd = (\<lambda>_. []),
     format_exec_time = (\<lambda>_. None)\<rparr>"

lemma demo_market_option:
  "product_for_underlying demo_market 100 = None"
  "option_by_iid demo_market 100 = Some ((new_option_tick (lit 6) 20000 Call)\<lparr>ot_instrument := Some 100\<rparr>)"
  by (simp_all add: demo_market_def register_option_def Let_def new_market_def product_for_underlying_def option_by_iid_def)

theorem trader_sees_latest_quote_witness:
  "\<exists>fs body msg. fst (feed_run (fastpath_tick demo_dates) [(demo_market, demo_bid), (demo_market, demo_ask_size)] Map.empty) =
       fs @ [TickFrame body] \<and>
     decode_tick body default_tick = (True, msg) \<and> tk_bid msg = Some (lit 2) \<and> tk_ask_size msg = Some 7 \<and> tk_ask msg = None"
proof -
  let ?h = "[(demo_market, demo_bid)] @ [(demo_market, demo_ask_size)]"
  let ?opt = "(new_option_tick (lit 6) 20000 Call)\<lparr>ot_instrument := Some 100\<rparr>"
  have st: "stays_option 100 (lit 6) 20000 Call ?h"
    by (simp add: stays_option_def demo_market_option) (simp add: new_option_tick_def)
  have q: "quote_ticks 100 ?h = ?h" by (simp add: quote_ticks_def quote_kind_def demo_bid_def demo_ask_size_def)
  have seed: "first_seed 100 ?h = ?opt" by (simp only: first_seed_def q) (simp add: demo_market_option)
  have n: "tk_instrument demo_ask_size = 100" "quote_kind (tk_kind demo_ask_size)" "length (format_date demo_dates 20000) < 2 ^ 32"
    by (simp_all add: demo_ask_size_def quote_kind_def demo_dates_def)
  from trader_sees_latest_quote [OF st n demo_market_option(2) refl refl, of default_tick, unfolded seed q]
  show ?thesis
    by (auto simp: latest_def demo_bid_def demo_ask_size_def new_option_tick_def pos_or_none_def f64_ord)
qed

subsection \<open>The two paths\<close>

text \<open>
  An instrument has no quotes in the market data when its first tick is forwarded, and keeps its identity
  afterwards.
\<close>

fun undisturbed :: "chrono \<Rightarrow> (market_state \<times> tick) list \<Rightarrow> tick_cache \<Rightarrow> bool" where
  "undisturbed D [] c = True"
| "undisturbed D ((s, t) # h) c \<longleftrightarrow>
     (case option_by_iid s (tk_instrument t) of
        None \<Rightarrow> True
      | Some opt \<Rightarrow>
          (case c (tk_instrument t) of
             None \<Rightarrow> pos_or_none (ot_bid opt) = None \<and> pos_or_none (ot_ask opt) = None \<and>
               ot_bid_size opt = 0 \<and> ot_ask_size opt = 0
           | Some e \<Rightarrow> cs_strike e = ot_strike opt \<and> cs_expiry e = format_date D (ot_expiry opt) \<and>
               cs_right e = right_text (ot_right opt))) \<and>
     undisturbed D h (snd (forward_tick D s t c))"

lemma option_meta_by_iid:
  "option_meta_of s iid = None \<longleftrightarrow> option_by_iid s iid = None"
  "option_by_iid s iid = Some opt \<Longrightarrow> \<exists>p. option_meta_of s iid =
     Some \<lparr>om_product = p, om_strike = ot_strike opt, om_expiry = ot_expiry opt, om_right = ot_right opt\<rparr>"
  by (auto simp: option_meta_of_def option_by_iid_def split: option.splits bind_splits)

lemma fastpath_forward:
  assumes "undisturbed D ((s, t) # h) c"
  shows "fastpath_tick D s t c = forward_tick D s t c"
proof (cases "option_by_iid s (tk_instrument t)")
  case None
  then have "option_meta_of s (tk_instrument t) = None" by (simp add: option_meta_by_iid)
  with None show ?thesis
    by (auto simp: fastpath_tick_def forward_tick_def underlying_feed_def quote_kind_def)
next
  case (Some opt)
  then obtain p where meta: "option_meta_of s (tk_instrument t) =
      Some \<lparr>om_product = p, om_strike = ot_strike opt, om_expiry = ot_expiry opt, om_right = ot_right opt\<rparr>"
    using option_meta_by_iid(2) by blast
  have "refresh_identity D opt (case c (tk_instrument t) of Some e \<Rightarrow> e | None \<Rightarrow> seed_entry D opt) =
      (case c (tk_instrument t) of Some e \<Rightarrow> e | None \<Rightarrow> \<lparr>cs_expiry = format_date D (ot_expiry opt),
         cs_right = right_text (ot_right opt), cs_strike = ot_strike opt, cs_bid = None, cs_ask = None,
         cs_bid_size = None, cs_ask_size = None\<rparr>)"
    using assms Some
    by (cases "c (tk_instrument t)") (simp_all add: refresh_identity_def seed_entry_def pos_or_none_size_def)
  with Some meta show ?thesis
    by (cases "c (tk_instrument t)")
      (auto simp: fastpath_tick_def forward_tick_def underlying_feed_def quote_kind_def Let_def)
qed

text \<open>
  The pump behind the broadcast channel publishes exactly the frames of the fast path, and leaves the
  same cache, on every stream in which an option has no quotes in the market data when its first tick comes
  and keeps its identity.
\<close>

theorem forwarding_paths_agree:
  "undisturbed D h c \<Longrightarrow> feed_run (fastpath_tick D) h c = feed_run (forward_tick D) h c"
proof (induction D h c rule: undisturbed.induct)
  case (2 D s t h c)
  then have "feed_run (fastpath_tick D) h (snd (forward_tick D s t c)) = feed_run (forward_tick D) h (snd (forward_tick D s t c))"
    by simp
  with fastpath_forward [OF 2(2)] show ?case by (cases "forward_tick D s t c") simp
qed simp

theorem forwarding_paths_agree_witness:
  "feed_run (fastpath_tick demo_dates) [(demo_market, demo_bid), (demo_market, demo_ask_size)] Map.empty =
     feed_run (forward_tick demo_dates) [(demo_market, demo_bid), (demo_market, demo_ask_size)] Map.empty"
proof (rule forwarding_paths_agree)
  have k: "tk_instrument demo_bid = 100" "tk_instrument demo_ask_size = 100" "quote_kind (tk_kind demo_bid)" "tk_kind demo_bid = BidTick"
    by (simp_all add: demo_bid_def demo_ask_size_def quote_kind_def)
  obtain p where "option_meta_of demo_market 100 = Some \<lparr>om_product = p, om_strike = lit 6, om_expiry = 20000, om_right = Call\<rparr>"
    using option_meta_by_iid(2) [OF demo_market_option(2)] by (auto simp: new_option_tick_def)
  then show "undisturbed demo_dates [(demo_market, demo_bid), (demo_market, demo_ask_size)] Map.empty"
    by (simp add: demo_market_option k forward_tick_def Let_def merge_tick_def)
      (simp add: new_option_tick_def pos_or_none_def f64_ord)
qed

end
