(* ===== verification/Pricing_Engine.thy ===== *)
theory Pricing_Engine
  imports Greeks F64_Lemmas
begin

section \<open>The pricing crate\<close>

text \<open>
  Model of \<^verbatim>\<open>rust/corsair_pricing/src/lib.rs\<close>: the Black-76 price, Brent's root finder, the implied volatility
  and the two volatility models.  The root finder is generic in its number type: the arguments are the
  embedding \<open>c\<close> of literals and the function.  At \<open>f64\<close>, with \<open>lit\<close>, it is the code; at \<open>real\<close> it is the
  algorithm in exact arithmetic, for which it is shown that an answer is close to a root.
\<close>

subsection \<open>Prices\<close>

record pricing_libm = libm +
  powi_fn :: "f64 \<Rightarrow> i32 \<Rightarrow> f64"

definition intrinsic :: "bool \<Rightarrow> f64 \<Rightarrow> f64 \<Rightarrow> f64" where
  "intrinsic is_call f k = (if is_call then fmax (f - k) 0 else fmax (k - f) 0)"

definition black76_price_inner :: "'z libm_scheme \<Rightarrow> f64 \<Rightarrow> f64 \<Rightarrow> f64 \<Rightarrow> f64 \<Rightarrow> f64 \<Rightarrow> char \<Rightarrow> f64" where
  "black76_price_inner lm f k t sigma r rt =
     (let is_call = (rt = CHR ''C'' \<or> rt = CHR ''c'') in
      if t \<le> 0 \<or> sigma \<le> 0 \<or> f \<le> 0 \<or> k \<le> 0 then intrinsic is_call f k
      else
        let sqrt_t = sqrt_fn lm t;
            d1 = (ln_fn lm (f / k) + lit (1 / 2) * sigma * sigma * t) / (sigma * sqrt_t);
            d2 = d1 - sigma * sqrt_t;
            df = exp_fn lm (- r * t)
        in if is_call then df * (f * norm_cdf lm d1 - k * norm_cdf lm d2)
           else df * (k * norm_cdf lm (- d2) - f * norm_cdf lm (- d1)))"

definition is_call_text :: "string \<Rightarrow> bool" where
  "is_call_text rt \<longleftrightarrow> map to_ascii_uppercase rt = ''C''"

definition black76_price :: "'z libm_scheme \<Rightarrow> f64 \<Rightarrow> f64 \<Rightarrow> f64 \<Rightarrow> f64 \<Rightarrow> f64 \<Rightarrow> string \<Rightarrow> f64" where
  "black76_price lm f k t sigma r rt =
     black76_price_inner lm f k t sigma r (if is_call_text rt then CHR ''C'' else CHR ''P'')"

subsection \<open>Brent's method\<close>

text \<open>\<^verbatim>\<open>==\<close> of floats, which is equality on the reals.\<close>

definition num_eq :: "'a :: ord \<Rightarrow> 'a \<Rightarrow> bool" where
  "num_eq x y \<longleftrightarrow> x \<le> y \<and> y \<le> x"

record 'a bracket =
  br_a :: 'a
  br_b :: 'a
  br_c :: 'a
  br_d :: 'a
  br_fa :: 'a
  br_fb :: 'a
  br_fc :: 'a
  br_mflag :: bool

definition swap_if_better :: "('a :: {abs, ord}) bracket \<Rightarrow> 'a bracket" where
  "swap_if_better st =
     (if \<bar>br_fa st\<bar> < \<bar>br_fb st\<bar>
      then st\<lparr>br_a := br_b st, br_b := br_a st, br_fa := br_fb st, br_fb := br_fa st\<rparr> else st)"

definition interpolate :: "('a :: {plus, minus, times, inverse, ord}) bracket \<Rightarrow> 'a" where
  "interpolate st =
     (let a = br_a st; b = br_b st; c = br_c st; fa = br_fa st; fb = br_fb st; fc = br_fc st in
      if \<not> num_eq fa fc \<and> \<not> num_eq fb fc
      then a * fb * fc / ((fa - fb) * (fa - fc)) + b * fa * fc / ((fb - fa) * (fb - fc))
             + c * fa * fb / ((fc - fa) * (fc - fb))
      else b - fb * (b - a) / (fb - fa))"

text \<open>The next point: the interpolated one, unless one of the five conditions asks for the middle.\<close>

definition next_point :: "(rat \<Rightarrow> 'a :: {plus, minus, times, inverse, abs, ord}) \<Rightarrow> 'a \<Rightarrow> 'a bracket \<Rightarrow> bool \<times> 'a" where
  "next_point c xtol st =
     (let a = br_a st; b = br_b st; s = interpolate st; lo = (c 3 * a + b) / c 4; hi = b;
          between = (if lo \<le> hi then lo \<le> s \<and> s \<le> hi else hi \<le> s \<and> s \<le> lo);
          cond1 = (\<not> between);
          cond2 = (br_mflag st \<and> \<bar>b - br_c st\<bar> / c 2 \<le> \<bar>s - b\<bar>);
          cond3 = (\<not> br_mflag st \<and> \<bar>br_c st - br_d st\<bar> / c 2 \<le> \<bar>s - b\<bar>);
          cond4 = (br_mflag st \<and> \<bar>b - br_c st\<bar> < xtol);
          cond5 = (\<not> br_mflag st \<and> \<bar>br_c st - br_d st\<bar> < xtol)
      in if cond1 \<or> cond2 \<or> cond3 \<or> cond4 \<or> cond5 then (True, (a + b) / c 2) else (False, s))"

definition brent_step :: "(rat \<Rightarrow> 'a :: {plus, minus, times, inverse, abs, ord}) \<Rightarrow> ('a \<Rightarrow> 'a) \<Rightarrow> 'a \<Rightarrow> 'a bracket \<Rightarrow> 'a bracket" where
  "brent_step c f xtol st =
     (let (mflag, s) = next_point c xtol st; fs = f s;
          st1 = st\<lparr>br_mflag := mflag, br_d := br_c st, br_c := br_b st, br_fc := br_fb st\<rparr>;
          st2 = (if br_fa st * fs < c 0 then st1\<lparr>br_b := s, br_fb := fs\<rparr> else st1\<lparr>br_a := s, br_fa := fs\<rparr>)
      in swap_if_better st2)"

fun brent_loop ::
  "(rat \<Rightarrow> 'a :: {plus, minus, times, inverse, abs, ord}) \<Rightarrow> ('a \<Rightarrow> 'a) \<Rightarrow> 'a \<Rightarrow> nat \<Rightarrow> 'a bracket \<Rightarrow> 'a option" where
  "brent_loop c f xtol 0 st =
     (if \<bar>br_b st - br_a st\<bar> < xtol \<or> \<bar>br_fb st\<bar> < c (1 / 10 ^ 9) then Some (br_b st) else None)"
| "brent_loop c f xtol (Suc n) st =
     (if \<bar>br_b st - br_a st\<bar> < xtol then Some (br_b st)
      else if num_eq (br_fb st) (c 0) then Some (br_b st)
      else brent_loop c f xtol n (brent_step c f xtol st))"

definition brent_start :: "('a :: {abs, ord} \<Rightarrow> 'a) \<Rightarrow> 'a \<Rightarrow> 'a \<Rightarrow> 'a bracket" where
  "brent_start f a b =
     (let st = swap_if_better \<lparr>br_a = a, br_b = b, br_c = a, br_d = a, br_fa = f a, br_fb = f b, br_fc = f a, br_mflag = True\<rparr>
      in st\<lparr>br_c := br_a st, br_fc := br_fa st, br_d := br_a st\<rparr>)"

definition brent :: "(rat \<Rightarrow> 'a :: {plus, minus, times, inverse, abs, ord}) \<Rightarrow> ('a \<Rightarrow> 'a) \<Rightarrow> 'a \<Rightarrow> 'a \<Rightarrow> 'a \<Rightarrow> nat \<Rightarrow> 'a option" where
  "brent c f a b xtol max_iter =
     (if c 0 \<le> f a * f b then None else brent_loop c f xtol max_iter (brent_start f a b))"

definition implied_vol :: "'z libm_scheme \<Rightarrow> f64 \<Rightarrow> f64 \<Rightarrow> f64 \<Rightarrow> f64 \<Rightarrow> f64 \<Rightarrow> string \<Rightarrow> f64 option" where
  "implied_vol lm market_price f k t r rt =
     (if t \<le> 0 \<or> market_price \<le> 0 then None
      else if market_price < exp_fn lm (- r * t) * intrinsic (is_call_text rt) f k - lit (1 / 10 ^ 10) then None
      else brent lit (\<lambda>sigma. black76_price lm f k t sigma r rt - market_price) (lit (1 / 100)) (lit 5) (lit (1 / 10 ^ 6)) 100)"

subsection \<open>Volatility models\<close>

definition svi_total_variance_inner :: "'z libm_scheme \<Rightarrow> f64 \<Rightarrow> f64 \<Rightarrow> f64 \<Rightarrow> f64 \<Rightarrow> f64 \<Rightarrow> f64 \<Rightarrow> f64" where
  "svi_total_variance_inner lm k a b rho m sigma =
     (let dk = k - m in a + b * (rho * dk + sqrt_fn lm (dk * dk + sigma * sigma)))"

text \<open>The name is shared with the function of the trader, which computes the same in another order.\<close>

definition engine_sabr_vol :: "'z pricing_libm_scheme \<Rightarrow> f64 \<Rightarrow> f64 \<Rightarrow> f64 \<Rightarrow> f64 \<Rightarrow> f64 \<Rightarrow> f64 \<Rightarrow> f64 \<Rightarrow> f64" where
  "engine_sabr_vol lm f k t alpha beta rho nu =
     (if t \<le> 0 \<or> alpha \<le> 0 \<or> f \<le> 0 \<or> k \<le> 0
      then (if 0 < alpha then alpha else lit (1 / 100))
      else
        let eps = lit (1 / 10 ^ 7) in
        if \<bar>f - k\<bar> < eps * f then
          let fmid_beta = powf_fn lm f (lit 1 - beta);
              term1 = alpha / fmid_beta;
              p1 = (powi_fn lm (lit 1 - beta) 2 / lit 24) * alpha * alpha / powf_fn lm f (lit 2 - lit 2 * beta);
              p2 = lit (25 / 100) * rho * beta * nu * alpha / fmid_beta;
              p3 = (lit 2 - lit 3 * rho * rho) * nu * nu / lit 24
          in term1 * (lit 1 + (p1 + p2 + p3) * t)
        else
          let fk = f * k;
              fk_beta = powf_fn lm fk ((lit 1 - beta) / lit 2);
              log_fk = ln_fn lm (f / k);
              z = (nu / alpha) * fk_beta * log_fk;
              xz = (if \<bar>z\<bar> < eps then lit 1
                    else let radicand = fmax (lit 1 - lit 2 * rho * z + z * z) 0;
                             sqrt_term = sqrt_fn lm radicand
                         in z / ln_fn lm ((sqrt_term + z - rho) / (lit 1 - rho)));
              omb = lit 1 - beta;
              denom1 = fk_beta * (lit 1 + powi_fn lm omb 2 / lit 24 * powi_fn lm log_fk 2
                                    + powi_fn lm omb 4 / lit 1920 * powi_fn lm log_fk 4);
              p1 = powi_fn lm omb 2 / lit 24 * alpha * alpha / powf_fn lm fk omb;
              p2 = lit (25 / 100) * rho * beta * nu * alpha / fk_beta;
              p3 = (lit 2 - lit 3 * rho * rho) * nu * nu / lit 24;
              result = (alpha / denom1) * xz * (lit 1 + (p1 + p2 + p3) * t)
          in if is_finite result \<and> 0 < result then result else fmax alpha (lit (1 / 1000)))"

subsection \<open>The root finder in exact arithmetic\<close>

text \<open>A bracket of the real algorithm: its values are those of the function and a root is inside.\<close>

definition brackets :: "(real \<Rightarrow> real) \<Rightarrow> real \<Rightarrow> real \<Rightarrow> real bracket \<Rightarrow> bool" where
  "brackets f l u st \<longleftrightarrow>
     br_fa st = f (br_a st) \<and> br_fb st = f (br_b st) \<and> br_fa st * br_fb st \<le> 0 \<and>
     l \<le> br_a st \<and> br_a st \<le> u \<and> l \<le> br_b st \<and> br_b st \<le> u"

lemma brackets_swap:
  "brackets f l u st \<Longrightarrow> brackets f l u (swap_if_better st) \<and> \<bar>br_fb (swap_if_better st)\<bar> \<le> \<bar>br_fa (swap_if_better st)\<bar>"
  by (auto simp: brackets_def swap_if_better_def mult.commute)

lemma next_point_between:
  assumes "next_point of_rat xtol st = (mflag, s)" "l \<le> br_a st" "br_a st \<le> u" "l \<le> br_b st" "br_b st \<le> u"
  shows "l \<le> s \<and> s \<le> (u :: real)"
proof -
  have q: "l \<le> (3 * br_a st + br_b st) / 4" "(3 * br_a st + br_b st) / 4 \<le> u"
    "l \<le> (br_a st + br_b st) / 2" "(br_a st + br_b st) / 2 \<le> u" using assms by auto
  have c: "of_rat 3 = (3 :: real)" "of_rat 4 = (4 :: real)" "of_rat 2 = (2 :: real)" by simp_all
  show ?thesis
  proof (cases "s = (br_a st + br_b st) / 2")
    case False
    with assms(1) have "if (3 * br_a st + br_b st) / 4 \<le> br_b st
        then (3 * br_a st + br_b st) / 4 \<le> s \<and> s \<le> br_b st else br_b st \<le> s \<and> s \<le> (3 * br_a st + br_b st) / 4"
      unfolding next_point_def Let_def c by (simp split: if_splits)
    with q assms show ?thesis by (simp split: if_splits)
  qed (use q in simp)
qed

lemma brackets_step:
  assumes "brackets f l u st" "\<bar>br_fb st\<bar> \<le> \<bar>br_fa st\<bar>" "br_fb st \<noteq> 0"
  shows "brackets f l u (brent_step of_rat f xtol st) \<and>
    \<bar>br_fb (brent_step of_rat f xtol st)\<bar> \<le> \<bar>br_fa (brent_step of_rat f xtol st)\<bar>"
proof -
  obtain mflag s where s: "next_point of_rat xtol st = (mflag, s)" by fastforce
  have "l \<le> s \<and> s \<le> u" using assms(1) unfolding brackets_def by (intro next_point_between [OF s]) blast+
  moreover have "f s * br_fb st \<le> 0" if "\<not> br_fa st * f s < 0"
    using that assms unfolding brackets_def mult_le_0_iff mult_less_0_iff by linarith
  ultimately show ?thesis
    unfolding brent_step_def Let_def s split_conv using assms(1)
    by (intro brackets_swap) (auto simp: brackets_def)
qed

lemma brackets_root:
  assumes "brackets f l u st" "continuous_on {l..u} f"
  shows "\<exists>z\<in>{l..u}. f z = 0 \<and> \<bar>z - br_b st\<bar> \<le> \<bar>br_b st - br_a st\<bar>"
proof -
  let ?a = "min (br_a st) (br_b st)" and ?b = "max (br_a st) (br_b st)"
  have sub: "{?a..?b} \<subseteq> {l..u}" using assms(1) by (auto simp: brackets_def)
  have "f ?a \<le> 0 \<and> 0 \<le> f ?b \<or> f ?b \<le> 0 \<and> 0 \<le> f ?a"
    using assms(1) by (auto simp: brackets_def mult_le_0_iff min_def max_def)
  then obtain z where "?a \<le> z" "z \<le> ?b" "f z = 0"
    using IVT' [of f ?a 0 ?b] IVT2' [of f ?b 0 ?a] continuous_on_subset [OF assms(2) sub] by fastforce
  with sub show ?thesis by (intro bexI [of _ z]) auto
qed

lemma brent_loop_root:
  assumes "brackets f l u st" "\<bar>br_fb st\<bar> \<le> \<bar>br_fa st\<bar>" "continuous_on {l..u} f" "0 < xtol"
    and "brent_loop of_rat f xtol n st = Some x"
  shows "l \<le> x \<and> x \<le> u \<and> ((\<exists>z\<in>{l..u}. f z = 0 \<and> \<bar>z - x\<bar> < xtol) \<or> \<bar>f x\<bar> < 1 / 10 ^ 9)"
  using assms
proof (induction n arbitrary: st)
  case 0
  then have "\<bar>br_b st - br_a st\<bar> < xtol \<or> \<bar>br_fb st\<bar> < 1 / 10 ^ 9" "x = br_b st"
    by (auto simp: of_rat_divide of_rat_power split: if_splits)
  with brackets_root [OF "0.prems"(1,3)] "0.prems"(1) show ?case by (auto simp: brackets_def)
next
  case (Suc n)
  consider "\<bar>br_b st - br_a st\<bar> < xtol" "x = br_b st" | "br_fb st = 0" "x = br_b st"
    | "br_fb st \<noteq> 0" "brent_loop of_rat f xtol n (brent_step of_rat f xtol st) = Some x"
    using Suc.prems(5) by (auto simp: num_eq_def split: if_splits)
  then show ?case
  proof cases
    case 1
    with brackets_root [OF Suc.prems(1,3)] Suc.prems(1) show ?thesis by (auto simp: brackets_def)
  next
    case 2
    with Suc.prems(1,4) show ?thesis by (auto simp: brackets_def)
  next
    case 3
    with brackets_step [OF Suc.prems(1,2) 3(1)] Suc show ?thesis by blast
  qed
qed

text \<open>
  \<^bold>\<open>C27.\<close> In exact arithmetic Brent's method, whatever its interpolation proposes, only evaluates a continuous
  function inside the given interval, and an answer is in the interval and either closer than the tolerance
  to a root or a point where the function is below the residual bound.  Without a strict change of sign there
  is no answer.
\<close>

theorem brent_finds_root:
  fixes f :: "real \<Rightarrow> real"
  assumes "continuous_on {l..u} f" "l \<le> u" "0 < xtol"
  shows "(0 \<le> f l * f u \<longrightarrow> brent of_rat f l u xtol n = None) \<and>
    (\<forall>x. brent of_rat f l u xtol n = Some x \<longrightarrow>
       l \<le> x \<and> x \<le> u \<and> ((\<exists>z\<in>{l..u}. f z = 0 \<and> \<bar>z - x\<bar> < xtol) \<or> \<bar>f x\<bar> < 1 / 10 ^ 9))"
proof (intro conjI impI allI)
  show "brent of_rat f l u xtol n = None" if "0 \<le> f l * f u" using that by (simp add: brent_def)
next
  fix x
  assume x: "brent of_rat f l u xtol n = Some x"
  let ?st0 = "\<lparr>br_a = l, br_b = u, br_c = l, br_d = l, br_fa = f l, br_fb = f u, br_fc = f l, br_mflag = True\<rparr>"
  have "brackets f l u ?st0" using x assms(2) by (simp add: brent_def brackets_def split: if_splits)
  note b = brackets_swap [OF this]
  have "brackets f l u (st\<lparr>br_c := x, br_fc := y, br_d := z\<rparr>) = brackets f l u st" for st x y z by (simp add: brackets_def)
  then have "brackets f l u (brent_start f l u)" using b by (simp add: brent_start_def Let_def)
  moreover have "\<bar>br_fb (brent_start f l u)\<bar> \<le> \<bar>br_fa (brent_start f l u)\<bar>"
    using b [THEN conjunct2] by (simp add: brent_start_def Let_def)
  ultimately show "l \<le> x" "x \<le> u" "(\<exists>z\<in>{l..u}. f z = 0 \<and> \<bar>z - x\<bar> < xtol) \<or> \<bar>f x\<bar> < 1 / 10 ^ 9"
    using brent_loop_root [of f l u "brent_start f l u" xtol n x] assms(1,3) x
    by (auto simp: brent_def split: if_splits)
qed

theorem brent_finds_root_witness:
  "brent of_rat (\<lambda>x :: real. x - 1) 0 3 (1 / 10) 2 = Some 1 \<and>
     ((\<exists>z\<in>{0..3}. z - 1 = 0 \<and> \<bar>z - 1\<bar> < 1 / 10) \<or> \<bar>1 - 1 :: real\<bar> < 1 / 10 ^ 9)"
proof -
  have "brent of_rat (\<lambda>x :: real. x - 1) 0 3 (1 / 10) 2 = Some 1"
    by (simp add: brent_def brent_start_def brent_step_def swap_if_better_def next_point_def interpolate_def num_eq_def
        numeral_2_eq_2 Let_def)
  moreover have "continuous_on {0..3} (\<lambda>x :: real. x - 1)" by (intro continuous_intros)
  ultimately show ?thesis using brent_finds_root [of 0 3 "\<lambda>x. x - 1" "1 / 10" 2] by auto
qed

end
