(* ===== verification/Span.thy ===== *)
theory Span
  imports Pricing_Engine Broker_Positions
begin

section \<open>The synthetic margin\<close>

text \<open>
  Model of \<^verbatim>\<open>rust/corsair_pricing/src/span.rs\<close>, the scan of sixteen scenarios over a portfolio of options, and of the
  account poll of \<^verbatim>\<open>rust/corsair_broker/src/tasks.rs\<close>, which compares the scan with the margin of the gateway to
  recalibrate the scale of the constraint checker.
\<close>

subsection \<open>Scenarios\<close>

record span_config =
  up_scan_pct :: f64
  down_scan_pct :: f64
  vol_scan_pct :: f64
  extreme_mult :: f64
  extreme_cover :: f64
  short_option_minimum :: f64
  sc_multiplier :: f64

definition PRICE_FRACS :: "f64 list" where
  "PRICE_FRACS =
     [0, 0, lit 1 / lit 3, lit 1 / lit 3, - lit 1 / lit 3, - lit 1 / lit 3,
      lit 2 / lit 3, lit 2 / lit 3, - lit 2 / lit 3, - lit 2 / lit 3, lit 1, lit 1, - lit 1, - lit 1]"

definition VOL_SIGNS :: "f64 list" where
  "VOL_SIGNS = concat (replicate 7 [lit 1, - lit 1])"

definition scenario_loss :: "'z libm_scheme \<Rightarrow> f64 \<Rightarrow> f64 \<Rightarrow> f64 \<Rightarrow> f64 \<Rightarrow> char \<Rightarrow> span_config \<Rightarrow> f64 \<Rightarrow> f64 \<times> f64 \<Rightarrow> f64" where
  "scenario_loss lm f k t iv rt cfg base sc =
     (let (frac, vol_sign) = sc;
          shift = (if 0 \<le> frac then frac * (f * up_scan_pct cfg) else frac * (f * down_scan_pct cfg));
          f_scen = fmax (f + shift) (lit 1);
          iv_scen = fmax (iv + vol_sign * (iv * vol_scan_pct cfg)) (lit (1 / 100))
      in - (black76_price_inner lm f_scen k t iv_scen 0 rt - base) * sc_multiplier cfg)"

definition extreme_loss :: "'z libm_scheme \<Rightarrow> f64 \<Rightarrow> f64 \<Rightarrow> f64 \<Rightarrow> char \<Rightarrow> span_config \<Rightarrow> f64 \<Rightarrow> f64 \<Rightarrow> f64" where
  "extreme_loss lm k t iv rt cfg base moved =
     - (black76_price_inner lm (fmax moved (lit 1)) k t iv 0 rt - base) * sc_multiplier cfg * extreme_cover cfg"

definition position_risk_array :: "'z libm_scheme \<Rightarrow> f64 \<Rightarrow> f64 \<Rightarrow> f64 \<Rightarrow> f64 \<Rightarrow> char \<Rightarrow> span_config \<Rightarrow> f64 list" where
  "position_risk_array lm f k t iv rt cfg =
     (if f \<le> 0 \<or> t \<le> 0 \<or> iv \<le> 0 then replicate 16 0
      else
        let base = black76_price_inner lm f k t iv 0 rt in
        map (scenario_loss lm f k t iv rt cfg base) (zip PRICE_FRACS VOL_SIGNS) @
        [extreme_loss lm k t iv rt cfg base (f + extreme_mult cfg * (f * up_scan_pct cfg)),
         extreme_loss lm k t iv rt cfg base (f - extreme_mult cfg * (f * down_scan_pct cfg))])"

subsection \<open>The margin of a portfolio\<close>

record span_position =
  sp_strike :: f64
  sp_right :: char
  sp_tte :: f64
  sp_iv :: f64
  sp_qty :: i64

record span_sums =
  ss_portfolio :: "f64 list"
  ss_nov :: f64
  ss_long_premium :: f64
  ss_short_count :: u64

record portfolio_margin_out =
  scan_risk :: f64
  net_option_value :: f64
  long_premium :: f64
  short_minimum :: f64
  total_margin :: f64
  worst_scenario :: i32

definition i64_unsigned_abs :: "i64 \<Rightarrow> u64" where
  "i64_unsigned_abs q = (if sint q < 0 then - q else q)"

definition add_position :: "'z libm_scheme \<Rightarrow> f64 \<Rightarrow> span_config \<Rightarrow> span_position \<Rightarrow> span_sums \<Rightarrow> span_sums" where
  "add_position lm f cfg p s =
     (if sp_qty p = 0 \<or> sp_tte p \<le> 0 \<or> sp_iv p \<le> 0 then s
      else
        let ra = position_risk_array lm f (sp_strike p) (sp_tte p) (sp_iv p) (sp_right p) cfg;
            qty_f = i64_as_f64 (sp_qty p);
            base = black76_price_inner lm f (sp_strike p) (sp_tte p) (sp_iv p) 0 (sp_right p);
            s1 = s\<lparr>ss_portfolio := map2 (\<lambda>v r. v + r * qty_f) (ss_portfolio s) ra,
                   ss_nov := ss_nov s + base * qty_f * sc_multiplier cfg\<rparr>
        in if 0 < sint (sp_qty p) then s1\<lparr>ss_long_premium := ss_long_premium s + base * qty_f * sc_multiplier cfg\<rparr>
           else s1\<lparr>ss_short_count := ss_short_count s + i64_unsigned_abs (sp_qty p)\<rparr>)"

definition worse :: "f64 list \<Rightarrow> nat \<Rightarrow> f64 \<times> i32 \<Rightarrow> f64 \<times> i32" where
  "worse vs i best = (if fst best < vs ! i then (vs ! i, of_nat i + 1) else best)"

definition worst_of :: "f64 list \<Rightarrow> f64 \<times> i32" where
  "worst_of vs = fold (worse vs) [0..<length vs] (0, 0)"

definition portfolio_margin :: "'z libm_scheme \<Rightarrow> f64 \<Rightarrow> span_position list \<Rightarrow> span_config \<Rightarrow> portfolio_margin_out" where
  "portfolio_margin lm f ps cfg =
     (let s = fold (add_position lm f cfg) ps
                \<lparr>ss_portfolio = replicate 16 0, ss_nov = 0, ss_long_premium = 0, ss_short_count = 0\<rparr>;
          (max_v, max_idx) = worst_of (ss_portfolio s);
          risk = fmax max_v 0;
          short_min = u64_as_f64 (ss_short_count s) * short_option_minimum cfg;
          risk_margin = fmax (risk - ss_nov s) 0;
          total = fmax (fmax risk_margin short_min) (ss_long_premium s)
      in \<lparr>scan_risk = risk, net_option_value = ss_nov s, long_premium = ss_long_premium s, short_minimum = short_min,
          total_margin = total, worst_scenario = (if 0 < risk then max_idx else 0)\<rparr>)"

subsection \<open>The account poll\<close>

definition margin_tte :: "date_time \<Rightarrow> naive_date \<Rightarrow> f64" where
  "margin_tte now ex = f64_of_int (num_seconds ((ex * 86400 + 16 * 3600) * 1000000000 - now)) / (lit 365 * lit 86400)"

definition span_row :: "date_time \<Rightarrow> product_registry \<Rightarrow> position \<Rightarrow> span_position option" where
  "span_row now reg pos =
     (let t = margin_tte now (p_expiry pos) in
      if t \<le> 0 then None
      else Some \<lparr>sp_strike = p_strike pos, sp_right = right_as_char (p_right pos), sp_tte = t,
                 sp_iv = (case reg (p_product pos) of Some i \<Rightarrow> pi_default_iv i | None \<Rightarrow> lit (30 / 100)),
                 sp_qty = scast (p_quantity pos)\<rparr>)"

definition margin_config :: "f64 \<Rightarrow> span_config" where
  "margin_config mpl =
     \<lparr>up_scan_pct = lit (5 / 100), down_scan_pct = lit (5 / 100), vol_scan_pct = lit (25 / 100), extreme_mult = lit 2,
      extreme_cover = lit (35 / 100), short_option_minimum = lit 50, sc_multiplier = mpl\<rparr>"

text \<open>
  The rows are grouped by product in a hash map, whose iteration order is the argument \<open>order\<close>; a product of
  that list without rows does not occur in the map.
\<close>

definition product_margin :: "'z libm_scheme \<Rightarrow> date_time \<Rightarrow> portfolio \<Rightarrow> market_state \<Rightarrow> string \<Rightarrow> f64 \<Rightarrow> f64" where
  "product_margin lm now pf md prd acc =
     (let rows = List.map_filter (span_row now (registry pf)) (filter (\<lambda>p. p_product p = prd) (portfolio.positions pf)) in
      case (state_underlying_price md prd, registry pf prd) of
        (Some f, Some info) \<Rightarrow>
          if rows = [] then acc else acc + total_margin (portfolio_margin lm f rows (margin_config (pi_multiplier info)))
      | _ \<Rightarrow> acc)"

definition compute_raw_synthetic_margin :: "'z libm_scheme \<Rightarrow> date_time \<Rightarrow> string list \<Rightarrow> runtime \<Rightarrow> f64" where
  "compute_raw_synthetic_margin lm now order R =
     (if portfolio.positions (rt_portfolio R) = [] then 0
      else fold (product_margin lm now (rt_portfolio R) (rt_market R)) order 0)"

definition account_poll :: "'z libm_scheme \<Rightarrow> date_time \<Rightarrow> u64 \<Rightarrow> string list \<Rightarrow> broker_error + account_snapshot \<Rightarrow> runtime \<Rightarrow> runtime" where
  "account_poll lm utc now order result R =
     (case result of
        Inl e \<Rightarrow> R
      | Inr snap \<Rightarrow>
          let R1 = resync_realized_pnl (R\<lparr>rt_account := snap\<rparr>); actual = as_maintenance_margin snap;
              raw = compute_raw_synthetic_margin lm utc order R1
          in if 0 < actual \<and> 0 < raw
             then R1\<lparr>rt_constraint := snd (update_cached_margin actual raw now (rt_constraint R1))\<rparr> else R1)"

subsection \<open>Bounds of the margin\<close>

lemma fmax_zero: "\<not> is_nan (fmax x 0) \<and> 0 \<le> fmax x 0"
  by (auto simp: fmax_def f64_ord)

lemma fmax_keeps: "\<not> is_nan x \<Longrightarrow> \<not> is_nan (fmax x y) \<and> x \<le> fmax x y"
  by (auto simp: fmax_def f64_ord)

lemma fmax_other: "\<not> is_nan y \<Longrightarrow> \<not> is_nan (fmax x y) \<and> y \<le> fmax x y"
  by (auto simp: fmax_def f64_ord)

lemma fmax_choice: "fmax x y = x \<or> fmax x y = y"
  by (simp add: fmax_def)

lemma worst_of_bounds:
  assumes "worst_of vs = (v, i)"
  shows "\<not> is_nan v \<and> 0 \<le> v \<and> (\<forall>x\<in>set vs. \<not> v < x) \<and> (v = 0 \<or> v \<in> set vs)"
proof -
  have "n \<le> length vs \<Longrightarrow>
      (let b = fst (fold (worse vs) [0..<n] (0, 0)) in
       \<not> is_nan b \<and> 0 \<le> b \<and> (\<forall>j<n. \<not> b < vs ! j) \<and> (b = 0 \<or> b \<in> set vs))" for n
  proof (induction n)
    case (Suc n)
    let ?p = "fold (worse vs) [0..<n] (0, 0)"
    have ih: "\<not> is_nan (fst ?p)" "0 \<le> fst ?p" "\<forall>j<n. \<not> fst ?p < vs ! j" "fst ?p = 0 \<or> fst ?p \<in> set vs"
      using Suc by (simp_all add: Let_def)
    show ?case
    proof (cases "fst ?p < vs ! n")
      case True
      then have "\<not> vs ! n < vs ! j" if "j < Suc n" for j
        using ih(3) that f64_less_trans [of "fst ?p" "vs ! n" "vs ! j"] by (auto simp: less_Suc_eq f64_ord)
      moreover have "0 \<le> vs ! n" "\<not> is_nan (vs ! n)" using True ih(2) by (auto simp: f64_ord)
      moreover have "fold (worse vs) [0..<Suc n] (0, 0) = (vs ! n, of_nat n + 1)" using True by (simp add: worse_def [of vs n])
      ultimately show ?thesis using Suc.prems unfolding Let_def by (metis Suc_le_lessD fst_conv nth_mem)
    next
      case False
      then have "fold (worse vs) [0..<Suc n] (0, 0) = ?p" by (simp add: worse_def [of vs n])
      with False ih show ?thesis unfolding Let_def by (metis less_Suc_eq)
    qed
  qed (simp add: f64_ord)
  from this [of "length vs"] assms show ?thesis by (simp add: worst_of_def Let_def in_set_conv_nth) (metis in_set_conv_nth)
qed

lemma total_margin_bounds:
  "\<not> is_nan (total_margin (portfolio_margin lm f ps cfg)) \<and> 0 \<le> total_margin (portfolio_margin lm f ps cfg)"
proof -
  have "\<not> is_nan (fmax (fmax (fmax x 0) y) z) \<and> 0 \<le> fmax (fmax (fmax x 0) y) z" for x y z
    using fmax_zero [of x] fmax_keeps [of "fmax x 0" y] fmax_keeps [of "fmax (fmax x 0) y" z] f64_le_trans by blast
  then show ?thesis by (simp add: portfolio_margin_def Let_def split: prod.split)
qed

text \<open>
  \<^bold>\<open>C36.\<close> The margin of a portfolio is never NaN and never negative, whatever the prices.  It is at least the
  short minimum, the premium of the long options and the scan risk less the value of the options, each
  where that is a number, and it is one of these or zero.  The scan risk is not below the loss of any of
  the sixteen scenarios.  A value of the options that is NaN removes the scan risk from the margin.
\<close>

theorem margin_floors:
  assumes "m = portfolio_margin lm f ps cfg"
  shows "\<not> is_nan (total_margin m) \<and> 0 \<le> total_margin m \<and>
    (\<not> is_nan (short_minimum m) \<longrightarrow> short_minimum m \<le> total_margin m) \<and>
    (\<not> is_nan (long_premium m) \<longrightarrow> long_premium m \<le> total_margin m) \<and>
    (\<not> is_nan (scan_risk m - net_option_value m) \<longrightarrow> scan_risk m - net_option_value m \<le> total_margin m) \<and>
    total_margin m \<in> {0, short_minimum m, long_premium m, scan_risk m - net_option_value m} \<and>
    (\<forall>v\<in>set (ss_portfolio (fold (add_position lm f cfg) ps
        \<lparr>ss_portfolio = replicate 16 0, ss_nov = 0, ss_long_premium = 0, ss_short_count = 0\<rparr>)). \<not> scan_risk m < v) \<and>
    (is_nan (net_option_value m) \<longrightarrow> total_margin m \<in> {0, short_minimum m, long_premium m})"
proof -
  let ?s = "fold (add_position lm f cfg) ps
        \<lparr>ss_portfolio = replicate 16 0, ss_nov = 0, ss_long_premium = 0, ss_short_count = 0\<rparr>"
  obtain v i where w: "worst_of (ss_portfolio ?s) = (v, i)" by fastforce
  define r where "r = fmax (scan_risk m - net_option_value m) 0"
  have total: "total_margin m = fmax (fmax r (short_minimum m)) (long_premium m)"
    by (simp add: assms portfolio_margin_def r_def w Let_def)
  have scan: "scan_risk m = fmax v 0" by (simp add: assms portfolio_margin_def w Let_def)
  have r: "\<not> is_nan r" "0 \<le> r" using fmax_zero by (simp_all add: r_def)
  have q: "\<not> is_nan (fmax r (short_minimum m))" "r \<le> fmax r (short_minimum m)" using fmax_keeps r(1) by blast+
  have t: "\<not> is_nan (total_margin m)" "fmax r (short_minimum m) \<le> total_margin m" using fmax_keeps q(1) unfolding total by blast+
  have le: "x \<le> total_margin m" if "x \<le> fmax r (short_minimum m)" for x using that t(2) f64_le_trans by blast
  have "scan_risk m - net_option_value m \<le> total_margin m" if "\<not> is_nan (scan_risk m - net_option_value m)"
    using fmax_keeps [OF that, of 0] q(2) le f64_le_trans unfolding r_def by blast
  moreover have "short_minimum m \<le> total_margin m" if "\<not> is_nan (short_minimum m)" using fmax_other [OF that] le by blast
  moreover have "long_premium m \<le> total_margin m" if "\<not> is_nan (long_premium m)" using fmax_other [OF that] unfolding total by blast
  moreover have "total_margin m \<in> {r, short_minimum m, long_premium m}"
    using fmax_choice [of r "short_minimum m"] fmax_choice [of "fmax r (short_minimum m)" "long_premium m"] unfolding total by auto
  moreover have "r \<in> {0, scan_risk m - net_option_value m}" using fmax_choice [of "scan_risk m - net_option_value m" 0] by (auto simp: r_def)
  moreover have "r = 0" if "is_nan (net_option_value m)"
    using that by (simp add: r_def fmax_def minus_f64_def fadd_def)
  moreover have "\<forall>x\<in>set (ss_portfolio ?s). \<not> scan_risk m < x"
    using worst_of_bounds [OF w] by (auto simp: scan fmax_def f64_ord)
  moreover have "0 \<le> total_margin m" using le q(2) r(2) f64_le_trans by blast
  ultimately show ?thesis using t(1) by blast
qed

definition flat_prices :: libm where
  "flat_prices = \<lparr>exp_fn = id, ln_fn = id, sqrt_fn = id, powf_fn = (\<lambda>x y. x), norm_cdf = id\<rparr>"

theorem margin_floors_witness:
  "let m = portfolio_margin flat_prices (lit 6) [\<lparr>sp_strike = lit 6, sp_right = CHR ''C'', sp_tte = lit 1, sp_iv = lit 1, sp_qty = - 1\<rparr>]
         (margin_config (lit 25000))
   in 0 \<le> total_margin m \<and> \<not> is_nan (total_margin m)"
  using margin_floors [OF refl] unfolding Let_def by blast

subsection \<open>The scale of the margin\<close>

lemma fadd_nonneg:
  assumes "0 \<le> x" "0 \<le> y"
  shows "0 \<le> x + (y :: f64)"
proof -
  have n: "\<not> is_nan x" "\<not> is_nan y" "0 \<le> fkey x" "0 \<le> fkey y" using assms by (simp_all add: f64_ord)
  show ?thesis
  proof (cases "is_infinite x \<or> is_infinite y")
    case True
    have "\<not> sign_neg z" if "is_infinite z" "0 \<le> fkey z" for z
      using that by (auto simp: fkey_def is_infinite_def inf_mag_def split: if_splits)
    with True n assms show ?thesis by (auto simp: plus_f64_def fadd_def)
  next
    case False
    then have fin: "is_finite x" "is_finite y" using n by (auto simp: is_infinite_def is_nan_def is_finite_def)
    have "0 \<le> val x" "0 \<le> val y" using fin assms f64_le_val [of 0 x] f64_le_val [of 0 y] by (simp_all add: val_def)
    then have "0 \<le> round_f64 (sign_neg x \<and> sign_neg y) (val x + val y)"
      using round_f64_mono [of 0 "val x + val y" False "sign_neg x \<and> sign_neg y"] by (simp add: f64_le_iff fkey_round_f64 round_mag_range)
    with False n show ?thesis by (simp add: plus_f64_def fadd_def)
  qed
qed

lemma raw_margin_nonneg: "0 \<le> compute_raw_synthetic_margin lm now order R"
proof -
  have "0 \<le> acc \<Longrightarrow> 0 \<le> product_margin lm now pf md prd acc" for pf md prd acc
    by (auto simp: product_margin_def Let_def intro!: fadd_nonneg total_margin_bounds [THEN conjunct2] split: option.split)
  then have "0 \<le> acc \<Longrightarrow> 0 \<le> fold (product_margin lm now pf md) order acc" for pf md acc
    by (induction order arbitrary: acc) simp_all
  then show ?thesis by (simp add: compute_raw_synthetic_margin_def f64_ord)
qed

text \<open>
  An account poll with a finite maintenance margin keeps the scale of the margin inside its band,
  whatever the positions, volatilities and prices of the book are: a scan that is not positive or not a
  number never reaches the calibration.
\<close>

theorem account_poll_keeps_scale:
  assumes "scale_ok (rt_constraint R)" "\<And>snap. result = Inr snap \<Longrightarrow> is_finite (as_maintenance_margin snap)"
  shows "scale_ok (rt_constraint (account_poll lm utc now order result R))"
proof (cases result)
  case (Inl e)
  with assms show ?thesis by (simp add: account_poll_def)
next
  case (Inr snap)
  define R1 where "R1 = resync_realized_pnl (R\<lparr>rt_account := snap\<rparr>)"
  define raw where "raw = compute_raw_synthetic_margin lm utc order R1"
  let ?actual = "as_maintenance_margin snap"
  have R1: "rt_constraint R1 = rt_constraint R" by (simp add: R1_def resync_realized_pnl_def)
  have "scale_ok (snd (update_cached_margin ?actual raw now (rt_constraint R)))" if "0 < ?actual" "0 < raw"
  proof -
    have fin: "is_finite ?actual" using assms(2) Inr by blast
    then have "\<not> is_nan ?actual" "\<not> is_infinite ?actual" by (simp_all add: finite_not_nan is_finite_def is_infinite_def)
    moreover have "\<not> is_zero raw" "\<not> is_nan raw" using that(2) by (auto simp: is_zero_def f64_ord fkey_def split: if_splits)
    moreover have "\<not> is_nan (mk_f64 s 0)" for s by (simp add: is_nan_def inf_mag_def)
    ultimately have "\<not> is_nan (?actual / raw)" by (simp add: divide_f64_def fdiv_def Let_def)
    then have "?actual / raw < IBKR_SCALE_LOWER \<or> IBKR_SCALE_UPPER < ?actual / raw \<or>
        IBKR_SCALE_LOWER \<le> ?actual / raw \<and> ?actual / raw \<le> IBKR_SCALE_UPPER"
      using f64_not_less scale_one(3,4) by blast
    then show ?thesis using assms(1) scale_one(1,2) by (auto simp: update_cached_margin_def scale_ok_def Let_def)
  qed
  then show ?thesis using assms(1) by (simp add: account_poll_def Inr Let_def R1 flip: R1_def raw_def)
qed

definition demo_snapshot :: account_snapshot where
  "demo_snapshot = (rt_account demo_runtime)\<lparr>as_maintenance_margin := lit 90\<rparr>"

theorem account_poll_keeps_scale_witness:
  "scale_ok (rt_constraint (account_poll flat_prices 0 1 [] (Inr demo_snapshot) demo_runtime))"
proof (rule account_poll_keeps_scale)
  have "scale_ok (new_checker demo_ccfg)" by code_simp
  then show "scale_ok (rt_constraint demo_runtime)" by (simp add: demo_runtime_def)
  have "is_finite (lit 90)" by code_simp
  then show "is_finite (as_maintenance_margin snap)" if "Inr demo_snapshot = Inr snap" for snap
    using that by (auto simp: demo_snapshot_def)
qed

end
