(* ===== verification/Linear_Solver.thy ===== *)
theory Linear_Solver
  imports Greeks
begin

section \<open>Dense linear systems\<close>

text \<open>
  Model of \<^verbatim>\<open>solve_linear\<close> of \<^verbatim>\<open>rust/corsair_pricing/src/calibrate.rs\<close>: elimination with partial pivoting, in place, and
  back substitution.  Like the root finder of the pricing crate it is generic in the number type, with the
  embedding \<open>c\<close> of literals as an argument; at \<open>real\<close> it is shown to solve the system.  A result \<open>None\<close> is
  the answer \<^verbatim>\<open>false\<close>, after which the caller drops the two buffers.
\<close>

subsection \<open>The algorithm\<close>

definition pivot_step :: "('a :: {abs, ord}) list list \<Rightarrow> nat \<Rightarrow> nat \<Rightarrow> nat \<times> 'a \<Rightarrow> nat \<times> 'a" where
  "pivot_step a k i pv = (if snd pv < \<bar>a ! i ! k\<bar> then (i, \<bar>a ! i ! k\<bar>) else pv)"

definition find_pivot :: "('a :: {abs, ord}) list list \<Rightarrow> nat \<Rightarrow> nat \<Rightarrow> nat \<times> 'a" where
  "find_pivot a n k = fold (pivot_step a k) [Suc k..<n] (k, \<bar>a ! k ! k\<bar>)"

definition swap_rows :: "nat \<Rightarrow> nat \<Rightarrow> 'b list \<Rightarrow> 'b list" where
  "swap_rows p k xs = xs[p := xs ! k, k := xs ! p]"

definition eliminate_row ::
  "nat \<Rightarrow> nat \<Rightarrow> nat \<Rightarrow> ('a :: {minus, times, inverse}) list list \<times> 'a list \<Rightarrow> 'a list list \<times> 'a list" where
  "eliminate_row n k i s =
     (let (a, b) = s; factor = a ! i ! k / a ! k ! k
      in (a[i := map (\<lambda>j. if k \<le> j \<and> j < n then a ! i ! j - factor * a ! k ! j else a ! i ! j) [0..<length (a ! i)]],
          b[i := b ! i - factor * b ! k]))"

definition eliminate_column ::
  "(rat \<Rightarrow> 'a :: {minus, times, inverse, abs, ord}) \<Rightarrow> nat \<Rightarrow> nat \<Rightarrow> 'a list list \<times> 'a list \<Rightarrow> ('a list list \<times> 'a list) option" where
  "eliminate_column c n k s =
     (let (a, b) = s; (piv, piv_val) = find_pivot a n k in
      if piv_val < c (1 / 10 ^ 14) then None
      else Some (fold (eliminate_row n k) [Suc k..<n] (if piv \<noteq> k then (swap_rows piv k a, swap_rows piv k b) else (a, b))))"

primrec eliminate ::
  "(rat \<Rightarrow> 'a :: {minus, times, inverse, abs, ord}) \<Rightarrow> nat \<Rightarrow> nat list \<Rightarrow> 'a list list \<times> 'a list \<Rightarrow> ('a list list \<times> 'a list) option" where
  "eliminate c n [] s = Some s"
| "eliminate c n (k # ks) s = (case eliminate_column c n k s of None \<Rightarrow> None | Some s' \<Rightarrow> eliminate c n ks s')"

definition back_row :: "('a :: {minus, times, inverse}) list list \<Rightarrow> nat \<Rightarrow> nat \<Rightarrow> 'a list \<Rightarrow> 'a list" where
  "back_row a n i b = b[i := fold (\<lambda>j s. s - a ! i ! j * b ! j) [Suc i..<n] (b ! i) / a ! i ! i]"

definition solve_linear ::
  "(rat \<Rightarrow> 'a :: {minus, times, inverse, abs, ord}) \<Rightarrow> 'a list list \<Rightarrow> 'a list \<Rightarrow> nat \<Rightarrow> 'a list option" where
  "solve_linear c a b n =
     (case eliminate c n [0..<n] (a, b) of
        None \<Rightarrow> None
      | Some (a', b') \<Rightarrow> Some (fold (back_row a' n) (rev [0..<n]) b'))"

subsection \<open>Systems and their solutions\<close>

definition well_sized :: "nat \<Rightarrow> 'a list list \<times> 'b list \<Rightarrow> bool" where
  "well_sized n s \<longleftrightarrow> length (fst s) = n \<and> (\<forall>i<n. length (fst s ! i) = n) \<and> length (snd s) = n"

definition solves :: "nat \<Rightarrow> real list list \<times> real list \<Rightarrow> (nat \<Rightarrow> real) \<Rightarrow> bool" where
  "solves n s x \<longleftrightarrow> (\<forall>i<n. (\<Sum>j<n. fst s ! i ! j * x j) = snd s ! i)"

text \<open>The first \<open>k\<close> columns are cleared below the diagonal, and their pivots are not zero.\<close>

definition cleared :: "nat \<Rightarrow> nat \<Rightarrow> real list list \<Rightarrow> bool" where
  "cleared n k a \<longleftrightarrow> (\<forall>j<k. a ! j ! j \<noteq> 0 \<and> (\<forall>i. j < i \<longrightarrow> i < n \<longrightarrow> a ! i ! j = 0))"

lemma find_pivot_range:
  assumes "k < n" "find_pivot a n k = (piv, v)"
  shows "k \<le> piv \<and> piv < n \<and> v = \<bar>a ! piv ! k\<bar>"
proof -
  have "k \<le> fst p \<and> fst p < n \<and> snd p = \<bar>a ! fst p ! k\<bar> \<Longrightarrow>
      (\<forall>i\<in>set is. k < i \<and> i < n) \<Longrightarrow>
      k \<le> fst (fold (pivot_step a k) is p) \<and> fst (fold (pivot_step a k) is p) < n \<and>
      snd (fold (pivot_step a k) is p) = \<bar>a ! fst (fold (pivot_step a k) is p) ! k\<bar>" for "is" p
    by (induction "is" arbitrary: p) (auto simp: pivot_step_def)
  from this [of "(k, \<bar>a ! k ! k\<bar>)" "[Suc k..<n]"] assms show ?thesis by (simp add: find_pivot_def)
qed

lemma swap_rows_nth:
  "p < length xs \<Longrightarrow> k < length xs \<Longrightarrow> i < length xs \<Longrightarrow>
     swap_rows p k xs ! i = xs ! (if i = k then p else if i = p then k else i)"
  by (auto simp: swap_rows_def nth_list_update)

lemma length_swap_rows [simp]: "length (swap_rows p k xs) = length xs"
  by (simp add: swap_rows_def)

lemma swap_rows_solves:
  assumes "well_sized n (a, b)" "p < n" "k < n"
  shows "solves n (swap_rows p k a, swap_rows p k b) x = solves n (a, b) x"
proof -
  define g where "g i = (if i = k then p else if i = p then k else i)" for i
  have g: "g (g i) = i" "i < n \<Longrightarrow> g i < n" for i using assms(2,3) by (auto simp: g_def)
  have "swap_rows p k a ! i = a ! g i" "swap_rows p k b ! i = b ! g i" if "i < n" for i
    using that assms by (simp_all add: swap_rows_nth well_sized_def g_def)
  then have "solves n (swap_rows p k a, swap_rows p k b) x \<longleftrightarrow> (\<forall>i<n. (\<Sum>j<n. a ! g i ! j * x j) = b ! g i)"
    by (simp add: solves_def)
  also have "\<dots> \<longleftrightarrow> solves n (a, b) x" unfolding solves_def fst_conv snd_conv using g by metis
  finally show ?thesis .
qed

lemma eliminate_row_parts:
  assumes "well_sized n s" "k < i" "i < n"
  shows "well_sized n (eliminate_row n k i s)"
    and "l < n \<Longrightarrow> l \<noteq> i \<Longrightarrow> fst (eliminate_row n k i s) ! l = fst s ! l \<and> snd (eliminate_row n k i s) ! l = snd s ! l"
    and "j < n \<Longrightarrow> fst (eliminate_row n k i s) ! i ! j =
      (if k \<le> j then fst s ! i ! j - fst s ! i ! k / fst s ! k ! k * fst s ! k ! j else fst s ! i ! j)"
    and "snd (eliminate_row n k i s) ! i = snd s ! i - fst s ! i ! k / fst s ! k ! k * snd s ! k"
  using assms by (auto simp: eliminate_row_def well_sized_def Let_def split_beta nth_list_update)

lemma eliminate_row_full:
  assumes "well_sized n s" "k < i" "i < n" "cleared n k (fst s)" "j < n"
  shows "fst (eliminate_row n k i s) ! i ! j = fst s ! i ! j - fst s ! i ! k / fst s ! k ! k * fst s ! k ! j"
  using eliminate_row_parts(3) [OF assms(1-3,5)] assms(2-4) by (auto simp: cleared_def not_le)

lemma subtract_multiple: "(x :: real) - f * u = y - f * v \<longleftrightarrow> x - y = f * (u - v)"
  by (simp add: right_diff_distrib) argo

lemma subtract_multiple_solved: "(x :: real) - y = f * (u - v) \<Longrightarrow> u = v \<Longrightarrow> x = y"
  by simp

lemma eliminate_row_solves:
  assumes "well_sized n s" "k < i" "i < n" "cleared n k (fst s)"
  shows "solves n (eliminate_row n k i s) x = solves n s x"
proof -
  let ?s = "eliminate_row n k i s"
  define f where "f = fst s ! i ! k / fst s ! k ! k"
  have other: "(\<Sum>j<n. fst ?s ! l ! j * x j) = snd ?s ! l \<longleftrightarrow> (\<Sum>j<n. fst s ! l ! j * x j) = snd s ! l" if "l < n" "l \<noteq> i" for l
    using eliminate_row_parts(2) [OF assms(1-3) that] by simp
  have "(\<Sum>j<n. fst ?s ! i ! j * x j) = (\<Sum>j<n. fst s ! i ! j * x j) - f * (\<Sum>j<n. fst s ! k ! j * x j)"
    using eliminate_row_full [OF assms, folded f_def] by (simp add: left_diff_distrib sum_subtractf sum_distrib_left mult.assoc)
  then have row: "(\<Sum>j<n. fst ?s ! i ! j * x j) = snd ?s ! i \<longleftrightarrow>
      (\<Sum>j<n. fst s ! i ! j * x j) - snd s ! i = f * ((\<Sum>j<n. fst s ! k ! j * x j) - snd s ! k)"
    unfolding eliminate_row_parts(4) [OF assms(1-3), folded f_def] by (simp only: subtract_multiple)
  have k: "k < n" "k \<noteq> i" using assms(2,3) by simp_all
  show ?thesis
  proof
    assume "solves n ?s x"
    then have h: "(\<Sum>j<n. fst ?s ! l ! j * x j) = snd ?s ! l" if "l < n" for l using that by (simp add: solves_def)
    have "(\<Sum>j<n. fst s ! k ! j * x j) = snd s ! k" using other [OF k] h k by simp
    then have "(\<Sum>j<n. fst s ! i ! j * x j) = snd s ! i"
      by (rule subtract_multiple_solved [OF iffD1 [OF row h [OF assms(3)]]])
    then show "solves n s x" unfolding solves_def using iffD1 [OF other] h by blast
  next
    assume "solves n s x"
    then have h: "(\<Sum>j<n. fst s ! l ! j * x j) = snd s ! l" if "l < n" for l using that by (simp add: solves_def)
    have "(\<Sum>j<n. fst ?s ! i ! j * x j) = snd ?s ! i" using h k(1) assms(3) by (intro iffD2 [OF row]) simp
    then show "solves n ?s x" unfolding solves_def using iffD2 [OF other] h by blast
  qed
qed

lemma eliminate_rows:
  assumes "well_sized n s" "cleared n k (fst s)" "k < n" "fst s ! k ! k \<noteq> 0" "set is \<subseteq> {k<..<n}"
  shows "let s' = fold (eliminate_row n k) is s in
    well_sized n s' \<and> cleared n k (fst s') \<and> fst s' ! k ! k \<noteq> 0 \<and> (\<forall>x. solves n s' x = solves n s x) \<and>
    (\<forall>i<n. i \<in> set is \<or> k < i \<and> fst s ! i ! k = 0 \<longrightarrow> fst s' ! i ! k = 0)"
  using assms
proof (induction "is" arbitrary: s)
  case (Cons i "is")
  let ?s = "eliminate_row n k i s"
  have i: "k < i" "i < n" using Cons.prems(5) by simp_all
  note parts = eliminate_row_parts [OF Cons.prems(1) i] and full = eliminate_row_full [OF Cons.prems(1) i Cons.prems(2)]
  have clr: "cleared n k (fst ?s)"
    unfolding cleared_def
  proof (intro allI impI conjI)
    fix j assume j: "j < k"
    with Cons.prems(2) parts(2) [of j] i show "fst ?s ! j ! j \<noteq> 0" by (simp add: cleared_def)
    fix l assume l: "j < l" "l < n"
    show "fst ?s ! l ! j = 0"
    proof (cases "l = i")
      case True
      with full [of j] j i l Cons.prems(2) show ?thesis by (simp add: cleared_def)
    next
      case False
      with parts(2) [of l] j l Cons.prems(2) show ?thesis by (simp add: cleared_def)
    qed
  qed
  have piv: "fst ?s ! k ! k \<noteq> 0" using parts(2) [of k] i Cons.prems(3,4) by simp
  have zero: "fst ?s ! i ! k = 0" using full [of k] Cons.prems(3,4) by simp
  have keep: "fst ?s ! l ! k = 0" if "l < n" "k < l" "fst s ! l ! k = 0" for l
    using that parts(2) [of l] zero by (cases "l = i") simp_all
  have rest: "set is \<subseteq> {k<..<n}" using Cons.prems(5) by simp
  from Cons.IH [OF parts(1) clr Cons.prems(3) piv rest] zero keep i eliminate_row_solves [OF Cons.prems(1) i Cons.prems(2)]
  show ?case unfolding Let_def by auto
qed simp

lemma eliminate_column_step:
  assumes "well_sized n s" "cleared n k (fst s)" "k < n" "eliminate_column of_rat n k s = Some s'"
  shows "well_sized n s' \<and> cleared n (Suc k) (fst s') \<and> (\<forall>x. solves n s' x = solves n s x)"
proof -
  obtain a b where s: "s = (a, b)" by fastforce
  obtain piv v where pv: "find_pivot a n k = (piv, v)" by fastforce
  note p = find_pivot_range [OF assms(3) pv]
  let ?t = "(swap_rows piv k a, swap_rows piv k b)"
  have v: "(1 :: real) / 10 ^ 14 \<le> v"
    using assms(4) by (simp add: eliminate_column_def s pv of_rat_divide of_rat_power not_less split: if_splits)
  have size: "length a = n" "length b = n" using assms(1) by (simp_all add: well_sized_def s)
  have t: "well_sized n ?t" using assms(1,3) p by (simp add: well_sized_def s swap_rows_nth)
  have "cleared n k (swap_rows piv k a)"
    unfolding cleared_def
  proof (intro allI impI conjI)
    fix j assume j: "j < k"
    with assms(2,3) p size show "swap_rows piv k a ! j ! j \<noteq> 0" by (auto simp: swap_rows_nth cleared_def s)
    fix i assume "j < i" "i < n"
    with j assms(2,3) p size show "swap_rows piv k a ! i ! j = 0" by (auto simp: swap_rows_nth cleared_def s)
  qed
  moreover have "swap_rows piv k a ! k ! k = a ! piv ! k" using assms(3) p size by (simp add: swap_rows_nth)
  moreover have "a ! piv ! k \<noteq> 0" using p v by auto
  moreover have "s' = fold (eliminate_row n k) [Suc k..<n] ?t"
  proof -
    have "?t = (a, b)" if "piv = k" using that by (simp add: swap_rows_def)
    then show ?thesis using assms(4) by (auto simp: eliminate_column_def s pv split: if_splits)
  qed
  moreover have sub: "set [Suc k..<n] \<subseteq> {k<..<n}" by auto
  ultimately have r: "well_sized n s'" "cleared n k (fst s')" "fst s' ! k ! k \<noteq> 0" "\<forall>x. solves n s' x = solves n ?t x"
    "\<forall>i<n. i \<in> {Suc k..<n} \<longrightarrow> fst s' ! i ! k = 0"
    using eliminate_rows [OF t _ assms(3) _ sub] unfolding Let_def by auto
  moreover have "cleared n (Suc k) (fst s')"
    using r unfolding cleared_def less_Suc_eq by (metis Suc_leI atLeastLessThan_iff)
  ultimately show ?thesis using swap_rows_solves [OF assms(1) [unfolded s] _ assms(3)] p by (simp add: s)
qed

lemma eliminate_cleared:
  assumes "well_sized n s" "cleared n k (fst s)" "k \<le> n" "eliminate of_rat n [k..<n] s = Some s'"
  shows "well_sized n s' \<and> cleared n n (fst s') \<and> (\<forall>x. solves n s' x = solves n s x)"
  using assms
proof (induction "n - k" arbitrary: k s)
  case (Suc d)
  then have k: "k < n" "[k..<n] = k # [Suc k..<n]" by (simp_all add: upt_conv_Cons)
  with Suc.prems(4) obtain t where t: "eliminate_column of_rat n k s = Some t" "eliminate of_rat n [Suc k..<n] t = Some s'"
    by (auto split: option.splits)
  note c = eliminate_column_step [OF Suc.prems(1,2) k(1) t(1)]
  show ?case using Suc.hyps(1) [of "Suc k" t] Suc.hyps(2) c k t(2) by auto
qed simp

subsection \<open>Back substitution\<close>

lemma back_row_value:
  "i < length b \<Longrightarrow> back_row a n i b = b[i := (b ! i - (\<Sum>j=Suc i..<n. a ! i ! j * b ! j)) / (a ! i ! i :: real)]"
proof -
  have "fold (\<lambda>j s. s - g j) js (v :: real) = v - sum_list (map g js)" for g :: "nat \<Rightarrow> real" and js v
    by (induction js arbitrary: v) simp_all
  then show ?thesis by (simp add: back_row_def interv_sum_list_conv_sum_set_nat)
qed

text \<open>What holds once the unknowns from \<open>k\<close> on have been computed.\<close>

lemma back_rows:
  assumes "length b = n" "cleared n n a" "k \<le> n"
  shows "let x = fold (back_row a n) (rev [k..<n]) b in
    length x = n \<and> (\<forall>i<k. x ! i = b ! i) \<and>
    (\<forall>i. k \<le> i \<longrightarrow> i < n \<longrightarrow> a ! i ! i * x ! i + (\<Sum>j=Suc i..<n. a ! i ! j * x ! j) = b ! i)"
  using assms(3)
proof (induction "n - k" arbitrary: k)
  case (Suc d)
  then have k: "k < n" "rev [k..<n] = rev [Suc k..<n] @ [k]" by (simp_all add: upt_conv_Cons)
  let ?x = "fold (back_row a n) (rev [Suc k..<n]) b"
  have ih: "length ?x = n" "\<forall>i<Suc k. ?x ! i = b ! i"
    "\<forall>i. Suc k \<le> i \<longrightarrow> i < n \<longrightarrow> a ! i ! i * ?x ! i + (\<Sum>j=Suc i..<n. a ! i ! j * ?x ! j) = b ! i"
    using Suc.hyps(1) [of "Suc k"] Suc.hyps(2) k(1) by (simp_all add: Let_def)
  let ?v = "(b ! k - (\<Sum>j=Suc k..<n. a ! k ! j * ?x ! j)) / a ! k ! k"
  have x: "fold (back_row a n) (rev [k..<n]) b = ?x[k := ?v]" using k ih by (simp add: back_row_value)
  have sum: "(\<Sum>j=Suc i..<n. a ! i ! j * ?x[k := ?v] ! j) = (\<Sum>j=Suc i..<n. a ! i ! j * ?x ! j)" if "k \<le> i" for i
    using that by (intro sum.cong) simp_all
  have "a ! i ! i * ?x[k := ?v] ! i + (\<Sum>j=Suc i..<n. a ! i ! j * ?x ! j) = b ! i" if "k \<le> i" "i < n" for i
  proof (cases "i = k")
    case True
    have "a ! k ! k \<noteq> 0" using assms(2) k(1) by (simp add: cleared_def)
    with True k(1) ih(1) show ?thesis by simp
  next
    case False
    with that ih(3) show ?thesis by simp
  qed
  with ih sum show ?case unfolding x Let_def by simp
qed (simp add: assms)

lemma cleared_row:
  assumes "cleared n n a" "i < n"
  shows "(\<Sum>j<n. a ! i ! j * x j) = a ! i ! i * x i + (\<Sum>j=Suc i..<n. a ! i ! j * x j)"
proof -
  have "(\<Sum>j<n. a ! i ! j * x j) = (\<Sum>j=i..<n. a ! i ! j * x j)"
    using assms by (intro sum.mono_neutral_right) (auto simp: cleared_def)
  also have "\<dots> = a ! i ! i * x i + (\<Sum>j=Suc i..<n. a ! i ! j * x j)"
    using assms(2) by (simp add: sum.atLeast_Suc_lessThan)
  finally show ?thesis .
qed

lemma cleared_unique:
  assumes "cleared n n a" "solves n (a, b) x" "solves n (a, b) y" "i < n"
  shows "x i = y i"
  using assms(4)
proof (induction "n - i" arbitrary: i rule: less_induct)
  case less
  have "a ! i ! i * x i + (\<Sum>j=Suc i..<n. a ! i ! j * x j) = a ! i ! i * y i + (\<Sum>j=Suc i..<n. a ! i ! j * y j)"
    using assms(2,3) less.prems cleared_row [OF assms(1) less.prems, of x] cleared_row [OF assms(1) less.prems, of y]
    by (simp add: solves_def)
  moreover have "(\<Sum>j=Suc i..<n. a ! i ! j * x j) = (\<Sum>j=Suc i..<n. a ! i ! j * y j)"
    using less.hyps less.prems by (intro sum.cong refl) (metis Suc_le_lessD atLeastLessThan_iff diff_less_mono2)
  moreover have "a ! i ! i \<noteq> 0" using assms(1) less.prems by (simp add: cleared_def)
  ultimately show ?case by simp
qed

text \<open>
  \<^bold>\<open>C25.\<close> In exact arithmetic a result of the linear solver is the one solution of the system it was
  given: it satisfies every equation, and any other solution agrees with it in every unknown.
\<close>

theorem solve_linear_solves:
  assumes "well_sized n (a, b)" "solve_linear of_rat a b n = Some x"
  shows "length x = n \<and> (\<forall>i<n. (\<Sum>j<n. a ! i ! j * x ! j) = (b ! i :: real)) \<and>
    (\<forall>y. (\<forall>i<n. (\<Sum>j<n. a ! i ! j * y j) = b ! i) \<longrightarrow> (\<forall>j<n. y j = x ! j))"
proof -
  obtain a' :: "real list list" and b' where e: "eliminate of_rat n [0..<n] (a, b) = Some (a', b')" and x: "x = fold (back_row a' n) (rev [0..<n]) b'"
    using assms(2) by (auto simp: solve_linear_def split: option.splits prod.splits)
  have c: "well_sized n (a', b')" "cleared n n a'" "\<And>y. solves n (a', b') y = solves n (a, b) y"
    using eliminate_cleared [OF assms(1) _ _ e] by (simp_all add: cleared_def)
  have b: "length b' = n" using c(1) by (simp add: well_sized_def)
  have r: "length x = n" "\<forall>i<n. a' ! i ! i * x ! i + (\<Sum>j=Suc i..<n. a' ! i ! j * x ! j) = b' ! i"
    using back_rows [OF b c(2), of 0] by (simp_all add: x Let_def)
  then have "solves n (a', b') (\<lambda>j. x ! j)" unfolding solves_def fst_conv snd_conv by (metis cleared_row [OF c(2)])
  moreover have "\<forall>j<n. y j = x ! j" if "solves n (a, b) y" for y
    using cleared_unique [OF c(2), of b' y "\<lambda>j. x ! j"] c(3) that calculation by blast
  ultimately show ?thesis using r(1) c(3) unfolding solves_def fst_conv snd_conv by blast
qed

theorem solve_linear_solves_witness:
  "solve_linear of_rat [[0, 2], [4, 2]] [2, 10 :: real] 2 = Some [2, 1] \<and>
     (\<Sum>j<2. [[0, 2], [4, 2]] ! 0 ! j * [2, 1] ! j) = (2 :: real) \<and> (\<Sum>j<2. [[0, 2], [4, 2]] ! 1 ! j * [2, 1] ! j) = (10 :: real)"
proof -
  have u: "[0..<2] = [0, 1]" "[Suc 0..<2] = [1]" "[1..<2] = [1 :: nat]" "[Suc 1..<2] = []" by (simp_all add: upt_rec)
  have x: "solve_linear of_rat [[0, 2], [4, 2]] [2, 10 :: real] 2 = Some [2, 1]"
    by (simp add: solve_linear_def eliminate_column_def find_pivot_def pivot_step_def swap_rows_def eliminate_row_def
        back_row_def u of_rat_divide of_rat_power)
  have "well_sized 2 ([[0, 2], [4, 2]], [2, 10 :: real])"
    by (auto simp: well_sized_def less_2_cases_iff)
  note r = solve_linear_solves [OF this x, THEN conjunct2, THEN conjunct1, rule_format]
  have "(\<Sum>j<2. [[0, 2], [4, 2]] ! 0 ! j * [2, 1] ! j) = [2, 10 :: real] ! 0" "(\<Sum>j<2. [[0, 2], [4, 2]] ! 1 ! j * [2, 1] ! j) = [2, 10 :: real] ! 1"
    by (rule r; simp)+
  with x show ?thesis by simp
qed

end
