(* ===== verification/Calibrate.thy ===== *)
theory Calibrate
  imports Linear_Solver Pricing_Engine
begin

section \<open>Calibration of volatility surfaces\<close>

text \<open>
  Model of \<^verbatim>\<open>rust/corsair_pricing/src/calibrate.rs\<close>: the bounded Levenberg-Marquardt search and the fits of the
  two volatility models.  The residual function is an argument of the search, as in the code; its indices
  are in range when it always returns the same number of residuals.  The two loops are bounded by 200
  iterations and 30 attempts each, and recurse on what is left of these.
\<close>

subsection \<open>The search\<close>

record lm_result =
  lr_x :: "f64 list"
  lr_residuals :: "f64 list"
  lr_cost :: f64
  lr_nfev :: nat
  lr_success :: bool

definition build_normal_eqs :: "f64 list list \<Rightarrow> f64 list \<Rightarrow> f64 \<Rightarrow> nat \<Rightarrow> nat \<Rightarrow> f64 list list \<times> f64 list" where
  "build_normal_eqs j r mu n m =
     (let jtr = map (\<lambda>i. fold (\<lambda>k s. s - j ! k ! i * r ! k) [0..<m] 0) [0..<n];
          jtj = map (\<lambda>i. map (\<lambda>jj. fold (\<lambda>k s. s + j ! k ! i * j ! k ! jj) [0..<m] 0) [0..<n]) [0..<n];
          damped = map (\<lambda>i. (jtj ! i)[i := jtj ! i ! i + mu * fmax (jtj ! i ! i) (lit (1 / 10 ^ 12))]) [0..<n]
      in (damped, jtr))"

text \<open>Central differences: two evaluations for each parameter.\<close>

definition numerical_jacobian :: "(f64 list \<Rightarrow> f64 list) \<Rightarrow> f64 list \<Rightarrow> f64 list \<Rightarrow> nat \<Rightarrow> nat \<times> f64 list list" where
  "numerical_jacobian f x r0 nfev =
     (let n = length x; m = length r0;
          h = (\<lambda>i. lit (1 / 10 ^ 6) * fmax \<bar>x ! i\<bar> (lit 1));
          cols = map (\<lambda>i. (f (x[i := x ! i + h i]), f (x[i := x ! i - h i]), lit (1 / 2) / h i)) [0..<n]
      in (nfev + 2 * n,
          map (\<lambda>k. map (\<lambda>(r_plus, r_minus, inv). (r_plus ! k - r_minus ! k) * inv) cols) [0..<m]))"

definition cost :: "f64 list \<Rightarrow> f64" where
  "cost r = lit (1 / 2) * fsum (map (\<lambda>v. v * v) r)"

definition project :: "f64 list \<Rightarrow> f64 list \<Rightarrow> f64 list \<Rightarrow> f64 list" where
  "project x lb ub =
     map (\<lambda>i. if x ! i < lb ! i then lb ! i else if ub ! i < x ! i then ub ! i else x ! i) [0..<length x]"

definition grad_norm :: "'z libm_scheme \<Rightarrow> f64 list list \<Rightarrow> f64 list \<Rightarrow> nat \<Rightarrow> nat \<Rightarrow> f64" where
  "grad_norm lm j r n m =
     sqrt_fn lm (fold (\<lambda>i s. let g = fold (\<lambda>k g. g + j ! k ! i * r ! k) [0..<m] 0 in s + g * g) [0..<n] 0)"

text \<open>The variables of the search.\<close>

record lm_state =
  lm_x :: "f64 list"
  lm_r :: "f64 list"
  lm_c :: f64
  lm_mu :: f64
  lm_nfev :: nat
  lm_success :: bool

definition mu_up :: "f64 \<Rightarrow> f64" where
  "mu_up mu = fmin (mu * lit 5) (lit (10 ^ 10))"

definition lm_accept :: "'z libm_scheme \<Rightarrow> f64 list \<Rightarrow> f64 list \<Rightarrow> f64 list \<Rightarrow> f64 \<Rightarrow> lm_state \<Rightarrow> lm_state" where
  "lm_accept lm b x_new r_new c_new st =
     (let step_norm = sqrt_fn lm (fsum (map (\<lambda>v. v * v) b));
          cost_rel = (lm_c st - c_new) / fmax (lm_c st) (lit (1 / 10 ^ 30))
      in st\<lparr>lm_x := x_new, lm_r := r_new, lm_c := c_new,
            lm_mu := fmax (lm_mu st * lit (4 / 10)) (lit (1 / 10 ^ 12)),
            lm_success := lm_success st \<or> step_norm < lit (1 / 10 ^ 9) \<or> cost_rel < lit (1 / 10 ^ 12)\<rparr>)"

primrec lm_try ::
  "'z libm_scheme \<Rightarrow> (f64 list \<Rightarrow> f64 list) \<Rightarrow> f64 list \<Rightarrow> f64 list \<Rightarrow> nat \<Rightarrow> f64 list list \<Rightarrow> nat \<Rightarrow> lm_state \<Rightarrow> bool \<times> lm_state" where
  "lm_try lm f lb ub max_nfev j 0 st = (False, st)"
| "lm_try lm f lb ub max_nfev j (Suc tries) st =
     (let n = length (lm_x st); (a, b) = build_normal_eqs j (lm_r st) (lm_mu st) n (length (lm_r st)) in
      case solve_linear lit a b n of
        None \<Rightarrow> lm_try lm f lb ub max_nfev j tries (st\<lparr>lm_mu := mu_up (lm_mu st)\<rparr>)
      | Some d \<Rightarrow>
          let x_new = project (map2 (+) (lm_x st) d) lb ub; r_new = f x_new; c_new = cost r_new;
              st1 = st\<lparr>lm_nfev := Suc (lm_nfev st)\<rparr>
          in if c_new < lm_c st then (True, lm_accept lm d x_new r_new c_new st1)
             else let st2 = st1\<lparr>lm_mu := mu_up (lm_mu st1)\<rparr>
                  in if lit (10 ^ 10) \<le> lm_mu st2 \<or> max_nfev \<le> lm_nfev st2 then (False, st2)
                     else lm_try lm f lb ub max_nfev j tries st2)"

primrec lm_iterate ::
  "'z libm_scheme \<Rightarrow> (f64 list \<Rightarrow> f64 list) \<Rightarrow> f64 list \<Rightarrow> f64 list \<Rightarrow> nat \<Rightarrow> nat \<Rightarrow> lm_state \<Rightarrow> lm_state" where
  "lm_iterate lm f lb ub max_nfev 0 st = st"
| "lm_iterate lm f lb ub max_nfev (Suc iters) st =
     (if max_nfev \<le> lm_nfev st then st
      else
        let (nfev, j) = numerical_jacobian f (lm_x st) (lm_r st) (lm_nfev st); st1 = st\<lparr>lm_nfev := nfev\<rparr> in
        if grad_norm lm j (lm_r st) (length (lm_x st)) (length (lm_r st)) < lit (1 / 10 ^ 8)
        then st1\<lparr>lm_success := True\<rparr>
        else let (accepted, st2) = lm_try lm f lb ub max_nfev j 30 st1
             in if \<not> accepted \<or> lm_success st2 then st2 else lm_iterate lm f lb ub max_nfev iters st2)"

definition lm_solve ::
  "'z libm_scheme \<Rightarrow> (f64 list \<Rightarrow> f64 list) \<Rightarrow> f64 list \<Rightarrow> f64 list \<Rightarrow> f64 list \<Rightarrow> nat \<Rightarrow> lm_result" where
  "lm_solve lm f x0 lb ub max_nfev =
     (let x = project x0 lb ub; r = f x;
          st = lm_iterate lm f lb ub max_nfev 200
                 \<lparr>lm_x = x, lm_r = r, lm_c = cost r, lm_mu = lit (1 / 1000), lm_nfev = 1, lm_success = False\<rparr>
      in \<lparr>lr_x = lm_x st, lr_residuals = lm_r st, lr_cost = lm_c st, lr_nfev = lm_nfev st, lr_success = lm_success st\<rparr>)"

subsection \<open>Fits\<close>

definition normalised_weights :: "f64 list option \<Rightarrow> nat \<Rightarrow> f64 list" where
  "normalised_weights weights n =
     (case weights of
        None \<Rightarrow> replicate n (lit 1)
      | Some ws \<Rightarrow>
          let s = fsum ws; scale = f64_of_int (int n) / s
          in if length ws = n \<and> 0 < s then map (\<lambda>w. w * scale) ws else replicate n (lit 1))"

definition nearest_step :: "f64 \<Rightarrow> f64 list \<Rightarrow> nat \<Rightarrow> nat \<times> f64 \<Rightarrow> nat \<times> f64" where
  "nearest_step f strikes i best = (let d = \<bar>strikes ! i - f\<bar> in if d < snd best then (i, d) else best)"

definition atm_index :: "f64 \<Rightarrow> f64 list \<Rightarrow> nat" where
  "atm_index f strikes = fst (fold (nearest_step f strikes) [1..<length strikes] (0, \<bar>strikes ! 0 - f\<bar>))"

definition rms :: "'z libm_scheme \<Rightarrow> f64 list \<Rightarrow> f64" where
  "rms lm r = sqrt_fn lm (fsum (map (\<lambda>v. v * v) r) / f64_of_int (int (length r)))"

record sabr_fit =
  sf_alpha :: f64
  sf_beta :: f64
  sf_rho :: f64
  sf_nu :: f64
  sf_rmse :: f64
  sf_n_points :: nat

definition sabr_residual :: "'z pricing_libm_scheme \<Rightarrow> f64 \<Rightarrow> f64 \<Rightarrow> f64 list \<Rightarrow> f64 list \<Rightarrow> f64 list \<Rightarrow> f64 \<Rightarrow> f64 list \<Rightarrow> f64 list" where
  "sabr_residual lm f t strikes market_ivs w beta p =
     map (\<lambda>i. (engine_sabr_vol lm f (strikes ! i) t (p ! 0) beta (p ! 1) (p ! 2) - market_ivs ! i) * w ! i) [0..<length strikes]"

text \<open>The best result so far, and the best among those that converged.\<close>

definition keep_better :: "lm_result \<Rightarrow> lm_result option \<Rightarrow> lm_result option" where
  "keep_better res best = (case best of None \<Rightarrow> Some res | Some b \<Rightarrow> if lr_cost res < lr_cost b then Some res else best)"

definition sabr_lb :: "f64 list" where
  "sabr_lb = [lit (1 / 10000), - lit (99 / 100), lit (1 / 10000)]"

definition sabr_ub :: "f64 \<Rightarrow> f64 list" where
  "sabr_ub alpha_0 = [fmax (lit 10) (alpha_0 * lit 5), lit (99 / 100), lit 5]"

definition sabr_guesses :: "f64 \<Rightarrow> f64 list list" where
  "sabr_guesses alpha_0 =
     [[alpha_0, - lit (3 / 10), lit (3 / 10)], [alpha_0, - lit (1 / 2), lit (1 / 2)],
      [alpha_0, 0, lit (2 / 10)], [alpha_0 * lit (8 / 10), - lit (2 / 10), lit (4 / 10)]]"

definition sabr_step :: "lm_result \<Rightarrow> lm_result option \<times> lm_result option \<Rightarrow> lm_result option \<times> lm_result option" where
  "sabr_step res best =
     (let (best_success, best_any) = best
      in (if lr_success res then keep_better res best_success else best_success, keep_better res best_any))"

definition alpha_seed :: "'z pricing_libm_scheme \<Rightarrow> f64 \<Rightarrow> f64 list \<Rightarrow> f64 list \<Rightarrow> f64 \<Rightarrow> f64" where
  "alpha_seed lm f strikes market_ivs beta =
     fmax (market_ivs ! atm_index f strikes * powf_fn lm f (lit 1 - beta)) (lit (1 / 1000))"

definition calibrate_sabr ::
  "'z pricing_libm_scheme \<Rightarrow> f64 \<Rightarrow> f64 \<Rightarrow> f64 list \<Rightarrow> f64 list \<Rightarrow> f64 list option \<Rightarrow> f64 \<Rightarrow> f64 \<Rightarrow> sabr_fit option" where
  "calibrate_sabr lm f t strikes market_ivs weights beta max_rmse =
     (let n = length strikes in
      if n < 3 \<or> length market_ivs \<noteq> n \<or> t \<le> 0 \<or> f \<le> 0 then None
      else
        let w = normalised_weights weights n; alpha_0 = alpha_seed lm f strikes market_ivs beta;
            residual = sabr_residual lm f t strikes market_ivs w beta;
            results = map (\<lambda>guess. lm_solve lm residual guess sabr_lb (sabr_ub alpha_0) 200) (sabr_guesses alpha_0);
            (best_success, best_any) = fold sabr_step results (None, None)
        in case (case best_success of None \<Rightarrow> best_any | Some b \<Rightarrow> Some b) of
             None \<Rightarrow> None
           | Some best \<Rightarrow>
               let rmse = rms lm (lr_residuals best) in
               if max_rmse < rmse then None
               else Some \<lparr>sf_alpha = lr_x best ! 0, sf_beta = beta, sf_rho = lr_x best ! 1, sf_nu = lr_x best ! 2,
                          sf_rmse = rmse, sf_n_points = n\<rparr>)"

record svi_fit =
  vf_a :: f64
  vf_b :: f64
  vf_rho :: f64
  vf_m :: f64
  vf_sigma :: f64
  vf_rmse :: f64
  vf_n_points :: nat

definition svi_residual :: "'z libm_scheme \<Rightarrow> f64 \<Rightarrow> f64 list \<Rightarrow> f64 list \<Rightarrow> f64 list \<Rightarrow> f64 list \<Rightarrow> f64 list" where
  "svi_residual lm t ks market_ivs w p =
     map (\<lambda>i. let w_i = svi_total_variance_inner lm (ks ! i) (p ! 0) (p ! 1) (p ! 2) (p ! 3) (p ! 4);
                   model_iv = sqrt_fn lm (fmax w_i (lit (1 / 10 ^ 10)) / t)
               in (model_iv - market_ivs ! i) * w ! i) [0..<length ks]"

text \<open>Linear interpolation, clamped at the ends; \<open>interp_from\<close> is the search for the interval.\<close>

fun interp_from :: "f64 list \<Rightarrow> f64 list \<Rightarrow> f64 \<Rightarrow> nat list \<Rightarrow> f64" where
  "interp_from xs ys x [] = ys ! (length ys - 1)"
| "interp_from xs ys x (i # is) =
     (if x \<le> xs ! i then
        let dx = xs ! i - xs ! (i - 1) in
        if \<bar>dx\<bar> < lit (1 / 10 ^ 12) then ys ! (i - 1)
        else ys ! (i - 1) + (x - xs ! (i - 1)) / dx * (ys ! i - ys ! (i - 1))
      else interp_from xs ys x is)"

definition interp1 :: "f64 list \<Rightarrow> f64 list \<Rightarrow> f64 \<Rightarrow> f64" where
  "interp1 xs ys x =
     (if x \<le> xs ! 0 then ys ! 0
      else if xs ! (length xs - 1) \<le> x then ys ! (length ys - 1)
      else interp_from xs ys x [1..<length xs])"

definition svi_lb :: "f64 list" where
  "svi_lb = [0, lit (1 / 10000), - lit (99 / 100), - lit 1, lit (1 / 10000)]"

definition svi_ub :: "f64 list" where
  "svi_ub = [lit 5, lit 5, lit (99 / 100), lit 1, lit 2]"

definition svi_guesses :: "f64 \<Rightarrow> f64 list list" where
  "svi_guesses v =
     [[v, lit (1 / 10), - lit (3 / 10), 0, lit (1 / 10)],
      [v, lit (2 / 10), - lit (1 / 2), 0, lit (5 / 100)],
      [v * lit (8 / 10), lit (15 / 100), - lit (2 / 10), - lit (5 / 100), lit (15 / 100)],
      [v, lit (5 / 100), - lit (4 / 10), lit (2 / 100), lit (8 / 100)],
      [v, lit (1 / 10), - lit (7 / 10), - lit (1 / 10), lit (3 / 10)],
      [v * lit (1 / 2), lit (15 / 100), - lit (6 / 10), - lit (5 / 100), lit (1 / 2)],
      [v, lit (8 / 100), - lit (8 / 10), - lit (15 / 100), lit (4 / 10)],
      [v * lit (3 / 10), lit (2 / 10), - lit (1 / 2), 0, lit (6 / 10)]]"

text \<open>The total variance at the money, from the quotes in the order of their log-moneyness.\<close>

definition svi_atm_var :: "f64 list \<Rightarrow> f64 list \<Rightarrow> f64" where
  "svi_atm_var ks mkt_w =
     (let idx = sort_key (\<lambda>i. fkey (ks ! i)) [0..<length ks]
      in interp1 (map (nth ks) idx) (map (nth mkt_w) idx) 0)"

definition svi_accept :: "'z libm_scheme \<Rightarrow> f64 list \<Rightarrow> f64 \<Rightarrow> lm_result \<Rightarrow> svi_fit option" where
  "svi_accept lm ks max_rmse best =
     (let rmse = rms lm (lr_residuals best); x = lr_x best in
      if max_rmse < rmse then None
      else if \<exists>k\<in>set ks. svi_total_variance_inner lm k (x ! 0) (x ! 1) (x ! 2) (x ! 3) (x ! 4) < 0 then None
      else Some \<lparr>vf_a = x ! 0, vf_b = x ! 1, vf_rho = x ! 2, vf_m = x ! 3, vf_sigma = x ! 4,
                 vf_rmse = rmse, vf_n_points = length ks\<rparr>)"

text \<open>The sort of the log-moneynesses unwraps a comparison that fails on NaN, which is a panic.\<close>

definition calibrate_svi ::
  "'z libm_scheme \<Rightarrow> f64 \<Rightarrow> f64 \<Rightarrow> f64 list \<Rightarrow> f64 list \<Rightarrow> f64 list option \<Rightarrow> f64 \<Rightarrow> svi_fit option option" where
  "calibrate_svi lm f t strikes market_ivs weights max_rmse =
     (let n = length strikes in
      if n < 5 \<or> length market_ivs \<noteq> n \<or> t \<le> 0 \<or> f \<le> 0 then Some None
      else
        let w = normalised_weights weights n; ks = map (\<lambda>k. ln_fn lm (k / f)) strikes;
            mkt_w = map (\<lambda>iv. iv * iv * t) market_ivs
        in if \<exists>k\<in>set ks. is_nan k then None
           else
             let results = map (\<lambda>guess. lm_solve lm (svi_residual lm t ks market_ivs w) guess svi_lb svi_ub 500)
                   (svi_guesses (svi_atm_var ks mkt_w))
             in case fold keep_better results None of
                  None \<Rightarrow> Some None
                | Some best \<Rightarrow> Some (svi_accept lm ks max_rmse best))"

subsection \<open>What the search keeps\<close>

lemma solve_linear_length:
  fixes b :: "('a :: {minus, times, inverse, abs, ord}) list"
  assumes "solve_linear c a b n = Some d"
  shows "length d = length b"
proof -
  have rows: "length (snd (fold (eliminate_row n k) is s)) = length (snd s)" for k "is" and s :: "'a list list \<times> 'a list"
    by (induction "is" arbitrary: s) (simp_all add: eliminate_row_def Let_def split_beta)
  have "eliminate c n ks s = Some s' \<Longrightarrow> length (snd s') = length (snd s)" for ks s s'
  proof (induction ks arbitrary: s)
    case (Cons k ks)
    then obtain t where "eliminate_column c n k s = Some t" "length (snd s') = length (snd t)" by (auto split: option.splits)
    then show ?case by (auto simp: eliminate_column_def rows Let_def split_beta split: if_splits)
  qed simp
  moreover have "length (fold (back_row a' n) is b') = length b'" for a' "is" and b' :: "'a list"
    by (induction "is" arbitrary: b') (simp_all add: back_row_def)
  moreover obtain a' b' where "eliminate c n [0..<n] (a, b) = Some (a', b')" "d = fold (back_row a' n) (rev [0..<n]) b'"
    using assms by (auto simp: solve_linear_def split: option.splits prod.splits)
  ultimately show ?thesis by (metis snd_conv)
qed

text \<open>A value is not outside an interval: it may be NaN, which no comparison rejects.\<close>

definition inside_bounds :: "f64 list \<Rightarrow> f64 list \<Rightarrow> f64 list \<Rightarrow> bool" where
  "inside_bounds lb ub x \<longleftrightarrow> (\<forall>i<length x. \<not> x ! i < lb ! i \<and> \<not> ub ! i < x ! i)"

definition search_inv :: "(f64 list \<Rightarrow> f64 list) \<Rightarrow> f64 list \<Rightarrow> f64 list \<Rightarrow> f64 list \<Rightarrow> lm_state \<Rightarrow> bool" where
  "search_inv f lb ub x0 st \<longleftrightarrow>
     length (lm_x st) = length x0 \<and> lm_r st = f (lm_x st) \<and> lm_c st = cost (lm_r st) \<and> inside_bounds lb ub (lm_x st) \<and>
     (lm_x st = x0 \<or> lm_c st < cost (f x0))"

lemma search_inv_keeps [simp]:
  "search_inv f lb ub x0 (st\<lparr>lm_mu := v\<rparr>) = search_inv f lb ub x0 st"
  "search_inv f lb ub x0 (st\<lparr>lm_nfev := k\<rparr>) = search_inv f lb ub x0 st"
  "search_inv f lb ub x0 (st\<lparr>lm_success := b\<rparr>) = search_inv f lb ub x0 st"
  by (simp_all add: search_inv_def)

lemma length_project [simp]: "length (project x lb ub) = length x"
  by (simp add: project_def)

lemma lm_try_nfev: "lm_nfev (snd (lm_try lm f lb ub max_nfev j tries st)) \<le> max (Suc (lm_nfev st)) max_nfev"
proof (induction tries arbitrary: st)
  case (Suc tries)
  obtain a b where ab: "build_normal_eqs j (lm_r st) (lm_mu st) (length (lm_x st)) (length (lm_r st)) = (a, b)" by fastforce
  show ?case
  proof (cases "solve_linear lit a b (length (lm_x st))")
    case None
    with Suc [of "st\<lparr>lm_mu := mu_up (lm_mu st)\<rparr>"] ab show ?thesis by simp
  next
    case (Some d)
    with Suc [of "st\<lparr>lm_nfev := Suc (lm_nfev st), lm_mu := mu_up (lm_mu st)\<rparr>"] ab show ?thesis
      by (auto simp: Let_def lm_accept_def)
  qed
qed simp

lemma lm_try_length: "length (lm_x (snd (lm_try lm f lb ub max_nfev j tries st))) = length (lm_x st)"
proof (induction tries arbitrary: st)
  case (Suc tries)
  obtain a b where ab: "build_normal_eqs j (lm_r st) (lm_mu st) (length (lm_x st)) (length (lm_r st)) = (a, b)" by fastforce
  moreover have "length b = length (lm_x st)" using ab by (auto simp: build_normal_eqs_def Let_def)
  ultimately show ?case
    using Suc solve_linear_length [of lit a b "length (lm_x st)"]
    by (cases "solve_linear lit a b (length (lm_x st))") (simp_all add: Let_def lm_accept_def)
qed simp

lemma lm_iterate_nfev:
  assumes "length (lm_x st) = n"
  shows "lm_nfev (lm_iterate lm f lb ub max_nfev iters st) \<le> max (lm_nfev st) (max_nfev + 2 * n)"
  using assms
proof (induction iters arbitrary: st)
  case (Suc iters)
  show ?case
  proof (cases "max_nfev \<le> lm_nfev st")
    case False
    obtain j where j: "numerical_jacobian f (lm_x st) (lm_r st) (lm_nfev st) = (lm_nfev st + 2 * n, j)"
      using Suc.prems by (simp add: numerical_jacobian_def Let_def)
    let ?st1 = "st\<lparr>lm_nfev := lm_nfev st + 2 * n\<rparr>"
    obtain acc st2 where t: "lm_try lm f lb ub max_nfev j 30 ?st1 = (acc, st2)" by fastforce
    have "lm_nfev st2 \<le> max_nfev + 2 * n" using lm_try_nfev [of lm f lb ub max_nfev j 30 ?st1] t False by simp
    moreover have "length (lm_x st2) = n" using lm_try_length [of lm f lb ub max_nfev j 30 ?st1] Suc.prems t by simp
    ultimately show ?thesis using Suc.IH [of st2] j t False by (auto simp: Let_def)
  qed simp
qed simp

text \<open>Residual functions of a fixed number of parameters with bounds that are not empty.\<close>

locale bounded_problem =
  fixes f :: "f64 list \<Rightarrow> f64 list" and lb ub :: "f64 list" and n m :: nat
  assumes bounds_size: "length lb = n" "length ub = n"
    and bounds_order: "i < n \<Longrightarrow> \<not> ub ! i < lb ! i \<and> \<not> lb ! i < lb ! i \<and> \<not> ub ! i < ub ! i"
    and residual_size: "length (f x) = m"
begin

lemma project_inside: "length x = n \<Longrightarrow> inside_bounds lb ub (project x lb ub)"
  using bounds_order by (auto simp: inside_bounds_def project_def)

lemma lm_try_inv:
  assumes "search_inv f lb ub x0 st" "length x0 = n"
  shows "search_inv f lb ub x0 (snd (lm_try lm f lb ub max_nfev j tries st))"
  using assms(1)
proof (induction tries arbitrary: st)
  case (Suc tries)
  obtain a b where ab: "build_normal_eqs j (lm_r st) (lm_mu st) (length (lm_x st)) (length (lm_r st)) = (a, b)" by fastforce
  have n: "length (lm_x st) = n" using Suc.prems assms(2) by (simp add: search_inv_def)
  have mu: "search_inv f lb ub x0 (st\<lparr>lm_nfev := k, lm_mu := v\<rparr>)" "search_inv f lb ub x0 (st\<lparr>lm_mu := v\<rparr>)" for k v
    using Suc.prems by simp_all
  show ?case
  proof (cases "solve_linear lit a b (length (lm_x st))")
    case None
    with Suc.IH [OF mu(2)] ab show ?thesis by simp
  next
    case (Some d)
    have "length b = n" using ab n by (auto simp: build_normal_eqs_def Let_def)
    then have len: "length (project (map2 (+) (lm_x st) d) lb ub) = n" using solve_linear_length [OF Some] n by simp
    have "search_inv f lb ub x0 (lm_accept lm d x r c st1)"
      if "x = project (map2 (+) (lm_x st) d) lb ub" "r = f x" "c = cost r" "c < lm_c st" "st1 = st\<lparr>lm_nfev := k\<rparr>" for x r c st1 k
    proof -
      have "inside_bounds lb ub x" using len that(1) by (simp add: project_inside)
      moreover have "c < cost (f x0)" using that Suc.prems f64_less_trans by (auto simp: search_inv_def)
      ultimately show ?thesis using len that assms(2) by (simp add: search_inv_def lm_accept_def Let_def)
    qed
    with Some Suc.IH [OF mu(1)] mu(1) ab show ?thesis by (simp add: Let_def)
  qed
qed simp

lemma lm_iterate_inv:
  assumes "search_inv f lb ub x0 st" "length x0 = n"
  shows "search_inv f lb ub x0 (lm_iterate lm f lb ub max_nfev iters st)"
  using assms(1)
proof (induction iters arbitrary: st)
  case (Suc iters)
  obtain nfev j where j: "numerical_jacobian f (lm_x st) (lm_r st) (lm_nfev st) = (nfev, j)" by fastforce
  let ?st1 = "st\<lparr>lm_nfev := nfev\<rparr>"
  obtain acc st2 where t: "lm_try lm f lb ub max_nfev j 30 ?st1 = (acc, st2)" by fastforce
  have st1: "search_inv f lb ub x0 ?st1" "search_inv f lb ub x0 (?st1\<lparr>lm_success := True\<rparr>)"
    using Suc.prems by simp_all
  with lm_try_inv [OF st1(1) assms(2)] t have "search_inv f lb ub x0 st2" by (metis snd_conv)
  with Suc st1 j t show ?case by (simp add: Let_def)
qed simp

lemma lm_solve_result:
  assumes "length x0 = n" "res = lm_solve lm f x0 lb ub max_nfev" "x1 = project x0 lb ub"
  shows "lr_nfev res \<le> max 1 (max_nfev + 2 * n) \<and> length (lr_x res) = n \<and> inside_bounds lb ub (lr_x res) \<and>
    lr_residuals res = f (lr_x res) \<and> lr_cost res = cost (lr_residuals res) \<and>
    (lr_x res = x1 \<or> lr_cost res < cost (f x1))"
proof -
  let ?st0 = "\<lparr>lm_x = x1, lm_r = f x1, lm_c = cost (f x1), lm_mu = lit (1 / 1000), lm_nfev = 1, lm_success = False\<rparr>"
  have x1: "length x1 = n" "inside_bounds lb ub x1" using assms(1,3) project_inside by simp_all
  then have inv: "search_inv f lb ub x1 ?st0" by (simp add: search_inv_def)
  define st where "st = lm_iterate lm f lb ub max_nfev 200 ?st0"
  have "lm_nfev st \<le> max 1 (max_nfev + 2 * n)"
    using lm_iterate_nfev [of ?st0 n lm f lb ub max_nfev 200] x1(1) by (simp add: st_def)
  moreover have "search_inv f lb ub x1 st" unfolding st_def by (rule lm_iterate_inv [OF inv x1(1)])
  moreover have "res = \<lparr>lr_x = lm_x st, lr_residuals = lm_r st, lr_cost = lm_c st, lr_nfev = lm_nfev st, lr_success = lm_success st\<rparr>"
    by (simp add: assms(2,3) lm_solve_def st_def Let_def)
  ultimately show ?thesis using x1(1) by (auto simp: search_inv_def)
qed

end

lemma less_3_cases_iff: "i < 3 \<longleftrightarrow> i = 0 \<or> i = 1 \<or> i = (2 :: nat)"
  by auto

lemma less_5_cases_iff: "i < 5 \<longleftrightarrow> i = 0 \<or> i = 1 \<or> i = 2 \<or> i = 3 \<or> i = (4 :: nat)"
  by auto

lemma fit_bounds:
  "\<not> lit 5 < lit (1 / 10000)" "\<not> lit (99 / 100) < - lit (99 / 100)" "\<not> lit 5 < 0" "\<not> lit 1 < - lit 1" "\<not> lit 2 < lit (1 / 10000)"
  "\<not> lit 10 < lit (1 / 10000)"
  by code_simp+

lemma f64_irrefl [simp]: "\<not> x < (x :: f64)"
  by (simp add: f64_ord)

interpretation sabr: bounded_problem "sabr_residual lm f t strikes market_ivs w beta" sabr_lb "sabr_ub alpha_0" 3 "length strikes"
  for lm f t strikes market_ivs w beta alpha_0
proof
  fix i :: nat
  assume "i < 3"
  moreover have "\<not> fmax (lit 10) y < lit (1 / 10000)" for y
    using fit_bounds(6) by (auto simp: fmax_def f64_ord)
  ultimately show "\<not> sabr_ub alpha_0 ! i < sabr_lb ! i \<and> \<not> sabr_lb ! i < sabr_lb ! i \<and> \<not> sabr_ub alpha_0 ! i < sabr_ub alpha_0 ! i"
    using fit_bounds by (auto simp: sabr_lb_def sabr_ub_def less_3_cases_iff)
qed (simp_all add: sabr_lb_def sabr_ub_def sabr_residual_def)

interpretation svi: bounded_problem "svi_residual lm t ks market_ivs w" svi_lb svi_ub 5 "length ks"
  for lm t ks market_ivs w
proof
  fix i :: nat
  assume "i < 5"
  then show "\<not> svi_ub ! i < svi_lb ! i \<and> \<not> svi_lb ! i < svi_lb ! i \<and> \<not> svi_ub ! i < svi_ub ! i"
    using fit_bounds by (auto simp: svi_lb_def svi_ub_def less_5_cases_iff)
qed (simp_all add: svi_lb_def svi_ub_def svi_residual_def)

subsection \<open>The chosen fit\<close>

lemma keep_better_Some: "\<exists>b. keep_better r best = Some b"
  by (cases best) (simp_all add: keep_better_def)

lemma keep_better_fold:
  assumes "fold keep_better rs best = Some b"
  shows "(b \<in> set rs \<or> best = Some b) \<and> (\<forall>r\<in>set rs. \<not> lr_cost r < lr_cost b) \<and>
    (\<forall>b0. best = Some b0 \<longrightarrow> b = b0 \<or> lr_cost b < lr_cost b0)"
  using assms
proof (induction rs arbitrary: best)
  case (Cons r rs)
  obtain b1 where kb: "keep_better r best = Some b1" using keep_better_Some by blast
  then have b1: "keep_better r best = Some b1" "\<not> lr_cost r < lr_cost b1" "b1 = r \<or> best = Some b1"
    "\<And>b0. best = Some b0 \<Longrightarrow> b1 = b0 \<or> lr_cost b1 < lr_cost b0"
    by (auto simp: keep_better_def split: if_splits option.splits)
  have ih: "b \<in> set rs \<or> b1 = b" "\<forall>r\<in>set rs. \<not> lr_cost r < lr_cost b" "b = b1 \<or> lr_cost b < lr_cost b1"
    using Cons.IH [of "Some b1"] Cons.prems b1(1) by auto
  have "\<not> lr_cost r < lr_cost b" using ih(3) b1(2) f64_less_trans by blast
  moreover have "b = b0 \<or> lr_cost b < lr_cost b0" if "best = Some b0" for b0 using ih(3) b1(4) [OF that] f64_less_trans by blast
  ultimately show ?case using ih(1,2) b1(3) by auto
qed auto

lemma keep_better_fold_Some: "rs \<noteq> [] \<or> best \<noteq> None \<Longrightarrow> \<exists>b. fold keep_better rs best = Some b"
  using keep_better_Some by (induction rs arbitrary: best) auto

lemma sabr_step_fold:
  "fold sabr_step rs (bs, ba) = (fold keep_better (filter lr_success rs) bs, fold keep_better rs ba)"
  by (induction rs arbitrary: bs ba) (simp_all add: sabr_step_def)

text \<open>The searches of a fit, one for each starting point.\<close>

definition sabr_searches :: "'z pricing_libm_scheme \<Rightarrow> f64 \<Rightarrow> f64 \<Rightarrow> f64 list \<Rightarrow> f64 list \<Rightarrow> f64 list option \<Rightarrow> f64 \<Rightarrow> lm_result list" where
  "sabr_searches lm f t strikes market_ivs weights beta =
     (let alpha_0 = alpha_seed lm f strikes market_ivs beta
      in map (\<lambda>guess. lm_solve lm (sabr_residual lm f t strikes market_ivs (normalised_weights weights (length strikes)) beta)
                guess sabr_lb (sabr_ub alpha_0) 200) (sabr_guesses alpha_0))"

definition sabr_best :: "lm_result list \<Rightarrow> lm_result \<Rightarrow> bool" where
  "sabr_best rs b \<longleftrightarrow> b \<in> set rs \<and>
     ((\<exists>r\<in>set rs. lr_success r) \<longrightarrow> lr_success b) \<and>
     (\<forall>r\<in>set rs. lr_success b \<longrightarrow> lr_success r \<longrightarrow> \<not> lr_cost r < lr_cost b) \<and>
     (\<not> lr_success b \<longrightarrow> (\<forall>r\<in>set rs. \<not> lr_cost r < lr_cost b))"

lemma sabr_choice:
  assumes "rs \<noteq> []"
  shows "\<exists>b. (case fold sabr_step rs (None, None) of (bs, ba) \<Rightarrow> case bs of None \<Rightarrow> ba | Some b \<Rightarrow> Some b) = Some b \<and> sabr_best rs b"
proof (cases "filter lr_success rs = []")
  case True
  then have none: "\<forall>r\<in>set rs. \<not> lr_success r" by (simp add: filter_empty_conv)
  obtain b where b: "fold keep_better rs None = Some b" using keep_better_fold_Some assms by blast
  with keep_better_fold [OF b] none True show ?thesis by (auto simp: sabr_step_fold sabr_best_def)
next
  case False
  obtain b where b: "fold keep_better (filter lr_success rs) None = Some b" using keep_better_fold_Some False by blast
  with keep_better_fold [OF b] show ?thesis by (auto simp: sabr_step_fold sabr_best_def)
qed

lemma calibrate_sabr_eq:
  assumes "3 \<le> length strikes" "length market_ivs = length strikes" "\<not> t \<le> 0" "\<not> f \<le> 0"
  shows "\<exists>b. sabr_best (sabr_searches lm f t strikes market_ivs weights beta) b \<and>
    calibrate_sabr lm f t strikes market_ivs weights beta max_rmse =
      (if max_rmse < rms lm (lr_residuals b) then None
       else Some \<lparr>sf_alpha = lr_x b ! 0, sf_beta = beta, sf_rho = lr_x b ! 1, sf_nu = lr_x b ! 2,
                  sf_rmse = rms lm (lr_residuals b), sf_n_points = length strikes\<rparr>)"
proof -
  let ?rs = "sabr_searches lm f t strikes market_ivs weights beta"
  obtain b where b: "(case fold sabr_step ?rs (None, None) of (bs, ba) \<Rightarrow> case bs of None \<Rightarrow> ba | Some b \<Rightarrow> Some b) = Some b" "sabr_best ?rs b"
    using sabr_choice [of ?rs] by (auto simp: sabr_searches_def sabr_guesses_def Let_def)
  obtain bs ba where s: "fold sabr_step ?rs (None, None) = (bs, ba)" by fastforce
  have "(case bs of None \<Rightarrow> ba | Some b \<Rightarrow> Some b) = Some b" using b(1) s by simp
  then show ?thesis
    using b(2) s assms unfolding calibrate_sabr_def sabr_searches_def Let_def by (intro exI [of _ b]) simp
qed

lemma sabr_best_mem: "sabr_best rs b \<Longrightarrow> b \<in> set rs"
  by (simp add: sabr_best_def)

lemma sabr_search_result:
  assumes "r \<in> set (sabr_searches lm f t strikes market_ivs weights beta)" "alpha_0 = alpha_seed lm f strikes market_ivs beta"
  shows "length (lr_x r) = 3 \<and> inside_bounds sabr_lb (sabr_ub alpha_0) (lr_x r) \<and>
    lr_residuals r = sabr_residual lm f t strikes market_ivs (normalised_weights weights (length strikes)) beta (lr_x r) \<and>
    lr_nfev r \<le> 206"
proof -
  obtain guess where g: "guess \<in> set (sabr_guesses alpha_0)" "r = lm_solve lm (sabr_residual lm f t strikes market_ivs
      (normalised_weights weights (length strikes)) beta) guess sabr_lb (sabr_ub alpha_0) 200"
    using assms by (auto simp: sabr_searches_def Let_def)
  have "length guess = 3" using g(1) by (auto simp: sabr_guesses_def)
  from sabr.lm_solve_result [OF this g(2) refl] show ?thesis by simp
qed

text \<open>
  \<^bold>\<open>C26.\<close> Whatever the residual function, the search ends after at most \<open>max_nfev\<close> evaluations and those of
  one Jacobian (at least the first evaluation is made).  Its result is never outside the bounds, the
  reported residuals and cost are those of the result, and it is the projected starting point or strictly
  better than it.
\<close>

theorem calibration_bounded:
  assumes "length x0 = n" "length lb = n" "length ub = n" "\<forall>i<n. \<not> ub ! i < lb ! i" "\<forall>x. length (f x) = m"
    and "res = lm_solve lm f x0 lb ub max_nfev"
  shows "lr_nfev res \<le> max 1 (max_nfev + 2 * n) \<and>
    length (lr_x res) = n \<and> (\<forall>i<n. \<not> lr_x res ! i < lb ! i \<and> \<not> ub ! i < lr_x res ! i) \<and>
    lr_residuals res = f (lr_x res) \<and> lr_cost res = cost (f (lr_x res)) \<and>
    (lr_x res = project x0 lb ub \<or> lr_cost res < cost (f (project x0 lb ub)))"
proof -
  have "bounded_problem f lb ub n m" using assms by unfold_locales simp_all
  from bounded_problem.lm_solve_result [OF this assms(1,6) refl] show ?thesis by (auto simp: inside_bounds_def)
qed

definition flat_libm :: pricing_libm where
  "flat_libm = \<lparr>exp_fn = id, ln_fn = id, sqrt_fn = id, powf_fn = (\<lambda>x y. x), norm_cdf = id, powi_fn = (\<lambda>x n. x)\<rparr>"

theorem calibration_bounded_witness:
  "lr_nfev (lm_solve flat_libm (\<lambda>x. [x ! 0 - lit 3]) [lit 7] [0] [lit 5] 50) \<le> 52 \<and>
     \<not> lit 5 < lr_x (lm_solve flat_libm (\<lambda>x. [x ! 0 - lit 3]) [lit 7] [0] [lit 5] 50) ! 0"
  using calibration_bounded [of "[lit 7]" 1 "[0]" "[lit 5]" "\<lambda>x. [x ! 0 - lit 3]" 1 _ flat_libm 50, OF _ _ _ _ _ refl] fit_bounds(3)
  by simp

lemma rms_nan:
  assumes "\<And>x. is_nan x \<Longrightarrow> is_nan (sqrt_fn lm x)" "i < length r" "is_nan (r ! i)"
  shows "is_nan (rms lm r)"
proof -
  have add: "is_nan x \<or> is_nan y \<Longrightarrow> is_nan (x + y)" for x y :: f64 by (auto simp: plus_f64_def fadd_def)
  have "is_nan acc \<or> (\<exists>x\<in>set xs. is_nan x) \<Longrightarrow> is_nan (fold (\<lambda>x acc. acc + x) xs acc)" for acc xs
    by (induction xs arbitrary: acc) (auto intro: add)
  moreover have "is_nan (r ! i * r ! i)" using fmul_nan assms(3) by blast
  moreover have "r ! i * r ! i \<in> set (map (\<lambda>v. v * v) r)" using assms(2) by simp
  ultimately have "is_nan (fsum (map (\<lambda>v. v * v) r))" unfolding fsum_def by blast
  then have "is_nan (fsum (map (\<lambda>v. v * v) r) / y)" for y by (simp add: divide_f64_def fdiv_def)
  then show ?thesis unfolding rms_def by (rule assms(1))
qed

lemma sabr_fit_facts:
  assumes "calibrate_sabr lm f t strikes market_ivs weights beta max_rmse = Some fit"
  shows "3 \<le> length strikes \<and> sf_n_points fit = length strikes \<and> sf_beta fit = beta \<and>
    \<not> sf_rho fit < - lit (99 / 100) \<and> \<not> lit (99 / 100) < sf_rho fit \<and>
    \<not> sf_alpha fit < lit (1 / 10000) \<and>
    \<not> fmax (lit 10) (alpha_seed lm f strikes market_ivs beta * lit 5) < sf_alpha fit \<and>
    \<not> sf_nu fit < lit (1 / 10000) \<and> \<not> lit 5 < sf_nu fit \<and>
    sf_rmse fit = rms lm (sabr_residual lm f t strikes market_ivs (normalised_weights weights (length strikes)) beta
      [sf_alpha fit, sf_rho fit, sf_nu fit]) \<and>
    \<not> max_rmse < sf_rmse fit \<and>
    (\<exists>b. sabr_best (sabr_searches lm f t strikes market_ivs weights beta) b \<and> lr_x b = [sf_alpha fit, sf_rho fit, sf_nu fit])"
proof -
  have pre: "3 \<le> length strikes" "length market_ivs = length strikes" "\<not> t \<le> 0" "\<not> f \<le> 0"
    using assms by (auto simp: calibrate_sabr_def Let_def split: if_splits)
  from calibrate_sabr_eq [OF pre, of lm weights beta max_rmse] obtain b where
    b: "sabr_best (sabr_searches lm f t strikes market_ivs weights beta) b" "\<not> max_rmse < rms lm (lr_residuals b)"
    "fit = \<lparr>sf_alpha = lr_x b ! 0, sf_beta = beta, sf_rho = lr_x b ! 1, sf_nu = lr_x b ! 2,
            sf_rmse = rms lm (lr_residuals b), sf_n_points = length strikes\<rparr>"
    using assms by (auto split: if_splits)
  have r: "length (lr_x b) = 3" "inside_bounds sabr_lb (sabr_ub (alpha_seed lm f strikes market_ivs beta)) (lr_x b)"
    "lr_residuals b = sabr_residual lm f t strikes market_ivs (normalised_weights weights (length strikes)) beta (lr_x b)"
    using sabr_search_result [OF sabr_best_mem [OF b(1)] refl] by simp_all
  have x: "lr_x b = [sf_alpha fit, sf_rho fit, sf_nu fit]"
    using r(1) by (intro nth_equalityI) (auto simp: b(3) less_3_cases_iff)
  have "\<forall>i<3. \<not> lr_x b ! i < sabr_lb ! i \<and> \<not> sabr_ub (alpha_seed lm f strikes market_ivs beta) ! i < lr_x b ! i"
    using r(1,2) by (simp add: inside_bounds_def)
  from this [rule_format, of 0] this [rule_format, of 1] this [rule_format, of 2]
  have "\<not> sf_rho fit < - lit (99 / 100) \<and> \<not> lit (99 / 100) < sf_rho fit" "\<not> sf_alpha fit < lit (1 / 10000)"
    "\<not> fmax (lit 10) (alpha_seed lm f strikes market_ivs beta * lit 5) < sf_alpha fit"
    "\<not> sf_nu fit < lit (1 / 10000) \<and> \<not> lit 5 < sf_nu fit"
    by (simp_all add: x sabr_lb_def sabr_ub_def)
  moreover have "sf_rmse fit = rms lm (sabr_residual lm f t strikes market_ivs (normalised_weights weights (length strikes)) beta
      [sf_alpha fit, sf_rho fit, sf_nu fit])" unfolding x [symmetric] r(3) [symmetric] by (simp add: b(3))
  moreover have "\<not> max_rmse < sf_rmse fit" using b(2) by (simp add: b(3))
  moreover have "sf_n_points fit = length strikes" "sf_beta fit = beta" by (simp_all add: b(3))
  ultimately show ?thesis using pre(1) b(1) x by blast
qed

text \<open>
  \<^bold>\<open>C35.\<close> A fit of the SABR model has the exponent it was asked for and parameters that are not outside the
  bounds of the search: \<open>\<rho>\<close> within 0.99 of zero, \<open>\<nu>\<close> between 0.0001 and 5, \<open>\<alpha>\<close> between 0.0001 and the
  greater of 10 and five times the seed from the quote at the money.  A comparison with NaN is false, so this
  leaves open a parameter that is not a number, which neither the projection nor the code excludes.  The
  error of the fit is the root mean square of the residuals of exactly those parameters, and is not above
  the threshold.  It comes from the best of the converged searches when one converged, else from the best
  search.
\<close>

theorem sabr_fit_sound:
  assumes "calibrate_sabr lm f t strikes market_ivs weights beta max_rmse = Some fit"
  shows "3 \<le> length strikes \<and> sf_n_points fit = length strikes \<and> sf_beta fit = beta \<and>
    \<not> sf_rho fit < - lit (99 / 100) \<and> \<not> lit (99 / 100) < sf_rho fit \<and>
    \<not> sf_alpha fit < lit (1 / 10000) \<and>
    \<not> fmax (lit 10) (alpha_seed lm f strikes market_ivs beta * lit 5) < sf_alpha fit \<and>
    \<not> sf_nu fit < lit (1 / 10000) \<and> \<not> lit 5 < sf_nu fit \<and>
    sf_rmse fit = rms lm (sabr_residual lm f t strikes market_ivs (normalised_weights weights (length strikes)) beta
      [sf_alpha fit, sf_rho fit, sf_nu fit]) \<and>
    \<not> max_rmse < sf_rmse fit \<and>
    (\<exists>b. sabr_best (sabr_searches lm f t strikes market_ivs weights beta) b \<and> lr_x b = [sf_alpha fit, sf_rho fit, sf_nu fit])"
  by (rule sabr_fit_facts [OF assms])

theorem sabr_fit_sound_witness:
  "\<exists>fit. calibrate_sabr (flat_libm\<lparr>sqrt_fn := \<lambda>_. 0\<rparr>) (lit 6) (lit 1) [lit 5, lit 6, lit 7] [lit 1, lit 1, lit 1] None (lit (1 / 2)) (lit 1)
     = Some fit \<and> \<not> lit (99 / 100) < sf_rho fit"
proof -
  let ?lm = "flat_libm\<lparr>sqrt_fn := \<lambda>_. 0\<rparr>" and ?ks = "[lit 5, lit 6, lit 7]" and ?ivs = "[lit 1, lit 1, lit 1]"
  have "\<not> lit 1 \<le> 0" "\<not> lit 6 \<le> 0" "\<not> lit 1 < 0" by code_simp+
  with calibrate_sabr_eq [of ?ks ?ivs "lit 1" "lit 6" ?lm None "lit (1 / 2)" "lit 1"]
  obtain fit where fit: "calibrate_sabr ?lm (lit 6) (lit 1) ?ks ?ivs None (lit (1 / 2)) (lit 1) = Some fit"
    by (auto simp: rms_def)
  from sabr_fit_sound [OF fit] fit show ?thesis by blast
qed

text \<open>
  One implied volatility that is not a number does not prevent a fit: the comparison of the root mean
  square with the threshold is false, and a fit with an undefined error is returned.
\<close>

theorem nan_quote_still_fits:
  assumes "3 \<le> length strikes" "length market_ivs = length strikes" "\<not> t \<le> 0" "\<not> f \<le> 0"
    and "i < length strikes" "is_nan (market_ivs ! i)" "\<And>x. is_nan x \<Longrightarrow> is_nan (sqrt_fn lm x)"
  shows "\<exists>fit. calibrate_sabr lm f t strikes market_ivs weights beta max_rmse = Some fit \<and> is_nan (sf_rmse fit)"
proof -
  obtain b where b: "sabr_best (sabr_searches lm f t strikes market_ivs weights beta) b"
    "calibrate_sabr lm f t strikes market_ivs weights beta max_rmse =
      (if max_rmse < rms lm (lr_residuals b) then None
       else Some \<lparr>sf_alpha = lr_x b ! 0, sf_beta = beta, sf_rho = lr_x b ! 1, sf_nu = lr_x b ! 2,
                  sf_rmse = rms lm (lr_residuals b), sf_n_points = length strikes\<rparr>)"
    using calibrate_sabr_eq [OF assms(1-4)] by blast
  have r: "lr_residuals b = sabr_residual lm f t strikes market_ivs (normalised_weights weights (length strikes)) beta (lr_x b)"
    using sabr_search_result [OF sabr_best_mem [OF b(1)] refl] by simp_all
  have "is_nan (x - market_ivs ! i)" for x using assms(6) by (simp add: minus_f64_def fadd_def)
  then have "is_nan (lr_residuals b ! i)" using assms(5) fmul_nan by (auto simp: r sabr_residual_def)
  moreover have "i < length (lr_residuals b)" using assms(5) by (simp add: r sabr_residual_def)
  ultimately have "is_nan (rms lm (lr_residuals b))" using rms_nan assms(7) by blast
  then show ?thesis using b(2) by (simp add: f64_ord)
qed

theorem nan_quote_still_fits_witness:
  "\<exists>fit. calibrate_sabr flat_libm (lit 6) (lit 1) [lit 5, lit 6, lit 7] [lit 1, f64_nan, lit 1] None (lit (1 / 2)) (lit 1) = Some fit
     \<and> is_nan (sf_rmse fit)"
proof -
  have "\<not> lit 1 \<le> 0" "\<not> lit 6 \<le> 0" by code_simp+
  then show ?thesis
    by (intro nan_quote_still_fits [where i = 1]) (simp_all add: flat_libm_def)
qed

text \<open>
  A fit of the SVI model has parameters that are not outside their bounds, the root mean square of
  the residuals of exactly those parameters, which is not above the threshold, and no negative total
  variance at a calibrated strike.  A strike whose log-moneyness is not a number is a panic.
\<close>

theorem svi_fit_sound:
  assumes "ks = map (\<lambda>k. ln_fn lm (k / f)) strikes" "5 \<le> length strikes" "length market_ivs = length strikes" "\<not> t \<le> 0" "\<not> f \<le> 0"
  shows "(calibrate_svi lm f t strikes market_ivs weights max_rmse = None \<longleftrightarrow> (\<exists>k\<in>set ks. is_nan k)) \<and>
    (\<forall>fit. calibrate_svi lm f t strikes market_ivs weights max_rmse = Some (Some fit) \<longrightarrow>
      \<not> vf_rho fit < - lit (99 / 100) \<and> \<not> lit (99 / 100) < vf_rho fit \<and> \<not> vf_sigma fit < lit (1 / 10000) \<and>
      vf_rmse fit = rms lm (svi_residual lm t ks market_ivs (normalised_weights weights (length strikes))
        [vf_a fit, vf_b fit, vf_rho fit, vf_m fit, vf_sigma fit]) \<and>
      \<not> max_rmse < vf_rmse fit \<and>
      (\<forall>k\<in>set ks. \<not> svi_total_variance_inner lm k (vf_a fit) (vf_b fit) (vf_rho fit) (vf_m fit) (vf_sigma fit) < 0))"
proof (cases "\<exists>k\<in>set ks. is_nan k")
  case True
  then show ?thesis using assms by (simp add: calibrate_svi_def Let_def)
next
  case False
  let ?w = "normalised_weights weights (length strikes)"
  define guesses where "guesses = svi_guesses (svi_atm_var ks (map (\<lambda>iv. iv * iv * t) market_ivs))"
  let ?rs = "map (\<lambda>guess. lm_solve lm (svi_residual lm t ks market_ivs ?w) guess svi_lb svi_ub 500) guesses"
  have g: "guesses \<noteq> []" "\<forall>g\<in>set guesses. length g = 5" by (simp_all add: guesses_def svi_guesses_def)
  obtain b where b: "fold keep_better ?rs None = Some b" using keep_better_fold_Some g(1) by blast
  then have "b \<in> set ?rs" using keep_better_fold [OF b] by simp
  then obtain guess where "guess \<in> set guesses" and bg: "b = lm_solve lm (svi_residual lm t ks market_ivs ?w) guess svi_lb svi_ub 500"
    by auto
  then have "length guess = 5" using g(2) by blast
  then have r: "length (lr_x b) = 5" "inside_bounds svi_lb svi_ub (lr_x b)" "lr_residuals b = svi_residual lm t ks market_ivs ?w (lr_x b)"
    using svi.lm_solve_result [OF _ bg refl] by simp_all
  have x: "lr_x b = [lr_x b ! 0, lr_x b ! 1, lr_x b ! 2, lr_x b ! 3, lr_x b ! 4]"
    using r(1) by (intro nth_equalityI) (auto simp: less_5_cases_iff)
  have "\<forall>i<5. \<not> lr_x b ! i < svi_lb ! i \<and> \<not> svi_ub ! i < lr_x b ! i" using r(1,2) by (simp add: inside_bounds_def)
  from this [rule_format, of 2] this [rule_format, of 4]
  have bd: "\<not> lr_x b ! 2 < - lit (99 / 100) \<and> \<not> lit (99 / 100) < lr_x b ! 2" "\<not> lr_x b ! 4 < lit (1 / 10000)"
    by (simp_all add: svi_lb_def svi_ub_def)
  have "calibrate_svi lm f t strikes market_ivs weights max_rmse = Some (svi_accept lm ks max_rmse b)"
    using False assms(2-5) b unfolding calibrate_svi_def Let_def assms(1) [symmetric] guesses_def by simp
  moreover have "svi_residual lm t ks market_ivs ?w [lr_x b ! 0, lr_x b ! 1, lr_x b ! 2, lr_x b ! 3, lr_x b ! 4] = lr_residuals b"
    using r(3) x by simp
  ultimately show ?thesis using False bd by (auto simp: svi_accept_def Let_def split: if_splits)
qed

end
