(* ===== verification/Vol_Surface.thy ===== *)
theory Vol_Surface
  imports Calibrate Broker_Fills
begin

section \<open>The surface fitter\<close>

text \<open>
  Model of \<^verbatim>\<open>rust/corsair_broker/src/vol_surface.rs\<close>: the forward implied by put-call parity, the quotes out of
  the money, one fit for each expiry, its place in the cache and the events for the trader.  The events are
  structs for \<^verbatim>\<open>serde\<close>; \<open>surface_msg\<close> is what the declarations of \<^verbatim>\<open>corsair_trader/src/messages.rs\<close> read from one.
  The iteration orders of the maps and the readings of the clock are arguments.
\<close>

subsection \<open>Data\<close>

record surface_entry =
  se_forward :: f64
  se_tte :: f64
  se_alpha :: f64
  se_beta :: f64
  se_rho :: f64
  se_nu :: f64

record surface_event =
  ev_expiry :: string
  ev_side :: string
  ev_forward :: f64
  ev_spot_at_fit :: f64
  ev_alpha :: f64
  ev_beta :: f64
  ev_rho :: f64
  ev_nu :: f64
  ev_rmse :: f64
  ev_n_points :: nat
  ev_min_k :: f64
  ev_max_k :: f64
  ev_ts_ns :: u64

record surface_failure =
  fe_expiry :: string
  fe_reason :: string
  fe_n_strikes :: nat
  fe_ts_ns :: u64

datatype surface_message = Fitted surface_event | Failed surface_failure

record chain_quote =
  cq_strike :: f64
  cq_iv :: f64
  cq_tte :: f64

subsection \<open>The forward\<close>

type_synonym parity_sides = "naive_date \<times> i64 \<rightharpoonup> f64 option \<times> f64 option"

definition parity_side :: "option_tick \<Rightarrow> parity_sides \<Rightarrow> parity_sides" where
  "parity_side t sides =
     (case mid t of
        None \<Rightarrow> sides
      | Some m \<Rightarrow>
          if m \<le> 0 then sides
          else let key = (ot_expiry t, f64_as_i64 (fround (ot_strike t * lit 10000)));
                   (c, p) = (case sides key of Some e \<Rightarrow> e | None \<Rightarrow> (None, None))
               in sides(key \<mapsto> (case ot_right t of Call \<Rightarrow> (Some m, p) | Put \<Rightarrow> (c, Some m))))"

definition parity_sample :: "f64 \<Rightarrow> parity_sides \<Rightarrow> naive_date \<times> i64 \<Rightarrow> f64 option" where
  "parity_sample spot sides key =
     (let k = i64_as_f64 (snd key) / lit 10000 in
      if lit (1 / 4) < \<bar>k - spot\<bar> then None
      else (case sides key of Some (Some c, Some p) \<Rightarrow> Some (k + (c - p)) | _ \<Rightarrow> None))"

definition PARITY_VS_SPOT_LIMIT_USD :: f64 where "PARITY_VS_SPOT_LIMIT_USD = lit (20 / 100)"

text \<open>The order in which the map of the sides is walked is \<open>order\<close>.\<close>

definition parity_forward :: "(naive_date \<times> i64) list \<Rightarrow> f64 \<Rightarrow> option_tick list \<Rightarrow> f64" where
  "parity_forward order spot opts =
     (let samples = List.map_filter (parity_sample spot (fold parity_side opts Map.empty)) order in
      if 2 \<le> length samples then
        let parity_f = fsum samples / f64_of_int (int (length samples))
        in if PARITY_VS_SPOT_LIMIT_USD < \<bar>parity_f - spot\<bar> then spot else parity_f
      else spot)"

subsection \<open>The quotes\<close>

definition surface_tte :: "date_time \<Rightarrow> naive_date \<Rightarrow> f64 option" where
  "surface_tte now ex =
     (let secs = f64_of_int (num_seconds ((ex * 86400 + 20 * 3600) * 1000000000 - now))
      in if secs \<le> 0 then None else Some (secs / (lit (36525 / 100) * lit 24 * lit 3600)))"

definition out_of_money :: "f64 \<Rightarrow> option_tick \<Rightarrow> bool" where
  "out_of_money forward t = (case ot_right t of Call \<Rightarrow> forward \<le> ot_strike t | Put \<Rightarrow> ot_strike t < forward)"

definition live_book :: "option_tick \<Rightarrow> bool" where
  "live_book t \<longleftrightarrow> \<not> (ot_bid t \<le> 0 \<or> ot_ask t \<le> 0 \<or> ot_ask t \<le> ot_bid t) \<and> \<not> (ot_bid_size t = 0 \<or> ot_ask_size t = 0)"

definition chain_row :: "'z libm_scheme \<Rightarrow> date_time \<Rightarrow> f64 \<Rightarrow> option_tick \<Rightarrow> (naive_date \<times> chain_quote) option" where
  "chain_row lm now forward t =
     (if \<not> out_of_money forward t \<or> \<not> live_book t then None
      else
        let price = (ot_bid t + ot_ask t) / lit 2 in
        if price \<le> 0 then None
        else do { tte \<leftarrow> surface_tte now (ot_expiry t);
                  iv \<leftarrow> implied_vol lm price forward (ot_strike t) tte 0 (case ot_right t of Call \<Rightarrow> ''C'' | Put \<Rightarrow> ''P'');
                  if lit (1 / 1000) < iv \<and> iv < lit 5
                  then Some (ot_expiry t, \<lparr>cq_strike = ot_strike t, cq_iv = iv, cq_tte = tte\<rparr>) else None })"

text \<open>The forward, the spot and the quotes with their expiry, in the order the options are walked in.\<close>

definition snapshot_chain ::
  "'z libm_scheme \<Rightarrow> date_time \<Rightarrow> option_key list \<Rightarrow> (naive_date \<times> i64) list \<Rightarrow> market_state \<Rightarrow> string \<Rightarrow>
     (f64 \<times> f64 \<times> (naive_date \<times> chain_quote) list) option" where
  "snapshot_chain lm now keys order md product =
     do { spot \<leftarrow> state_underlying_price md product;
          if spot \<le> 0 then None
          else
            let opts = options_for_product keys md product; forward = parity_forward order spot opts;
                rows = List.map_filter (chain_row lm now forward) opts
            in if rows = [] then None else Some (forward, spot, rows) }"

subsection \<open>Fits\<close>

record surface_state =
  ss_cache :: "string \<times> string \<times> char \<rightharpoonup> surface_entry"
  ss_sent :: "surface_message list"

definition vega_weight :: "'z libm_scheme \<Rightarrow> f64 \<Rightarrow> f64 \<Rightarrow> chain_quote \<Rightarrow> f64" where
  "vega_weight lm forward tte q =
     (let v = g_vega (compute_greeks (libm.truncate lm) forward (cq_strike q) tte (cq_iv q) 0 CHR ''C'' (lit 1))
      in if is_finite v \<and> 0 < v then v * v else lit (1 / 10 ^ 9))"

definition strike_span :: "f64 list \<Rightarrow> f64 \<times> f64" where
  "strike_span ks = fold (\<lambda>k (lo, hi). (fmin lo k, fmax hi k)) ks (f64_inf False, f64_inf True)"

definition emit_surface :: "(nat \<Rightarrow> u64) \<Rightarrow> (u64 \<Rightarrow> surface_message) \<Rightarrow> surface_state \<Rightarrow> surface_state" where
  "emit_surface clock msg S = S\<lparr>ss_sent := ss_sent S @ [msg (clock (length (ss_sent S)))]\<rparr>"

definition fitted :: "f64 \<Rightarrow> f64 \<Rightarrow> string \<Rightarrow> f64 \<times> f64 \<Rightarrow> sabr_fit \<Rightarrow> string \<Rightarrow> u64 \<Rightarrow> surface_message" where
  "fitted forward spot ex env_k fit sd ts = Fitted
     \<lparr>ev_expiry = ex, ev_side = sd, ev_forward = forward, ev_spot_at_fit = spot, ev_alpha = sf_alpha fit, ev_beta = sf_beta fit,
      ev_rho = sf_rho fit, ev_nu = sf_nu fit, ev_rmse = sf_rmse fit, ev_n_points = sf_n_points fit, ev_min_k = fst env_k,
      ev_max_k = snd env_k, ev_ts_ns = ts\<rparr>"

definition failed :: "string \<Rightarrow> string \<Rightarrow> nat \<Rightarrow> u64 \<Rightarrow> surface_message" where
  "failed ex why n ts = Failed \<lparr>fe_expiry = ex, fe_reason = why, fe_n_strikes = n, fe_ts_ns = ts\<rparr>"

definition surface_calibration :: "'z pricing_libm_scheme \<Rightarrow> f64 \<Rightarrow> f64 \<Rightarrow> chain_quote list \<Rightarrow> sabr_fit option" where
  "surface_calibration lm forward tte qs =
     calibrate_sabr lm forward tte (map cq_strike qs) (map cq_iv qs) (Some (map (vega_weight lm forward tte) qs))
       (lit (1 / 2)) (lit (5 / 100))"

definition fit_expiry ::
  "'z pricing_libm_scheme \<Rightarrow> (nat \<Rightarrow> u64) \<Rightarrow> string \<Rightarrow> f64 \<Rightarrow> f64 \<Rightarrow> string \<times> chain_quote list \<Rightarrow> surface_state \<Rightarrow> surface_state" where
  "fit_expiry lm clock product forward spot = (\<lambda>(ex, qs) S.
     if length qs < 3 then emit_surface clock (failed ex ''too_few_strikes'' (length qs)) S
     else
       let tte = cq_tte (hd qs) in
       if \<not> 0 < tte then S
       else
         (case surface_calibration lm forward tte qs of
            None \<Rightarrow> emit_surface clock (failed ex ''fit_rejected'' (length qs)) S
          | Some fit \<Rightarrow>
              let entry = \<lparr>se_forward = forward, se_tte = tte, se_alpha = sf_alpha fit, se_beta = sf_beta fit,
                           se_rho = sf_rho fit, se_nu = sf_nu fit\<rparr>;
                  env_k = strike_span (map cq_strike qs);
                  S' = S\<lparr>ss_cache := (ss_cache S)((product, ex, CHR ''C'') \<mapsto> entry, (product, ex, CHR ''P'') \<mapsto> entry)\<rparr>
              in emit_surface clock (fitted forward spot ex env_k fit ''P'')
                   (emit_surface clock (fitted forward spot ex env_k fit ''C'') S')))"

text \<open>The groups of a product in the order \<open>expiries\<close> of the map that holds them.\<close>

definition expiry_groups :: "(naive_date \<Rightarrow> string) \<Rightarrow> string list \<Rightarrow> (naive_date \<times> chain_quote) list \<Rightarrow> (string \<times> chain_quote list) list" where
  "expiry_groups fmt expiries rows =
     filter (\<lambda>g. snd g \<noteq> []) (map (\<lambda>ex. (ex, map snd (filter (\<lambda>r. fmt (fst r) = ex) rows))) expiries)"

text \<open>What the fitter finds when it comes to a product: the other tasks run between the products.\<close>

record fitter_env =
  fv_market :: "string \<Rightarrow> market_state"
  fv_now :: "string \<Rightarrow> date_time"
  fv_keys :: "string \<Rightarrow> option_key list"
  fv_parity_order :: "string \<Rightarrow> (naive_date \<times> i64) list"
  fv_expiries :: "string \<Rightarrow> string list"
  fv_format :: "naive_date \<Rightarrow> string"
  fv_clock :: "nat \<Rightarrow> u64"

definition env_chain :: "'z libm_scheme \<Rightarrow> fitter_env \<Rightarrow> string \<Rightarrow> (f64 \<times> f64 \<times> (naive_date \<times> chain_quote) list) option" where
  "env_chain lm env prd = snapshot_chain lm (fv_now env prd) (fv_keys env prd) (fv_parity_order env prd) (fv_market env prd) prd"

definition fit_product :: "'z pricing_libm_scheme \<Rightarrow> fitter_env \<Rightarrow> string \<Rightarrow> surface_state \<Rightarrow> surface_state" where
  "fit_product lm env prd S =
     (case env_chain lm env prd of
        None \<Rightarrow> S
      | Some (forward, spot, rows) \<Rightarrow>
          fold (fit_expiry lm (fv_clock env) prd forward spot) (expiry_groups (fv_format env) (fv_expiries env prd) rows) S)"

definition fit_and_publish :: "'z pricing_libm_scheme \<Rightarrow> fitter_env \<Rightarrow> string list \<Rightarrow> surface_state \<Rightarrow> surface_state" where
  "fit_and_publish lm env = fold (fit_product lm env)"

subsection \<open>At the trader\<close>

definition surface_msg :: "surface_event \<Rightarrow> vol_surface_msg" where
  "surface_msg e =
     \<lparr>vm_expiry = ev_expiry e, vm_side = ev_side e, vm_forward = ev_forward e,
      vm_params = \<lparr>vp_model = ''sabr'', vp_a = None, vp_b = None, vp_rho = Some (ev_rho e), vp_m = None, vp_sigma = None,
        vp_alpha = Some (ev_alpha e), vp_beta = Some (ev_beta e), vp_nu = Some (ev_nu e)\<rparr>,
      vm_ts_ns = Some (ev_ts_ns e), vm_calibrated_min_k = Some (ev_min_k e), vm_calibrated_max_k = Some (ev_max_k e),
      vm_spot_at_fit = Some (ev_spot_at_fit e)\<rparr>"

text \<open>A failure is a message the trader has no handler for.\<close>

fun hear_surface :: "surface_message \<Rightarrow> trader \<Rightarrow> trader" where
  "hear_surface (Fitted e) w = on_vol_surface (surface_msg e) w"
| "hear_surface (Failed _) w = w"

subsection \<open>What is published\<close>

lemma strike_span_fold:
  "fold (\<lambda>k (lo, hi). (fmin lo k, fmax hi k)) ks (lo, hi) = (fold (\<lambda>k lo. fmin lo k) ks lo, fold (\<lambda>k hi. fmax hi k) ks hi)"
  by (induction ks arbitrary: lo hi) simp_all

lemma fold_fmin:
  assumes "\<not> is_nan lo" "\<forall>k\<in>set ks. \<not> is_nan k"
  shows "\<not> is_nan (fold (\<lambda>k lo. fmin lo k) ks lo) \<and> fold (\<lambda>k lo. fmin lo k) ks lo \<in> insert lo (set ks) \<and>
    (\<forall>k\<in>insert lo (set ks). fold (\<lambda>k lo. fmin lo k) ks lo \<le> k)"
  using assms
proof (induction ks arbitrary: lo)
  case Nil
  then show ?case by (simp add: f64_ord)
next
  case (Cons k ks)
  have m: "\<not> is_nan (fmin lo k)" "fmin lo k \<in> {lo, k}" "fmin lo k \<le> lo" "fmin lo k \<le> k"
    using Cons.prems by (auto simp: fmin_def f64_ord)
  from Cons.IH [OF m(1)] Cons.prems(2) m show ?case by (auto intro: f64_le_trans)
qed

lemma fold_fmax:
  assumes "\<not> is_nan hi" "\<forall>k\<in>set ks. \<not> is_nan k"
  shows "\<not> is_nan (fold (\<lambda>k hi. fmax hi k) ks hi) \<and> fold (\<lambda>k hi. fmax hi k) ks hi \<in> insert hi (set ks) \<and>
    (\<forall>k\<in>insert hi (set ks). k \<le> fold (\<lambda>k hi. fmax hi k) ks hi)"
  using assms
proof (induction ks arbitrary: hi)
  case Nil
  then show ?case by (simp add: f64_ord)
next
  case (Cons k ks)
  have m: "\<not> is_nan (fmax hi k)" "fmax hi k \<in> {hi, k}" "hi \<le> fmax hi k" "k \<le> fmax hi k"
    using Cons.prems by (auto simp: fmax_def f64_ord)
  from Cons.IH [OF m(1)] Cons.prems(2) m show ?case by (auto intro: f64_le_trans)
qed

lemma f64_inf_simps: "mag (f64_inf b) = inf_mag" "sign_neg (f64_inf b) = b"
  by (simp_all add: f64_inf_def inf_mag_def)

lemma f64_inf_extreme:
  assumes "\<not> is_nan k"
  shows "f64_inf False \<le> k \<Longrightarrow> k = f64_inf False" "k \<le> f64_inf True \<Longrightarrow> k = f64_inf True"
proof -
  have k: "mag k \<le> inf_mag" using assms by (simp add: is_nan_def)
  have pos: "0 \<le> mag k" by (simp add: mag_def)
  have eq: "sign_neg k = b \<and> mag k = inf_mag \<Longrightarrow> k = f64_inf b" for b using mk_f64_mag [of k] by (auto simp: f64_inf_def)
  show "f64_inf False \<le> k \<Longrightarrow> k = f64_inf False"
    by (rule eq) (use k pos in \<open>cases "sign_neg k"; simp add: f64_ord fkey_def f64_inf_simps inf_mag_def\<close>)
  show "k \<le> f64_inf True \<Longrightarrow> k = f64_inf True"
    by (rule eq) (use k pos in \<open>cases "sign_neg k"; simp add: f64_ord fkey_def f64_inf_simps inf_mag_def\<close>)
qed

text \<open>The range of the strikes of a fit is attained and holds all of them.\<close>

lemma strike_span_range:
  assumes "ks \<noteq> []" "\<forall>k\<in>set ks. \<not> is_nan k" "strike_span ks = (lo, hi)"
  shows "lo \<in> set ks" "hi \<in> set ks" "\<forall>k\<in>set ks. lo \<le> k \<and> k \<le> hi"
proof -
  have n: "\<not> is_nan (f64_inf b)" for b by (simp add: f64_inf_def is_nan_def inf_mag_def)
  have s: "lo = fold (\<lambda>k lo. fmin lo k) ks (f64_inf False)" "hi = fold (\<lambda>k hi. fmax hi k) ks (f64_inf True)"
    using assms(3) by (simp_all add: strike_span_def strike_span_fold)
  note lo = fold_fmin [OF n assms(2), of False, folded s(1)] and hi = fold_fmax [OF n assms(2), of True, folded s(2)]
  obtain k where k: "k \<in> set ks" using assms(1) by (cases ks) auto
  show "lo \<in> set ks" using lo k f64_inf_extreme(1) assms(2) by auto
  show "hi \<in> set ks" using hi k f64_inf_extreme(2) assms(2) by auto
  show "\<forall>k\<in>set ks. lo \<le> k \<and> k \<le> hi" using lo hi by blast
qed

lemma self_difference: "is_nan (x - x) \<or> fkey (x - x) = 0" for x :: f64
proof (cases "is_finite x")
  case True
  have "fkey (round_f64 b 0) = 0" for b by (simp add: round_f64_def fkey_def)
  then show ?thesis by (simp add: fsub_finite [OF True True])
next
  case False
  then have "is_nan x \<or> is_infinite x" by (auto simp: is_nan_def is_infinite_def is_finite_def)
  moreover have "is_nan f64_nan" by code_simp
  ultimately show ?thesis by (auto simp: minus_f64_def fadd_def is_infinite_def fneg_def f64_inf_simps [unfolded f64_inf_def])
qed

lemma parity_forward_near: "\<not> PARITY_VS_SPOT_LIMIT_USD < \<bar>parity_forward order spot opts - spot\<bar>"
proof -
  have "0 < fkey PARITY_VS_SPOT_LIMIT_USD" by code_simp
  then have "\<not> PARITY_VS_SPOT_LIMIT_USD < \<bar>spot - spot\<bar>" using self_difference [of spot] by (auto simp: f64_ord)
  then show ?thesis by (simp add: parity_forward_def Let_def)
qed

lemma chain_row_facts:
  assumes "chain_row lm now forward t = Some (ex, q)"
  shows "ex = ot_expiry t" "cq_strike q = ot_strike t" "out_of_money forward t" "live_book t" "\<not> is_nan (ot_strike t)"
proof -
  show f: "ex = ot_expiry t" "cq_strike q = ot_strike t" "out_of_money forward t" "live_book t"
    using assms by (auto simp: chain_row_def Let_def split: if_splits bind_splits)
  from f(3) show "\<not> is_nan (ot_strike t)" by (auto simp: out_of_money_def f64_ord split: right.splits)
qed

lemma snapshot_rows:
  assumes "snapshot_chain lm now keys order md prd = Some (forward, spot, rows)"
  shows "state_underlying_price md prd = Some spot" "0 < spot" "\<not> PARITY_VS_SPOT_LIMIT_USD < \<bar>forward - spot\<bar>"
    "rows = List.map_filter (chain_row lm now forward) (options_for_product keys md prd)"
  using assms parity_forward_near by (auto simp: snapshot_chain_def Let_def state_underlying_price_def positive_def split: if_splits bind_splits option.splits)

lemma map_filter_source:
  "map f (filter (\<lambda>x. \<exists>y. f x = Some y \<and> P y) xs) = map Some (filter P (List.map_filter f xs))"
  by (induction xs) (auto simp: map_filter_simps split: option.splits)

lemma map_filter_bind:
  "List.map_filter f (List.map_filter g xs) = List.map_filter (\<lambda>x. Option.bind (g x) f) xs"
  by (induction xs) (auto simp: map_filter_simps split: option.splits)

lemma fold_appends:
  assumes "\<And>x S. x \<in> set xs \<Longrightarrow> \<exists>ms. get (f x S) = get S @ ms \<and> (\<forall>m\<in>set ms. P m)"
  shows "\<exists>ms. get (fold f xs S) = get S @ ms \<and> (\<forall>m\<in>set ms. P m)"
  using assms
proof (induction xs arbitrary: S)
  case Nil
  then show ?case by simp
next
  case (Cons x xs)
  obtain ms where 1: "get (f x S) = get S @ ms" "\<forall>m\<in>set ms. P m" using Cons.prems by (metis list.set_intros(1))
  obtain ms' where 2: "get (fold f xs (f x S)) = get (f x S) @ ms'" "\<forall>m\<in>set ms'. P m" using Cons by (metis list.set_intros(2))
  show ?case by (intro exI [of _ "ms @ ms'"]) (use 1 2 in auto)
qed

definition group_of :: "fitter_env \<Rightarrow> string \<Rightarrow> (naive_date \<times> chain_quote) list \<Rightarrow> chain_quote list" where
  "group_of env ex rows = map snd (filter (\<lambda>r. fv_format env (fst r) = ex) rows)"

definition fit_message :: "'z pricing_libm_scheme \<Rightarrow> f64 \<Rightarrow> f64 \<Rightarrow> string \<Rightarrow> chain_quote list \<Rightarrow> surface_message \<Rightarrow> bool" where
  "fit_message lm forward spot ex qs m \<longleftrightarrow> 3 \<le> length qs \<and>
     (\<exists>tte fit sd ts. surface_calibration lm forward tte qs = Some fit \<and> m = fitted forward spot ex (strike_span (map cq_strike qs)) fit sd ts)"

lemma fit_expiry_sent:
  "\<exists>ms. ss_sent (fit_expiry lm clock prd forward spot (ex, qs) S) = ss_sent S @ ms \<and>
     (\<forall>m\<in>set ms. fit_message lm forward spot ex qs m \<or> (\<exists>f. m = Failed f))"
proof (cases "surface_calibration lm forward (cq_tte (hd qs)) qs")
  case None
  then show ?thesis by (auto simp: fit_expiry_def emit_surface_def failed_def Let_def)
next
  case (Some fit)
  then have "3 \<le> length qs \<Longrightarrow> fit_message lm forward spot ex qs (fitted forward spot ex (strike_span (map cq_strike qs)) fit sd ts)" for sd ts
    unfolding fit_message_def by blast
  with Some show ?thesis
    by (cases "length qs < 3"; cases "0 < cq_tte (hd qs)") (simp_all add: fit_expiry_def emit_surface_def failed_def Let_def)
qed

definition event_source :: "'z pricing_libm_scheme \<Rightarrow> fitter_env \<Rightarrow> string \<Rightarrow> surface_message \<Rightarrow> bool" where
  "event_source lm env prd m \<longleftrightarrow> (\<exists>f. m = Failed f) \<or>
     (\<exists>forward spot rows ex. env_chain lm env prd = Some (forward, spot, rows) \<and> fit_message lm forward spot ex (group_of env ex rows) m)"

lemma fit_product_sent:
  "\<exists>ms. ss_sent (fit_product lm env prd S) = ss_sent S @ ms \<and> (\<forall>m\<in>set ms. event_source lm env prd m)"
proof (cases "env_chain lm env prd")
  case None
  then show ?thesis by (simp add: fit_product_def)
next
  case (Some c)
  obtain forward spot rows where c: "c = (forward, spot, rows)" by (cases c) auto
  let ?gs = "expiry_groups (fv_format env) (fv_expiries env prd) rows"
  have "\<exists>ms. ss_sent (fit_expiry lm (fv_clock env) prd forward spot g S) = ss_sent S @ ms \<and> (\<forall>m\<in>set ms. event_source lm env prd m)"
    if "g \<in> set ?gs" for g S
  proof -
    obtain ex qs where g: "g = (ex, qs)" by (cases g)
    with that have qs: "qs = group_of env ex rows" by (auto simp: expiry_groups_def group_of_def)
    from fit_expiry_sent obtain ms where ms: "ss_sent (fit_expiry lm (fv_clock env) prd forward spot (ex, qs) S) = ss_sent S @ ms"
      "\<forall>m\<in>set ms. fit_message lm forward spot ex qs m \<or> (\<exists>f. m = Failed f)" by blast
    have "event_source lm env prd m" if "m \<in> set ms" for m
      using ms(2) that Some unfolding event_source_def c qs by blast
    with ms(1) g show ?thesis by blast
  qed
  from fold_appends [of ?gs ss_sent "fit_expiry lm (fv_clock env) prd forward spot", OF this] show ?thesis
    by (simp add: fit_product_def Some c)
qed

lemma fit_and_publish_sent:
  "\<exists>ms. ss_sent (fit_and_publish lm env prds S) = ss_sent S @ ms \<and> (\<forall>m\<in>set ms. \<exists>prd\<in>set prds. event_source lm env prd m)"
  unfolding fit_and_publish_def by (rule fold_appends) (use fit_product_sent in blast)

text \<open>
  The options behind the quotes of an expiry: those at different keys of the product, with the quote each
  of them became.
\<close>

definition quoted_as :: "'z libm_scheme \<Rightarrow> date_time \<Rightarrow> f64 \<Rightarrow> option_tick \<Rightarrow> f64 \<Rightarrow> bool" where
  "quoted_as lm now forward t iv \<longleftrightarrow>
     (\<exists>tte. chain_row lm now forward t = Some (ot_expiry t, \<lparr>cq_strike = ot_strike t, cq_iv = iv, cq_tte = tte\<rparr>))"

lemma chain_row_quoted:
  assumes "chain_row lm now forward t = Some (d, q)"
  shows "quoted_as lm now forward t (cq_iv q)"
  using assms chain_row_facts [OF assms] unfolding quoted_as_def by (intro exI [of _ "cq_tte q"]) (cases q, simp)

lemma chain_options:
  assumes "env_chain lm env prd = Some (forward, spot, rows)" "qs = group_of env ex rows" "distinct (fv_keys env prd)"
  shows "\<exists>ks ts. distinct ks \<and> set ks \<subseteq> {k \<in> set (fv_keys env prd). ok_product k = prd} \<and>
    map (ms_options (fv_market env prd)) ks = map Some ts \<and> map ot_strike ts = map cq_strike qs \<and>
    list_all2 (quoted_as lm (fv_now env prd) forward) ts (map cq_iv qs) \<and>
    (\<forall>t\<in>set ts. fv_format env (ot_expiry t) = ex \<and> out_of_money forward t \<and> live_book t \<and> \<not> is_nan (ot_strike t))"
proof -
  let ?o = "ms_options (fv_market env prd)" and ?row = "chain_row lm (fv_now env prd) forward"
  let ?P = "\<lambda>r. fv_format env (fst r) = ex" and ?f = "\<lambda>k. Option.bind (?o k) ?row"
  let ?keys = "filter (\<lambda>k. ok_product k = prd) (fv_keys env prd)"
  have rows: "rows = List.map_filter ?f ?keys"
    using assms(1) snapshot_rows(4) by (simp add: env_chain_def options_for_product_def map_filter_bind)
  define ks where "ks = filter (\<lambda>k. \<exists>r. ?f k = Some r \<and> ?P r) ?keys"
  define ts where "ts = map (the \<circ> ?o) ks"
  have src: "map ?f ks = map Some (filter ?P rows)" unfolding ks_def rows by (rule map_filter_source)
  have k: "\<exists>r. ?o k = Some (the (?o k)) \<and> ?row (the (?o k)) = Some r \<and> ?f k = Some r \<and> ?P r" if "k \<in> set ks" for k
    using that unfolding ks_def by (auto simp: bind_eq_Some_conv)
  have opts: "map ?o ks = map Some ts" using k by (fastforce simp: ts_def)
  have row: "\<exists>d q. ?row t = Some (d, q) \<and> fv_format env d = ex" if t: "t \<in> set ts" for t
  proof -
    obtain k' where "k' \<in> set ks" "t = the (?o k')" using t by (auto simp: ts_def)
    with k [of k'] show ?thesis by force
  qed
  have len: "length ts = length qs" using arg_cong [OF src, of length] by (simp add: ts_def assms(2) group_of_def)
  have at: "\<exists>d. ?row (ts ! i) = Some (d, qs ! i)" if "i < length ts" for i
  proof -
    have i: "i < length ks" using that by (simp add: ts_def)
    have "?row (ts ! i) = ?f (ks ! i)" using k [OF nth_mem [OF i]] i by (auto simp: ts_def)
    also have "\<dots> = map Some (filter ?P rows) ! i" using i unfolding src [symmetric] by simp
    finally show ?thesis using that len unfolding assms(2) group_of_def by (cases "filter ?P rows ! i") auto
  qed
  have "ot_strike (ts ! i) = cq_strike (qs ! i)" if "i < length ts" for i
    using at [OF that] chain_row_facts(2) by metis
  then have "map ot_strike ts = map cq_strike qs" using len by (simp add: list_eq_iff_nth_eq)
  moreover have "quoted_as lm (fv_now env prd) forward (ts ! i) (cq_iv (qs ! i))" if "i < length ts" for i
    using at [OF that] chain_row_quoted by metis
  then have "list_all2 (quoted_as lm (fv_now env prd) forward) ts (map cq_iv qs)"
    using len by (simp add: list_all2_conv_all_nth)
  moreover have "fv_format env (ot_expiry t) = ex \<and> out_of_money forward t \<and> live_book t \<and> \<not> is_nan (ot_strike t)"
    if "t \<in> set ts" for t
    using row [OF that] chain_row_facts by metis
  moreover have "distinct ks" "set ks \<subseteq> {k \<in> set (fv_keys env prd). ok_product k = prd}"
    using assms(3) by (auto simp: ks_def)
  ultimately show ?thesis using opts by blast
qed

text \<open>
  \<^bold>\<open>C21.\<close> Every surface that a cycle of the fitter publishes has a positive forward that is not further from
  the spot than the limit, and comes from at least three different options of one product and of its expiry,
  all of them out of the money at that forward, with a two-sided book and size on both sides; the number of
  points it carries is their number, and the range of strikes it tells the trader is exactly the range of
  their strikes.  Its parameters are not outside the bounds of the search, the upper one of \<open>\<alpha>\<close> being taken
  from the implied volatilities of those options, and its error is not above five hundredths; comparisons
  with NaN being false, this does not exclude an undefined one.  The map of options is walked without
  repeating a key.
\<close>

theorem published_surface_sound:
  assumes "Fitted e \<in> set (drop (length (ss_sent S)) (ss_sent (fit_and_publish lm env prds S)))"
    and "\<And>prd. distinct (fv_keys env prd)"
  shows "\<exists>prd\<in>set prds. \<exists>ks ts ivs.
    distinct ks \<and> set ks \<subseteq> {k \<in> set (fv_keys env prd). ok_product k = prd} \<and>
    map (ms_options (fv_market env prd)) ks = map Some ts \<and>
    state_underlying_price (fv_market env prd) prd = Some (ev_spot_at_fit e) \<and>
    0 < ev_forward e \<and> \<not> PARITY_VS_SPOT_LIMIT_USD < \<bar>ev_forward e - ev_spot_at_fit e\<bar> \<and>
    length ts = ev_n_points e \<and> 3 \<le> length ts \<and>
    (\<forall>t\<in>set ts. fv_format env (ot_expiry t) = ev_expiry e \<and> out_of_money (ev_forward e) t \<and> live_book t \<and>
       ev_min_k e \<le> ot_strike t \<and> ot_strike t \<le> ev_max_k e) \<and>
    ev_min_k e \<in> ot_strike ` set ts \<and> ev_max_k e \<in> ot_strike ` set ts \<and>
    list_all2 (quoted_as lm (fv_now env prd) (ev_forward e)) ts ivs \<and>
    \<not> ev_alpha e < lit (1 / 10000) \<and>
    \<not> fmax (lit 10) (alpha_seed lm (ev_forward e) (map ot_strike ts) ivs (lit (1 / 2)) * lit 5) < ev_alpha e \<and>
    \<not> ev_rho e < - lit (99 / 100) \<and> \<not> lit (99 / 100) < ev_rho e \<and>
    \<not> ev_nu e < lit (1 / 10000) \<and> \<not> lit 5 < ev_nu e \<and> \<not> lit (5 / 100) < ev_rmse e"
proof -
  obtain ms where "ss_sent (fit_and_publish lm env prds S) = ss_sent S @ ms" "\<forall>m\<in>set ms. \<exists>prd\<in>set prds. event_source lm env prd m"
    using fit_and_publish_sent by blast
  with assms(1) have "\<exists>prd\<in>set prds. event_source lm env prd (Fitted e)" by simp
  then obtain prd where prd: "prd \<in> set prds" "event_source lm env prd (Fitted e)" by blast
  then obtain forward spot rows ex where chain: "env_chain lm env prd = Some (forward, spot, rows)"
    and fm: "fit_message lm forward spot ex (group_of env ex rows) (Fitted e)" unfolding event_source_def by blast
  define qs where "qs = group_of env ex rows"
  obtain lo hi where ks: "strike_span (map cq_strike qs) = (lo, hi)" by fastforce
  obtain tte fit sd ts_ns where fit: "surface_calibration lm forward tte qs = Some fit" "3 \<le> length qs"
    "Fitted e = fitted forward spot ex (lo, hi) fit sd ts_ns" using fm unfolding fit_message_def qs_def [symmetric] ks by blast
  have e: "ev_expiry e = ex" "ev_forward e = forward" "ev_spot_at_fit e = spot" "ev_alpha e = sf_alpha fit" "ev_rho e = sf_rho fit"
    "ev_nu e = sf_nu fit" "ev_rmse e = sf_rmse fit" "ev_n_points e = sf_n_points fit" "ev_min_k e = lo" "ev_max_k e = hi"
    using fit(3) by (simp_all add: fitted_def)
  have spot: "state_underlying_price (fv_market env prd) prd = Some spot" "\<not> PARITY_VS_SPOT_LIMIT_USD < \<bar>forward - spot\<bar>"
    using snapshot_rows(1,3) chain unfolding env_chain_def by blast+
  obtain keys ts where keys: "distinct keys" "set keys \<subseteq> {k \<in> set (fv_keys env prd). ok_product k = prd}"
    "map (ms_options (fv_market env prd)) keys = map Some ts" and ts: "map ot_strike ts = map cq_strike qs"
    "list_all2 (quoted_as lm (fv_now env prd) forward) ts (map cq_iv qs)"
    "\<forall>t\<in>set ts. fv_format env (ot_expiry t) = ex \<and> out_of_money forward t \<and> live_book t \<and> \<not> is_nan (ot_strike t)"
    using chain_options [OF chain qs_def assms(2)] by blast
  have sabr: "sf_n_points fit = length qs" "\<not> sf_alpha fit < lit (1 / 10000) \<and>
      \<not> fmax (lit 10) (alpha_seed lm forward (map ot_strike ts) (map cq_iv qs) (lit (1 / 2)) * lit 5) < sf_alpha fit \<and>
      \<not> sf_rho fit < - lit (99 / 100) \<and> \<not> lit (99 / 100) < sf_rho fit \<and>
      \<not> sf_nu fit < lit (1 / 10000) \<and> \<not> lit 5 < sf_nu fit \<and> \<not> lit (5 / 100) < sf_rmse fit"
    using sabr_fit_facts [OF fit(1) [unfolded surface_calibration_def]] length_map [of cq_strike qs] unfolding ts(1) by auto
  have len: "length ts = length qs" using arg_cong [OF ts(1), of length] by simp
  have "ts \<noteq> []" using len fit(2) by auto
  then obtain t where "t \<in> set ts" by (cases ts) auto
  with ts(3) have "out_of_money forward t" by blast
  then have "\<not> is_nan forward" by (cases "ot_right t") (auto simp: out_of_money_def f64_ord)
  moreover have "\<not> forward \<le> 0" using fit(1) by (auto simp: surface_calibration_def calibrate_sabr_def Let_def)
  moreover have "\<not> is_nan 0" by code_simp
  ultimately have pos: "0 < forward" by (simp add: f64_not_le)
  have range: "lo \<in> ot_strike ` set ts" "hi \<in> ot_strike ` set ts" "\<forall>t\<in>set ts. lo \<le> ot_strike t \<and> ot_strike t \<le> hi"
    using strike_span_range [of "map ot_strike ts" lo hi] \<open>ts \<noteq> []\<close> ts(3) ks unfolding ts(1) [symmetric] by auto
  show ?thesis unfolding e
    by (rule bexI [OF _ prd(1)], rule exI [of _ keys], rule exI [of _ ts], rule exI [of _ "map cq_iv qs"])
      (intro conjI keys ts(2) spot pos range(1,2) sabr(2) [THEN conjunct1], use sabr ts len fit(2) range(3) in simp_all)
qed

subsection \<open>What the trader holds\<close>

definition surface_of :: "surface_entry \<Rightarrow> vol_surface_entry \<Rightarrow> bool" where
  "surface_of en v \<longleftrightarrow> vs_forward v = FitForward (se_forward en) \<and> vp_model (vs_params v) = ''sabr'' \<and>
     vp_alpha (vs_params v) = Some (se_alpha en) \<and> vp_beta (vs_params v) = Some (se_beta en) \<and>
     vp_rho (vs_params v) = Some (se_rho en) \<and> vp_nu (vs_params v) = Some (se_nu en)"

text \<open>
  What a stretch of the fitter's work for the product \<open>prd\<close> does to its cache and, once the trader has heard
  the new messages, to the surfaces there: each expiry is left alone by both or the same on both.
\<close>

definition followed :: "string \<Rightarrow> surface_state \<Rightarrow> trader \<Rightarrow> surface_state \<Rightarrow> trader \<Rightarrow> bool" where
  "followed prd S w S' w' \<longleftrightarrow>
     (\<exists>ms. ss_sent S' = ss_sent S @ ms \<and> w' = fold hear_surface ms w) \<and>
     (\<forall>p. p \<noteq> prd \<longrightarrow> (\<forall>ex c. ss_cache S' (p, ex, c) = ss_cache S (p, ex, c))) \<and>
     (\<forall>ex. (\<forall>c. ss_cache S' (prd, ex, c) = ss_cache S (prd, ex, c) \<and>
               vol_surfaces (tr_shared w') (ex, c) = vol_surfaces (tr_shared w) (ex, c)) \<or>
           (\<forall>c\<in>{CHR ''C'', CHR ''P''}. \<exists>en v. ss_cache S' (prd, ex, c) = Some en \<and>
               vol_surfaces (tr_shared w') (ex, c) = Some v \<and> surface_of en v))"

lemma followed_refl: "followed prd S w S w"
  by (simp add: followed_def)

lemma followed_trans:
  assumes "followed prd S w S' w'" "followed prd S' w' S'' w''"
  shows "followed prd S w S'' w''"
proof -
  have "\<exists>ms. ss_sent S'' = ss_sent S @ ms \<and> w'' = fold hear_surface ms w"
    using assms unfolding followed_def by (metis append_assoc fold_append o_apply)
  moreover have "\<forall>p. p \<noteq> prd \<longrightarrow> (\<forall>ex c. ss_cache S'' (p, ex, c) = ss_cache S (p, ex, c))"
    using assms by (simp add: followed_def)
  moreover have "(\<forall>c. ss_cache S'' (prd, ex, c) = ss_cache S (prd, ex, c) \<and>
               vol_surfaces (tr_shared w'') (ex, c) = vol_surfaces (tr_shared w) (ex, c)) \<or>
           (\<forall>c\<in>{CHR ''C'', CHR ''P''}. \<exists>en v. ss_cache S'' (prd, ex, c) = Some en \<and>
               vol_surfaces (tr_shared w'') (ex, c) = Some v \<and> surface_of en v)" for ex
  proof -
    from assms(2) consider "\<forall>c. ss_cache S'' (prd, ex, c) = ss_cache S' (prd, ex, c) \<and>
               vol_surfaces (tr_shared w'') (ex, c) = vol_surfaces (tr_shared w') (ex, c)"
      | "\<forall>c\<in>{CHR ''C'', CHR ''P''}. \<exists>en v. ss_cache S'' (prd, ex, c) = Some en \<and>
               vol_surfaces (tr_shared w'') (ex, c) = Some v \<and> surface_of en v" unfolding followed_def by blast
    then show ?thesis
    proof cases
      case 1
      with assms(1) show ?thesis by (simp add: followed_def)
    qed blast
  qed
  ultimately show ?thesis unfolding followed_def by blast
qed

lemma followed_expiry: "\<exists>w'. followed prd S w (fit_expiry lm clock prd forward spot (ex, qs) S) w'"
proof -
  let ?S = "fit_expiry lm clock prd forward spot (ex, qs) S"
  have quiet: "\<exists>w'. followed prd S w (S\<lparr>ss_sent := ss_sent S @ [Failed f]\<rparr>) w'" for f
    by (intro exI [of _ w]) (simp add: followed_def exI [of _ "[Failed f]"])
  consider "length qs < 3" | "3 \<le> length qs" "\<not> 0 < cq_tte (hd qs)"
    | "3 \<le> length qs" "0 < cq_tte (hd qs)" "surface_calibration lm forward (cq_tte (hd qs)) qs = None"
    | fit where "3 \<le> length qs" "0 < cq_tte (hd qs)" "surface_calibration lm forward (cq_tte (hd qs)) qs = Some fit" by fastforce
  then show ?thesis
  proof cases
    case 1
    with quiet show ?thesis by (simp add: fit_expiry_def emit_surface_def failed_def)
  next
    case 2
    with followed_refl show ?thesis by (auto simp: fit_expiry_def Let_def)
  next
    case 3
    with quiet show ?thesis by (simp add: fit_expiry_def emit_surface_def failed_def Let_def)
  next
    case (4 fit)
    let ?m = "\<lambda>sd. fitted forward spot ex (strike_span (map cq_strike qs)) fit sd"
    let ?ms = "[?m ''C'' (clock (length (ss_sent S))), ?m ''P'' (clock (Suc (length (ss_sent S))))]"
    let ?w = "fold hear_surface ?ms w"
    have sent: "ss_sent ?S = ss_sent S @ ?ms" using 4 by (simp add: fit_expiry_def emit_surface_def Let_def)
    have cache: "ss_cache ?S (p, ex', c) = (if p = prd \<and> ex' = ex \<and> c \<in> {CHR ''C'', CHR ''P''}
        then Some \<lparr>se_forward = forward, se_tte = cq_tte (hd qs), se_alpha = sf_alpha fit, se_beta = sf_beta fit,
                   se_rho = sf_rho fit, se_nu = sf_nu fit\<rparr> else ss_cache S (p, ex', c))" for p ex' c
      using 4 by (auto simp: fit_expiry_def emit_surface_def Let_def)
    have vols: "ex' \<noteq> ex \<Longrightarrow> vol_surfaces (tr_shared ?w) (ex', c) = vol_surfaces (tr_shared w) (ex', c)" for ex' c
      by (simp add: fitted_def on_vol_surface_def surface_msg_def Let_def)
    have vol: "\<exists>v. vol_surfaces (tr_shared ?w) (ex, c) = Some v \<and> surface_of \<lparr>se_forward = forward, se_tte = cq_tte (hd qs),
        se_alpha = sf_alpha fit, se_beta = sf_beta fit, se_rho = sf_rho fit, se_nu = sf_nu fit\<rparr> v" if "c \<in> {CHR ''C'', CHR ''P''}" for c
      using that by (auto simp: fitted_def on_vol_surface_def surface_msg_def surface_of_def Let_def to_ascii_uppercase_def)
    have "followed prd S w ?S ?w" unfolding followed_def
    proof (intro conjI allI impI)
      show "\<exists>ms. ss_sent ?S = ss_sent S @ ms \<and> ?w = fold hear_surface ms w" using sent by blast
      show "ss_cache ?S (p, ex', c) = ss_cache S (p, ex', c)" if "p \<noteq> prd" for p ex' c using that by (simp add: cache)
    next
      fix ex'
      show "(\<forall>c. ss_cache ?S (prd, ex', c) = ss_cache S (prd, ex', c) \<and>
               vol_surfaces (tr_shared ?w) (ex', c) = vol_surfaces (tr_shared w) (ex', c)) \<or>
           (\<forall>c\<in>{CHR ''C'', CHR ''P''}. \<exists>en v. ss_cache ?S (prd, ex', c) = Some en \<and>
               vol_surfaces (tr_shared ?w) (ex', c) = Some v \<and> surface_of en v)"
        using vols vol by (cases "ex' = ex") (simp_all add: cache)
    qed
    then show ?thesis by blast
  qed
qed

lemma followed_product: "\<exists>w'. followed prd S w (fit_product lm env prd S) w'"
proof (cases "env_chain lm env prd")
  case None
  with followed_refl show ?thesis by (auto simp: fit_product_def)
next
  case (Some c)
  obtain forward spot rows where c: "c = (forward, spot, rows)" by (cases c) auto
  have "\<exists>w'. followed prd S w (fold (fit_expiry lm (fv_clock env) prd forward spot) gs S) w'" for gs
  proof (induction gs arbitrary: S w)
    case Nil
    with followed_refl show ?case by auto
  next
    case (Cons g gs)
    from followed_expiry [of prd S w lm "fv_clock env" forward spot "fst g" "snd g"] Cons.IH followed_trans show ?case by fastforce
  qed
  then show ?thesis by (simp add: fit_product_def Some c)
qed

text \<open>
  \<^bold>\<open>C22.\<close> When the trader has heard what the fitter published for a product, then for every expiry either
  nothing changed, in the cache of the broker and at the trader, or both sides of the expiry are in the
  cache and a lookup of the trader finds for each of them the same model with the same forward and
  parameters.  The caches of other products are left alone; the surfaces of the trader, which have no
  product in their key, are not.
\<close>

theorem trader_follows_fitter:
  assumes "S' = fit_product lm env prd S" "w' = fold hear_surface (drop (length (ss_sent S)) (ss_sent S')) w"
  shows "(\<forall>ex. (\<forall>c. ss_cache S' (prd, ex, c) = ss_cache S (prd, ex, c) \<and>
                   vol_surfaces (tr_shared w') (ex, c) = vol_surfaces (tr_shared w) (ex, c)) \<or>
               (\<forall>c\<in>{CHR ''C'', CHR ''P''}. \<exists>en v. ss_cache S' (prd, ex, c) = Some en \<and>
                   lookup_vol_surface (tr_shared w') ex c = Some v \<and> surface_of en v)) \<and>
    (\<forall>p. p \<noteq> prd \<longrightarrow> (\<forall>ex c. ss_cache S' (p, ex, c) = ss_cache S (p, ex, c)))"
proof -
  obtain w1 where w1: "followed prd S w S' w1" using followed_product assms(1) by blast
  then have "w1 = w'" by (auto simp: followed_def assms(2))
  with w1 have f: "followed prd S w S' w'" by simp
  have found: "lookup_vol_surface (tr_shared w') ex c = Some v" if "vol_surfaces (tr_shared w') (ex, c) = Some v" for ex c v
    using that by (simp add: lookup_vol_surface_def)
  show ?thesis
  proof
    show "\<forall>ex. (\<forall>c. ss_cache S' (prd, ex, c) = ss_cache S (prd, ex, c) \<and>
                   vol_surfaces (tr_shared w') (ex, c) = vol_surfaces (tr_shared w) (ex, c)) \<or>
               (\<forall>c\<in>{CHR ''C'', CHR ''P''}. \<exists>en v. ss_cache S' (prd, ex, c) = Some en \<and>
                   lookup_vol_surface (tr_shared w') ex c = Some v \<and> surface_of en v)"
      using f found unfolding followed_def by (metis (no_types, lifting))
    show "\<forall>p. p \<noteq> prd \<longrightarrow> (\<forall>ex c. ss_cache S' (p, ex, c) = ss_cache S (p, ex, c))" using f unfolding followed_def by blast
  qed
qed

text \<open>A mathematics library in which a price of three is a volatility in the middle of the search interval.\<close>

definition step_libm :: pricing_libm where
  "step_libm = \<lparr>exp_fn = \<lambda>_. lit 1, ln_fn = \<lambda>_. 0, sqrt_fn = \<lambda>_. lit (1 / 32), powf_fn = \<lambda>x y. x,
     norm_cdf = (\<lambda>x. if x < lit (1281 / 32) then 0 else if x < lit 60 then lit (1 / 2) else if x < lit (799 / 10) then 0 else lit 1),
     powi_fn = \<lambda>x n. x\<rparr>"

definition demo_mid :: f64 where "demo_mid = (lit (1 / 100) + lit 5) / lit 2"

definition demo_cdfs :: "f64 \<Rightarrow> f64 \<times> f64" where
  "demo_cdfs s = (let d1 = (0 + lit (1 / 2) * s * s * lit 1) / (s * lit (1 / 32)); d2 = d1 - s * lit (1 / 32)
     in (norm_cdf step_libm d1, norm_cdf step_libm d2))"

text \<open>All evaluations of this example in one place.\<close>

lemma demo_values:
  "demo_cdfs (lit (1 / 100)) = (0, 0)" "demo_cdfs demo_mid = (lit (1 / 2), 0)" "demo_cdfs (lit 5) = (lit 1, 0)"
  "\<not> lit 1 \<le> 0" "\<not> lit 6 \<le> 0" "\<not> lit 3 \<le> 0" "\<not> lit 5 \<le> 0" "\<not> lit (1 / 100) \<le> 0" "\<not> demo_mid \<le> 0"
  "lit 1 * (lit 6 * 0 - 0) - lit 3 = - lit 3" "lit 1 * (lit 6 * lit 1 - 0) - lit 3 = lit 3" "lit 1 * (lit 6 * lit (1 / 2) - 0) - lit 3 = 0"
  "\<not> lit 0 \<le> - lit 3 * lit 3" "\<not> num_eq (lit 3) (lit 0)" "num_eq 0 (lit 0)" "\<not> - lit 3 * 0 < lit 0" "\<bar>0 :: f64\<bar> < \<bar>lit 3\<bar>"
  "\<not> \<bar>- lit 3\<bar> < \<bar>lit 3\<bar>"
  "\<not> \<bar>lit 5 - lit (1 / 100)\<bar> < lit (1 / 10 ^ 6)" "\<bar>lit 5 - lit (1 / 100)\<bar> / lit 2 \<le> \<bar>demo_mid - lit 5\<bar>"
  "interpolate \<lparr>br_a = lit (1 / 100), br_b = lit 5, br_c = lit (1 / 100), br_d = lit (1 / 100), br_fa = - lit 3, br_fb = lit 3,
     br_fc = - lit 3, br_mflag = True\<rparr> = demo_mid"
  "(lit 1 + lit 5) / lit 2 = lit 3" "\<not> (lit 5 \<le> lit 1)" "lit (1 / 1000) < demo_mid" "demo_mid < lit 5"
  "surface_tte ((72000 - 31557600) * 1000000000) 0 = Some (lit 1)" "0 < lit 6" "0 < lit 1" "\<not> lit (5 / 100) < lit (1 / 32)"
  "\<forall>k\<in>{lit 6, lit 7, lit 8}. is_finite k \<and> \<not> k \<le> 0 \<and> lit 6 \<le> k \<and> \<not> lit 3 < lit 1 * intrinsic True (lit 6) k - lit (1 / 10 ^ 10)"
  "is_finite 0" "val 0 = 0" "\<not> sign_neg 0" "round_f64 False 0 = 0" "\<not> is_nan 0" "fkey 0 = 0"
  by code_simp+

lemmas demo_cdf = demo_values(1-3) and demo_numbers = demo_values(4-18) and demo_bracket = demo_values(19-21)
  and demo_zero = demo_values(31-36)

lemma demo_next: "next_point lit (lit (1 / 10 ^ 6)) \<lparr>br_a = lit (1 / 100), br_b = lit 5, br_c = lit (1 / 100), br_d = lit (1 / 100),
    br_fa = - lit 3, br_fb = lit 3, br_fc = - lit 3, br_mflag = True\<rparr> = (True, demo_mid)"
  using demo_bracket(2,3) by (simp add: next_point_def Let_def flip: demo_mid_def)

lemma demo_brent:
  assumes "f (lit (1 / 100)) = - lit 3" "f (lit 5) = lit 3" "f demo_mid = 0"
  shows "brent lit f (lit (1 / 100)) (lit 5) (lit (1 / 10 ^ 6)) 100 = Some demo_mid"
proof -
  let ?st = "\<lparr>br_a = lit (1 / 100), br_b = lit 5, br_c = lit (1 / 100), br_d = lit (1 / 100), br_fa = - lit 3, br_fb = lit 3,
    br_fc = - lit 3, br_mflag = True\<rparr>"
  have start: "brent_start f (lit (1 / 100)) (lit 5) = ?st"
    using demo_numbers(15) by (simp add: brent_start_def swap_if_better_def Let_def assms)
  have step: "br_b (brent_step lit f (lit (1 / 10 ^ 6)) ?st) = demo_mid \<and> br_fb (brent_step lit f (lit (1 / 10 ^ 6)) ?st) = 0"
    using demo_numbers(13,14) unfolding brent_step_def demo_next Let_def prod.case assms(3)
    by (simp add: swap_if_better_def)
  have "brent_loop lit f (lit (1 / 10 ^ 6)) (Suc n) (brent_step lit f (lit (1 / 10 ^ 6)) ?st) = Some demo_mid" for n
    using step demo_numbers(12) by simp
  from this [of 98] have "brent_loop lit f (lit (1 / 10 ^ 6)) (Suc (Suc 98)) ?st = Some demo_mid"
    unfolding brent_loop.simps(2) [of _ _ _ "Suc 98"] using demo_bracket(1) demo_numbers(11) by simp
  then show ?thesis unfolding brent_def start assms(1,2) using demo_numbers(10) by (simp add: numeral_eq_Suc)
qed

lemma demo_price:
  assumes "is_finite k" "\<not> k \<le> 0" "\<not> s \<le> 0" "demo_cdfs s = (n, 0)"
  shows "black76_price step_libm (lit 6) k (lit 1) s 0 ''C'' = lit 1 * (lit 6 * n - 0)"
proof -
  note z = demo_zero
  have "\<not> sign_neg k" using assms(1,2) z(5,6) by (auto simp: f64_ord fkey_def finite_not_nan mag_def)
  then have "k * 0 = 0" using fmul_finite [OF assms(1) z(1)] z by simp
  moreover have "is_call_text ''C''" by (simp add: is_call_text_def to_ascii_uppercase_def)
  moreover have "norm_cdf step_libm ((0 + lit (1 / 2) * s * s * lit 1) / (s * lit (1 / 32))) = n"
    "norm_cdf step_libm ((0 + lit (1 / 2) * s * s * lit 1) / (s * lit (1 / 32)) - s * lit (1 / 32)) = 0"
    using assms(4) by (simp_all add: demo_cdfs_def Let_def)
  moreover have "ln_fn step_libm x = 0" "sqrt_fn step_libm x = lit (1 / 32)" "exp_fn step_libm x = lit 1" for x by (simp_all add: step_libm_def)
  ultimately show ?thesis using assms(2,3) demo_numbers(1,2) by (simp add: black76_price_def black76_price_inner_def Let_def)
qed

lemma demo_vol:
  assumes "is_finite k" "\<not> k \<le> 0" "\<not> lit 3 < lit 1 * intrinsic True (lit 6) k - lit (1 / 10 ^ 10)"
  shows "implied_vol step_libm (lit 3) (lit 6) k (lit 1) 0 ''C'' = Some demo_mid"
proof -
  have "is_call_text ''C''" by (simp add: is_call_text_def to_ascii_uppercase_def)
  moreover have "exp_fn step_libm x = lit 1" for x by (simp add: step_libm_def)
  moreover have "brent lit (\<lambda>s. black76_price step_libm (lit 6) k (lit 1) s 0 ''C'' - lit 3) (lit (1 / 100)) (lit 5) (lit (1 / 10 ^ 6)) 100 = Some demo_mid"
    by (rule demo_brent) (simp_all only: demo_price [OF assms(1,2) demo_numbers(5) demo_cdf(1)] demo_price [OF assms(1,2) demo_numbers(4) demo_cdf(3)]
      demo_price [OF assms(1,2) demo_numbers(6) demo_cdf(2)] demo_numbers(7-9))
  ultimately show ?thesis unfolding implied_vol_def using demo_numbers(1,3) assms(3) by simp
qed

definition demo_quote :: "f64 \<Rightarrow> option_tick" where
  "demo_quote k = (new_option_tick k 0 Call)\<lparr>ot_bid := lit 1, ot_ask := lit 5, ot_bid_size := 1, ot_ask_size := 1\<rparr>"

definition demo_chain_key :: "i64 \<Rightarrow> option_key" where
  "demo_chain_key k = \<lparr>ok_product = ''HG'', ok_strike = k, ok_expiry = 0, ok_right = Call\<rparr>"

definition demo_fitter :: fitter_env where
  "demo_fitter = \<lparr>fv_market = (\<lambda>_. new_market\<lparr>ms_underlying := [''HG'' \<mapsto> lit 6],
       ms_options := [demo_chain_key 60000 \<mapsto> demo_quote (lit 6), demo_chain_key 70000 \<mapsto> demo_quote (lit 7),
         demo_chain_key 80000 \<mapsto> demo_quote (lit 8)]\<rparr>),
     fv_now = (\<lambda>_. (72000 - 31557600) * 1000000000), fv_keys = (\<lambda>_. map demo_chain_key [60000, 70000, 80000]),
     fv_parity_order = (\<lambda>_. []), fv_expiries = (\<lambda>_. [''19700101'']), fv_format = (\<lambda>_. ''19700101''), fv_clock = (\<lambda>_. 0)\<rparr>"

definition demo_point :: "f64 \<Rightarrow> chain_quote" where
  "demo_point k = \<lparr>cq_strike = k, cq_iv = demo_mid, cq_tte = lit 1\<rparr>"

lemma demo_row:
  assumes "k \<in> {lit 6, lit 7, lit 8}"
  shows "chain_row step_libm ((72000 - 31557600) * 1000000000) (lit 6) (demo_quote k) = Some (0, demo_point k)"
proof -
  note k = demo_values(30) [rule_format, OF assms] and n = demo_values(22,24-26)
  have n2: "\<not> (lit 1 \<le> 0 \<or> lit 5 \<le> 0 \<or> lit 5 \<le> lit 1)" using demo_numbers(1,4) demo_values(23) by simp
  have "out_of_money (lit 6) (demo_quote k)" "live_book (demo_quote k)"
    using k n2 by (simp_all add: out_of_money_def live_book_def demo_quote_def new_option_tick_def)
  then show ?thesis using demo_vol k n demo_numbers(3)
    by (simp add: chain_row_def demo_quote_def new_option_tick_def Let_def demo_point_def)
qed

lemma demo_chain: "env_chain step_libm demo_fitter ''HG'' = Some (lit 6, lit 6, map (\<lambda>k. (0, demo_point k)) [lit 6, lit 7, lit 8])"
proof -
  have spot: "state_underlying_price (fv_market demo_fitter p) ''HG'' = Some (lit 6)" for p
    using demo_values(27) by (simp add: state_underlying_price_def positive_def demo_fitter_def)
  have opts: "options_for_product (fv_keys demo_fitter p) (fv_market demo_fitter p) ''HG'' = map demo_quote [lit 6, lit 7, lit 8]" for p
    by (simp add: options_for_product_def demo_fitter_def demo_chain_key_def List.map_filter_def)
  have "parity_forward (fv_parity_order demo_fitter p) (lit 6) os = lit 6" for p os
    by (simp add: parity_forward_def demo_fitter_def List.map_filter_def)
  moreover have "List.map_filter (chain_row step_libm (fv_now demo_fitter p) (lit 6)) (map demo_quote [lit 6, lit 7, lit 8]) =
      map (\<lambda>k. (0, demo_point k)) [lit 6, lit 7, lit 8]" for p
    using demo_row by (simp add: demo_fitter_def List.map_filter_def)
  ultimately show ?thesis using demo_numbers(2) by (simp add: env_chain_def snapshot_chain_def spot opts Let_def)
qed

lemma demo_fit: "\<exists>fit. surface_calibration step_libm (lit 6) (lit 1) (map demo_point [lit 6, lit 7, lit 8]) = Some fit"
proof -
  have "\<not> lit (5 / 100) < rms step_libm r" for r using demo_values(29) by (simp add: rms_def step_libm_def)
  with calibrate_sabr_eq [of "map cq_strike (map demo_point [lit 6, lit 7, lit 8])" "map cq_iv (map demo_point [lit 6, lit 7, lit 8])" "lit 1" "lit 6"
      step_libm "Some (map (vega_weight step_libm (lit 6) (lit 1)) (map demo_point [lit 6, lit 7, lit 8]))" "lit (1 / 2)" "lit (5 / 100)"]
  show ?thesis unfolding surface_calibration_def using demo_numbers(1,2) by auto
qed

lemma demo_published:
  "\<exists>e m en. ss_sent (fit_product step_libm demo_fitter ''HG'' S) = ss_sent S @ [Fitted e, m] \<and> ev_n_points e = 3 \<and>
     ss_cache (fit_product step_libm demo_fitter ''HG'' S) (''HG'', ''19700101'', CHR ''P'') = Some en"
proof -
  let ?qs = "map demo_point [lit 6, lit 7, lit 8]"
  obtain fit where fit: "surface_calibration step_libm (lit 6) (lit 1) ?qs = Some fit" using demo_fit by blast
  have n: "sf_n_points fit = 3" using sabr_fit_facts [OF fit [unfolded surface_calibration_def]] by simp
  have groups: "expiry_groups (fv_format demo_fitter) (fv_expiries demo_fitter p) (map (\<lambda>k. (0, demo_point k)) [lit 6, lit 7, lit 8]) =
      [(''19700101'', ?qs)]" for p by (simp add: expiry_groups_def demo_fitter_def)
  note demo_values(28)
  moreover have "cq_tte (hd ?qs) = lit 1" "\<not> length ?qs < 3" by (simp_all add: demo_point_def)
  ultimately have "\<exists>en. ss_sent (fit_expiry step_libm clock ''HG'' (lit 6) (lit 6) (''19700101'', ?qs) S) = ss_sent S @
      [fitted (lit 6) (lit 6) ''19700101'' (strike_span (map cq_strike ?qs)) fit ''C'' (clock (length (ss_sent S))),
       fitted (lit 6) (lit 6) ''19700101'' (strike_span (map cq_strike ?qs)) fit ''P'' (clock (Suc (length (ss_sent S))))] \<and>
      ss_cache (fit_expiry step_libm clock ''HG'' (lit 6) (lit 6) (''19700101'', ?qs) S) (''HG'', ''19700101'', CHR ''P'') = Some en" for clock
    using fit by (simp add: fit_expiry_def emit_surface_def Let_def del: list.map)
  moreover have "fit_product step_libm demo_fitter ''HG'' S = fit_expiry step_libm (fv_clock demo_fitter) ''HG'' (lit 6) (lit 6) (''19700101'', ?qs) S"
    unfolding fit_product_def demo_chain option.case prod.case groups by simp
  ultimately show ?thesis using n by (simp add: fitted_def)
qed

theorem published_surface_sound_witness:
  "\<exists>e. Fitted e \<in> set (ss_sent (fit_and_publish step_libm demo_fitter [''HG''] \<lparr>ss_cache = Map.empty, ss_sent = []\<rparr>)) \<and>
     ev_n_points e = 3 \<and> 0 < ev_forward e \<and> \<not> lit (5 / 100) < ev_rmse e"
proof -
  let ?S = "\<lparr>ss_cache = Map.empty, ss_sent = []\<rparr>"
  from demo_published [of ?S] obtain e m where e: "ss_sent (fit_and_publish step_libm demo_fitter [''HG''] ?S) = [Fitted e, m]" "ev_n_points e = 3"
    by (auto simp: fit_and_publish_def)
  then have "Fitted e \<in> set (drop (length (ss_sent ?S)) (ss_sent (fit_and_publish step_libm demo_fitter [''HG''] ?S)))" by simp
  moreover have "distinct (fv_keys demo_fitter p)" for p by (simp add: demo_fitter_def demo_chain_key_def)
  ultimately have "0 < ev_forward e \<and> \<not> lit (5 / 100) < ev_rmse e" using published_surface_sound [of e ?S] by blast
  with e show ?thesis by auto
qed

theorem trader_follows_fitter_witness:
  "\<exists>en v. ss_cache (fit_product step_libm demo_fitter ''HG'' \<lparr>ss_cache = Map.empty, ss_sent = []\<rparr>) (''HG'', ''19700101'', CHR ''P'') = Some en \<and>
     lookup_vol_surface (tr_shared (fold hear_surface (ss_sent (fit_product step_libm demo_fitter ''HG'' \<lparr>ss_cache = Map.empty, ss_sent = []\<rparr>)) demo_world))
       ''19700101'' CHR ''P'' = Some v \<and> surface_of en v"
proof -
  let ?S = "\<lparr>ss_cache = Map.empty, ss_sent = []\<rparr>"
  let ?S' = "fit_product step_libm demo_fitter ''HG'' ?S"
  let ?w = "fold hear_surface (drop (length (ss_sent ?S)) (ss_sent ?S')) demo_world"
  have "ss_cache ?S' (''HG'', ''19700101'', CHR ''P'') \<noteq> ss_cache ?S (''HG'', ''19700101'', CHR ''P'')" using demo_published [of ?S] by auto
  with trader_follows_fitter [OF refl refl, of step_libm demo_fitter "''HG''" ?S demo_world]
  have "\<exists>en v. ss_cache ?S' (''HG'', ''19700101'', CHR ''P'') = Some en \<and> lookup_vol_surface (tr_shared ?w) ''19700101'' CHR ''P'' = Some v \<and> surface_of en v"
    by (meson insertI1 insertI2)
  then show ?thesis by simp
qed

end
