(* ===== verification/Broker_Subscriptions.thy ===== *)
theory Broker_Subscriptions
  imports Broker_Fills Span Vol_Surface
begin

section \<open>Market data subscriptions\<close>

text \<open>
  Model of \<^verbatim>\<open>rust/corsair_broker/src/subscriptions.rs\<close> and of the validation of the configuration it relies on: which
  strikes are subscribed at start and when the window moves, how a qualified option becomes known to the rest
  of the daemon, and the rotation of the few depth subscriptions the gateway grants.  Requests that wait for
  the gateway are split at the wait, with the answer as an argument.
\<close>

subsection \<open>Configuration\<close>

record product_config =
  pg_name :: string
  pg_multiplier :: f64
  pg_default_iv :: f64
  pg_quote_range_low :: i32
  pg_quote_range_high :: i32
  pg_strike_range_low :: "i32 option"
  pg_strike_range_high :: "i32 option"
  pg_strike_increment :: f64
  pg_enabled :: bool

text \<open>The parts of the configuration that are validated.\<close>

record daemon_config =
  dc_capital :: f64
  dc_products :: "product_config list"
  dc_broker_kind :: string
  dc_has_ibkr :: bool

datatype config_error = CapitalNotPositive | NoProducts | NoneEnabled | UnknownBroker | MissingIbkr | BadMultiplier string

definition validate :: "daemon_config \<Rightarrow> config_error option" where
  "validate cfg =
     (if dc_capital cfg \<le> 0 then Some CapitalNotPositive
      else if dc_products cfg = [] then Some NoProducts
      else if \<not> list_ex pg_enabled (dc_products cfg) then Some NoneEnabled
      else if dc_broker_kind cfg \<noteq> ''ibkr'' \<and> dc_broker_kind cfg \<noteq> ''ilink'' then Some UnknownBroker
      else if dc_broker_kind cfg = ''ibkr'' \<and> \<not> dc_has_ibkr cfg then Some MissingIbkr
      else map_option (BadMultiplier \<circ> pg_name) (List.find (\<lambda>p. pg_multiplier p \<le> 0) (dc_products cfg)))"

subsection \<open>Strikes\<close>

definition round_to_increment :: "f64 \<Rightarrow> f64 \<Rightarrow> f64" where
  "round_to_increment v inc = (if inc \<le> 0 then v else fround (v / inc) * inc)"

text \<open>The loop over strikes need not end; \<open>None\<close> is the run that does not.\<close>

partial_function (option) strike_loop :: "f64 \<Rightarrow> f64 \<Rightarrow> f64 \<Rightarrow> f64 list option" where
  "strike_loop inc limit k =
     (if k \<le> limit
      then Option.bind (strike_loop inc limit (k + inc)) (\<lambda>ks. Some (round_to_increment k inc # ks))
      else Some [])"

definition range_low :: "product_config \<Rightarrow> f64" where
  "range_low p = i32_as_f64 (case pg_strike_range_low p of Some n \<Rightarrow> n | None \<Rightarrow> pg_quote_range_low p) * pg_strike_increment p"

definition range_high :: "product_config \<Rightarrow> f64" where
  "range_high p = i32_as_f64 (case pg_strike_range_high p of Some n \<Rightarrow> n | None \<Rightarrow> pg_quote_range_high p) * pg_strike_increment p"

definition generate_strikes :: "f64 \<Rightarrow> product_config \<Rightarrow> f64 list option" where
  "generate_strikes atm p =
     strike_loop (pg_strike_increment p) (atm + range_high p + lit (1 / 10 ^ 9)) (atm + range_low p)"

subsection \<open>Options\<close>

definition resolve_underlying :: "broker_error + contract list \<Rightarrow> (broker_error option) + contract" where
  "resolve_underlying result =
     (case result of
        Inl e \<Rightarrow> Inl (Some e)
      | Inr chain \<Rightarrow> (case sort_key c_expiry chain of [] \<Rightarrow> Inl None | c # _ \<Rightarrow> Inr c))"

definition pick_option_expiry :: "contract \<Rightarrow> naive_date" where
  "pick_option_expiry u = c_expiry u - 1"

definition option_symbol_for :: "product_config \<Rightarrow> string" where
  "option_symbol_for p = (if pg_name p = ''HG'' then ''HXE'' else pg_name p)"

definition leg_query :: "product_config \<Rightarrow> f64 \<Rightarrow> naive_date \<Rightarrow> right \<Rightarrow> option_query" where
  "leg_query p k ex r =
     \<lparr>oq_symbol = option_symbol_for p, oq_expiry = ex, oq_strike = k, oq_right = r, oq_exchange = Comex,
      oq_currency = Usd, oq_multiplier = pg_multiplier p\<rparr>"

text \<open>The legs subscribed at start: the grid of the front expiry, and those of the positions.\<close>

definition planned_legs :: "naive_date \<Rightarrow> f64 list \<Rightarrow> string \<Rightarrow> position list \<Rightarrow> (naive_date \<times> u64 \<times> right) set" where
  "planned_legs front strikes symbol ps =
     {(front, to_bits k, r) | k r. k \<in> set strikes \<and> r \<in> {Call, Put}} \<union>
     (\<lambda>p. (p_expiry p, to_bits (p_strike p), p_right p)) ` {p \<in> set ps. p_product p = symbol}"

record subscriber =
  sb_runtime :: runtime
  qualified_contracts :: "u64 \<rightharpoonup> contract"

text \<open>\<^verbatim>\<open>qualify_and_subscribe\<close> after the answer of the gateway to the query.\<close>

definition qualify_and_subscribe ::
  "fmt \<Rightarrow> chrono \<Rightarrow> bool \<Rightarrow> product_config \<Rightarrow> f64 \<Rightarrow> naive_date \<Rightarrow> right \<Rightarrow> broker_error + contract \<Rightarrow> subscriber \<Rightarrow>
     (broker_error + unit) \<times> subscriber" where
  "qualify_and_subscribe F D write_ok p k ex r answer S =
     (case answer of
        Inl e \<Rightarrow> (Inl e, S)
      | Inr q \<Rightarrow>
          let R = sb_runtime S;
              R1 = R\<lparr>rt_market := register_option (pg_name p) k ex r (instrument_id q) (rt_market R),
                     contract_by_key := (contract_by_key R)((trader_strike_key k, format_date D ex, right_as_char r) \<mapsto> q)\<rparr>;
              (res, B) = subscribe_ticks F D write_ok \<lparr>sub_instrument = instrument_id q, sub_contract = Some q\<rparr> (rt_native R1)
          in (map_sum id (\<lambda>_. ()) res,
              S\<lparr>sb_runtime := R1\<lparr>rt_native := B\<rparr>,
                qualified_contracts := (qualified_contracts S)(instrument_id q \<mapsto> q)\<rparr>))"

text \<open>The underlying and the hedge contract of a product.\<close>

definition subscribe_underlying ::
  "fmt \<Rightarrow> chrono \<Rightarrow> bool \<Rightarrow> string \<Rightarrow> contract \<Rightarrow> runtime \<Rightarrow> (broker_error + unit) \<times> runtime" where
  "subscribe_underlying F D write_ok symbol u R =
     (let R1 = R\<lparr>rt_market := register_underlying symbol (instrument_id u) (rt_market R)\<rparr>;
          (res, B) = subscribe_ticks F D write_ok \<lparr>sub_instrument = instrument_id u, sub_contract = Some u\<rparr> (rt_native R1)
      in (map_sum id (\<lambda>_. ()) res, R1\<lparr>rt_native := B\<rparr>))"

definition subscribe_hedge :: "fmt \<Rightarrow> chrono \<Rightarrow> bool \<Rightarrow> string \<Rightarrow> contract \<Rightarrow> runtime \<Rightarrow> runtime" where
  "subscribe_hedge F D write_ok symbol u R =
     (case Option.bind (for_product (rt_hedge R) symbol) hedge_contract of
        None \<Rightarrow> R
      | Some hc \<Rightarrow>
          let R1 = R\<lparr>rt_market := register_hedge_underlying symbol (instrument_id hc) (rt_market R)\<rparr> in
          if instrument_id hc = instrument_id u then R1
          else R1\<lparr>rt_native := snd (subscribe_ticks F D write_ok
                 \<lparr>sub_instrument = instrument_id hc, sub_contract = Some hc\<rparr> (rt_native R1))\<rparr>)"

text \<open>The market data at the polls until the deadline.\<close>

definition wait_for_underlying :: "string \<Rightarrow> market_state list \<Rightarrow> f64 option" where
  "wait_for_underlying prd polls =
     (case List.map_filter (\<lambda>md. state_underlying_price md prd) polls of [] \<Rightarrow> None | price # _ \<Rightarrow> Some price)"

text \<open>
  The start of a product.  What the other tasks do while it waits for a price is \<open>env\<close>, \<open>order\<close> is the order
  in which the set of legs is walked, and \<open>answer\<close> what the gateway returns for a leg.
\<close>

definition subscribe_product ::
  "fmt \<Rightarrow> chrono \<Rightarrow> bool \<Rightarrow> broker_error + contract list \<Rightarrow> (runtime \<Rightarrow> runtime) \<Rightarrow> market_state list \<Rightarrow>
     ((naive_date \<times> u64 \<times> right) set \<Rightarrow> (naive_date \<times> u64 \<times> right) list) \<Rightarrow> (naive_date \<times> u64 \<times> right \<Rightarrow> broker_error + contract) \<Rightarrow>
     product_config \<Rightarrow> subscriber \<Rightarrow> ((broker_error option + unit) \<times> subscriber) option" where
  "subscribe_product F D write_ok chain env polls order answer p S =
     (case resolve_underlying chain of
        Inl e \<Rightarrow> Some (Inl e, S)
      | Inr u \<Rightarrow>
          (case subscribe_underlying F D write_ok (pg_name p) u (sb_runtime S) of
             (Inl e, R) \<Rightarrow> Some (Inl (Some e), S\<lparr>sb_runtime := R\<rparr>)
           | (Inr _, R) \<Rightarrow>
               let R1 = env (subscribe_hedge F D write_ok (pg_name p) u R); S1 = S\<lparr>sb_runtime := R1\<rparr> in
               case wait_for_underlying (pg_name p) polls of
                 None \<Rightarrow> Some (Inr (), S1)
               | Some price \<Rightarrow>
                   Option.bind (generate_strikes (round_to_increment price (pg_strike_increment p)) p) (\<lambda>strikes.
                     let legs = planned_legs (pick_option_expiry u) strikes (pg_name p) (portfolio.positions (rt_portfolio R1))
                     in Some (Inr (), fold (\<lambda>(ex, bits, r) S.
                          snd (qualify_and_subscribe F D write_ok p (F64 bits) ex r (answer (ex, bits, r)) S)) (order legs) S1))))"

text \<open>What the start of a product meets, for each product by its name.\<close>

record start_env =
  st_chain :: "broker_error + contract list"
  st_other :: "runtime \<Rightarrow> runtime"
  st_polls :: "market_state list"
  st_order :: "(naive_date \<times> u64 \<times> right) set \<Rightarrow> (naive_date \<times> u64 \<times> right) list"
  st_answer :: "naive_date \<times> u64 \<times> right \<Rightarrow> broker_error + contract"

primrec subscribe_products :: "fmt \<Rightarrow> chrono \<Rightarrow> bool \<Rightarrow> (string \<Rightarrow> start_env) \<Rightarrow> product_config list \<Rightarrow> subscriber \<Rightarrow> subscriber option" where
  "subscribe_products F D write_ok env [] S = Some S"
| "subscribe_products F D write_ok env (p # ps) S =
     (let e = env (pg_name p) in
      Option.bind (subscribe_product F D write_ok (st_chain e) (st_other e) (st_polls e) (st_order e) (st_answer e) p S)
        (\<lambda>(_, S'). subscribe_products F D write_ok env ps S'))"

definition subscribe_market_data :: "fmt \<Rightarrow> chrono \<Rightarrow> bool \<Rightarrow> (string \<Rightarrow> start_env) \<Rightarrow> daemon_config \<Rightarrow> subscriber \<Rightarrow> subscriber option" where
  "subscribe_market_data F D write_ok env cfg = subscribe_products F D write_ok env (filter pg_enabled (dc_products cfg))"

subsection \<open>The moving window\<close>

definition already_subbed :: "option_key list \<Rightarrow> market_state \<Rightarrow> string \<Rightarrow> (u64 \<times> naive_date \<times> right) set" where
  "already_subbed keys md symbol = (\<lambda>t. (to_bits (ot_strike t), ot_expiry t, ot_right t)) ` set (options_for_product keys md symbol)"

definition front_expiry :: "option_key list \<Rightarrow> market_state \<Rightarrow> string \<Rightarrow> naive_date option \<Rightarrow> naive_date option" where
  "front_expiry keys md symbol cached =
     (case cached of
        Some d \<Rightarrow> Some d
      | None \<Rightarrow> fold (\<lambda>t acc. Some (case acc of None \<Rightarrow> ot_expiry t | Some e \<Rightarrow> min e (ot_expiry t)))
                  (options_for_product keys md symbol) None)"

text \<open>The legs a cycle of the window asks for, in order; \<open>None\<close> if the strikes are never done.\<close>

definition recenter_legs ::
  "option_key list \<Rightarrow> market_state \<Rightarrow> product_config \<Rightarrow> f64 option \<Rightarrow> naive_date option \<Rightarrow> (f64 \<times> naive_date \<times> right) list option" where
  "recenter_legs keys md p parity_f cached =
     (case parity_f of
        None \<Rightarrow> Some []
      | Some f \<Rightarrow>
          if f \<le> 0 then Some []
          else Option.bind (generate_strikes (round_to_increment f (pg_strike_increment p)) p) (\<lambda>desired.
            Some (case front_expiry keys md (pg_name p) cached of
              None \<Rightarrow> []
            | Some ex \<Rightarrow> filter (\<lambda>(k, ex, r). (to_bits k, ex, r) \<notin> already_subbed keys md (pg_name p))
                (concat (map (\<lambda>k. [(k, ex, Call), (k, ex, Put)]) desired)))))"

text \<open>The forward of the last fit: the first entry of the product in the order the cache is walked in.\<close>

definition parity_of :: "(string \<times> string \<times> char) list \<Rightarrow> (string \<times> string \<times> char \<rightharpoonup> surface_entry) \<Rightarrow> string \<Rightarrow> f64 option" where
  "parity_of order cache symbol = map_option se_forward (Option.bind (find (\<lambda>key. fst key = symbol \<and> cache key \<noteq> None) order) cache)"

definition recenter_product ::
  "fmt \<Rightarrow> chrono \<Rightarrow> bool \<Rightarrow> option_key list \<Rightarrow> f64 option \<Rightarrow> (f64 \<times> naive_date \<times> right \<Rightarrow> broker_error + contract) \<Rightarrow> product_config \<Rightarrow>
     (string \<rightharpoonup> naive_date) \<times> subscriber \<Rightarrow> ((string \<rightharpoonup> naive_date) \<times> subscriber) option" where
  "recenter_product F D write_ok keys parity_f answer p = (\<lambda>(cached, S).
     let md = rt_market (sb_runtime S); front = front_expiry keys md (pg_name p) (cached (pg_name p)) in
     map_option (\<lambda>legs.
       (if (\<exists>f. parity_f = Some f \<and> \<not> f \<le> 0) \<and> front \<noteq> None then cached(pg_name p := front) else cached,
        fold (\<lambda>(k, ex, r) S. snd (qualify_and_subscribe F D write_ok p k ex r (answer (k, ex, r)) S)) legs S))
       (recenter_legs keys md p parity_f (cached (pg_name p))))"

subsection \<open>Depth\<close>

definition MAX_ACTIVE :: nat where "MAX_ACTIVE = 5"
definition FIXED_NEAREST :: nat where "FIXED_NEAREST = 2"
definition ROTATE_SLOTS :: nat where "ROTATE_SLOTS = MAX_ACTIVE - FIXED_NEAREST"
definition NUM_ROWS :: i32 where "NUM_ROWS = 5"

definition product_candidates ::
  "option_key list \<Rightarrow> market_state \<Rightarrow> (u64 \<rightharpoonup> contract) \<Rightarrow> string \<Rightarrow> (f64 \<times> u64 \<times> contract) list" where
  "product_candidates keys md qc prd =
     (case state_underlying_price md prd of
        None \<Rightarrow> []
      | Some und \<Rightarrow> List.map_filter (\<lambda>t.
          if ot_bid t \<le> 0 \<and> ot_ask t \<le> 0 then None
          else Option.bind (ot_instrument t) (\<lambda>iid. map_option (\<lambda>c. (\<bar>ot_strike t - und\<bar>, iid, c)) (qc iid)))
          (options_for_product keys md prd))"

text \<open>Nearest first.  Strikes are numbers, so that the comparison of two distances never fails.\<close>

definition depth_candidates ::
  "option_key list \<Rightarrow> market_state \<Rightarrow> (u64 \<rightharpoonup> contract) \<Rightarrow> string list \<Rightarrow> (u64 \<times> contract) list" where
  "depth_candidates keys md qc products =
     map snd (sort_key (\<lambda>(dist, _). fkey dist) (concat (map (product_candidates keys md qc) products)))"

definition choose_depth :: "nat \<Rightarrow> 'a list \<Rightarrow> 'a list \<times> nat" where
  "choose_depth cursor candidates =
     (let fixed_n = min FIXED_NEAREST (length candidates); pool = drop fixed_n candidates; fixed = take fixed_n candidates;
          pool_len = length pool
      in if pool_len = 0 then (fixed, cursor)
         else let taken = min ROTATE_SLOTS pool_len; start = cursor mod pool_len
              in (fixed @ map (\<lambda>i. pool ! ((start + i) mod pool_len)) [0..<taken], (cursor + taken) mod pool_len))"

record rotator =
  rot_active :: "u64 \<rightharpoonup> u64"
  rot_cursor :: nat
  rot_broker :: native_broker

definition drop_depth :: "fmt \<Rightarrow> u64 set \<Rightarrow> bool \<Rightarrow> u64 \<Rightarrow> rotator \<Rightarrow> rotator" where
  "drop_depth F want write_ok iid T =
     (case rot_active T iid of
        Some h \<Rightarrow>
          if iid \<in> want then T
          else T\<lparr>rot_active := (rot_active T)(iid := None), rot_broker := snd (unsubscribe_market_depth F write_ok h (rot_broker T))\<rparr>
      | None \<Rightarrow> T)"

definition add_depth :: "fmt \<Rightarrow> chrono \<Rightarrow> bool \<Rightarrow> u64 \<times> contract \<Rightarrow> rotator \<Rightarrow> rotator" where
  "add_depth F D write_ok tgt T =
     (let (iid, c) = tgt in
      case rot_active T iid of
        Some _ \<Rightarrow> T
      | None \<Rightarrow>
          (case subscribe_market_depth F D write_ok \<lparr>sub_instrument = iid, sub_contract = Some c\<rparr> NUM_ROWS (rot_broker T) of
             (Inl e, B) \<Rightarrow> T\<lparr>rot_broker := B\<rparr>
           | (Inr h, B) \<Rightarrow> T\<lparr>rot_active := (rot_active T)(iid \<mapsto> h), rot_broker := B\<rparr>))"

text \<open>
  One cycle.  The iteration order of the active subscriptions is \<open>subs\<close>; the outcomes of the writes are the
  functions \<open>ok\<close> of the instrument.
\<close>

definition rotate_depth :: "fmt \<Rightarrow> chrono \<Rightarrow> (u64 \<Rightarrow> bool) \<Rightarrow> u64 list \<Rightarrow> (u64 \<times> contract) list \<Rightarrow> rotator \<Rightarrow> rotator" where
  "rotate_depth F D ok subs candidates T =
     (let (target, cursor) = choose_depth (rot_cursor T) candidates; want = fst ` set target;
          T1 = fold (\<lambda>iid. drop_depth F want (ok iid) iid) subs (T\<lparr>rot_cursor := cursor\<rparr>)
      in fold (\<lambda>tgt. add_depth F D (ok (fst tgt)) tgt) target T1)"

subsection \<open>Depth subscriptions rotate\<close>

lemma choose_depth_small: "length (fst (choose_depth cursor cs)) \<le> MAX_ACTIVE"
  by (auto simp: choose_depth_def Let_def FIXED_NEAREST_def ROTATE_SLOTS_def MAX_ACTIVE_def)

lemma choose_depth_fixed:
  "set (take FIXED_NEAREST cs) \<subseteq> set (fst (choose_depth cursor cs))"
  by (auto simp: choose_depth_def Let_def min_def)

fun cursor_after :: "nat \<Rightarrow> 'a list \<Rightarrow> nat \<Rightarrow> nat" where
  "cursor_after 0 cs c = c"
| "cursor_after (Suc n) cs c = cursor_after n cs (snd (choose_depth c cs))"

lemma cursor_after_value:
  assumes "pool = drop FIXED_NEAREST cs" "ROTATE_SLOTS \<le> length pool"
  shows "cursor_after n cs c mod length pool = (c + n * ROTATE_SLOTS) mod length pool"
proof (induction n arbitrary: c)
  case (Suc n)
  have len: "length pool = length cs - FIXED_NEAREST" "0 < length pool"
    using assms by (auto simp: ROTATE_SLOTS_def MAX_ACTIVE_def FIXED_NEAREST_def)
  have "snd (choose_depth c cs) = (c + ROTATE_SLOTS) mod length pool"
    using len assms(2) by (auto simp: choose_depth_def Let_def min_def ROTATE_SLOTS_def MAX_ACTIVE_def FIXED_NEAREST_def)
  then show ?case using Suc.IH [of "(c + ROTATE_SLOTS) mod length pool"] by (simp add: mod_simps algebra_simps)
qed simp

lemma rotation_covers:
  assumes "x \<in> set (drop FIXED_NEAREST cs)" "length (drop FIXED_NEAREST cs) \<le> n * ROTATE_SLOTS"
  shows "\<exists>j<n. x \<in> set (fst (choose_depth (cursor_after j cs c) cs))"
proof -
  define pool where "pool = drop FIXED_NEAREST cs"
  let ?L = "length pool"
  obtain i where i: "i < ?L" "x = pool ! i" using assms(1) by (auto simp: in_set_conv_nth pool_def)
  have len: "?L = length cs - FIXED_NEAREST" "0 < ?L" using i(1) by (auto simp: pool_def)
  have chosen: "fst (choose_depth k cs) = take FIXED_NEAREST cs @ map (\<lambda>i. pool ! ((k mod ?L + i) mod ?L)) [0..<min ROTATE_SLOTS ?L]" for k
    using len by (auto simp: choose_depth_def Let_def min_def pool_def)
  define d where "d = (i + ?L - c mod ?L) mod ?L"
  have "c mod ?L \<le> i + ?L" using len(2) mod_less_divisor [of ?L c] by linarith
  then have "(c mod ?L + d) mod ?L = (i + ?L) mod ?L" by (simp add: d_def mod_add_right_eq)
  then have d: "d < ?L" "(c mod ?L + d) mod ?L = i" using len(2) i(1) by (simp_all add: d_def)
  show ?thesis
  proof (cases "ROTATE_SLOTS \<le> ?L")
    case True
    have slots: "0 < ROTATE_SLOTS" by (simp add: ROTATE_SLOTS_def MAX_ACTIVE_def FIXED_NEAREST_def)
    let ?j = "d div ROTATE_SLOTS" and ?r = "d mod ROTATE_SLOTS"
    have "d < n * ROTATE_SLOTS" using d(1) assms(2) by (simp add: pool_def)
    then have "?j < n" by (simp add: less_mult_imp_div_less)
    moreover have "(cursor_after ?j cs c mod ?L + ?r) mod ?L = i"
      using cursor_after_value [OF pool_def True, of ?j c] d(2) by (simp add: mod_simps add.assoc)
    moreover have "?r < ROTATE_SLOTS" using slots by simp
    ultimately show ?thesis using True i(2) by (intro exI [of _ ?j]) (force simp: chosen)
  next
    case False
    have "0 < n" using assms(2) len(2) by (cases n) (simp_all add: pool_def)
    moreover have "x \<in> set (fst (choose_depth (cursor_after 0 cs c) cs))"
      using False d i(2) by (auto simp: chosen min_def intro!: image_eqI [of _ _ d])
    ultimately show ?thesis by blast
  qed
qed

lemma depth_ops_cursor [simp]:
  "rot_cursor (drop_depth F want ok iid T) = rot_cursor T" "rot_cursor (add_depth F D ok tgt T) = rot_cursor T"
  by (simp_all add: drop_depth_def add_depth_def Let_def split: option.split sum.split prod.split)

lemma rotate_depth_cursor: "rot_cursor (rotate_depth F D ok subs cs T) = snd (choose_depth (rot_cursor T) cs)"
proof -
  have "rot_cursor (fold (\<lambda>iid. drop_depth F want (ok iid) iid) ids T) = rot_cursor T" for want ids T
    by (induction ids arbitrary: T) simp_all
  moreover have "rot_cursor (fold (\<lambda>tgt. add_depth F D (ok (fst tgt)) tgt) tgts T) = rot_cursor T" for tgts T
    by (induction tgts arbitrary: T) simp_all
  ultimately show ?thesis by (simp add: rotate_depth_def Let_def split: prod.split)
qed

lemma rotate_depth_active:
  assumes "dom (rot_active T) \<subseteq> set subs"
  shows "dom (rot_active (rotate_depth F D ok subs cs T)) \<subseteq> fst ` set (fst (choose_depth (rot_cursor T) cs))"
proof -
  obtain target cursor where ch: "choose_depth (rot_cursor T) cs = (target, cursor)" by fastforce
  let ?want = "fst ` set target"
  have drop: "dom (rot_active (fold (\<lambda>iid. drop_depth F ?want (ok iid) iid) ids T)) \<subseteq> dom (rot_active T) - (set ids - ?want)" for ids T
  proof (induction ids arbitrary: T)
    case (Cons iid ids)
    have "dom (rot_active (drop_depth F ?want (ok iid) iid T)) \<subseteq> dom (rot_active T) - ({iid} - ?want)"
      by (auto simp: drop_depth_def split: option.splits if_splits)
    with Cons [of "drop_depth F ?want (ok iid) iid T"] show ?case unfolding fold_simps(2) list.simps(15) by blast
  qed simp
  have add: "dom (rot_active (fold (\<lambda>tgt. add_depth F D (ok (fst tgt)) tgt) tgts T)) \<subseteq> dom (rot_active T) \<union> fst ` set tgts" for tgts T
  proof (induction tgts arbitrary: T)
    case (Cons tgt tgts)
    have "dom (rot_active (add_depth F D (ok (fst tgt)) tgt T)) \<subseteq> dom (rot_active T) \<union> {fst tgt}"
      by (auto simp: add_depth_def Let_def split: option.splits sum.splits prod.splits)
    with Cons [of "add_depth F D (ok (fst tgt)) tgt T"] show ?case unfolding fold_simps(2) list.simps(15) by blast
  qed simp
  from add [of target] drop [of subs "T\<lparr>rot_cursor := cursor\<rparr>"] assms show ?thesis
    by (force simp: rotate_depth_def ch Let_def)
qed

text \<open>
  \<^bold>\<open>C37.\<close> After every cycle of the depth rotator at most five subscriptions are held, all of them chosen in
  that cycle.  While the candidates stay the same, every candidate is chosen in one of any run of cycles
  that is long enough to pass over the rotating ones three at a time, whatever the cursor was left at by
  earlier candidates.
\<close>

theorem depth_rotation_fair:
  assumes "\<And>T. dom (rot_active T) \<subseteq> set (listing T)" "cycle = (\<lambda>T. rotate_depth F D ok (listing T) cs T)"
    and "length cs \<le> 2 + 3 * n" "0 < n" "x \<in> set cs"
  shows "(\<exists>j<n. x \<in> set (fst (choose_depth (rot_cursor ((cycle ^^ j) T)) cs))) \<and>
    (\<forall>j. dom (rot_active ((cycle ^^ Suc j) T)) \<subseteq> fst ` set (fst (choose_depth (rot_cursor ((cycle ^^ j) T)) cs)) \<and>
         card (dom (rot_active ((cycle ^^ Suc j) T))) \<le> 5)"
proof
  have step: "rot_cursor (cycle T) = snd (choose_depth (rot_cursor T) cs)" for T by (simp add: assms(2) rotate_depth_cursor)
  have cursor: "rot_cursor ((cycle ^^ j) T) = cursor_after j cs (rot_cursor T)" for j T
    by (induction j arbitrary: T) (simp_all add: step funpow_Suc_right del: funpow.simps(2))
  show "\<exists>j<n. x \<in> set (fst (choose_depth (rot_cursor ((cycle ^^ j) T)) cs))"
  proof (cases "x \<in> set (take FIXED_NEAREST cs)")
    case True
    from subsetD [OF choose_depth_fixed this] assms(4) show ?thesis by (intro exI [of _ 0]) simp
  next
    case False
    then have "x \<in> set (drop FIXED_NEAREST cs)"
      using assms(5) set_append [of "take FIXED_NEAREST cs" "drop FIXED_NEAREST cs"] by simp
    moreover have "length (drop FIXED_NEAREST cs) \<le> n * ROTATE_SLOTS"
      using assms(3) by (simp add: FIXED_NEAREST_def ROTATE_SLOTS_def MAX_ACTIVE_def)
    ultimately show ?thesis unfolding cursor by (rule rotation_covers)
  qed
  show "\<forall>j. dom (rot_active ((cycle ^^ Suc j) T)) \<subseteq> fst ` set (fst (choose_depth (rot_cursor ((cycle ^^ j) T)) cs)) \<and>
         card (dom (rot_active ((cycle ^^ Suc j) T))) \<le> 5"
  proof (intro allI conjI)
    fix j
    let ?target = "fst (choose_depth (rot_cursor ((cycle ^^ j) T)) cs)"
    show sub: "dom (rot_active ((cycle ^^ Suc j) T)) \<subseteq> fst ` set ?target"
      using rotate_depth_active [OF assms(1)] by (simp add: assms(2))
    have "card (fst ` set ?target) \<le> 5"
      using card_image_le [of "set ?target" fst] card_length [of ?target] choose_depth_small [of "rot_cursor ((cycle ^^ j) T)" cs]
      by (simp add: MAX_ACTIVE_def)
    then show "card (dom (rot_active ((cycle ^^ Suc j) T))) \<le> 5" using card_mono [OF _ sub] by simp
  qed
qed

definition demo_leg :: contract where
  "demo_leg = \<lparr>instrument_id = 7, c_kind = Option, c_symbol = ''HXE'', c_local_symbol = ''HXEM6'', c_expiry = 20599,
     c_strike = Some (lit 6), c_right = Some Call, c_multiplier = lit 25000, c_exchange = Comex, c_currency = Usd,
     c_trading_class = ''HXE''\<rparr>"

definition demo_legs :: "(u64 \<times> contract) list" where
  "demo_legs = map (\<lambda>i. (i, demo_leg)) [1, 2, 3, 4, 5, 6, 7]"

definition demo_cycle :: "rotator \<Rightarrow> rotator" where
  "demo_cycle = (\<lambda>T. rotate_depth demo_fmt demo_chrono (\<lambda>_. True) (sorted_list_of_set (dom (rot_active T))) demo_legs T)"

theorem depth_rotation_fair_witness:
  "\<exists>j<2. (7, demo_leg) \<in> set (fst (choose_depth (rot_cursor ((demo_cycle ^^ j)
     \<lparr>rot_active = Map.empty, rot_cursor = 0, rot_broker = rt_native demo_runtime\<rparr>)) demo_legs))"
proof -
  have "length demo_legs \<le> 2 + 3 * 2" "(7, demo_leg) \<in> set demo_legs" by (simp_all add: demo_legs_def)
  moreover have "dom (rot_active T) \<subseteq> set (sorted_list_of_set (dom (rot_active T)))" for T by simp
  ultimately show ?thesis by (intro depth_rotation_fair [OF _ demo_cycle_def, THEN conjunct1]) simp_all
qed

subsection \<open>The strikes come to an end\<close>

lemma successor_div_mod:
  assumes "0 < (b :: int)"
  shows "if (m + 1) mod b = 0 then m mod b = b - 1 \<and> (m + 1) div b = m div b + 1
    else (m + 1) mod b = m mod b + 1 \<and> (m + 1) div b = m div b"
proof (cases "m mod b = b - 1")
  case True
  then have "m + 1 = (m div b + 1) * b" using div_mult_mod_eq [of m b] unfolding distrib_right mult_1 by linarith
  then have "(m + 1) div b = m div b + 1" "(m + 1) mod b = 0" using assms by simp_all
  with True show ?thesis by simp
next
  case False
  then have r: "0 \<le> m mod b + 1" "m mod b + 1 < b" using assms pos_mod_bound [of b m] pos_mod_sign [of b m] by linarith+
  have "m + 1 = b * (m div b) + (m mod b + 1)" using div_mult_mod_eq [of m b] by (simp add: algebra_simps)
  then have "(m + 1) div b = m div b" "(m + 1) mod b = m mod b + 1"
    using int_div_pos_eq [OF _ r] int_mod_pos_eq [OF _ r] by blast+
  moreover have "m mod b + 1 \<noteq> 0" using assms pos_mod_sign [of b m] by linarith
  ultimately show ?thesis by simp
qed

text \<open>The next float is one unit of the last place away.\<close>

lemma mag_val_Suc:
  assumes "0 \<le> m"
  shows "mag_val (m + 1) = mag_val m + 2 powi (exp_of m - 1075)"
proof (cases "m + 1 < 0x10000000000000")
  case True
  with assms show ?thesis by (simp add: mag_val_powi sig_of_def exp_of_def algebra_simps)
next
  case False
  note dm = successor_div_mod [of "0x10000000000000" m, simplified]
  show ?thesis
  proof (cases "m < 0x10000000000000")
    case True
    with False have "m = 0xFFFFFFFFFFFFF" by simp
    then show ?thesis by (simp add: mag_val_powi sig_of_def exp_of_def algebra_simps)
  next
    case big: False
    then have e: "1 \<le> m div 0x10000000000000" by simp
    then have exp: "exp_of m = m div 0x10000000000000" by (simp add: exp_of_def)
    show ?thesis
    proof (cases "(m + 1) mod 0x10000000000000 = 0")
      case True
      with dm e have "exp_of (m + 1) = exp_of m + 1" by (simp add: exp_of_def)
      moreover have "sig_of m = 0x1FFFFFFFFFFFFF" "sig_of (m + 1) = 0x10000000000000"
        using big False True dm by (simp_all add: sig_of_def)
      moreover have "(2 :: rat) powi (exp_of m + 1 - 1075) = 2 * 2 powi (exp_of m - 1075)"
        using power_int_add_1 [of "2 :: rat" "exp_of m - 1075"] by (simp add: algebra_simps)
      ultimately show ?thesis by (simp add: mag_val_powi)
    next
      case nz: False
      with dm e have "exp_of (m + 1) = exp_of m" by (simp add: exp_of_def)
      moreover have "sig_of (m + 1) = sig_of m + 1" using big False nz dm by (simp add: sig_of_def)
      ultimately show ?thesis by (simp add: mag_val_powi algebra_simps)
    qed
  qed
qed

lemma increment_progress:
  assumes "is_finite x" "0 \<le> x" "is_finite y" "0 < y" "val x \<le> 2 ^ 52 * val y"
  shows "x < x + y"
proof -
  let ?m = "mag x" and ?gap = "2 powi (exp_of (mag x) - 1075) :: rat"
  have x: "fkey x = ?m" "val x = mag_val ?m"
    using assms(2) mag_zero_or_pos [of x] by (auto simp: f64_ord fkey_def val_def split: if_splits)
  have y: "0 < mag y" "val y = mag_val (mag y)"
    using assms(4) leD [OF mag_nonneg [of y]] by (auto simp: f64_ord fkey_def val_def split: if_splits)
  have "?gap \<le> val y"
  proof (cases "?m < 0x10000000000000")
    case True
    then have "?gap = mag_val 1" by (simp add: mag_val_powi sig_of_def exp_of_def)
    moreover have "\<not> mag_val (mag y) < mag_val 1"
      using y(1) assms(3) by (subst mag_val_less_iff) (simp_all add: is_finite_def inf_mag_def)
    ultimately show ?thesis using y(2) by simp
  next
    case False
    then have "(2 :: rat) ^ 52 \<le> of_int (sig_of ?m)" by (simp add: sig_of_def)
    then have "2 ^ 52 * ?gap \<le> val x" unfolding x(2) mag_val_powi by (intro mult_right_mono) simp_all
    then have "2 ^ 52 * ?gap \<le> 2 ^ 52 * val y" using assms(5) by (rule order_trans)
    then show ?thesis by (simp only: mult_le_cancel_left_pos zero_less_power zero_less_numeral)
  qed
  then have "mag_val (?m + 1) \<le> val x + val y" by (simp add: mag_val_Suc x(2))
  moreover have "round_mag (mag_val (?m + 1)) = ?m + 1"
    using assms(1) by (intro round_mag_mag_val) (simp_all add: is_finite_def)
  ultimately have "?m + 1 \<le> round_mag (val x + val y)" using round_mag_mono by metis
  moreover have "\<not> val x + val y < 0" using x y mag_val_pos [of ?m] mag_val_pos [OF y(1)] mag_zero_or_pos [of x] by force
  moreover have "x + y = round_f64 (sign_neg x \<and> sign_neg y) (val x + val y)" using assms(1,3) by (simp add: fadd_finite)
  ultimately show ?thesis using assms(1) by (simp add: f64_less_iff fkey_round_f64 x(1) finite_not_nan)
qed

lemma strike_loop_ends:
  assumes "is_finite inc" "0 < inc" "is_finite limit" "val limit \<le> 2 ^ 52 * val inc" "0 \<le> k"
  shows "\<exists>ks. strike_loop inc limit k = Some ks \<and> ks = map (\<lambda>i. round_to_increment (((\<lambda>k. k + inc) ^^ i) k) inc) [0..<length ks]"
  using assms(5)
proof (induction "nat (fkey limit - fkey k + 1)" arbitrary: k rule: less_induct)
  case less
  show ?case
  proof (cases "k \<le> limit")
    case False
    then show ?thesis by (simp add: strike_loop.simps [of inc limit k])
  next
    case True
    have fin: "is_finite k"
      using less.prems True assms(3) by (auto simp: f64_ord is_finite_fkey)
    then have "val k \<le> 2 ^ 52 * val inc" using True assms(3,4) f64_le_val by (metis order_trans)
    then have up: "k < k + inc" by (intro increment_progress [OF fin less.prems assms(1,2)])
    then have "fkey k < fkey (k + inc)" "fkey k \<le> fkey limit" using True by (simp_all add: f64_ord)
    then have "nat (fkey limit - fkey (k + inc) + 1) < nat (fkey limit - fkey k + 1)" by simp
    moreover have "0 \<le> k + inc" using f64_le_less_trans [OF less.prems up] by (rule f64_less_imp_le)
    ultimately obtain ks where ks: "strike_loop inc limit (k + inc) = Some ks"
      "ks = map (\<lambda>i. round_to_increment (((\<lambda>k. k + inc) ^^ i) (k + inc)) inc) [0..<length ks]"
      using less.hyps by blast
    have "map (\<lambda>i. round_to_increment (((\<lambda>k. k + inc) ^^ i) k) inc) [0..<Suc (length ks)] = round_to_increment k inc # ks"
      by (subst (2) ks(2)) (simp add: upt_conv_Cons funpow_Suc_right comp_def del: upt_Suc funpow.simps(2) flip: map_Suc_upt)
    then show ?thesis using True ks(1) by (simp add: strike_loop.simps [of inc limit k] del: upt_Suc)
  qed
qed

lemma strike_loop_stuck:
  assumes "is_finite k" "k \<le> limit" "is_zero inc"
  shows "strike_loop inc limit k = None"
proof -
  have zero: "is_finite inc" "val inc = 0" using assms(3) by (simp_all add: is_zero_def is_finite_def val_def inf_mag_def)
  have "strike_loop inc limit k \<noteq> Some ks" if "is_finite k" "k \<le> limit" for k ks
    using that
  proof (induction ks arbitrary: k)
    case Nil
    then show ?case by (simp add: strike_loop.simps [of inc limit k] split: bind_split)
  next
    case (Cons a ks)
    have sum: "k + inc = round_f64 (sign_neg k \<and> sign_neg inc) (val k)" using fadd_finite Cons.prems(1) zero by simp
    then have "fkey (k + inc) = fkey k" "\<not> is_nan (k + inc)" using Cons.prems(1) by simp_all
    then have "is_finite (k + inc)" "k + inc \<le> limit" using Cons.prems by (auto simp: is_finite_fkey f64_ord)
    from Cons.IH [OF this] Cons.prems(2) show ?case by (auto simp: strike_loop.simps [of inc limit k] split: bind_splits)
  qed
  then show ?thesis using assms(1,2) by (metis not_None_eq)
qed

lemma i32_finite: "is_finite (i32_as_f64 n)"
proof -
  have "of_int (- 2147483648) \<le> (of_int (sint n) :: rat)" "(of_int (sint n) :: rat) \<le> of_int 2147483648"
    using i32_range [of n] unfolding of_int_le_iff by simp_all
  then have "lit (- 2147483648) \<le> i32_as_f64 n" "i32_as_f64 n \<le> lit 2147483648"
    unfolding lit_def i32_as_f64_def f64_of_int_def by (auto intro!: round_f64_mono)
  moreover have "is_finite (lit (- 2147483648))" "is_finite (lit 2147483648)" by code_simp+
  ultimately show ?thesis by (auto simp: is_finite_fkey f64_ord)
qed

lemma zero_steps:
  assumes "is_finite x" "is_zero inc"
  shows "is_finite (x + i32_as_f64 n * inc) \<and> fkey (x + i32_as_f64 n * inc) = fkey x"
proof -
  have zero: "is_finite y" "val y = 0" if "is_zero y" for y
    using that by (simp_all add: is_zero_def is_finite_def val_def inf_mag_def)
  have "i32_as_f64 n * inc = round_f64 (sign_neg (i32_as_f64 n) \<noteq> sign_neg inc) 0"
    using fmul_finite [OF i32_finite zero(1) [OF assms(2)], of n] zero(2) [OF assms(2)] by simp
  then have "is_zero (i32_as_f64 n * inc)" by (simp add: round_f64_def is_zero_def)
  then have "x + i32_as_f64 n * inc = round_f64 (sign_neg x \<and> sign_neg (i32_as_f64 n * inc)) (val x)"
    using fadd_finite [OF assms(1) zero(1)] zero(2) by simp
  then show ?thesis using assms(1) by (simp add: is_finite_fkey)
qed

text \<open>
  \<^bold>\<open>C38.\<close> The list of strikes is completed whenever the increment is positive and not below the precision of
  the highest strike, from the lowest strike in steps of the increment, each rounded to a multiple.  With an
  increment of zero, which the validation of the configuration accepts, it is never completed.
\<close>

theorem strikes_terminate:
  assumes "inc = pg_strike_increment p" "limit = atm + range_high p + lit (1 / 10 ^ 9)"
  shows "(is_finite inc \<and> 0 < inc \<and> is_finite limit \<and> val limit \<le> 2 ^ 52 * val inc \<and> 0 \<le> atm + range_low p \<longrightarrow>
      (\<exists>ks. generate_strikes atm p = Some ks \<and>
         ks = map (\<lambda>i. round_to_increment (((\<lambda>k. k + inc) ^^ i) (atm + range_low p)) inc) [0..<length ks])) \<and>
    (is_zero inc \<and> is_finite atm \<longrightarrow> generate_strikes atm p = None \<and>
       (\<forall>cfg. validate (cfg\<lparr>dc_products := [p]\<rparr>) = validate (cfg\<lparr>dc_products := [p\<lparr>pg_strike_increment := lit 1\<rparr>]\<rparr>)))"
proof (intro conjI impI)
  assume "is_finite inc \<and> 0 < inc \<and> is_finite limit \<and> val limit \<le> 2 ^ 52 * val inc \<and> 0 \<le> atm + range_low p"
  then show "\<exists>ks. generate_strikes atm p = Some ks \<and>
         ks = map (\<lambda>i. round_to_increment (((\<lambda>k. k + inc) ^^ i) (atm + range_low p)) inc) [0..<length ks]"
    using strike_loop_ends unfolding generate_strikes_def assms [symmetric] by blast
next
  assume z: "is_zero inc \<and> is_finite atm"
  have low: "is_finite (atm + range_low p)" "fkey (atm + range_low p) = fkey atm"
    using zero_steps z unfolding range_low_def assms(1) [symmetric] by blast+
  have high: "is_finite (atm + range_high p)" "fkey (atm + range_high p) = fkey atm"
    using zero_steps z unfolding range_high_def assms(1) [symmetric] by blast+
  have eps: "is_finite (lit (1 / 10 ^ 9))" "0 \<le> val (lit (1 / 10 ^ 9))" by code_simp+
  have "atm + range_high p \<le> limit"
    unfolding assms(2) fadd_finite [OF high(1) eps(1)] using high(1) eps(2) by (intro round_f64_ge) simp_all
  with low high have "atm + range_low p \<le> limit" by (simp add: f64_ord finite_not_nan)
  with low(1) z show "generate_strikes atm p = None"
    unfolding generate_strikes_def assms [symmetric] by (intro strike_loop_stuck) simp_all
next
  show "\<forall>cfg. validate (cfg\<lparr>dc_products := [p]\<rparr>) = validate (cfg\<lparr>dc_products := [p\<lparr>pg_strike_increment := lit 1\<rparr>]\<rparr>)"
    by (simp add: validate_def)
qed

definition demo_product :: product_config where
  "demo_product = \<lparr>pg_name = ''HG'', pg_multiplier = lit 25000, pg_default_iv = lit (30 / 100), pg_quote_range_low = - 5,
     pg_quote_range_high = 5, pg_strike_range_low = Some (- 7), pg_strike_range_high = Some 7, pg_strike_increment = lit (5 / 100),
     pg_enabled = True\<rparr>"

theorem strikes_terminate_witness:
  "generate_strikes (lit 6) demo_product \<noteq> None \<and> generate_strikes (lit 6) (demo_product\<lparr>pg_strike_increment := 0\<rparr>) = None"
proof
  have inc: "lit (5 / 100) = pg_strike_increment demo_product" by (simp add: demo_product_def)
  have range: "range_high demo_product = lit 7 * lit (5 / 100)" "range_low demo_product = lit (- 7) * lit (5 / 100)"
    by (simp_all add: range_high_def range_low_def demo_product_def i32_as_f64_def f64_of_int_def lit_def)
  let ?h = "lit 6 + range_high demo_product" and ?eps = "lit (1 / 10 ^ 9)"
  have h: "is_finite ?h" "?h \<le> lit 7" unfolding range by code_simp+
  have c: "is_finite (lit 7)" "val (lit 7) = 7" "is_finite (lit 8)" "val (lit 8) = 8" "is_finite ?eps" "val ?eps \<le> 1" "0 \<le> ?eps" by code_simp+
  have "val ?h \<le> 7" using f64_le_val [OF h(1) c(1)] h(2) c(2) by simp
  with c(6) have "?h + ?eps \<le> lit 8" unfolding fadd_finite [OF h(1) c(5)] by (intro round_f64_le [OF c(3)]) (simp add: c(4))
  moreover have "0 \<le> ?h" unfolding range by code_simp
  then have "0 \<le> ?h + ?eps" by (rule fadd_nonneg) (rule c(7))
  ultimately have lim: "is_finite (?h + ?eps)" "?h + ?eps \<le> lit 8" using c(3) by (auto simp: is_finite_fkey f64_ord)
  then have "val (?h + ?eps) \<le> 8" using f64_le_val [OF lim(1) c(3)] c(4) by simp
  moreover have "1 / 32 \<le> val (lit (5 / 100))" by code_simp
  ultimately have "val (?h + ?eps) \<le> 2 ^ 52 * val (lit (5 / 100))" by simp
  moreover have "is_finite (lit (5 / 100)) \<and> 0 < lit (5 / 100)" "0 \<le> lit 6 + range_low demo_product" unfolding range by code_simp+
  ultimately have pre: "is_finite (lit (5 / 100)) \<and> 0 < lit (5 / 100) \<and> is_finite (?h + ?eps) \<and>
      val (?h + ?eps) \<le> 2 ^ 52 * val (lit (5 / 100)) \<and> 0 \<le> lit 6 + range_low demo_product" using lim(1) by blast
  from strikes_terminate [OF inc refl, THEN conjunct1, THEN mp, OF pre] obtain ks where "generate_strikes (lit 6) demo_product = Some ks"
    by blast
  then show "generate_strikes (lit 6) demo_product \<noteq> None" by simp
  have "is_zero 0" "is_finite (lit 6)" by code_simp+
  then show "generate_strikes (lit 6) (demo_product\<lparr>pg_strike_increment := 0\<rparr>) = None"
    using strikes_terminate [OF refl refl, of "demo_product\<lparr>pg_strike_increment := 0\<rparr>" "lit 6"] by simp
qed

subsection \<open>A subscribed option\<close>

lemma subscribe_ticks_route:
  assumes "subscribe_ticks F D ok sub B = (Inr h, B')"
  shows "\<exists>rid. tick_routes (nb_state B') rid = Some (sub_instrument sub)"
proof -
  obtain rid h' B1 where a: "alloc_req_id B = (rid, B1)" "alloc_handle B1 = (h', B1\<lparr>next_handle := next_handle B1 + 1\<rparr>)"
    by (simp add: alloc_req_id_def alloc_handle_def)
  let ?B3 = "upd_state (\<lambda>s. s\<lparr>tick_routes := (tick_routes s)(rid \<mapsto> sub_instrument sub),
            tick_route_right := (case Option.bind (sub_contract sub) c_right of Some r \<Rightarrow> (tick_route_right s)(rid \<mapsto> r) | None \<Rightarrow> tick_route_right s),
            handle_to_req_id := (handle_to_req_id s)(h' \<mapsto> rid)\<rparr>) (B1\<lparr>next_handle := next_handle B1 + 1\<rparr>)"
  obtain res B4 where n: "nb_send ok (req_mkt_data F rid (subscription_request D sub) ''100,101'' False False) ?B3 = (res, B4)" by fastforce
  have "B' = B4" using assms by (auto simp: subscribe_ticks_def a n split: sum.splits)
  then have "nb_state B' = nb_state ?B3" using nb_send_keeps [OF n] by simp
  then show ?thesis by (intro exI [of _ rid]) (simp add: upd_state_def)
qed

lemma subscribe_ticks_fails: "\<exists>e B'. subscribe_ticks F D False sub B = (Inl e, B')"
proof -
  have "\<exists>e B'. nb_send False fr B = (Inl e, B')" for fr B by (simp add: nb_send_def send_raw_def)
  then obtain e g where n: "nb_send False fr B = (Inl (e fr B), g fr B)" for fr B by metis
  show ?thesis by (simp add: subscribe_ticks_def n Let_def split: prod.split)
qed

lemma subscribe_ticks_works:
  assumes "writer_open (nb_client B)"
  shows "\<exists>h B'. subscribe_ticks F D True sub B = (Inr h, B')"
  using assms by (simp add: subscribe_ticks_def Let_def alloc_req_id_def alloc_handle_def nb_send_ok upd_state_def)

lemma registered_option:
  assumes "market_inv s"
  shows "\<exists>t. option_by_iid (register_option prd k ex r iid s) iid = Some t \<and>
    option_strike_key (ot_strike t) = option_strike_key k \<and> ot_expiry t = ex \<and> ot_right t = r"
proof -
  let ?key = "\<lparr>ok_product = prd, ok_strike = option_strike_key k, ok_expiry = ex, ok_right = r\<rparr>"
  let ?s = "register_option prd k ex r iid s"
  have key: "by_instrument ?s iid = Some ?key" by (simp add: register_option_def Let_def)
  note inv = market_inv_register_option [OF assms, of prd k ex r iid, unfolded market_inv_def]
  obtain t where t: "ms_options ?s ?key = Some t" using inv [THEN conjunct1, rule_format, OF key] by (elim not_None_eq [THEN iffD1, THEN exE])
  have "tick_sound ?key t" by (rule inv [THEN conjunct2, THEN conjunct1, rule_format, OF t])
  with key t show ?thesis by (simp add: option_by_iid_def tick_sound_def)
qed

text \<open>
  \<^bold>\<open>C39.\<close> Once an option is qualified and subscribed, a command of the trader for its strike, expiry and right
  resolves to exactly the contract the gateway named, its instrument id leads to its entry in the market
  data, and a tick stream of the gateway is routed to that id.
\<close>

theorem subscribed_option_reachable:
  assumes "market_inv (rt_market (sb_runtime S))" "qualify_and_subscribe F D ok p k ex r (Inr q) S = (Inr (), S')"
    and "trader_strike_key (pc_strike cmd) = trader_strike_key k" "pc_expiry cmd = format_date D ex"
    and "cmd_right cmd = Some (right_as_char r)" "cmd_side cmd = Some sd"
  shows "resolve_cmd (sb_runtime S') cmd = Some (q, sd) \<and> qualified_contracts S' (instrument_id q) = Some q \<and>
    (\<exists>t. option_by_iid (rt_market (sb_runtime S')) (instrument_id q) = Some t \<and>
       option_strike_key (ot_strike t) = option_strike_key k \<and> ot_expiry t = ex \<and> ot_right t = r) \<and>
    (\<exists>rid. tick_routes (nb_state (rt_native (sb_runtime S'))) rid = Some (instrument_id q))"
proof -
  let ?R = "(sb_runtime S)\<lparr>rt_market := register_option (pg_name p) k ex r (instrument_id q) (rt_market (sb_runtime S)),
    contract_by_key := (contract_by_key (sb_runtime S))((trader_strike_key k, format_date D ex, right_as_char r) \<mapsto> q)\<rparr>"
  obtain res B where b: "subscribe_ticks F D ok \<lparr>sub_instrument = instrument_id q, sub_contract = Some q\<rparr> (rt_native (sb_runtime S)) = (res, B)"
    by fastforce
  have S': "S' = S\<lparr>sb_runtime := ?R\<lparr>rt_native := B\<rparr>, qualified_contracts := (qualified_contracts S)(instrument_id q \<mapsto> q)\<rparr>"
    "map_sum id (\<lambda>_. ()) res = Inr ()"
    using assms(2) by (simp_all add: qualify_and_subscribe_def Let_def b)
  then obtain h where "res = Inr h" by (cases res) auto
  with subscribe_ticks_route b have "\<exists>rid. tick_routes (nb_state B) rid = Some (instrument_id q)" by fastforce
  moreover have "resolve_cmd (sb_runtime S') cmd = Some (q, sd)" using assms(3-6) by (simp add: resolve_cmd_def S'(1))
  ultimately show ?thesis using registered_option [OF assms(1)] by (simp add: S'(1))
qed

text \<open>
  \<^bold>\<open>C40.\<close> When the tick subscription of a new option fails after it was qualified, the option stays registered
  in the market data, and the task that moves the window takes it for subscribed: it never asks for it
  again, although no tick stream is routed to it.
\<close>

theorem failed_subscription_not_retried:
  assumes "qualify_and_subscribe F D ok p k ex r (Inr q) S = (Inl e, S')"
    and "key = \<lparr>ok_product = pg_name p, ok_strike = option_strike_key k, ok_expiry = ex, ok_right = r\<rparr>"
    and "ms_options (rt_market (sb_runtime S)) key = None" "key \<in> set keys"
    and "recenter_legs keys (rt_market (sb_runtime S')) p parity_f cached = Some legs"
  shows "(k, ex, r) \<notin> set legs"
proof -
  have "rt_market (sb_runtime S') = register_option (pg_name p) k ex r (instrument_id q) (rt_market (sb_runtime S))"
    using assms(1) by (auto simp: qualify_and_subscribe_def Let_def split: prod.splits)
  then have "ms_options (rt_market (sb_runtime S')) key = Some ((new_option_tick k ex r)\<lparr>ot_instrument := Some (instrument_id q)\<rparr>)"
    using assms(2,3) by (simp add: register_option_def Let_def)
  moreover have "ok_product key = pg_name p" by (simp add: assms(2))
  ultimately have "(new_option_tick k ex r)\<lparr>ot_instrument := Some (instrument_id q)\<rparr> \<in>
      set (options_for_product keys (rt_market (sb_runtime S')) (pg_name p))"
    using assms(4) by (force simp: options_for_product_def List.map_filter_def)
  then have "(to_bits k, ex, r) \<in> already_subbed keys (rt_market (sb_runtime S')) (pg_name p)"
    unfolding already_subbed_def by (intro image_eqI) (simp_all add: new_option_tick_def)
  with assms(5) show ?thesis
    by (auto simp: recenter_legs_def split: option.splits if_splits bind_splits)
qed

definition demo_subscriber :: subscriber where
  "demo_subscriber = \<lparr>sb_runtime = demo_runtime, qualified_contracts = Map.empty\<rparr>"

theorem failed_subscription_not_retried_witness:
  "\<forall>legs. recenter_legs [\<lparr>ok_product = ''HG'', ok_strike = option_strike_key (lit 6), ok_expiry = 20599, ok_right = Call\<rparr>]
     (rt_market (sb_runtime (snd (qualify_and_subscribe demo_fmt demo_chrono False demo_product (lit 6) 20599 Call (Inr demo_leg) demo_subscriber))))
     demo_product (Some (lit 6)) None \<noteq> Some ((lit 6, 20599, Call) # legs)"
proof (intro allI notI)
  fix legs
  let ?q = "qualify_and_subscribe demo_fmt demo_chrono False demo_product (lit 6) 20599 Call (Inr demo_leg) demo_subscriber"
  let ?key = "\<lparr>ok_product = ''HG'', ok_strike = option_strike_key (lit 6), ok_expiry = 20599, ok_right = Call\<rparr>"
  assume l: "recenter_legs [?key] (rt_market (sb_runtime (snd ?q))) demo_product (Some (lit 6)) None = Some ((lit 6, 20599, Call) # legs)"
  have name: "pg_name demo_product = ''HG''" by (simp add: demo_product_def)
  obtain e B where "subscribe_ticks demo_fmt demo_chrono False \<lparr>sub_instrument = instrument_id demo_leg, sub_contract = Some demo_leg\<rparr>
      (rt_native (sb_runtime demo_subscriber)) = (Inl e, B)" using subscribe_ticks_fails by blast
  then have "fst ?q = Inl e" by (simp add: qualify_and_subscribe_def Let_def)
  then have "?q = (Inl e, snd ?q)" by (metis prod.collapse)
  from failed_subscription_not_retried [OF this, of ?key "[?key]", OF _ _ _ l] show False
    by (simp add: name demo_subscriber_def demo_runtime_def new_market_def)
qed

definition demo_command :: place_cmd where
  "demo_command = \<lparr>pc_strike = lit 6, pc_expiry = format_date demo_chrono 20599, pc_right = ''C'', pc_side = ''BUY'', pc_qty = 1,
     pc_price = lit 1, pc_client_ref = None, pc_order_type = ''limit'', pc_tif = ''GTC'', pc_gtd_seconds = None, pc_ts_ns = None,
     pc_trigger = None\<rparr>"

theorem subscribed_option_reachable_witness:
  "resolve_cmd (sb_runtime (snd (qualify_and_subscribe demo_fmt demo_chrono True demo_product (lit 6) 20599 Call (Inr demo_leg)
     (demo_subscriber\<lparr>sb_runtime := demo_silent\<rparr>)))) demo_command = Some (demo_leg, Buy)"
proof -
  let ?S = "demo_subscriber\<lparr>sb_runtime := demo_silent\<rparr>"
  let ?q = "qualify_and_subscribe demo_fmt demo_chrono True demo_product (lit 6) 20599 Call (Inr demo_leg) ?S"
  have "writer_open (nb_client (rt_native demo_silent))" by (simp add: demo_silent_def)
  from subscribe_ticks_works [OF this] obtain h B where
    "subscribe_ticks demo_fmt demo_chrono True \<lparr>sub_instrument = instrument_id demo_leg, sub_contract = Some demo_leg\<rparr> (rt_native demo_silent) = (Inr h, B)"
    by blast
  then have "fst ?q = Inr ()" by (simp add: qualify_and_subscribe_def Let_def)
  then have q: "?q = (Inr (), snd ?q)" by (metis prod.collapse)
  have "market_inv (rt_market (sb_runtime ?S))" using market_inv_new by (simp add: demo_silent_def demo_runtime_def)
  from subscribed_option_reachable [OF this q, of demo_command Buy] show ?thesis
    by (simp add: demo_command_def cmd_right_def cmd_side_def to_ascii_uppercase_def)
qed

end
