(* ===== verification/Broker_Shadow.thy ===== *)
theory Broker_Shadow
  imports Broker_Subscriptions
begin

section \<open>The daemon as a whole: shadow mode\<close>

text \<open>
  The steps of all tasks of the daemon together: the handlers and tasks around orders of \<open>Broker_Commands\<close>, the
  receive task, the watchdog, errors and connection changes, the hedge task with its reconciliation, the account
  poll, the greeks, and the tasks that resolve contracts and subscribe to market data and depth.  What these
  steps put on the wire in shadow mode (\<^verbatim>\<open>main.rs\<close>, \<^verbatim>\<open>RuntimeMode::Shadow\<close>).
\<close>

subsection \<open>Steps\<close>

text \<open>One read of the receive task, which holds \<open>buf\<close> of an incomplete frame.\<close>

definition received :: "u64 \<Rightarrow> bytes option \<Rightarrow> bytes \<Rightarrow> native_broker \<Rightarrow> native_broker" where
  "received recv_ns bytes_in buf B = B\<lparr>nb_client :=
     rt_client (recv_read recv_ns bytes_in \<lparr>rt_client = nb_client B, rt_buf = buf, rt_running = True\<rparr>)\<rparr>"

inductive daemon_step :: "deps \<Rightarrow> libm \<Rightarrow> runtime \<Rightarrow> runtime \<Rightarrow> bool" for dp lm where
  handled: "rt_step dp now R R' \<Longrightarrow> daemon_step dp lm R R'"
| receive: "daemon_step dp lm R (R\<lparr>rt_native := received recv_ns bytes_in buf (rt_native R)\<rparr>)"
| hedge: "daemon_step dp lm R (periodic_hedge dp date_text env ok now utc products n rows R)"
| watchdog: "daemon_step dp lm R (watchdog_tick dp timeout_ns now keys oks R)"
| gateway_error: "daemon_step dp lm R (error_event dp now err keys oks R)"
| connection: "daemon_step dp lm R (connection_event cs R)"
| account: "daemon_step dp lm R (account_poll lm utc now order snap R)"
| greeks: "daemon_step dp lm R (R\<lparr>rt_portfolio := refresh_greeks lm utc (view_of (rt_market R)) (rt_portfolio R)\<rparr>)"
| seed: "daemon_step dp lm R (seed_positions now utc products brows R)"
| hedge_contract: "daemon_step dp lm R (R\<lparr>rt_hedge := resolve_hedge_contract day symbol chain (rt_hedge R)\<rparr>)"
| ask_contracts: "daemon_step dp lm R (R\<lparr>rt_native := snd (request_contracts (dp_fmt dp) ok cr (rt_native R))\<rparr>)"
| contracts: "daemon_step dp lm R (R\<lparr>rt_native := snd (contracts_result rid outcome (rt_native R))\<rparr>)"
| underlying: "daemon_step dp lm R (snd (subscribe_underlying (dp_fmt dp) (dp_chrono dp) ok symbol u R))"
| hedge_data: "daemon_step dp lm R (subscribe_hedge (dp_fmt dp) (dp_chrono dp) ok symbol u R)"
| leg: "daemon_step dp lm R (sb_runtime (snd (qualify_and_subscribe (dp_fmt dp) (dp_chrono dp) ok p k ex r answer
    \<lparr>sb_runtime = R, qualified_contracts = known\<rparr>)))"
| depth: "rot_broker T = rt_native R \<Longrightarrow>
    daemon_step dp lm R (R\<lparr>rt_native := rot_broker (rotate_depth (dp_fmt dp) (dp_chrono dp) oki subs candidates T)\<rparr>)"
| publisher: "daemon_step dp lm R (R\<lparr>rt_native := set_tick_publisher (rt_native R)\<rparr>)"

subsection \<open>Frames\<close>

text \<open>
  The messages the daemon may send in shadow mode, by their type: cancellations of orders, and requests for
  contracts, market data and depth.
\<close>

definition shadow_types :: "i32 set" where
  "shadow_types = {OUT_CANCEL_ORDER, OUT_REQ_CONTRACT_DATA, OUT_REQ_MKT_DATA, OUT_REQ_MKT_DEPTH, OUT_CANCEL_MKT_DEPTH}"

definition shadow_frame :: "fmt \<Rightarrow> bytes \<Rightarrow> bool" where
  "shadow_frame F fr \<longleftrightarrow> (\<exists>ty\<in>shadow_types. \<exists>flds. fr = encode_owned (encode_int F ty # flds))"

definition quiet :: "fmt \<Rightarrow> bytes \<Rightarrow> bytes \<Rightarrow> bool" where
  "quiet F before after \<longleftrightarrow> (\<exists>frames. after = before @ concat frames \<and> (\<forall>fr\<in>set frames. shadow_frame F fr))"

lemma quiet_refl [simp]: "quiet F b b"
  by (auto simp: quiet_def intro: exI [of _ "[]"])

lemma quiet_trans: "quiet F a b \<Longrightarrow> quiet F b c \<Longrightarrow> quiet F a c"
  unfolding quiet_def by (elim exE conjE, rule_tac x = "frames @ framesa" in exI) auto

lemma quiet_add: "shadow_frame F fr \<Longrightarrow> quiet F b (b @ fr)"
  unfolding quiet_def by (intro exI [of _ "[fr]"]) simp

lemma shadow_frames:
  "shadow_frame F (cancel_order_frame F oid)" "shadow_frame F (req_contract_details F rid cr)"
  "shadow_frame F (req_mkt_data F rid cr ticks snap reg)" "shadow_frame F (req_mkt_depth F rid cr rows)"
  "shadow_frame F (cancel_mkt_depth F rid)"
  unfolding shadow_frame_def shadow_types_def cancel_order_frame_def req_contract_details_def req_mkt_data_def
    req_mkt_depth_def cancel_mkt_depth_def
  by blast+

lemma only_cancels_quiet: "only_cancels F b c \<Longrightarrow> quiet F b c"
  unfolding only_cancels_def quiet_def using shadow_frames(1) by force

text \<open>The first byte after the length of a frame is the first digit of its type, which is 3 for an order.\<close>

lemma frame_first_byte:
  assumes "\<And>i. itoa F i = int_dec i" "int_dec (sint ty) = c # cs"
  shows "encode_owned (encode_int F ty # flds) ! 4 = of_char c"
  by (simp add: encode_owned_def encode_fields_def encode_int_def assms Let_def u32_be_def str_bytes_def nth_append)

lemma shadow_frame_no_order:
  assumes "\<And>i. itoa F i = int_dec i" "shadow_frame F fr"
  shows "fr \<noteq> place_order_frame F oid c p"
proof
  assume eq: "fr = place_order_frame F oid c p"
  have "int_dec (sint OUT_PLACE_ORDER) = ''3''" by code_simp
  then have "fr ! 4 = of_char (CHR ''3'')"
    unfolding eq place_order_frame_def place_order_fields_def by (rule frame_first_byte [OF assms(1)])
  moreover obtain ty flds where ty: "ty \<in> shadow_types" "fr = encode_owned (encode_int F ty # flds)"
    using assms(2) unfolding shadow_frame_def by blast
  have "int_dec (sint OUT_CANCEL_ORDER) = ''4''" "int_dec (sint OUT_REQ_CONTRACT_DATA) = ''9''"
    "int_dec (sint OUT_REQ_MKT_DATA) = ''1''" "int_dec (sint OUT_REQ_MKT_DEPTH) = ''10''"
    "int_dec (sint OUT_CANCEL_MKT_DEPTH) = ''11''"
    by code_simp+
  with ty(1) have "\<exists>ch cs. int_dec (sint ty) = ch # cs \<and> ch \<in> {CHR ''4'', CHR ''9'', CHR ''1''}"
    unfolding shadow_types_def by auto
  then obtain ch cs where ch: "int_dec (sint ty) = ch # cs" "ch \<in> {CHR ''4'', CHR ''9'', CHR ''1''}" by blast
  have "fr ! 4 = of_char ch" unfolding ty(2) by (rule frame_first_byte [OF assms(1) ch(1)])
  ultimately show False using ch(2) by auto
qed

subsection \<open>What each operation sends\<close>

lemma nb_send_quiet:
  "nb_send ok fr B = (r, B') \<Longrightarrow> shadow_frame F fr \<Longrightarrow> quiet F (wire (nb_client B)) (wire (nb_client B'))"
  by (auto simp: nb_send_def send_raw_def quiet_add split: prod.splits sum.splits if_splits)

lemma nb_send_quiet_snd:
  "shadow_frame F fr \<Longrightarrow> nb_client B0 = nb_client B \<Longrightarrow>
     quiet F (wire (nb_client B0)) (wire (nb_client (snd (nb_send ok fr B))))"
  using nb_send_quiet by (metis prod.collapse)

lemma subscribe_quiet:
  "quiet F (wire (nb_client B)) (wire (nb_client (snd (subscribe_ticks F D ok sub B))))"
  "quiet F (wire (nb_client B)) (wire (nb_client (snd (subscribe_market_depth F D ok sub rows B))))"
  "quiet F (wire (nb_client B)) (wire (nb_client (snd (unsubscribe_market_depth F ok h B))))"
  "quiet F (wire (nb_client B)) (wire (nb_client (snd (request_contracts F ok cr B))))"
  by (auto simp: subscribe_ticks_def subscribe_market_depth_def unsubscribe_market_depth_def request_contracts_def
      alloc_req_id_def alloc_handle_def upd_state_def Let_def shadow_frames
      dest: nb_send_quiet [where F = F] intro!: nb_send_quiet_snd split: prod.split sum.split option.split)

lemma drop_depth_quiet: "quiet F (wire (nb_client (rot_broker T))) (wire (nb_client (rot_broker (drop_depth F want ok iid T))))"
  by (simp add: drop_depth_def subscribe_quiet split: option.split)

lemma add_depth_quiet: "quiet F (wire (nb_client (rot_broker T))) (wire (nb_client (rot_broker (add_depth F D ok tgt T))))"
  using subscribe_quiet(2) [of F "rot_broker T" D ok "\<lparr>sub_instrument = fst tgt, sub_contract = Some (snd tgt)\<rparr>" NUM_ROWS]
  by (auto simp: add_depth_def split: prod.split option.split sum.split)

lemma quiet_fold:
  assumes "\<And>x s. quiet F (w s) (w (f x s))"
  shows "quiet F (w s) (w (fold f xs s))"
proof (induction xs arbitrary: s)
  case (Cons x xs)
  from quiet_trans [OF assms Cons.IH] show ?case by simp
qed simp

lemma rotate_quiet:
  "quiet F (wire (nb_client (rot_broker T))) (wire (nb_client (rot_broker (rotate_depth F D oki subs cs T))))"
proof -
  have 1: "quiet F (wire (nb_client (rot_broker T))) (wire (nb_client (rot_broker
      (fold (\<lambda>iid. drop_depth F want (oki iid) iid) subs (T\<lparr>rot_cursor := k\<rparr>)))))" for want k
    using quiet_fold [of F "\<lambda>T. wire (nb_client (rot_broker T))" "\<lambda>iid. drop_depth F want (oki iid) iid" "T\<lparr>rot_cursor := k\<rparr>" subs]
      drop_depth_quiet by simp
  have 2: "quiet F (wire (nb_client (rot_broker T))) (wire (nb_client (rot_broker
      (fold (\<lambda>tgt. add_depth F D (oki (fst tgt)) tgt) target T))))" for target T
    using quiet_fold [of F "\<lambda>T. wire (nb_client (rot_broker T))" "\<lambda>tgt. add_depth F D (oki (fst tgt)) tgt"] add_depth_quiet by blast
  show ?thesis unfolding rotate_depth_def Let_def using quiet_trans [OF 1 2] by (simp split: prod.split)
qed

lemma recv_frame_wire: "wire (snd (recv_frame ns flds C)) = wire C"
  by (simp add: recv_frame_def note_frame_def Let_def split: list.split sum.split)

lemma received_wire: "wire (nb_client (received ns bytes_in buf B)) = wire (nb_client B)"
proof -
  have frames: "wire (snd (recv_frames ns fs C)) = wire C" for fs C
  proof (induction fs arbitrary: C)
    case (Cons f fs)
    then show ?case using recv_frame_wire [of ns f C] by (auto split: prod.split bool.split)
  qed simp
  have "wire C' = wire C" if "recv_frames ns fs C = (go, C')" for fs C go C'
    using frames [of fs C] that by simp
  then show ?thesis by (auto simp: received_def recv_read_def split: option.split prod.split sum.split)
qed

text \<open>The hedge task decides on orders in shadow mode as well, and sends none.\<close>

lemma act_on_hedge_shadow: "rt_mode R = Shadow \<Longrightarrow> act_on_hedge dp env ok now prd a R = R"
  by (simp add: act_on_hedge_def split: hedge_action.split)

lemma acts_shadow:
  "rt_mode R = Shadow \<Longrightarrow> fold (\<lambda>(prd, a) R. act_on_hedge dp env ok now prd a R) acts R = R"
  by (induction acts) (auto simp: act_on_hedge_shadow)

lemma periodic_hedge_shadow:
  assumes "rt_mode R = Shadow"
  shows "rt_native (periodic_hedge dp date_text env ok now utc products n rows R) = rt_native R"
    and "rt_mode (periodic_hedge dp date_text env ok now utc products n rows R) = Shadow"
proof -
  define R1 where "R1 = (if n mod 4 = 0
    then (case rows of Inr ps \<Rightarrow> periodic_reconcile date_text now utc products ps R | Inl e \<Rightarrow> R) else R)"
  have R1: "rt_native R1 = rt_native R" "rt_mode R1 = Shadow"
    using assms by (simp_all add: R1_def periodic_reconcile_def split: sum.split)
  obtain acts ms where acts: "hedge_decisions now (rt_portfolio R1) (map (\<lambda>prd. (prd, hedge_mark R1 prd)) products) now
      (rt_hedge R1) = (acts, ms)" by fastforce
  have "periodic_hedge dp date_text env ok now utc products n rows R =
      fold (\<lambda>(prd, a) R. act_on_hedge dp env ok now prd a R) acts (R1\<lparr>rt_hedge := ms\<rparr>)"
    unfolding periodic_hedge_def R1_def [symmetric] Let_def acts by simp
  also have "\<dots> = R1\<lparr>rt_hedge := ms\<rparr>" by (rule acts_shadow) (simp add: R1)
  finally show "rt_native (periodic_hedge dp date_text env ok now utc products n rows R) = rt_native R"
    "rt_mode (periodic_hedge dp date_text env ok now utc products n rows R) = Shadow" by (simp_all add: R1)
qed

lemma kill_steps_shadow:
  "only_cancels (dp_fmt dp) (wire_of R) (wire_of (watchdog_tick dp timeout_ns now keys oks R))"
  "only_cancels (dp_fmt dp) (wire_of R) (wire_of (error_event dp now err keys oks R))"
  "rt_mode (watchdog_tick dp timeout_ns now keys oks R) = rt_mode R"
  "rt_mode (error_event dp now err keys oks R) = rt_mode R"
proof -
  have w: "wire_of (R\<lparr>rt_risk := m\<rparr>) = wire_of R" for m by (simp add: wire_of_def)
  have a: "only_cancels (dp_fmt dp) (wire_of R) (wire_of (act_on_kill dp keys oks o' (R\<lparr>rt_risk := m\<rparr>)))" for o' m
    using act_on_kill_only [of dp "R\<lparr>rt_risk := m\<rparr>" keys oks o'] by (simp add: w)
  show "only_cancels (dp_fmt dp) (wire_of R) (wire_of (watchdog_tick dp timeout_ns now keys oks R))"
    "only_cancels (dp_fmt dp) (wire_of R) (wire_of (error_event dp now err keys oks R))"
    by (auto simp: watchdog_tick_def error_event_def a w split: prod.split bool.split option.split)
  show "rt_mode (watchdog_tick dp timeout_ns now keys oks R) = rt_mode R"
    "rt_mode (error_event dp now err keys oks R) = rt_mode R"
    by (auto simp: watchdog_tick_def error_event_def split: prod.split bool.split option.split)
qed

lemma subscription_steps:
  "quiet F (wire_of R) (wire_of (snd (subscribe_underlying F D ok symbol u R)))"
  "rt_mode (snd (subscribe_underlying F D ok symbol u R)) = rt_mode R"
  "quiet F (wire_of R) (wire_of (subscribe_hedge F D ok symbol u R))"
  "rt_mode (subscribe_hedge F D ok symbol u R) = rt_mode R"
  "quiet F (wire_of (sb_runtime S)) (wire_of (sb_runtime (snd (qualify_and_subscribe F D ok p k ex r answer S))))"
  "rt_mode (sb_runtime (snd (qualify_and_subscribe F D ok p k ex r answer S))) = rt_mode (sb_runtime S)"
  using subscribe_quiet(1)
  by (auto simp: subscribe_underlying_def subscribe_hedge_def qualify_and_subscribe_def wire_of_def Let_def
      split: prod.split sum.split option.split) (metis snd_conv)+

lemma daemon_step_shadow:
  assumes "daemon_step dp lm R R'" "rt_mode R = Shadow"
  shows "quiet (dp_fmt dp) (wire_of R) (wire_of R') \<and> rt_mode R' = Shadow"
  using assms
proof cases
  case (handled now)
  then show ?thesis using rt_step_shadow [OF handled assms(2)] only_cancels_quiet by blast
next
  case (contracts rid outcome)
  then show ?thesis using assms(2) by (auto simp: wire_of_def contracts_result_def upd_state_def split: waited.split)
next
  case (account utc now order snap)
  then show ?thesis
    using assms(2) by (auto simp: wire_of_def account_poll_def resync_realized_pnl_def Let_def split: sum.split)
next
  case (depth T oki subs candidates)
  then show ?thesis using assms(2) rotate_quiet [of "dp_fmt dp" T] by (simp add: wire_of_def)
next
  case (watchdog timeout_ns now keys oks)
  then show ?thesis using assms(2) kill_steps_shadow(1,3) only_cancels_quiet by simp
next
  case (gateway_error now err keys oks)
  then show ?thesis using assms(2) kill_steps_shadow(2,4) only_cancels_quiet by simp
next
  case (leg ok p k ex r answer known)
  then show ?thesis using assms(2) subscription_steps(5,6) [where S = "\<lparr>sb_runtime = R, qualified_contracts = known\<rparr>"] by simp
qed (use assms(2) in \<open>simp_all add: subscription_steps, simp_all add: wire_of_def received_wire periodic_hedge_shadow
    connection_event_def seed_positions_def subscribe_quiet set_tick_publisher_def\<close>)

text \<open>
  \<^bold>\<open>C34.\<close> In shadow mode the daemon places and modifies no order.  Over any sequence of steps of its tasks it
  stays in shadow mode, and the bytes it adds to the stream to the gateway are whole frames, each a cancellation
  of an order, a request for contracts or market data, or a request for or the end of a depth subscription;
  none of them is an order frame.  The steps around orders send cancellations only.  These do happen: the
  cancellation of all resting orders that a kill triggers does not look at the mode.
\<close>

theorem shadow_mode_places_nothing:
  assumes "\<And>i. itoa (dp_fmt dp) i = int_dec i" "(daemon_step dp lm)\<^sup>*\<^sup>* R R'" "rt_mode R = Shadow"
  shows "rt_mode R' = Shadow \<and>
    (\<exists>frames. wire_of R' = wire_of R @ concat frames \<and>
      (\<forall>fr\<in>set frames. shadow_frame (dp_fmt dp) fr \<and> (\<forall>oid c p. fr \<noteq> place_order_frame (dp_fmt dp) oid c p))) \<and>
    (\<forall>now R''. rt_step dp now R' R'' \<longrightarrow> only_cancels (dp_fmt dp) (wire_of R') (wire_of R''))"
proof -
  from assms(2) have "quiet (dp_fmt dp) (wire_of R) (wire_of R') \<and> rt_mode R' = Shadow"
  proof (induction rule: rtranclp_induct)
    case (step R1 R2)
    then show ?case using daemon_step_shadow quiet_trans by blast
  qed (simp add: assms(3))
  then show ?thesis
    using shadow_frame_no_order [OF assms(1)] rt_step_shadow unfolding quiet_def by blast
qed

text \<open>An instrument is subscribed, then the hedge task runs with an option position, in shadow mode.\<close>

definition demo_shadow :: runtime where
  "demo_shadow = snd (subscribe_underlying demo_fmt demo_chrono True ''HG'' demo_instrument
     (demo_runtime\<lparr>rt_mode := Shadow, rt_native := (new_broker ''DU1'' 0)\<lparr>nb_client := seeded_client\<rparr>\<rparr>))"

theorem shadow_mode_places_nothing_witness:
  "\<exists>frames. wire_of (periodic_hedge demo_deps (\<lambda>_. ''20260526'') (\<lambda>_ C. C) True 9 0 [''HG''] 1 (Inr []) demo_shadow) = concat frames \<and>
     list_all (shadow_frame demo_fmt) frames"
proof -
  let ?R = "demo_runtime\<lparr>rt_mode := Shadow, rt_native := (new_broker ''DU1'' 0)\<lparr>nb_client := seeded_client\<rparr>\<rparr>"
  have d: "dp_fmt demo_deps = demo_fmt" "dp_chrono demo_deps = demo_chrono" by (simp_all add: demo_deps_def)
  have 1: "daemon_step demo_deps demo_libm ?R demo_shadow"
    using daemon_step.underlying [of demo_deps demo_libm ?R True "''HG''" demo_instrument] by (simp add: demo_shadow_def d)
  have 2: "daemon_step demo_deps demo_libm demo_shadow
      (periodic_hedge demo_deps (\<lambda>_. ''20260526'') (\<lambda>_ C. C) True 9 0 [''HG''] 1 (Inr []) demo_shadow)"
    by (rule daemon_step.hedge)
  from 1 2 have run: "(daemon_step demo_deps demo_libm)\<^sup>*\<^sup>* ?R
      (periodic_hedge demo_deps (\<lambda>_. ''20260526'') (\<lambda>_ C. C) True 9 0 [''HG''] 1 (Inr []) demo_shadow)"
    by (meson converse_rtranclp_into_rtranclp r_into_rtranclp)
  have "itoa (dp_fmt demo_deps) i = int_dec i" for i by (simp add: d demo_itoa)
  from shadow_mode_places_nothing [OF this run] have "\<exists>frames. wire_of
      (periodic_hedge demo_deps (\<lambda>_. ''20260526'') (\<lambda>_ C. C) True 9 0 [''HG''] 1 (Inr []) demo_shadow) = wire_of ?R @ concat frames \<and>
      (\<forall>fr\<in>set frames. shadow_frame demo_fmt fr)"
    by (auto simp: d)
  moreover have "wire_of ?R = []" by (simp add: wire_of_def seeded_client_def new_client_def)
  ultimately show ?thesis by (auto simp: list_all_iff)
qed

end
