(* ===== verification/Spec2Isabelle.thy ===== *)
theory Spec2Isabelle
  imports Ipc_Server Risk Constraint Decision_Orders Trader_View Ibkr_Orders Broker_Locks Broker_Fills Broker_Ticks
    Broker_Subscriptions Broker_Shadow Calibrate
begin

text \<open>
  \<^bold>\<open>Corsair: a market maker in options on futures.\<close>

  Two processes.  The \<^emph>\<open>broker\<close> (\<^verbatim>\<open>src/rust/corsair_broker\<close>) owns the connection to the gateway of Interactive
  Brokers (\<^verbatim>\<open>corsair_broker_ibkr_native\<close>), the book of positions (\<^verbatim>\<open>corsair_position\<close>), the hedge manager
  (\<^verbatim>\<open>corsair_hedge\<close>), the risk monitor with its kill switch (\<^verbatim>\<open>corsair_risk\<close>) and the constraint checker
  (\<^verbatim>\<open>corsair_constraint\<close>).  The \<^emph>\<open>trader\<close> (\<^verbatim>\<open>corsair_trader\<close>) decides on every tick which orders to place.  They
  talk through two rings in shared memory (\<^verbatim>\<open>corsair_ipc\<close>): the broker writes events (ticks, order statuses,
  kills, risk state, vol surfaces), the trader writes commands (place, modify, cancel), both as MessagePack
  maps in length-prefixed frames.

  \<^bold>\<open>Theories and sources.\<close>

  \<^item> \<^verbatim>\<open>Corsair_Prelude\<close>: integer types as words, the panic monad (\<open>None\<close> is a panic), lists as byte buffers.
    \<^verbatim>\<open>F64\<close>, \<^verbatim>\<open>F64_Lemmas\<close>: IEEE binary64 as bit patterns, with rounding to nearest even, comparisons and casts
    as Rust has them; order, monotonicity and exactness of the operations.
  \<^item> \<^verbatim>\<open>Ipc_Protocol\<close> (\<^verbatim>\<open>protocol.rs\<close>), \<^verbatim>\<open>Ipc_Ring\<close> (\<^verbatim>\<open>ring.rs\<close>), \<^verbatim>\<open>Ipc_Server\<close> (\<^verbatim>\<open>server.rs\<close>): frames, the ring with
    its 64-bit offsets and wrap-around, the command pump.  The ring is a bounded byte queue; the locale
    \<open>message_channel\<close> derives from that what a polling reader gets.
  \<^item> \<^verbatim>\<open>Broker_Api\<close> (\<^verbatim>\<open>corsair_broker_api\<close>: contracts, orders, errors).
  \<^item> \<^verbatim>\<open>Greeks\<close> (\<^verbatim>\<open>corsair_pricing/greeks.rs\<close>), \<^verbatim>\<open>Portfolio\<close> (\<^verbatim>\<open>corsair_position\<close>), \<^verbatim>\<open>Hedge\<close> (\<^verbatim>\<open>corsair_hedge\<close>): books as
    ledgers.  The locale \<open>ledger\<close> of \<^verbatim>\<open>Ledger\<close> states that a quantity is the sum of the booked effects; the
    portfolio and the hedge book interpret it.
  \<^item> \<^verbatim>\<open>Risk\<close> (\<^verbatim>\<open>corsair_risk\<close> and the kill-switch paths of \<^verbatim>\<open>corsair_broker/tasks.rs\<close>): the kill taxonomy, the checks, and
    runs of the kill switch.  \<^verbatim>\<open>Constraint\<close> (\<^verbatim>\<open>corsair_constraint\<close>): the pre-trade gates.
  \<^item> \<^verbatim>\<open>Trader_Pricing\<close>, \<^verbatim>\<open>Trader_State\<close>, \<^verbatim>\<open>Decision\<close>, \<^verbatim>\<open>Decision_Orders\<close> (\<^verbatim>\<open>corsair_trader\<close>: \<^verbatim>\<open>pricing.rs\<close>, \<^verbatim>\<open>state.rs\<close>,
    \<^verbatim>\<open>decision.rs\<close>): theoretical values, the lock-free rate limiter, the decision and what every order it
    returns satisfies.
  \<^item> \<^verbatim>\<open>Msgpack\<close>, \<^verbatim>\<open>Tick_Codec\<close> (\<^verbatim>\<open>msgpack_decode.rs\<close>, \<^verbatim>\<open>msgpack_encode.rs\<close>, the tick encoder of \<^verbatim>\<open>corsair_broker/ipc.rs\<close>):
    the hand-written codecs against the grammar of MessagePack.  The locale \<open>pair_reader\<close> is the walk over
    the pairs of a map; the header and the tick decoder interpret it.
  \<^item> \<^verbatim>\<open>Trader_Loop\<close>, \<^verbatim>\<open>Trader_Kills\<close>, \<^verbatim>\<open>Trader_View\<close> (\<^verbatim>\<open>corsair_trader/main.rs\<close>): the hot loop, event handlers, staleness
    task, and the view of the resting orders the trader keeps.
  \<^item> \<^verbatim>\<open>Ibkr_Codec\<close>, \<^verbatim>\<open>Ibkr_Requests\<close>, \<^verbatim>\<open>Ibkr_Decoder\<close>, \<^verbatim>\<open>Ibkr_Client\<close>, \<^verbatim>\<open>Ibkr_Convert\<close>, \<^verbatim>\<open>Ibkr_Broker\<close>
    (\<^verbatim>\<open>corsair_broker_ibkr_native\<close>: \<^verbatim>\<open>codec.rs\<close>, \<^verbatim>\<open>requests.rs\<close>, \<^verbatim>\<open>place_template.rs\<close>, \<^verbatim>\<open>decoder.rs\<close>, \<^verbatim>\<open>client.rs\<close>, \<^verbatim>\<open>broker.rs\<close>): the
    wire protocol of the gateway, the client with its receive task, and the adapter with its dispatcher.
    \<^verbatim>\<open>Ibkr_Waiters\<close>: every waiter is answered at most once, by the locale \<open>waiter_table\<close>, which the tables of
    orders, contract requests and execution requests interpret.  \<^verbatim>\<open>Ibkr_Orders\<close>: what goes on the wire.

  \<^item> \<^verbatim>\<open>Market_Data\<close> (\<^verbatim>\<open>corsair_market_data\<close>): quotes, depth books and their indexes.  \<^verbatim>\<open>Broker_Wire\<close>: the serde messages between
    the processes.  \<^verbatim>\<open>Broker_Runtime\<close>, \<^verbatim>\<open>Broker_Commands\<close>, \<^verbatim>\<open>Broker_Fills\<close> (\<^verbatim>\<open>corsair_broker\<close>: \<^verbatim>\<open>runtime.rs\<close>, \<^verbatim>\<open>ipc.rs\<close>,
    \<^verbatim>\<open>tasks.rs\<close>): the state of the daemon, the handlers of the trader's commands and the pumps of the gateway's
    events.  \<^verbatim>\<open>Broker_Ticks\<close>: both paths of a tick to the trader.  \<^verbatim>\<open>Broker_Kills\<close>: the tasks that fire kills, with
    the locale \<open>kill_task\<close>, which each of them interprets.  \<^verbatim>\<open>Broker_Positions\<close>: seeding and reconciliation of the
    books.  \<^verbatim>\<open>Broker_Locks\<close>: the sections that hold several mutexes, and by the locale \<open>gated_sections\<close> that no
    interleaving of them deadlocks.
  \<^item> \<^verbatim>\<open>Pricing_Engine\<close> (\<^verbatim>\<open>corsair_pricing/lib.rs\<close>): the price, the root finder of the implied volatility, the two
    volatility models.  \<^verbatim>\<open>Linear_Solver\<close>, \<^verbatim>\<open>Calibrate\<close> (\<^verbatim>\<open>calibrate.rs\<close>): elimination, the bounded search (locale
    \<open>bounded_problem\<close>, interpreted by both models) and the calibrations.  \<^verbatim>\<open>Span\<close> (\<^verbatim>\<open>span.rs\<close> and the account poll of
    \<^verbatim>\<open>tasks.rs\<close>): the synthetic margin.  \<^verbatim>\<open>Vol_Surface\<close> (\<^verbatim>\<open>vol_surface.rs\<close>): the fitter, from the market data through the
    calibration to the surfaces the trader holds.
  \<^item> \<^verbatim>\<open>Broker_Subscriptions\<close> (\<^verbatim>\<open>subscriptions.rs\<close>, \<^verbatim>\<open>config.rs\<close>): strike windows, qualification and subscription of
    options, recentring, and the rotation of the depth subscriptions.  \<^verbatim>\<open>Broker_Shadow\<close>: the steps of all tasks of the daemon together, and
    that none of them sends an order in shadow mode.

  \<^bold>\<open>Conventions.\<close>  A struct is a \<open>record\<close>, an enum a \<open>datatype\<close>, a machine integer a word; names follow the
  source, with a prefix where two structs share a field name.  A panic is the value \<open>None\<close> and an error the
  left side of a sum.  Text of error messages is kept without interpolated values.  Hash maps are functions;
  where the iteration order of a map can be observed it is an argument.  Strings of the program are UTF-8
  bytes read as characters.  Async operations are split at their waits: one definition up to the wait, one for
  its outcome; what other tasks do meanwhile is an argument or an interleaving of steps.

  \<^bold>\<open>Parameters.\<close>  Code that is not in the repository is an argument: the mathematics library (record \<open>libm\<close>:
  exponential, logarithm, square root, normal distribution), the serde decoders of the trader, integer and
  float printing (record \<open>fmt\<close>), dates (record \<open>chrono\<close>), clocks, and the results of reads and writes of
  sockets.  Properties that rely on one of them have its documented behaviour as a hypothesis and a witness
  with a concrete instance.

  \<^bold>\<open>Bounds.\<close>  No fuel is used.  All functions are total but the loop of the strike window, a
  \<open>partial_function\<close> whose value \<open>None\<close> is a run that does not end.  The root finder and the linear solver are generic in
  their numbers: the program is their instance at binary64, and their correctness is stated in exact
  arithmetic.  Where a theorem is limited it says so: offsets of a
  ring below \<open>2\<^sup>6\<^sup>4\<close> bytes in total, order ids below the wrap of \<open>i32\<close>, at most the capacity of the list of remembered
  execution ids.

  \<^bold>\<open>Not modelled.\<close>  Process start-up, the parsing of configuration files, logging, JSON-lines, the dashboard snapshot and
  notification output, thread pinning, the bindings for Python, benchmarks, examples and the replay tool are
  input and output around the modelled code.  The \<open>Broker\<close> trait is represented by its one implementation; the
  mock is test support.
\<close>

end
